(* ===== verification/Js_Number.thy ===== *)
theory Js_Number
  imports Complex_Main
begin

text \<open>
  JavaScript numbers.  A finite number is a rational; every arithmetic result is rounded to
  the nearest IEEE double (53 significant bits, ties to even).  NaN and the infinities are
  values of their own.  The exponent range is not bounded, and there is one zero.
\<close>

section \<open>Rounding to a double\<close>

fun nbits :: "nat \<Rightarrow> nat" where
  "nbits n = (if n = 0 then 0 else Suc (nbits (n div 2)))"

declare nbits.simps [simp del]

lemma nbits_upper: "n < 2 ^ nbits n"
proof (induction n rule: nbits.induct)
  case (1 n)
  show ?case
  proof (cases "n = 0")
    case False
    with 1 have "n div 2 < 2 ^ nbits (n div 2)" by simp
    with False show ?thesis by (simp add: nbits.simps [of n])
  qed (simp add: nbits.simps)
qed

lemma nbits_lower: "0 < n \<Longrightarrow> 2 ^ nbits n \<le> 2 * n"
proof (induction n rule: nbits.induct)
  case (1 n)
  show ?case
  proof (cases "n div 2 = 0")
    case True
    with 1 show ?thesis by (simp add: nbits.simps [of n] nbits.simps [of 0])
  next
    case False
    with 1 have "2 ^ nbits (n div 2) \<le> 2 * (n div 2)" by simp
    with 1 show ?thesis by (simp add: nbits.simps [of n])
  qed
qed

text \<open>\<open>2 powi e\<close> for an integer exponent.\<close>

definition pow2 :: "int \<Rightarrow> rat" where
  "pow2 e = (if 0 \<le> e then 2 ^ nat e else 1 / 2 ^ nat (- e))"

lemma pow2_pos [simp]: "0 < pow2 e"
  by (simp add: pow2_def)

lemma pow2_add: "pow2 (a + b) = pow2 a * pow2 b"
proof -
  have "(2::rat) powi (a + b) = 2 powi a * 2 powi b" by (rule power_int_add) simp
  moreover have "pow2 e = 2 powi e" for e
    by (simp add: pow2_def power_int_def inverse_eq_divide power_one_over)
  ultimately show ?thesis by simp
qed

lemma pow2_mono: "a \<le> b \<Longrightarrow> pow2 a \<le> pow2 b"
proof -
  assume "a \<le> b"
  then have "pow2 b = pow2 a * 2 ^ nat (b - a)"
    using pow2_add [of a "b - a"] by (simp add: pow2_def [of "b - a"])
  moreover have "(1::rat) \<le> 2 ^ nat (b - a)" by simp
  ultimately show ?thesis by (metis mult_le_cancel_left_pos mult.right_neutral pow2_pos)
qed

text \<open>The exponent of a positive number: \<open>pow2 e \<le> x < pow2 (e + 1)\<close>.\<close>

definition expo :: "rat \<Rightarrow> int" where
  "expo x = (if 1 \<le> x then int (nbits (nat \<lfloor>x\<rfloor>)) - 1
     else - int (nbits (nat (\<lceil>1 / x\<rceil> - 1))))"

lemma expo_bounds:
  assumes "0 < x"
  shows "pow2 (expo x) \<le> x \<and> x < 2 * pow2 (expo x)"
proof (cases "1 \<le> x")
  case True
  define n where "n = nat \<lfloor>x\<rfloor>"
  have pos: "0 < n" using True by (simp add: n_def)
  then have nb: "1 \<le> nbits n" by (simp add: nbits.simps [of n])
  have e: "pow2 (expo x) = 2 ^ (nbits n - 1)"
    using True nb by (simp add: expo_def pow2_def n_def nat_diff_distrib)
  have two: "(2::rat) * 2 ^ (nbits n - 1) = 2 ^ nbits n"
    using nb by (metis One_nat_def Suc_diff_le diff_Suc_Suc minus_nat.diff_0 power_Suc)
  have "of_nat n \<le> x" using True by (simp add: n_def of_nat_nat)
  moreover have "x < of_nat n + 1"
    using True floor_correct [of x] by (simp add: n_def of_nat_nat)
  moreover have "(2::rat) ^ nbits n \<le> 2 * of_nat n"
    using nbits_lower [OF pos] by (metis of_nat_le_iff of_nat_mult of_nat_numeral of_nat_power)
  moreover have "(of_nat n :: rat) + 1 \<le> 2 ^ nbits n"
    using nbits_upper [of n] by (metis Suc_leI of_nat_Suc of_nat_le_iff of_nat_numeral of_nat_power add.commute)
  ultimately show ?thesis using two by (simp add: e)
next
  case False
  define m where "m = nat (\<lceil>1 / x\<rceil> - 1)"
  have gt: "1 < 1 / x" using assms False by simp
  then have c: "1 < \<lceil>1 / x\<rceil>" by (simp add: less_ceiling_iff)
  then have pos: "0 < m" by (simp add: m_def)
  have "int m = \<lceil>1 / x\<rceil> - 1" unfolding m_def using c by linarith
  then have rm: "(of_nat m :: rat) = of_int \<lceil>1 / x\<rceil> - 1"
    by (metis of_int_1 of_int_diff of_int_of_nat_eq)
  have e: "pow2 (expo x) = 1 / 2 ^ nbits m"
    using False by (simp add: expo_def pow2_def m_def)
  have "1 / x \<le> of_nat m + 1" by (simp add: rm)
  moreover have "(of_nat m :: rat) + 1 \<le> 2 ^ nbits m"
    using nbits_upper [of m] by (metis Suc_leI of_nat_Suc of_nat_le_iff of_nat_numeral of_nat_power add.commute)
  ultimately have up: "1 / x \<le> 2 ^ nbits m" by linarith
  have "of_nat m < 1 / x" using ceiling_correct [of "1 / x"] by (simp add: rm)
  moreover have "(2::rat) ^ nbits m \<le> 2 * of_nat m"
    using nbits_lower [OF pos] by (metis of_nat_le_iff of_nat_mult of_nat_numeral of_nat_power)
  ultimately have lo: "2 ^ nbits m < 2 / x" by linarith
  from up lo assms show ?thesis by (simp add: e field_simps)
qed

text \<open>Rounding to the nearest integer, ties to even.\<close>

definition round_even :: "rat \<Rightarrow> int" where
  "round_even r = (let f = \<lfloor>r\<rfloor>; d = r - of_int f in
     if d < 1 / 2 then f else if 1 / 2 < d then f + 1 else if even f then f else f + 1)"

lemma round_even_error: "\<bar>of_int (round_even r) - r\<bar> \<le> 1 / 2"
  unfolding round_even_def Let_def by (simp add: abs_if) linarith

lemma round_even_int [simp]: "round_even (of_int n) = n"
  by (simp add: round_even_def)

lemma round_even_mono:
  assumes "r \<le> s"
  shows "round_even r \<le> round_even s"
proof (cases "\<lfloor>r\<rfloor> = \<lfloor>s\<rfloor>")
  case True
  with assms show ?thesis by (auto simp: round_even_def Let_def)
next
  case False
  then have "\<lfloor>r\<rfloor> + 1 \<le> \<lfloor>s\<rfloor>" using floor_mono [OF assms] by simp
  then show ?thesis by (auto simp: round_even_def Let_def)
qed

definition fl_pos :: "rat \<Rightarrow> rat" where
  "fl_pos x = (let u = pow2 (expo x - 52) in of_int (round_even (x / u)) * u)"

definition fl64 :: "rat \<Rightarrow> rat" where
  "fl64 x = (if x = 0 then 0 else if 0 < x then fl_pos x else - fl_pos (- x))"

lemma fl64_0 [simp]: "fl64 0 = 0"
  by (simp add: fl64_def)

lemma fl64_neg: "fl64 (- x) = - fl64 x"
  by (simp add: fl64_def)

lemma expo_mono:
  assumes "0 < x" and "x \<le> y"
  shows "expo x \<le> expo y"
proof (rule ccontr)
  assume "\<not> expo x \<le> expo y"
  then have "pow2 (expo y + 1) \<le> pow2 (expo x)" by (intro pow2_mono) simp
  moreover have "pow2 (expo y + 1) = 2 * pow2 (expo y)" by (simp add: pow2_add pow2_def [of 1])
  ultimately show False
    using assms expo_bounds [of x] expo_bounds [of y] by simp
qed

lemma scaled_bounds:
  assumes "0 < x"
  shows "of_int (2 ^ 52) \<le> x / pow2 (expo x - 52) \<and> x / pow2 (expo x - 52) \<le> of_int (2 ^ 53)"
proof -
  have "pow2 (expo x) = pow2 (expo x - 52) * 2 ^ 52"
    using pow2_add [of "expo x - 52" 52] by (simp add: pow2_def [of 52])
  with expo_bounds [OF assms] show ?thesis by (simp add: field_simps)
qed

lemma fl_pos_bounds:
  assumes "0 < x"
  shows "pow2 (expo x) \<le> fl_pos x \<and> fl_pos x \<le> 2 * pow2 (expo x)"
proof -
  define u where "u = pow2 (expo x - 52)"
  have u: "0 < u" "pow2 (expo x) = of_int (2 ^ 52) * u"
    using pow2_add [of "expo x - 52" 52] by (simp_all add: u_def pow2_def [of 52])
  from scaled_bounds [OF assms] have "2 ^ 52 \<le> round_even (x / u)" and "round_even (x / u) \<le> 2 ^ 53"
    using round_even_mono round_even_int u_def by metis+
  then have "(of_int (2 ^ 52) :: rat) \<le> of_int (round_even (x / u))"
    and "of_int (round_even (x / u)) \<le> (of_int (2 ^ 53) :: rat)"
    unfolding of_int_le_iff by auto
  with u show ?thesis by (simp add: fl_pos_def Let_def u_def [symmetric])
qed

lemma fl_pos_mono:
  assumes "0 < x" and "x \<le> y"
  shows "fl_pos x \<le> fl_pos y"
proof (cases "expo x = expo y")
  case True
  have "x / pow2 (expo y - 52) \<le> y / pow2 (expo y - 52)"
    using assms by (simp add: divide_right_mono less_imp_le)
  then have "(of_int (round_even (x / pow2 (expo y - 52))) :: rat)
      \<le> of_int (round_even (y / pow2 (expo y - 52)))"
    using round_even_mono by simp
  with True show ?thesis by (simp add: fl_pos_def Let_def mult_right_mono less_imp_le)
next
  case False
  with expo_mono [OF assms] have "pow2 (expo x + 1) \<le> pow2 (expo y)" by (intro pow2_mono) simp
  moreover have "pow2 (expo x + 1) = 2 * pow2 (expo x)" by (simp add: pow2_add pow2_def [of 1])
  ultimately show ?thesis
    using fl_pos_bounds [of x] fl_pos_bounds [of y] assms by simp
qed

lemma fl_pos_pos: "0 < x \<Longrightarrow> 0 < fl_pos x"
  using fl_pos_bounds [of x] pow2_pos [of "expo x"] by linarith

text \<open>Rounding is monotone, keeps the sign, and keeps integers of up to 53 bits.\<close>

lemma fl64_mono: "x \<le> y \<Longrightarrow> fl64 x \<le> fl64 y"
  using fl_pos_mono [of x y] fl_pos_mono [of "- y" "- x"] fl_pos_pos [of y] fl_pos_pos [of "- x"]
  by (auto simp: fl64_def)

lemma fl_pos_int:
  assumes "0 < n" and "n < 2 ^ 53"
  shows "fl_pos (of_int n) = of_int n"
proof -
  have pos: "(0::rat) < of_int n" using assms by simp
  have e: "expo (of_int n) \<le> 52"
  proof (rule ccontr)
    assume "\<not> expo (of_int n) \<le> 52"
    then have "pow2 53 \<le> pow2 (expo (of_int n))" by (intro pow2_mono) simp
    then have "(of_int (2 ^ 53) :: rat) \<le> of_int n"
      using expo_bounds [OF pos] by (simp add: pow2_def)
    with assms show False unfolding of_int_le_iff by simp
  qed
  define k where "k = nat (52 - expo (of_int n))"
  have u: "pow2 (expo (of_int n) - 52) = 1 / 2 ^ k"
    using e by (auto simp: pow2_def k_def)
  then have "(of_int n :: rat) / pow2 (expo (of_int n) - 52) = of_int (n * 2 ^ k)" by simp
  then have "round_even (of_int n / pow2 (expo (of_int n) - 52)) = n * 2 ^ k"
    using round_even_int by metis
  with u show ?thesis by (simp add: fl_pos_def Let_def)
qed

lemma fl64_int: "\<bar>n\<bar> < 2 ^ 53 \<Longrightarrow> fl64 (of_int n) = of_int n"
  using fl_pos_int [of n] fl_pos_int [of "- n"] by (auto simp: fl64_def)

lemma fl64_1 [simp]: "fl64 1 = 1"
  using fl64_int [of 1] by simp

lemma fl64_of_nat: "n < 2 ^ 53 \<Longrightarrow> fl64 (of_nat n) = of_nat n"
  using fl64_int [of "int n"] by simp

lemma fl64_nonneg [simp]: "0 \<le> x \<Longrightarrow> 0 \<le> fl64 x"
  using fl64_mono [of 0 x] by simp

lemma fl64_le_1: "x \<le> 1 \<Longrightarrow> fl64 x \<le> 1"
  using fl64_mono [of x 1] by simp

text \<open>The relative error of rounding.\<close>

lemma fl64_error: "\<bar>fl64 x - x\<bar> \<le> \<bar>x\<bar> / 2 ^ 53"
proof -
  have *: "\<bar>fl_pos y - y\<bar> \<le> y / 2 ^ 53" if "0 < y" for y
  proof -
    define u where "u = pow2 (expo y - 52)"
    have u: "0 < u" "2 ^ 52 * u \<le> y"
      using pow2_add [of "expo y - 52" 52] expo_bounds [OF that]
      by (simp_all add: u_def pow2_def [of 52])
    have "fl_pos y - y = (of_int (round_even (y / u)) - y / u) * u"
      using u by (simp add: fl_pos_def Let_def u_def [symmetric] algebra_simps)
    then have "\<bar>fl_pos y - y\<bar> = \<bar>of_int (round_even (y / u)) - y / u\<bar> * u"
      using u by (simp add: abs_mult)
    also have "\<dots> \<le> 1 / 2 * u" using u round_even_error by (intro mult_right_mono) simp_all
    also have "\<dots> \<le> y / 2 ^ 53" using u by simp
    finally show ?thesis .
  qed
  consider "x = 0" | "0 < x" | "0 < - x" by linarith
  then show ?thesis
  proof cases
    case 3
    then have "fl64 x - x = - (fl_pos (- x) - - x)" and "\<bar>x\<bar> = - x" by (simp_all add: fl64_def)
    with * [OF 3] show ?thesis by (metis abs_minus_cancel)
  qed (use * [of x] in \<open>simp_all add: fl64_def\<close>)
qed

lemma fl64_abs: "\<bar>fl64 x\<bar> \<le> \<bar>x\<bar> * (1 + 1 / 2 ^ 53)"
proof -
  have "\<bar>fl64 x\<bar> \<le> \<bar>fl64 x - x\<bar> + \<bar>x\<bar>" by linarith
  with fl64_error [of x] show ?thesis by (simp add: algebra_simps)
qed

lemma fl_pos_idem:
  assumes "0 < x"
  shows "fl_pos (fl_pos x) = fl_pos x"
proof -
  define y where "y = fl_pos x"
  define u where "u = pow2 (expo x - 52)"
  have y: "0 < y" "y = of_int (round_even (x / u)) * u" and u: "0 < u"
    using fl_pos_pos [OF assms] by (simp_all add: y_def u_def fl_pos_def Let_def)
  have b: "pow2 (expo x) \<le> y" "y \<le> 2 * pow2 (expo x)"
    using fl_pos_bounds [OF assms] by (simp_all add: y_def)
  have pu: "pow2 (expo x) = 2 ^ 52 * u" "2 * pow2 (expo x) = pow2 (expo x + 1)"
    using pow2_add [of "expo x - 52" 52] by (simp_all add: u_def pow2_def [of 52] pow2_add pow2_def [of 1])
  have "\<exists>k. y / pow2 (expo y - 52) = of_int k"
  proof (cases "y = 2 * pow2 (expo x)")
    case True
    have "expo y = expo x + 1"
    proof (rule antisym)
      show "expo x + 1 \<le> expo y"
      proof (rule ccontr)
        assume "\<not> expo x + 1 \<le> expo y"
        then have "pow2 (expo y) \<le> pow2 (expo x)" by (intro pow2_mono) simp
        with True expo_bounds [OF y(1)] show False by simp
      qed
      show "expo y \<le> expo x + 1"
      proof (rule ccontr)
        assume "\<not> expo y \<le> expo x + 1"
        then have "pow2 (expo x + 1 + 1) \<le> pow2 (expo y)" by (intro pow2_mono) simp
        with True expo_bounds [OF y(1)] pow2_pos [of "expo x"] show False
          by (simp add: pow2_add pow2_def [of 2])
      qed
    qed
    then have "pow2 (expo y - 52) = 2 * u"
      using pow2_add [of 1 "expo x - 52"] by (simp add: u_def pow2_def [of 1] algebra_simps)
    with True pu(1) u have "y / pow2 (expo y - 52) = of_int (2 ^ 52)" by simp
    then show ?thesis by blast
  next
    case False
    have "expo y = expo x"
    proof (rule antisym)
      show "expo x \<le> expo y"
      proof (rule ccontr)
        assume "\<not> expo x \<le> expo y"
        then have "pow2 (expo y + 1) \<le> pow2 (expo x)" by (intro pow2_mono) simp
        with b expo_bounds [OF y(1)] show False by (simp add: pow2_add pow2_def [of 1])
      qed
      show "expo y \<le> expo x"
      proof (rule ccontr)
        assume "\<not> expo y \<le> expo x"
        then have "pow2 (expo x + 1) \<le> pow2 (expo y)" by (intro pow2_mono) simp
        with b False pu expo_bounds [OF y(1)] show False by simp
      qed
    qed
    then have "y / pow2 (expo y - 52) = of_int (round_even (x / u))"
      using y(2) u by (simp add: u_def [symmetric])
    then show ?thesis by blast
  qed
  then obtain k where k: "y / pow2 (expo y - 52) = of_int k" by blast
  have "fl_pos y = of_int (round_even (y / pow2 (expo y - 52))) * pow2 (expo y - 52)"
    by (simp add: fl_pos_def [of y] Let_def)
  also have "\<dots> = of_int k * pow2 (expo y - 52)" by (simp only: k round_even_int)
  also have "\<dots> = y"
    using k pow2_pos [of "expo y - 52"] by (metis less_irrefl nonzero_eq_divide_eq)
  finally show ?thesis by (simp add: y_def)
qed

lemma fl64_idem [simp]: "fl64 (fl64 x) = fl64 x"
  using fl_pos_idem [of x] fl_pos_idem [of "- x"] fl_pos_pos [of x] fl_pos_pos [of "- x"]
  by (auto simp: fl64_def)

section \<open>The number type\<close>

text \<open>Additions, differences, products and quotients are those of the reals, rounded.\<close>

datatype jsnum = Fin rat | PosInf | NegInf | NaN

definition is_nan :: "jsnum \<Rightarrow> bool" where
  "is_nan n \<longleftrightarrow> n = NaN"

fun num_neg :: "jsnum \<Rightarrow> jsnum" where
  "num_neg (Fin a) = Fin (- a)"
| "num_neg PosInf = NegInf"
| "num_neg NegInf = PosInf"
| "num_neg NaN = NaN"

fun num_add :: "jsnum \<Rightarrow> jsnum \<Rightarrow> jsnum" where
  "num_add NaN _ = NaN"
| "num_add _ NaN = NaN"
| "num_add (Fin a) (Fin b) = Fin (fl64 (a + b))"
| "num_add PosInf NegInf = NaN"
| "num_add NegInf PosInf = NaN"
| "num_add PosInf _ = PosInf"
| "num_add NegInf _ = NegInf"
| "num_add _ n = n"

definition num_sub :: "jsnum \<Rightarrow> jsnum \<Rightarrow> jsnum" where
  "num_sub m n = num_add m (num_neg n)"

definition num_sign :: "jsnum \<Rightarrow> int" where
  "num_sign n = (case n of Fin a \<Rightarrow> (if a = 0 then 0 else if 0 < a then 1 else -1)
     | PosInf \<Rightarrow> 1 | NegInf \<Rightarrow> -1 | NaN \<Rightarrow> 0)"

fun num_mul :: "jsnum \<Rightarrow> jsnum \<Rightarrow> jsnum" where
  "num_mul NaN _ = NaN"
| "num_mul _ NaN = NaN"
| "num_mul (Fin a) (Fin b) = Fin (fl64 (a * b))"
| "num_mul m n = (case num_sign m * num_sign n of s \<Rightarrow>
     if s = 0 then NaN else if 0 < s then PosInf else NegInf)"

text \<open>Division by zero gives an infinity, \<open>0 / 0\<close> gives NaN, as the language says.\<close>

fun num_div :: "jsnum \<Rightarrow> jsnum \<Rightarrow> jsnum" where
  "num_div NaN _ = NaN"
| "num_div _ NaN = NaN"
| "num_div (Fin a) (Fin b) =
     (if b \<noteq> 0 then Fin (fl64 (a / b)) else if a = 0 then NaN else if 0 < a then PosInf else NegInf)"
| "num_div (Fin _) _ = Fin 0"
| "num_div n (Fin b) = (if 0 \<le> b then n else num_neg n)"
| "num_div _ _ = NaN"

fun num_lt :: "jsnum \<Rightarrow> jsnum \<Rightarrow> bool" where
  "num_lt NaN _ = False"
| "num_lt _ NaN = False"
| "num_lt (Fin a) (Fin b) = (a < b)"
| "num_lt NegInf NegInf = False"
| "num_lt NegInf _ = True"
| "num_lt _ NegInf = False"
| "num_lt PosInf _ = False"
| "num_lt _ PosInf = True"

text \<open>\<open>Math.min\<close> and \<open>Math.max\<close> of two numbers: NaN is contagious.\<close>

definition math_min :: "jsnum \<Rightarrow> jsnum \<Rightarrow> jsnum" where
  "math_min m n = (if is_nan m \<or> is_nan n then NaN else if num_lt n m then n else m)"

definition math_max :: "jsnum \<Rightarrow> jsnum \<Rightarrow> jsnum" where
  "math_max m n = (if is_nan m \<or> is_nan n then NaN else if num_lt m n then n else m)"

lemma math_clamp_cases:
  "math_max (math_min n (Fin 1)) (Fin 0) = NaN \<and> n = NaN
   \<or> (\<exists>r. math_max (math_min n (Fin 1)) (Fin 0) = Fin r \<and> 0 \<le> r \<and> r \<le> 1)"
  by (cases n) (auto simp: math_min_def math_max_def is_nan_def)

end
