(* ===== verification/Kolibri_Prelude.thy ===== *)
theory Kolibri_Prelude
  imports Js_Number "HOL-Library.AList" "HOL-Library.List_Lexorder" "HOL-Library.Char_ord"
    "HOL-Library.Multiset"
begin

text \<open>
  The part of JavaScript every component shares: strings (lists of 8-bit characters), the
  conversion of a string to a number, and plain objects with the language's key order.
\<close>

named_theorems js_simps "unfolding of the JavaScript operations shared by the components"

section \<open>Exceptions\<close>

text \<open>A function that may throw returns \<open>Inl\<close> the exception or \<open>Inr\<close> its value.\<close>

datatype js_error = TypeError string | RangeError string | ReferenceError string | PlainError string

type_synonym 'a js_result = "js_error + 'a"

fun bind_result :: "'a js_result \<Rightarrow> ('a \<Rightarrow> 'b js_result) \<Rightarrow> 'b js_result" where
  "bind_result (Inl e) f = Inl e"
| "bind_result (Inr x) f = f x"

text \<open>\<open>xs.map(f)\<close> for a callback that may throw: the first exception ends it.\<close>

fun map_result :: "('a \<Rightarrow> 'b js_result) \<Rightarrow> 'a list \<Rightarrow> 'b list js_result" where
  "map_result f [] = Inr []"
| "map_result f (x # xs) = bind_result (f x) (\<lambda>y. bind_result (map_result f xs) (\<lambda>ys. Inr (y # ys)))"

lemma bind_result_Inr: "bind_result r f = Inr y \<longleftrightarrow> (\<exists>x. r = Inr x \<and> f x = Inr y)"
  by (cases r) auto

lemma map_result_Inr: "map_result f xs = Inr ys \<longleftrightarrow> list_all2 (\<lambda>x y. f x = Inr y) xs ys"
  by (induction xs arbitrary: ys) (auto simp: bind_result_Inr list_all2_Cons1)

lemma map_result_total: "(\<And>x. x \<in> set xs \<Longrightarrow> f x = Inr (g x)) \<Longrightarrow> map_result f xs = Inr (map g xs)"
  by (induction xs) auto

text \<open>A loop over \<open>xs\<close> that changes a state: the first exception ends it.\<close>

fun fold_result :: "('a \<Rightarrow> 's \<Rightarrow> 's js_result) \<Rightarrow> 'a list \<Rightarrow> 's \<Rightarrow> 's js_result" where
  "fold_result f [] s = Inr s"
| "fold_result f (x # xs) s = bind_result (f x s) (fold_result f xs)"

lemma bind_result_cong [fundef_cong]:
  "r = r' \<Longrightarrow> (\<And>x. r' = Inr x \<Longrightarrow> f x = g x) \<Longrightarrow> bind_result r f = bind_result r' g"
  by (cases r') auto

lemma fold_result_cong [fundef_cong]:
  "xs = ys \<Longrightarrow> s = t \<Longrightarrow> (\<And>x s. x \<in> set ys \<Longrightarrow> f x s = g x s) \<Longrightarrow> fold_result f xs s = fold_result g ys t"
proof (induction ys arbitrary: xs s t)
  case (Cons y ys)
  then show ?case by (cases "g y t") auto
qed simp

lemma map_result_cong [fundef_cong]:
  "xs = ys \<Longrightarrow> (\<And>x. x \<in> set ys \<Longrightarrow> f x = g x) \<Longrightarrow> map_result f xs = map_result g ys"
proof (induction ys arbitrary: xs)
  case (Cons y ys)
  then show ?case by (cases "g y") auto
qed simp

section \<open>Strings\<close>

text \<open>The white space of \<open>String.prototype.trim\<close> and of the number grammar, among 8-bit characters.\<close>

definition is_space :: "char \<Rightarrow> bool" where
  "is_space c \<longleftrightarrow> (of_char c :: nat) \<in> {9, 10, 11, 12, 13, 32, 160}"

definition js_trim :: "string \<Rightarrow> string" where
  "js_trim s = rev (dropWhile is_space (rev (dropWhile is_space s)))"

definition is_digit :: "char \<Rightarrow> bool" where
  "is_digit c \<longleftrightarrow> 48 \<le> (of_char c :: nat) \<and> (of_char c :: nat) \<le> 57"

definition digit_val :: "char \<Rightarrow> nat" where
  "digit_val c = of_char c - 48"

definition digits_val :: "string \<Rightarrow> nat" where
  "digits_val s = foldl (\<lambda>n c. 10 * n + digit_val c) 0 s"

text \<open>\<open>s.split(sep)\<close> for a separator of one character; the result is never empty.\<close>

fun js_split :: "char \<Rightarrow> string \<Rightarrow> string list" where
  "js_split d [] = [[]]"
| "js_split d (c # s) =
     (if c = d then [] # js_split d s
      else (case js_split d s of p # ps \<Rightarrow> (c # p) # ps | [] \<Rightarrow> [[c]]))"

fun js_join :: "string \<Rightarrow> string list \<Rightarrow> string" where
  "js_join sep [] = []"
| "js_join sep [x] = x"
| "js_join sep (x # xs) = x @ sep @ js_join sep xs"

lemma js_split_not_Nil [simp]: "js_split d s \<noteq> []"
  by (cases s) (auto split: list.splits)

lemma js_join_split: "js_join [d] (js_split d s) = s"
proof (induction s)
  case (Cons c s)
  show ?case
  proof (cases "js_split d s")
    case (Cons p ps)
    with Cons.IH show ?thesis by (cases ps) auto
  qed simp
qed simp

lemma js_split_no_sep: "p \<in> set (js_split d s) \<Longrightarrow> d \<notin> set p"
proof (induction s arbitrary: p)
  case (Cons c s)
  then show ?case by (cases "js_split d s") (auto split: if_splits)
qed simp

lemma js_split_append: "d \<notin> set p \<Longrightarrow> js_split d (p @ d # s) = p # js_split d s"
  by (induction p) auto

lemma js_split_single: "d \<notin> set p \<Longrightarrow> js_split d p = [p]"
  by (induction p) auto

lemma js_split_join: "ps \<noteq> [] \<Longrightarrow> (\<And>p. p \<in> set ps \<Longrightarrow> d \<notin> set p) \<Longrightarrow> js_split d (js_join [d] ps) = ps"
proof (induction ps rule: induct_list012)
  case (3 p q ps)
  then show ?case using js_split_append [of d p] by simp
qed (simp_all add: js_split_single)

subsection \<open>The string to number conversion\<close>

text \<open>
  \<open>Number(s)\<close> on a string: white space is trimmed, the empty string is 0, and otherwise the
  whole string must be a decimal literal, a signed \<open>Infinity\<close> or a prefixed integer.
\<close>

definition parse_exponent :: "string \<Rightarrow> int option" where
  "parse_exponent s =
     (let (neg, ds) = (case s of c # t \<Rightarrow> if c = CHR ''-'' then (True, t)
                                         else if c = CHR ''+'' then (False, t) else (False, s)
                       | [] \<Rightarrow> (False, []))
      in if ds \<noteq> [] \<and> list_all is_digit ds
         then Some (if neg then - int (digits_val ds) else int (digits_val ds)) else None)"

definition scale10 :: "rat \<Rightarrow> int \<Rightarrow> rat" where
  "scale10 m e = (if 0 \<le> e then m * 10 ^ nat e else m / 10 ^ nat (- e))"

definition parse_decimal :: "string \<Rightarrow> rat option" where
  "parse_decimal s =
     (let ip = takeWhile is_digit s; r = dropWhile is_digit s;
          (fp, r') = (case r of c # t \<Rightarrow> if c = CHR ''.'' then (takeWhile is_digit t, dropWhile is_digit t)
                                         else ([], r) | [] \<Rightarrow> ([], []))
      in if ip = [] \<and> fp = [] then None
         else let m = of_nat (digits_val (ip @ fp)) / 10 ^ length fp in
           (case r' of [] \<Rightarrow> Some m
            | c # t \<Rightarrow> if c = CHR ''e'' \<or> c = CHR ''E''
                       then map_option (scale10 m) (parse_exponent t) else None))"

definition parse_unsigned :: "string \<Rightarrow> jsnum" where
  "parse_unsigned s = (if s = ''Infinity'' then PosInf
     else (case parse_decimal s of Some r \<Rightarrow> Fin (fl64 r) | None \<Rightarrow> NaN))"

definition radix_digit :: "nat \<Rightarrow> char \<Rightarrow> nat option" where
  "radix_digit b c = (let n = (of_char c :: nat);
       v = (if 48 \<le> n \<and> n \<le> 57 then n - 48 else if 97 \<le> n \<and> n \<le> 102 then n - 87
            else if 65 \<le> n \<and> n \<le> 70 then n - 55 else 99)
     in if v < b then Some v else None)"

definition parse_radix :: "nat \<Rightarrow> string \<Rightarrow> jsnum" where
  "parse_radix b s = (if s \<noteq> [] \<and> list_all (\<lambda>c. radix_digit b c \<noteq> None) s
     then Fin (fl64 (of_nat (foldl (\<lambda>n c. b * n + the (radix_digit b c)) 0 s))) else NaN)"

definition to_number :: "string \<Rightarrow> jsnum" where
  "to_number s0 = (let s = js_trim s0 in
     if s = [] then Fin 0
     else if take 2 s = ''0x'' \<or> take 2 s = ''0X'' then parse_radix 16 (drop 2 s)
     else if take 2 s = ''0b'' \<or> take 2 s = ''0B'' then parse_radix 2 (drop 2 s)
     else if take 2 s = ''0o'' \<or> take 2 s = ''0O'' then parse_radix 8 (drop 2 s)
     else if hd s = CHR ''-'' then num_neg (parse_unsigned (tl s))
     else if hd s = CHR ''+'' then parse_unsigned (tl s)
     else parse_unsigned s)"

section \<open>Plain objects\<close>

text \<open>
  A plain object is the list of its own properties in the order they were created.  Assigning
  to a property keeps its place, a new one goes last, deleting drops it: \<open>AList.update\<close> and
  \<open>AList.delete\<close>.  Enumeration lists the array-index keys first, in ascending order, then the
  other keys in creation order.
\<close>

type_synonym 'v jsobj = "(string \<times> 'v) list"

definition obj_get :: "'v jsobj \<Rightarrow> string \<Rightarrow> 'v option" where
  "obj_get m k = map_of m k"

definition obj_set :: "string \<Rightarrow> 'v \<Rightarrow> 'v jsobj \<Rightarrow> 'v jsobj" where
  "obj_set k v m = AList.update k v m"

definition obj_del :: "string \<Rightarrow> 'v jsobj \<Rightarrow> 'v jsobj" where
  "obj_del k m = AList.delete k m"

definition obj_wf :: "'v jsobj \<Rightarrow> bool" where
  "obj_wf m \<longleftrightarrow> distinct (map fst m)"

definition is_index :: "string \<Rightarrow> bool" where
  "is_index k \<longleftrightarrow> k \<noteq> [] \<and> list_all is_digit k \<and> (hd k = CHR ''0'' \<longrightarrow> k = ''0'')
     \<and> digits_val k < 4294967295"

text \<open>For evaluation: the value of a numeral as an integer.\<close>

definition digits_int :: "string \<Rightarrow> int" where
  "digits_int s = foldl (\<lambda>n c. 10 * n + (int (of_char c) - 48)) 0 s"

lemma digits_int: "list_all is_digit s \<Longrightarrow> int (digits_val s) = digits_int s"
proof -
  have d: "is_digit c \<Longrightarrow> int (digit_val c) = int (of_char c) - 48" for c
    by (simp add: is_digit_def digit_val_def of_nat_diff)
  have "list_all is_digit s \<Longrightarrow> int (foldl (\<lambda>n c. 10 * n + digit_val c) n s)
      = foldl (\<lambda>n c. 10 * n + (int (of_char c) - 48)) (int n) s" for n
    by (induction s arbitrary: n) (simp_all add: d)
  from this [of 0] show "list_all is_digit s \<Longrightarrow> int (digits_val s) = digits_int s"
    by (simp add: digits_val_def digits_int_def)
qed

lemma is_index_code [code]:
  "is_index k \<longleftrightarrow> k \<noteq> [] \<and> list_all is_digit k \<and> (hd k = CHR ''0'' \<longrightarrow> k = ''0'') \<and> digits_int k < 4294967295"
proof -
  have "list_all is_digit k \<Longrightarrow> digits_val k < 4294967295 \<longleftrightarrow> digits_int k < 4294967295"
    unfolding digits_int [symmetric] by (metis of_nat_less_iff of_nat_numeral)
  then show ?thesis by (auto simp: is_index_def)
qed

definition obj_keys :: "'v jsobj \<Rightarrow> string list" where
  "obj_keys m = sort_key digits_val (filter is_index (map fst m))
     @ filter (\<lambda>k. \<not> is_index k) (map fst m)"

definition obj_entries :: "'v jsobj \<Rightarrow> (string \<times> 'v) list" where
  "obj_entries m = map (\<lambda>k. (k, the (obj_get m k))) (obj_keys m)"

definition obj_values :: "'v jsobj \<Rightarrow> 'v list" where
  "obj_values m = map snd (obj_entries m)"

text \<open>\<open>Object.assign(target, source)\<close>.\<close>

definition obj_assign :: "'v jsobj \<Rightarrow> 'v jsobj \<Rightarrow> 'v jsobj" where
  "obj_assign target source = fold (\<lambda>(k, v). obj_set k v) (obj_entries source) target"

lemma obj_get_empty [simp]: "obj_get [] k = None"
  by (simp add: obj_get_def)

lemma obj_get_set [simp]: "obj_get (obj_set k v m) k' = (if k' = k then Some v else obj_get m k')"
  by (simp add: obj_get_def obj_set_def update_conv')

lemma obj_get_del [simp]: "obj_get (obj_del k m) k' = (if k' = k then None else obj_get m k')"
  by (simp add: obj_get_def obj_del_def delete_conv')

lemma obj_wf_empty [simp, intro]: "obj_wf []"
  by (simp add: obj_wf_def)

lemma obj_wf_set [simp, intro]: "obj_wf m \<Longrightarrow> obj_wf (obj_set k v m)"
  by (simp add: obj_wf_def obj_set_def distinct_update)

lemma obj_wf_del [simp, intro]: "obj_wf m \<Longrightarrow> obj_wf (obj_del k m)"
  by (simp add: obj_wf_def obj_del_def distinct_delete)

lemma set_obj_keys: "set (obj_keys m) = {k. obj_get m k \<noteq> None}"
  by (auto simp: obj_keys_def obj_get_def map_of_eq_None_iff)

lemma obj_keys_in [simp]: "k \<in> set (obj_keys m) \<longleftrightarrow> obj_get m k \<noteq> None"
  by (simp add: set_obj_keys)

lemma distinct_obj_keys [simp, intro]: "obj_wf m \<Longrightarrow> distinct (obj_keys m)"
  by (auto simp: obj_keys_def obj_wf_def)

lemma map_fst_obj_entries [simp]: "map fst (obj_entries m) = obj_keys m"
  by (simp add: obj_entries_def comp_def)

lemma set_obj_entries: "set (obj_entries m) = {(k, v). obj_get m k = Some v}"
  by (auto simp: obj_entries_def image_iff)

lemma set_obj_values: "set (obj_values m) = {v. \<exists>k. obj_get m k = Some v}"
  by (force simp: obj_values_def set_obj_entries image_iff)

lemma obj_values_eq: "obj_values m = map (\<lambda>k. the (obj_get m k)) (obj_keys m)"
  by (simp add: obj_values_def obj_entries_def)

lemma obj_keys_empty_iff: "obj_keys m = [] \<longleftrightarrow> m = []"
  using set_obj_keys [of m] by (cases m) (auto simp: obj_get_def obj_keys_def split: if_splits)

end
