(* ===== verification/Js_Collections.thy ===== *)
theory Js_Collections
  imports Kolibri_Prelude
begin

text \<open>
  The lodash list helpers of the sources, and the two interfaces the components are clients of:
  \<open>keyed_store\<close> (what a sequence of assignments leaves in a plain object) and \<open>stepper\<close> (a
  component whose operations each keep an invariant keeps it over every run).
\<close>

named_theorems collection_simps "characterisations of the lodash helpers"

section \<open>Interfaces\<close>

locale keyed_store =
  fixes get :: "'m \<Rightarrow> 'k \<Rightarrow> 'v option"
    and set :: "'k \<Rightarrow> 'v \<Rightarrow> 'm \<Rightarrow> 'm"
    and del :: "'k \<Rightarrow> 'm \<Rightarrow> 'm"
  assumes get_set: "get (set k v m) k' = (if k' = k then Some v else get m k')"
    and get_del: "get (del k m) k' = (if k' = k then None else get m k')"
begin

text \<open>Assigning one property per item: the last item with the key wins.\<close>

lemma get_fold_set:
  "get (fold (\<lambda>x. set (key x) (val x)) xs m) j =
     (case find (\<lambda>x. key x = j) (rev xs) of Some x \<Rightarrow> Some (val x) | None \<Rightarrow> get m j)"
proof (induction xs rule: rev_induct)
  case (snoc x xs)
  then show ?case by (auto simp: get_set)
qed simp

lemma get_fold_set_None:
  "get (fold (\<lambda>x. set (key x) (val x)) xs m) j = None \<longleftrightarrow> get m j = None \<and> j \<notin> key ` List.set xs"
  by (induction xs arbitrary: m) (auto simp: get_set)

lemma get_fold_set_distinct:
  assumes "distinct (map key xs)" and "x \<in> List.set xs"
  shows "get (fold (\<lambda>x. set (key x) (val x)) xs m) (key x) = Some (val x)"
  using assms
proof (induction xs rule: rev_induct)
  case (snoc y ys)
  show ?case
  proof (cases "x = y")
    case False
    with snoc.prems have "x \<in> List.set ys" and "key x \<noteq> key y" by (auto simp: image_iff)
    with snoc show ?thesis by (simp add: get_set)
  qed (simp add: get_set)
qed simp

lemma get_fold_del:
  "get (fold del ks m) j = (if j \<in> List.set ks then None else get m j)"
  by (induction ks arbitrary: m) (auto simp: get_del)

end

text \<open>A store of lists: appending each item to the list under its key collects the items by key.\<close>

locale list_store = keyed_store get set del
  for get :: "'m \<Rightarrow> 'k \<Rightarrow> 'a list option"
    and set :: "'k \<Rightarrow> 'a list \<Rightarrow> 'm \<Rightarrow> 'm"
    and del :: "'k \<Rightarrow> 'm \<Rightarrow> 'm"
begin

lemma get_fold_push:
  assumes push: "\<And>x m. upd x m = set (key x) ((case get m (key x) of None \<Rightarrow> [] | Some ys \<Rightarrow> ys) @ [x]) m"
    and empty: "\<And>k. get m k = None"
  shows "get (fold upd xs m) j =
     (let ys = filter (\<lambda>x. key x = j) xs in if ys = [] then None else Some ys)"
proof (induction xs rule: rev_induct)
  case Nil
  show ?case by (simp add: empty)
next
  case (snoc x xs)
  then show ?case by (auto simp: push get_set Let_def)
qed

end

locale stepper =
  fixes step :: "'s \<Rightarrow> 'e \<Rightarrow> 's"
    and inv :: "'s \<Rightarrow> bool"
  assumes step_inv: "inv s \<Longrightarrow> inv (step s e)"
begin

lemma run_inv: "inv s \<Longrightarrow> inv (foldl step s es)"
  by (induction es arbitrary: s) (auto intro: step_inv)

lemma trace_inv: "inv s \<Longrightarrow> inv (foldl step s (take n es))"
  by (rule run_inv)

lemma run_split:
  assumes "inv s"
  shows "\<exists>t. inv t \<and> foldl step s es = t \<and> foldl step s (es @ fs) = foldl step t fs"
  using run_inv [OF assms] by simp

end

text \<open>The same for components that keep their invariant when the environment does its part: only events \<open>ok\<close> allows.\<close>

locale guarded_stepper =
  fixes step :: "'s \<Rightarrow> 'e \<Rightarrow> 's"
    and ok :: "'e \<Rightarrow> bool"
    and inv :: "'s \<Rightarrow> bool"
  assumes guarded_inv: "ok e \<Longrightarrow> inv s \<Longrightarrow> inv (step s e)"
begin

lemma guarded_run_inv: "\<forall>e \<in> set es. ok e \<Longrightarrow> inv s \<Longrightarrow> inv (foldl step s es)"
  by (induction es arbitrary: s) (auto intro: guarded_inv)

end

sublocale stepper \<subseteq> guarded_stepper step "\<lambda>_. True" inv
  by unfold_locales (rule step_inv)

interpretation jobj: keyed_store obj_get obj_set obj_del
  by unfold_locales simp_all

interpretation jlist: list_store obj_get obj_set obj_del
  by unfold_locales

section \<open>Facts about built objects\<close>

lemma obj_wf_fold_set [simp, intro]:
  "obj_wf m \<Longrightarrow> obj_wf (fold (\<lambda>x. obj_set (key x) (val x)) xs m)"
  by (induction xs arbitrary: m) auto

lemma obj_get_fold_entries:
  assumes "obj_wf source"
  shows "obj_get (fold (\<lambda>x. obj_set (fst x) (f (snd x))) (obj_entries source) target) k =
     (case obj_get source k of Some v \<Rightarrow> Some (f v) | None \<Rightarrow> obj_get target k)"
proof (cases "obj_get source k")
  case None
  then have "find (\<lambda>x. fst x = k) (rev (obj_entries source)) = None"
    by (auto simp: find_None_iff set_obj_entries)
  with None show ?thesis by (simp add: jobj.get_fold_set [where val = "\<lambda>x. f (snd x)"])
next
  case (Some v)
  then have "(k, v) \<in> set (obj_entries source)" by (simp add: set_obj_entries)
  moreover have "distinct (map fst (obj_entries source))" using assms by simp
  ultimately have "obj_get (fold (\<lambda>x. obj_set (fst x) (f (snd x))) (obj_entries source) target) (fst (k, v))
      = Some (f (snd (k, v)))"
    using jobj.get_fold_set_distinct [where val = "\<lambda>x. f (snd x)"] by metis
  with Some show ?thesis by simp
qed

lemma obj_get_assign:
  "obj_wf source \<Longrightarrow> obj_get (obj_assign target source) k =
     (case obj_get source k of Some v \<Rightarrow> Some v | None \<Rightarrow> obj_get target k)"
  using obj_get_fold_entries [where f = "\<lambda>v. v"] by (simp add: obj_assign_def case_prod_unfold)

lemma obj_wf_assign [simp, intro]: "obj_wf m \<Longrightarrow> obj_wf (obj_assign m n)"
  by (simp add: obj_assign_def case_prod_unfold)

section \<open>lodash\<close>

text \<open>\<open>uniqBy\<close> keeps the first item of each key; \<open>uniq\<close> is \<open>uniqBy\<close> on the items.\<close>

fun uniq_by :: "('a \<Rightarrow> 'k) \<Rightarrow> 'a list \<Rightarrow> 'a list" where
  "uniq_by f [] = []"
| "uniq_by f (x # xs) = x # filter (\<lambda>y. f y \<noteq> f x) (uniq_by f xs)"

definition uniq :: "'a list \<Rightarrow> 'a list" where
  "uniq xs = uniq_by (\<lambda>x. x) xs"

lemma set_uniq_by_subset: "set (uniq_by f xs) \<subseteq> set xs"
  by (induction xs) auto

lemma image_uniq_by [collection_simps]: "f ` set (uniq_by f xs) = f ` set xs"
  by (induction xs) (auto 4 4)

lemma distinct_uniq_by [simp]: "distinct (map f (uniq_by f xs))"
  by (induction xs) (auto simp: distinct_map inj_on_def)

lemma set_uniq [simp]: "set (uniq xs) = set xs"
  using image_uniq_by [of "\<lambda>x. x"] by (simp add: uniq_def)

lemma distinct_uniq [simp]: "distinct (uniq xs)"
  using distinct_uniq_by [of "\<lambda>x. x"] by (simp add: uniq_def)

lemma uniq_by_distinct: "distinct (map f xs) \<Longrightarrow> uniq_by f xs = xs"
proof (induction xs)
  case (Cons x xs)
  then have "filter (\<lambda>y. f y \<noteq> f x) xs = xs" by (auto simp: filter_id_conv image_iff)
  with Cons show ?case by simp
qed simp

lemma uniq_by_append:
  "uniq_by f (xs @ ys) = uniq_by f xs @ filter (\<lambda>y. f y \<notin> f ` set xs) (uniq_by f ys)"
  by (induction xs) (auto simp: filter_filter conj_commute image_uniq_by image_iff intro!: filter_cong)

text \<open>\<open>sortedUniqBy\<close> drops an item when its key equals that of the item before it.\<close>

fun sorted_uniq_by :: "('a \<Rightarrow> 'k) \<Rightarrow> 'a list \<Rightarrow> 'a list" where
  "sorted_uniq_by f [] = []"
| "sorted_uniq_by f [x] = [x]"
| "sorted_uniq_by f (x # y # xs) =
     (if f x = f y then sorted_uniq_by f (x # xs) else x # sorted_uniq_by f (y # xs))"

lemma set_sorted_uniq_by_subset: "set (sorted_uniq_by f xs) \<subseteq> set xs"
  by (induction f xs rule: sorted_uniq_by.induct) auto

lemma image_sorted_uniq_by [collection_simps]: "f ` set (sorted_uniq_by f xs) = f ` set xs"
  by (induction f xs rule: sorted_uniq_by.induct) auto

text \<open>\<open>groupBy\<close> with string keys.\<close>

definition group_by :: "('a \<Rightarrow> string) \<Rightarrow> 'a list \<Rightarrow> 'a list jsobj" where
  "group_by f xs = fold (\<lambda>x m. obj_set (f x)
     ((case obj_get m (f x) of None \<Rightarrow> [] | Some ys \<Rightarrow> ys) @ [x]) m) xs []"

lemma obj_get_group_by [collection_simps]:
  "obj_get (group_by f xs) k =
     (let ys = filter (\<lambda>x. f x = k) xs in if ys = [] then None else Some ys)"
  unfolding group_by_def by (rule jlist.get_fold_push) simp_all

lemma obj_wf_group_by [simp]: "obj_wf (group_by f xs)"
proof -
  have "obj_wf m \<Longrightarrow> obj_wf (fold (\<lambda>x m. obj_set (f x)
     ((case obj_get m (f x) of None \<Rightarrow> [] | Some ys \<Rightarrow> ys) @ [x]) m) xs m)" for m
    by (induction xs arbitrary: m) auto
  then show ?thesis by (simp add: group_by_def)
qed

lemma group_by_keys [collection_simps]: "set (obj_keys (group_by f xs)) = f ` set xs"
  by (auto simp: set_obj_keys obj_get_group_by Let_def filter_empty_conv)

text \<open>\<open>orderBy(xs, f, ['desc'])\<close>: stable, greatest key first.\<close>

definition order_by_desc :: "('a \<Rightarrow> 'k::linorder) \<Rightarrow> 'a list \<Rightarrow> 'a list" where
  "order_by_desc f xs = rev (sort_key f (rev xs))"

lemma set_order_by_desc [simp]: "set (order_by_desc f xs) = set xs"
  by (simp add: order_by_desc_def)

lemma mset_order_by_desc [simp]: "mset (order_by_desc f xs) = mset xs"
  by (simp add: order_by_desc_def)

lemma length_order_by_desc [simp]: "length (order_by_desc f xs) = length xs"
  by (simp add: order_by_desc_def)

lemma sorted_order_by_desc: "sorted_wrt (\<lambda>x y. f y \<le> f x) (order_by_desc f xs)"
proof -
  have "sorted_wrt (\<lambda>x y. f x \<le> f y) (sort_key f (rev xs))"
    using sorted_sort_key [of f "rev xs"] by (simp add: sorted_map)
  then show ?thesis by (simp add: order_by_desc_def sorted_wrt_rev)
qed

text \<open>\<open>sumBy\<close> over numbers; the empty sum is 0.\<close>

definition sum_by :: "('a \<Rightarrow> int) \<Rightarrow> 'a list \<Rightarrow> int" where
  "sum_by f xs = sum_list (map f xs)"

text \<open>Counting the items of a list after one of them stopped to count.\<close>

lemma filter_update: "i < length xs \<Longrightarrow> \<not> P y \<Longrightarrow> length (filter P (xs[i := y])) = length (filter P xs) - (if P (xs ! i) then 1 else 0)"
proof (induction xs arbitrary: i)
  case (Cons x xs)
  show ?case
  proof (cases i)
    case (Suc j)
    have "P (xs ! j) \<Longrightarrow> j < length xs \<Longrightarrow> filter P xs \<noteq> []" by (auto simp: filter_empty_conv)
    with Cons Suc show ?thesis by (cases "filter P xs") auto
  qed (use Cons in auto)
qed simp

lemma filter_nth_ne: "i < length xs \<Longrightarrow> P (xs ! i) \<Longrightarrow> 0 < length (filter P xs)"
  by (simp add: filter_empty_conv) (metis nth_mem)

end
