(* ===== verification/Exam_Conversion.thy ===== *)
theory Exam_Conversion
  imports Js_Collections "HOL-Library.Word"
begin

text \<open>
  \<open>kolibri/core/assets/src/exams/utils.js\<close>: the conversion of stored quizzes of data model
  versions 0 and 1 to the current form.  The seeded shuffle of version 0 is modelled down to
  the doubles and the 32-bit truncation it computes its indices with.
\<close>

section \<open>Data\<close>

text \<open>
  One entry of \<open>question_sources\<close>.  Version 0 entries have \<open>number_of_questions\<close>; version 1
  entries have \<open>question_id\<close> and perhaps \<open>counterInExercise\<close>; later ones
  \<open>counter_in_exercise\<close>.  A property an entry does not have is \<open>None\<close>.
\<close>

record question_source =
  exercise_id :: string
  question_id :: "string option"
  title :: "string option"
  number_of_questions :: "nat option"
  counterInExercise :: "int option"
  counter_in_exercise :: "int option"
  item :: "string option"

record assessment_meta =
  assessment_item_ids :: "string list"
  mastery_model :: "string jsobj"
  randomize :: bool

record content_node =
  node_id :: string
  assessmentmetadata :: "assessment_meta option"

record exam =
  data_model_version :: int
  seed :: "int option"
  question_sources :: "question_source list"

record assessment_state =
  assessment :: bool
  assessmentIds :: "string list"
  masteryModel :: "string jsobj option"
  as_randomize :: bool

text \<open>\<open>assessmentMetaDataState\<close> of the store's mappers; \<open>snakeCase\<close> is lodash's.\<close>

definition assessmentMetaDataState :: "(string \<Rightarrow> string) \<Rightarrow> content_node \<Rightarrow> assessment_state" where
  "assessmentMetaDataState snakeCase data =
     (let blankState = \<lparr>assessment = False, assessmentIds = [], masteryModel = None, as_randomize = False\<rparr>
      in case assessmentmetadata data of
        None \<Rightarrow> blankState
      | Some m \<Rightarrow>
          (let ids = assessment_item_ids m;
               mm = map (\<lambda>(k, v). (k, snakeCase v)) (mastery_model m)
           in if ids = [] \<or> obj_keys mm = [] then blankState
              else \<lparr>assessment = True, assessmentIds = ids, masteryModel = Some mm,
                    as_randomize = randomize m\<rparr>))"

section \<open>The version 0 shuffle\<close>

text \<open>The remainder operator takes the sign of the dividend.\<close>

definition js_rem :: "int \<Rightarrow> int \<Rightarrow> int" where
  "js_rem a b = sgn a * (\<bar>a\<bar> mod \<bar>b\<bar>)"

text \<open>\<open>x | 0\<close>: truncation towards zero to a signed 32-bit integer.\<close>

definition js_trunc :: "rat \<Rightarrow> int" where
  "js_trunc r = (if 0 \<le> r then \<lfloor>r\<rfloor> else \<lceil>r\<rceil>)"

definition to_int32 :: "rat \<Rightarrow> int" where
  "to_int32 r = sint (word_of_int (js_trunc r) :: 32 word)"

text \<open>The product and the sum are doubles, so they are rounded when the first seed is very large.\<close>

definition next_seed :: "int \<Rightarrow> int" where
  "next_seed s = js_rem \<lfloor>fl64 (fl64 (of_int s * 9301) + 49297)\<rfloor> 233280"

definition shuffle_index :: "int \<Rightarrow> nat \<Rightarrow> int" where
  "shuffle_index s sz = to_int32 (fl64 (fl64 (of_int s / 233280) * of_nat sz))"

text \<open>The first loop: \<open>n\<close> indices from the linear congruential generator.\<close>

fun index_map :: "nat \<Rightarrow> nat \<Rightarrow> int \<Rightarrow> int list" where
  "index_map 0 sz s = []"
| "index_map (Suc n) sz s = shuffle_index (next_seed s) sz # index_map n sz (next_seed s)"

text \<open>
  \<open>arr.splice(start, 1, x)\<close>: the removed element, if any, and the array after the call.  A
  negative start counts from the end; a start past the end removes nothing and appends.
\<close>

definition splice1 :: "int \<Rightarrow> 'a \<Rightarrow> 'a list \<Rightarrow> 'a option \<times> 'a list" where
  "splice1 start x xs =
     (let len = int (length xs);
          j = nat (if start < 0 then max (len + start) 0 else min start len)
      in if j < length xs then (Some (xs ! j), xs[j := x]) else (None, xs @ [x]))"

text \<open>
  The second loop, for \<open>i\<close> down to 1.  \<open>None\<close> would be an undefined element entering the
  array.
\<close>

fun shuffle_loop :: "int list \<Rightarrow> nat \<Rightarrow> nat \<Rightarrow> 'a list \<Rightarrow> 'a list option" where
  "shuffle_loop m sz 0 xs = Some xs"
| "shuffle_loop m sz (Suc i) xs =
     (case splice1 (m ! (sz - 1 - Suc i)) (xs ! Suc i) xs of
        (Some r, xs') \<Rightarrow> shuffle_loop m sz i (xs'[Suc i := r])
      | (None, _) \<Rightarrow> None)"

definition seededShuffle :: "'a list \<Rightarrow> int \<Rightarrow> 'a list option" where
  "seededShuffle arr s =
     (let sz = length arr
      in shuffle_loop (index_map sz sz s) sz (sz - 1) arr)"

section \<open>Conversions\<close>

definition undefined_property :: js_error where
  "undefined_property = TypeError ''Cannot read properties of undefined''"

text \<open>\<open>Array.from(Array(n).keys())\<close>; \<open>Array(undefined)\<close> has one element.\<close>

definition question_numbers :: "nat option \<Rightarrow> nat list" where
  "question_numbers n = (case n of Some k \<Rightarrow> [0..<k] | None \<Rightarrow> [0])"

fun find_index :: "('a \<Rightarrow> bool) \<Rightarrow> 'a list \<Rightarrow> int" where
  "find_index p [] = -1"
| "find_index p (x # xs) = (if p x then 0 else (let i = find_index p xs in if i < 0 then -1 else i + 1))"

definition nth_opt :: "'a list \<Rightarrow> nat \<Rightarrow> 'a option" where
  "nth_opt xs i = (if i < length xs then Some (xs ! i) else None)"

text \<open>
  \<open>shuffled_or_raise\<close> turns the impossible outcome of the shuffle into an exception so that
  the conversion is total; lemma \<open>seededShuffle_permutes\<close> says it does not arise.
\<close>

definition shuffled_or_raise :: "'a list \<Rightarrow> int \<Rightarrow> 'a list js_result" where
  "shuffled_or_raise xs s = (case seededShuffle xs s of Some ys \<Rightarrow> Inr ys | None \<Rightarrow> Inl undefined_property)"

fun shuffle_entries :: "int \<Rightarrow> string list jsobj \<Rightarrow> string list jsobj \<Rightarrow> string list jsobj js_result" where
  "shuffle_entries s [] acc = Inr acc"
| "shuffle_entries s ((k, ids) # es) acc =
     bind_result (shuffled_or_raise ids s) (\<lambda>ys. shuffle_entries s es (obj_set k ys acc))"

definition examQuestions_v0 :: "question_source list \<Rightarrow> (string \<times> string option \<times> nat) list" where
  "examQuestions_v0 sources = concat (map (\<lambda>val.
     map (\<lambda>n. (exercise_id val, title val, n)) (question_numbers (number_of_questions val))) sources)"

definition blank_source :: "string \<Rightarrow> question_source" where
  "blank_source e = \<lparr>exercise_id = e, question_id = None, title = None, number_of_questions = None,
     counterInExercise = None, counter_in_exercise = None, item = None\<rparr>"

definition convert_question_v0 ::
  "string list jsobj \<Rightarrow> string list jsobj \<Rightarrow> string \<times> string option \<times> nat \<Rightarrow> question_source js_result" where
  "convert_question_v0 questionIds shuffledIds q = (case q of (e, t, n) \<Rightarrow>
     (case obj_get shuffledIds e of
        None \<Rightarrow> Inl undefined_property
      | Some sids \<Rightarrow>
          (case obj_get questionIds e of
             None \<Rightarrow> Inl undefined_property
           | Some ids \<Rightarrow>
               (let qid = nth_opt sids n in
                Inr ((blank_source e)\<lparr>question_id := qid, title := t,
                  counter_in_exercise := Some (find_index (\<lambda>i. Some i = qid) ids + 1)\<rparr>)))))"

definition convertExamQuestionSourcesV0V2 ::
  "question_source list \<Rightarrow> int \<Rightarrow> string list jsobj \<Rightarrow> question_source list js_result" where
  "convertExamQuestionSourcesV0V2 questionSources s questionIds =
     bind_result (shuffled_or_raise (examQuestions_v0 questionSources) s) (\<lambda>shuffledExamQuestions.
     bind_result (shuffle_entries s (obj_entries questionIds) []) (\<lambda>shuffledExerciseQuestions.
     map_result (convert_question_v0 questionIds shuffledExerciseQuestions) shuffledExamQuestions))"

text \<open>\<open>annotateQuestionSourcesWithCounter\<close>: a running count per exercise.\<close>

fun annotate_from :: "nat jsobj \<Rightarrow> question_source list \<Rightarrow> question_source list" where
  "annotate_from m [] = []"
| "annotate_from m (src # srcs) =
     (let c = (case obj_get m (exercise_id src) of Some k \<Rightarrow> k | None \<Rightarrow> 0) + 1
      in src\<lparr>counter_in_exercise := Some (int c)\<rparr> # annotate_from (obj_set (exercise_id src) c m) srcs)"

definition annotateQuestionSourcesWithCounter :: "question_source list \<Rightarrow> question_source list" where
  "annotateQuestionSourcesWithCounter srcs = annotate_from [] srcs"

definition convertExamQuestionSourcesV1V2 :: "question_source list \<Rightarrow> question_source list" where
  "convertExamQuestionSourcesV1V2 srcs =
     (if list_all (\<lambda>q. counterInExercise q \<noteq> None \<and> counterInExercise q \<noteq> Some 0) srcs
      then map (\<lambda>q. q\<lparr>counter_in_exercise := counterInExercise q, counterInExercise := None\<rparr>) srcs
      else annotateQuestionSourcesWithCounter srcs)"

definition show_option :: "string option \<Rightarrow> string" where
  "show_option s = (case s of Some x \<Rightarrow> x | None \<Rightarrow> ''undefined'')"

definition annotateQuestionsWithItem :: "question_source list \<Rightarrow> question_source list" where
  "annotateQuestionsWithItem qs =
     map (\<lambda>q. q\<lparr>item := Some (exercise_id q @ '':'' @ show_option (question_id q))\<rparr>) qs"

definition missing_nodes :: js_error where
  "missing_nodes = PlainError ''Missing 'contentNodes' array, which is required when converting a V0 Exam model''"

definition missing_seed :: js_error where
  "missing_seed = PlainError ''Missing 'seed' integer, which is required when converting a V0 Exam model''"

definition convertExamQuestionSources ::
  "(string \<Rightarrow> string) \<Rightarrow> exam \<Rightarrow> content_node list option \<Rightarrow> question_source list js_result" where
  "convertExamQuestionSources snakeCase ex contentNodes =
     (if data_model_version ex = 0 then
        (case contentNodes of
           None \<Rightarrow> Inl missing_nodes
         | Some nodes \<Rightarrow>
             (case seed ex of
                None \<Rightarrow> Inl missing_seed
              | Some s \<Rightarrow>
                  (let questionIds = fold (\<lambda>node. obj_set (node_id node)
                         (assessmentIds (assessmentMetaDataState snakeCase node))) nodes []
                   in bind_result (convertExamQuestionSourcesV0V2 (question_sources ex) s questionIds)
                        (\<lambda>qs. Inr (annotateQuestionsWithItem qs)))))
      else if data_model_version ex = 1 then
        Inr (annotateQuestionsWithItem (convertExamQuestionSourcesV1V2 (question_sources ex)))
      else Inr (annotateQuestionsWithItem (question_sources ex)))"

text \<open>
  \<open>fetchNodeDataAndConvertExam\<close>: for an older quiz, the nodes are requested by the exercise
  ids without duplicates; \<open>fetch\<close> is the server's answer to that request.
\<close>

definition fetchNodeDataAndConvertExam ::
  "(string \<Rightarrow> string) \<Rightarrow> (string list \<Rightarrow> content_node list) \<Rightarrow> exam \<Rightarrow> exam js_result" where
  "fetchNodeDataAndConvertExam snakeCase fetch ex =
     (if 2 \<le> data_model_version ex
      then Inr (ex\<lparr>question_sources := annotateQuestionsWithItem (question_sources ex)\<rparr>)
      else bind_result
        (convertExamQuestionSources snakeCase ex (Some (fetch (uniq (map exercise_id (question_sources ex))))))
        (\<lambda>qs. Inr (ex\<lparr>question_sources := qs\<rparr>)))"

text \<open>
  \<open>getExamReport\<close>, for numeric arguments.  \<open>examR\<close> and \<open>nodesR\<close> are what the two requests
  settle with.  The promise is built with the \<open>Promise\<close> constructor and settled only by calls
  of \<open>resolve\<close> and \<open>reject\<close>, so an exception in a success handler leaves it pending.
\<close>

record exam_report =
  exerciseContentNodes :: "content_node list"
  report_exam :: exam
  questions :: "question_source list"
  tryIndex :: nat
  questionNumber :: nat
  exercise :: "content_node option"
  interactionIndex :: nat

datatype ('a, 'e) promise = Resolved 'a | Rejected 'e | Pending

definition getExamReport ::
  "(string \<Rightarrow> string) \<Rightarrow> 'e + exam \<Rightarrow> (string list \<Rightarrow> 'e + content_node list) \<Rightarrow> nat \<Rightarrow> nat \<Rightarrow> nat
     \<Rightarrow> (exam + exam_report, 'e) promise" where
  "getExamReport snakeCase examR nodesR tryIx questionNo interactionIx =
     (case examR of
        Inl e \<Rightarrow> Rejected e
      | Inr ex \<Rightarrow>
          (case (if question_sources ex = [] then Inr []
                 else nodesR (uniq (map exercise_id (question_sources ex)))) of
             Inl e \<Rightarrow> Rejected e
           | Inr nodes \<Rightarrow>
               (case convertExamQuestionSources snakeCase ex (Some nodes) of
                  Inl _ \<Rightarrow> Pending
                | Inr qs \<Rightarrow>
                    (if qs = [] then Resolved (Inl ex)
                     else if nodes = [] then
                       Resolved (Inr \<lparr>exerciseContentNodes = [], report_exam = ex, questions = qs,
                         tryIndex = tryIx, questionNumber = questionNo, exercise = None,
                         interactionIndex = interactionIx\<rparr>)
                     else (case nth_opt qs questionNo of
                         None \<Rightarrow> Pending
                       | Some q \<Rightarrow>
                           Resolved (Inr \<lparr>exerciseContentNodes = nodes, report_exam = ex, questions = qs,
                             tryIndex = tryIx, questionNumber = questionNo,
                             exercise = find (\<lambda>n. node_id n = exercise_id q) nodes,
                             interactionIndex = interactionIx\<rparr>))))))"

section \<open>The shuffle is a permutation\<close>

lemma js_trunc_bound: "\<bar>r\<bar> < of_nat n \<Longrightarrow> \<bar>js_trunc r\<bar> < int n"
proof (cases "0 \<le> r")
  case False
  assume "\<bar>r\<bar> < of_nat n"
  with False have "- (of_nat n) < r" and "0 < n" by (auto intro: gr0I)
  then have "- int n < \<lceil>r\<rceil>" by (simp add: less_ceiling_iff)
  moreover have "\<lceil>r\<rceil> \<le> 0" using False by (simp add: ceiling_le_zero)
  ultimately show ?thesis using False \<open>0 < n\<close> by (simp add: js_trunc_def)
qed (simp add: js_trunc_def floor_less_iff)

lemma to_int32_small: "\<bar>js_trunc r\<bar> < 2 ^ 31 \<Longrightarrow> to_int32 r = js_trunc r"
  by (simp add: to_int32_def signed_take_bit_int_eq_self sint_sbintrunc')

lemma next_seed_bound: "\<bar>next_seed s\<bar> < 233280"
  by (simp add: next_seed_def js_rem_def abs_mult sgn_if)

lemma scaled_seed_bound:
  assumes "\<bar>s\<bar> < 233280" and "0 < n"
  shows "\<bar>fl64 (fl64 (of_int s / 233280) * of_nat n)\<bar> < of_nat n"
proof -
  have "\<bar>fl64 (of_int s / 233280)\<bar> \<le> \<bar>of_int s / 233280\<bar> * (1 + 1 / 2 ^ 53)" by (rule fl64_abs)
  also have "\<dots> \<le> 233279 / 233280 * (1 + 1 / 2 ^ 53)"
  proof (rule mult_right_mono)
    have "\<bar>of_int s\<bar> \<le> (233279 :: rat)" using assms(1) by linarith
    then show "\<bar>of_int s / 233280\<bar> \<le> (233279 / 233280 :: rat)" by simp
  qed simp
  finally have b: "\<bar>fl64 (of_int s / 233280)\<bar> \<le> 233279 / 233280 * (1 + 1 / 2 ^ 53)" .
  have "\<bar>fl64 (fl64 (of_int s / 233280) * of_nat n)\<bar>
      \<le> \<bar>fl64 (of_int s / 233280)\<bar> * of_nat n * (1 + 1 / 2 ^ 53)"
    using fl64_abs [of "fl64 (of_int s / 233280) * of_nat n"] by (simp add: abs_mult)
  also have "\<dots> \<le> 233279 / 233280 * (1 + 1 / 2 ^ 53) * of_nat n * (1 + 1 / 2 ^ 53)"
    using b by (intro mult_right_mono) simp_all
  also have "\<dots> < of_nat n" using assms(2) by simp
  finally show ?thesis .
qed

lemma shuffle_index_bound:
  assumes "\<bar>s\<bar> < 233280" and "0 < n" and "n < 2 ^ 31"
  shows "\<bar>shuffle_index s n\<bar> < int n"
proof -
  have "\<bar>js_trunc (fl64 (fl64 (of_int s / 233280) * of_nat n))\<bar> < int n"
    using scaled_seed_bound [OF assms(1,2)] by (rule js_trunc_bound)
  with assms(3) show ?thesis by (simp add: shuffle_index_def to_int32_small)
qed

lemma index_map_bound:
  assumes "0 < sz" and "sz < 2 ^ 31"
  shows "length (index_map n sz s) = n \<and> list_all (\<lambda>j. \<bar>j\<bar> < int sz) (index_map n sz s)"
  using shuffle_index_bound [OF next_seed_bound assms]
  by (induction n arbitrary: s) simp_all

lemma splice1_swap:
  assumes "\<bar>j\<bar> < int (length xs)" and "i < length xs"
  shows "\<exists>r xs'. splice1 j (xs ! i) xs = (Some r, xs') \<and> length xs' = length xs \<and> mset (xs'[i := r]) = mset xs"
proof -
  define k where "k = nat (if j < 0 then max (int (length xs) + j) 0 else min j (int (length xs)))"
  have k: "k < length xs" using assms(1) by (auto simp: k_def)
  then have "splice1 j (xs ! i) xs = (Some (xs ! k), xs[k := xs ! i])"
    by (simp add: splice1_def Let_def k_def [symmetric])
  moreover have "mset (xs[k := xs ! i, i := xs ! k]) = mset xs"
    using mset_swap [OF assms(2) k] by simp
  ultimately show ?thesis by simp
qed

lemma shuffle_loop_permutes:
  assumes "length m = sz" and "list_all (\<lambda>j. \<bar>j\<bar> < int sz) m"
    and "length xs = sz" and "i < sz \<or> i = 0"
  shows "\<exists>ys. shuffle_loop m sz i xs = Some ys \<and> mset ys = mset xs"
  using assms(3,4)
proof (induction i arbitrary: xs)
  case (Suc i)
  then have i: "Suc i < length xs" by simp
  have "m ! (sz - 1 - Suc i) \<in> set m" using Suc.prems assms(1) by simp
  then have "\<bar>m ! (sz - 1 - Suc i)\<bar> < int (length xs)"
    using assms(2) Suc.prems(1) by (simp add: list_all_iff)
  from splice1_swap [OF this i] obtain r xs' where
    s: "splice1 (m ! (sz - 1 - Suc i)) (xs ! Suc i) xs = (Some r, xs')"
    and xs': "length xs' = length xs" "mset (xs'[Suc i := r]) = mset xs" by blast
  with Suc.IH [of "xs'[Suc i := r]"] Suc.prems show ?case by simp
qed simp

lemma seededShuffle_permutes:
  assumes "length arr < 2 ^ 31"
  shows "\<exists>ys. seededShuffle arr s = Some ys \<and> mset ys = mset arr"
proof (cases "arr = []")
  case False
  with assms show ?thesis
    unfolding seededShuffle_def Let_def
    by (intro shuffle_loop_permutes) (simp_all add: index_map_bound)
qed (simp add: seededShuffle_def)

text \<open>What a client of a shuffle relies on, and the version 0 shuffle as a provider.\<close>

locale shuffler =
  fixes shuffle :: "'a list \<Rightarrow> 'a list" and admissible :: "'a list \<Rightarrow> bool"
  assumes permutes: "admissible xs \<Longrightarrow> mset (shuffle xs) = mset xs"
begin

lemma set_shuffle: "admissible xs \<Longrightarrow> set (shuffle xs) = set xs"
  using permutes by (metis set_mset_mset)

lemma length_shuffle: "admissible xs \<Longrightarrow> length (shuffle xs) = length xs"
  using permutes by (metis size_mset)

lemma distinct_shuffle: "admissible xs \<Longrightarrow> distinct (shuffle xs) \<longleftrightarrow> distinct xs"
  using permutes by (metis mset_eq_imp_distinct_iff)

end

interpretation seeded: shuffler "\<lambda>xs. the (seededShuffle xs s)" "\<lambda>xs. length xs < 2 ^ 31" for s
proof unfold_locales
  fix xs :: "'a list" assume "length xs < 2 ^ 31"
  then show "mset (the (seededShuffle xs s)) = mset xs"
    using seededShuffle_permutes [of xs s] by auto
qed

section \<open>Counters\<close>

lemma length_annotate_from [simp]: "length (annotate_from m srcs) = length srcs"
  by (induction srcs arbitrary: m) (simp_all add: Let_def)

lemma annotate_from_nth:
  assumes "i < length srcs"
  shows "annotate_from m srcs ! i = (srcs ! i)\<lparr>counter_in_exercise := Some (int (
     (case obj_get m (exercise_id (srcs ! i)) of Some k \<Rightarrow> k | None \<Rightarrow> 0)
     + count_list (map exercise_id (take (Suc i) srcs)) (exercise_id (srcs ! i))))\<rparr>"
  using assms
proof (induction srcs arbitrary: m i)
  case (Cons src srcs)
  show ?case
  proof (cases i)
    case (Suc j)
    with Cons show ?thesis by (auto simp: Let_def split: option.splits)
  qed (simp add: Let_def)
qed simp

section \<open>The version 0 conversion\<close>

lemma find_index_first: "x \<in> set xs \<Longrightarrow> \<exists>k < length xs. find_index (\<lambda>i. Some i = Some x) xs = int k \<and> xs ! k = x"
proof (induction xs)
  case (Cons y ys)
  show ?case
  proof (cases "y = x")
    case False
    with Cons obtain k where "k < length ys" "find_index (\<lambda>i. Some i = Some x) ys = int k" "ys ! k = x"
      by auto
    with False show ?thesis by (intro exI [of _ "Suc k"]) (simp add: Let_def)
  qed auto
qed simp

abbreviation shuffled_ids :: "int \<Rightarrow> 'a list \<Rightarrow> 'a list" where
  "shuffled_ids s ids \<equiv> the (seededShuffle ids s)"

lemma shuffled_or_raise_total:
  "length ids < 2 ^ 31 \<Longrightarrow> shuffled_or_raise ids s = Inr (shuffled_ids s ids)"
  using seededShuffle_permutes [of ids s] by (auto simp: shuffled_or_raise_def)

lemma shuffle_entries_total:
  assumes "\<And>k ids. (k, ids) \<in> set es \<Longrightarrow> length ids < 2 ^ 31"
  shows "shuffle_entries s es acc = Inr (fold (\<lambda>e. obj_set (fst e) (shuffled_ids s (snd e))) es acc)"
  using assms
proof (induction es arbitrary: acc)
  case (Cons e es)
  obtain k ids where e: "e = (k, ids)" by (cases e)
  with Cons.prems have ids: "length ids < 2 ^ 31" by auto
  have "shuffle_entries s es a = Inr (fold (\<lambda>e. obj_set (fst e) (shuffled_ids s (snd e))) es a)" for a
  proof (rule Cons.IH)
    fix k' ids' assume "(k', ids') \<in> set es"
    then show "length ids' < 2 ^ 31" using Cons.prems [of k' ids'] by simp
  qed
  with e ids show ?case by (simp add: shuffled_or_raise_total)
qed simp

lemma mem_examQuestions_v0:
  "(e, t, n) \<in> set (examQuestions_v0 srcs) \<longleftrightarrow>
     (\<exists>v \<in> set srcs. exercise_id v = e \<and> title v = t \<and> n \<in> set (question_numbers (number_of_questions v)))"
  by (auto simp: examQuestions_v0_def)

text \<open>A version 0 quiz that asks each exercise for no more questions than it has.\<close>

definition well_formed_v0 :: "question_source list \<Rightarrow> string list jsobj \<Rightarrow> bool" where
  "well_formed_v0 srcs qids \<longleftrightarrow> obj_wf qids \<and> length (examQuestions_v0 srcs) < 2 ^ 31
     \<and> list_all (\<lambda>(k, ids). length ids < 2 ^ 31 \<and> distinct ids) (obj_entries qids)
     \<and> list_all (\<lambda>v. case (number_of_questions v, obj_get qids (exercise_id v)) of
          (Some n, Some ids) \<Rightarrow> n \<le> length ids | _ \<Rightarrow> False) srcs
     \<and> distinct (map exercise_id srcs)"

text \<open>What the conversion makes of one pair of an exercise and a question number.\<close>

definition converted_v0 :: "int \<Rightarrow> string list jsobj \<Rightarrow> string \<times> string option \<times> nat \<Rightarrow> question_source" where
  "converted_v0 s qids q = (case q of (e, t, n) \<Rightarrow>
     (let ids = the (obj_get qids e); x = shuffled_ids s ids ! n
      in (blank_source e)\<lparr>question_id := Some x, title := t,
           counter_in_exercise := Some (find_index (\<lambda>i. Some i = Some x) ids + 1)\<rparr>))"

lemma well_formed_v0_ids:
  assumes "well_formed_v0 srcs qids" and "(e, t, n) \<in> set (examQuestions_v0 srcs)"
  shows "\<exists>ids. obj_get qids e = Some ids \<and> n < length ids \<and> distinct ids \<and> length ids < 2 ^ 31"
proof -
  from assms(2) obtain v where v: "v \<in> set srcs" "exercise_id v = e" "n \<in> set (question_numbers (number_of_questions v))"
    by (auto simp: mem_examQuestions_v0)
  with assms(1) obtain m ids where ids: "number_of_questions v = Some m" "obj_get qids e = Some ids" "m \<le> length ids"
    by (force simp: well_formed_v0_def list_all_iff split: option.splits)
  then have "(e, ids) \<in> set (obj_entries qids)" by (simp add: set_obj_entries)
  with assms(1) have "length ids < 2 ^ 31 \<and> distinct ids" by (auto simp: well_formed_v0_def list_all_iff)
  with v(3) ids show ?thesis by (simp add: question_numbers_def)
qed

lemma convert_v0_total:
  assumes "well_formed_v0 srcs qids"
  shows "convertExamQuestionSourcesV0V2 srcs s qids
     = Inr (map (converted_v0 s qids) (shuffled_ids s (examQuestions_v0 srcs)))"
proof -
  have len: "length (examQuestions_v0 srcs) < 2 ^ 31" and wf: "obj_wf qids"
    using assms by (simp_all add: well_formed_v0_def)
  define sq where "sq = fold (\<lambda>e. obj_set (fst e) (shuffled_ids s (snd e))) (obj_entries qids) []"
  have get: "obj_get sq e = map_option (shuffled_ids s) (obj_get qids e)" for e
    using obj_get_fold_entries [OF wf, of "shuffled_ids s" "[]" e] by (simp add: sq_def split: option.splits)
  have "convert_question_v0 qids sq q = Inr (converted_v0 s qids q)"
    if mem: "q \<in> set (shuffled_ids s (examQuestions_v0 srcs))" for q
  proof -
    obtain e t n where q: "q = (e, t, n)" by (cases q) auto
    have "set (shuffled_ids s (examQuestions_v0 srcs)) = set (examQuestions_v0 srcs)"
      using len by (rule seeded.set_shuffle)
    with mem q obtain ids where "obj_get qids e = Some ids" "n < length ids" "length ids < 2 ^ 31"
      using well_formed_v0_ids [OF assms] by blast
    then show ?thesis
      using seeded.length_shuffle [of ids s]
      by (simp add: q convert_question_v0_def converted_v0_def get nth_opt_def Let_def)
  qed
  then have "map_result (convert_question_v0 qids sq) (shuffled_ids s (examQuestions_v0 srcs))
      = Inr (map (converted_v0 s qids) (shuffled_ids s (examQuestions_v0 srcs)))"
    by (rule map_result_total)
  moreover have "shuffle_entries s (obj_entries qids) [] = Inr sq"
    using assms unfolding sq_def by (intro shuffle_entries_total) (auto simp: well_formed_v0_def list_all_iff)
  ultimately show ?thesis
    by (simp add: convertExamQuestionSourcesV0V2_def shuffled_or_raise_total [OF len])
qed

lemma distinct_examQuestions_v0:
  "distinct (map exercise_id srcs) \<Longrightarrow> distinct (map (\<lambda>(e, t, n). (e, n)) (examQuestions_v0 srcs))"
proof (induction srcs)
  case (Cons v srcs)
  have d: "distinct (question_numbers (number_of_questions v))"
    by (simp add: question_numbers_def split: option.splits)
  have no: "(exercise_id v, t, n) \<notin> set (examQuestions_v0 srcs)" for t n
    using Cons.prems by (auto simp: mem_examQuestions_v0 image_iff)
  have "examQuestions_v0 (v # srcs)
      = map (\<lambda>n. (exercise_id v, title v, n)) (question_numbers (number_of_questions v)) @ examQuestions_v0 srcs"
    by (simp add: examQuestions_v0_def)
  moreover have "distinct (map (\<lambda>(e, t, n). (e, n)) (examQuestions_v0 srcs))"
    using Cons by simp
  ultimately show ?case
    using d no by (auto simp: comp_def distinct_map inj_on_def)
qed (simp add: examQuestions_v0_def)

lemma converted_v0_inj:
  assumes wf: "well_formed_v0 srcs qids"
  shows "inj_on ((\<lambda>q. (exercise_id q, question_id q)) \<circ> converted_v0 s qids) (set (examQuestions_v0 srcs))"
proof (rule inj_onI)
  fix p q assume p: "p \<in> set (examQuestions_v0 srcs)" and q: "q \<in> set (examQuestions_v0 srcs)"
    and eq: "((\<lambda>q. (exercise_id q, question_id q)) \<circ> converted_v0 s qids) p
      = ((\<lambda>q. (exercise_id q, question_id q)) \<circ> converted_v0 s qids) q"
  obtain e t n where p': "p = (e, t, n)" by (cases p) auto
  obtain e' t' n' where q': "q = (e', t', n')" by (cases q) auto
  from eq have [simp]: "e' = e" by (simp add: p' q' converted_v0_def blank_source_def Let_def)
  obtain ids where ids: "obj_get qids e = Some ids" "n < length ids" "distinct ids" "length ids < 2 ^ 31"
    using well_formed_v0_ids [OF wf] p p' by blast
  have n': "n' < length ids" using well_formed_v0_ids [OF wf] q q' ids(1) by fastforce
  have "length (shuffled_ids s ids) = length ids" using ids(4) by (rule seeded.length_shuffle)
  moreover have "distinct (shuffled_ids s ids)"
    using ids(3) seeded.distinct_shuffle [OF ids(4)] by simp
  moreover have "shuffled_ids s ids ! n = shuffled_ids s ids ! n'"
    using eq by (simp add: p' q' converted_v0_def ids(1) Let_def)
  ultimately have "n = n'" using ids(2) n' by (simp add: nth_eq_iff_index_eq)
  moreover have "t = t'"
  proof -
    from p p' q q' obtain v v' where "v \<in> set srcs" "v' \<in> set srcs" "exercise_id v = e" "exercise_id v' = e"
      "title v = t" "title v' = t'" by (auto simp: mem_examQuestions_v0)
    with wf show ?thesis by (auto simp: well_formed_v0_def distinct_map inj_on_def)
  qed
  ultimately show "p = q" by (simp add: p' q')
qed

lemma converted_v0_place:
  assumes wf: "well_formed_v0 srcs qids" and mem: "x \<in> set (examQuestions_v0 srcs)"
  shows "\<exists>ids k. obj_get qids (exercise_id (converted_v0 s qids x)) = Some ids \<and> k < length ids
      \<and> question_id (converted_v0 s qids x) = Some (ids ! k)
      \<and> counter_in_exercise (converted_v0 s qids x) = Some (int k + 1)"
proof -
  obtain e t n where x: "x = (e, t, n)" by (cases x) auto
  with mem obtain ids where ids: "obj_get qids e = Some ids" "n < length ids" "length ids < 2 ^ 31"
    using well_formed_v0_ids [OF wf] by blast
  have "shuffled_ids s ids ! n \<in> set ids"
    using ids seeded.set_shuffle [of ids s] seeded.length_shuffle [of ids s] by (metis nth_mem)
  from find_index_first [OF this] obtain k where
    "k < length ids" "find_index (\<lambda>i. Some i = Some (shuffled_ids s ids ! n)) ids = int k"
    "ids ! k = shuffled_ids s ids ! n" by blast
  with ids show ?thesis by (auto simp: x converted_v0_def blank_source_def Let_def)
qed

section \<open>Later versions\<close>

abbreviation ids_of :: "question_source \<Rightarrow> string \<times> string option" where
  "ids_of q \<equiv> (exercise_id q, question_id q)"

lemma ids_annotate_from: "map ids_of (annotate_from m srcs) = map ids_of srcs"
  by (induction srcs arbitrary: m) (simp_all add: Let_def)

lemma ids_convert_v1: "map ids_of (convertExamQuestionSourcesV1V2 srcs) = map ids_of srcs"
  by (simp add: convertExamQuestionSourcesV1V2_def annotateQuestionSourcesWithCounter_def ids_annotate_from)

definition with_item :: "string \<times> string option \<Rightarrow> string \<times> string option \<times> string option" where
  "with_item p = (fst p, snd p, Some (fst p @ '':'' @ show_option (snd p)))"

lemma ids_annotate_item:
  "map (\<lambda>q. (exercise_id q, question_id q, item q)) (annotateQuestionsWithItem qs)
     = map with_item (map ids_of qs)"
  by (simp add: annotateQuestionsWithItem_def with_item_def)

lemma convert_items:
  assumes "data_model_version ex \<noteq> 0"
  shows "\<exists>res. convertExamQuestionSources sc ex nodes = Inr res
     \<and> map (\<lambda>q. (exercise_id q, question_id q, item q)) res = map with_item (map ids_of (question_sources ex))"
  using assms ids_annotate_item ids_convert_v1
  by (auto simp: convertExamQuestionSources_def simp del: map_map)

lemma shuffled_no_seed_error: "shuffled_or_raise xs s \<noteq> Inl missing_seed"
  by (simp add: shuffled_or_raise_def undefined_property_def missing_seed_def split: option.splits)

lemma bind_result_Inl: "bind_result r f = Inl e \<longleftrightarrow> r = Inl e \<or> (\<exists>x. r = Inr x \<and> f x = Inl e)"
  by (cases r) auto

lemma shuffle_entries_no_seed_error: "shuffle_entries s es acc \<noteq> Inl missing_seed"
  by (induction es arbitrary: acc) (auto simp: bind_result_Inl shuffled_no_seed_error)

lemma convert_questions_no_seed_error: "map_result (convert_question_v0 a b) qs \<noteq> Inl missing_seed"
proof (induction qs)
  case (Cons q qs)
  have "convert_question_v0 a b q \<noteq> Inl missing_seed"
    by (simp add: convert_question_v0_def undefined_property_def missing_seed_def Let_def
      split: prod.splits option.splits)
  with Cons show ?case by (simp add: bind_result_Inl)
qed simp

lemma not_seed_error:
  "convertExamQuestionSources sc ex (Some nodes) = Inl missing_seed
   \<longleftrightarrow> data_model_version ex = 0 \<and> seed ex = None"
  by (auto simp: convertExamQuestionSources_def convertExamQuestionSourcesV0V2_def Let_def
    bind_result_Inl shuffled_no_seed_error shuffle_entries_no_seed_error convert_questions_no_seed_error
    split: option.splits)

section \<open>Properties\<close>

text \<open>
  C1. The seeded shuffle of version 0 quizzes returns a permutation of the array, for every
  integer seed and every array shorter than \<open>2 ^ 31\<close>: the index computed from the generator
  through double arithmetic and 32-bit truncation never leaves the array.
\<close>

theorem seededShuffle_is_permutation:
  assumes "length arr < 2 ^ 31"
  shows "\<exists>ys. seededShuffle arr s = Some ys \<and> mset ys = mset arr \<and> length ys = length arr
     \<and> (distinct arr \<longrightarrow> distinct ys)"
proof -
  from seededShuffle_permutes [OF assms] obtain ys where "seededShuffle arr s = Some ys" "mset ys = mset arr" by blast
  moreover from this have "length ys = length arr" "distinct arr \<longrightarrow> distinct ys"
    using seeded.length_shuffle [OF assms, of s] seeded.distinct_shuffle [OF assms, of s] by simp_all
  ultimately show ?thesis by blast
qed

lemma seededShuffle_witness:
  "\<exists>ys. seededShuffle [1, 2, 3 :: nat] (-7) = Some ys \<and> mset ys = {#1, 2, 3#} \<and> length ys = 3 \<and> distinct ys"
  using seededShuffle_is_permutation [of "[1, 2, 3 :: nat]" "-7"] by auto

text \<open>
  C2. Converting a well-formed version 0 quiz raises nothing and yields exactly one question per
  pair of an exercise and a number below its \<open>number_of_questions\<close>; no two have the same
  exercise and question; every question is one of its exercise's, and its counter is its
  one-based place among them.
\<close>

theorem convert_v0_correct:
  assumes "well_formed_v0 srcs qids"
  shows "\<exists>res. convertExamQuestionSourcesV0V2 srcs s qids = Inr res
     \<and> mset (map exercise_id res) = mset (map (\<lambda>(e, t, n). e) (examQuestions_v0 srcs))
     \<and> distinct (map (\<lambda>q. (exercise_id q, question_id q)) res)
     \<and> (\<forall>q \<in> set res. \<exists>ids k. obj_get qids (exercise_id q) = Some ids \<and> k < length ids
          \<and> question_id q = Some (ids ! k) \<and> counter_in_exercise q = Some (int k + 1))"
proof -
  let ?qs = "shuffled_ids s (examQuestions_v0 srcs)"
  have len: "length (examQuestions_v0 srcs) < 2 ^ 31" and d0: "distinct (map exercise_id srcs)"
    using assms by (simp_all add: well_formed_v0_def)
  have m: "mset ?qs = mset (examQuestions_v0 srcs)" using len by (rule seeded.permutes)
  then have st: "set ?qs = set (examQuestions_v0 srcs)" by (metis set_mset_mset)
  have "distinct (examQuestions_v0 srcs)"
    using distinct_examQuestions_v0 [OF d0] by (simp add: distinct_map)
  then have "distinct ?qs" using m by (metis mset_eq_imp_distinct_iff)
  then have "distinct (map (\<lambda>q. (exercise_id q, question_id q)) (map (converted_v0 s qids) ?qs))"
    using converted_v0_inj [OF assms, of s] st by (simp add: distinct_map)
  moreover have "map exercise_id (map (converted_v0 s qids) ?qs) = map (\<lambda>(e, t, n). e) ?qs"
    by (simp add: converted_v0_def blank_source_def Let_def split_beta)
  then have "mset (map exercise_id (map (converted_v0 s qids) ?qs)) = mset (map (\<lambda>(e, t, n). e) (examQuestions_v0 srcs))"
    using m by (metis mset_map)
  moreover have "\<exists>ids k. obj_get qids (exercise_id q) = Some ids \<and> k < length ids
      \<and> question_id q = Some (ids ! k) \<and> counter_in_exercise q = Some (int k + 1)"
    if "q \<in> set (map (converted_v0 s qids) ?qs)" for q
    using that converted_v0_place [OF assms, of _ s] st by auto
  ultimately show ?thesis using convert_v0_total [OF assms, of s] by blast
qed

lemma convert_v0_witness:
  "\<exists>res. convertExamQuestionSourcesV0V2 [(blank_source ''e'')\<lparr>number_of_questions := Some 2\<rparr>] 5
       [(''e'', [''a'', ''b'', ''c''])] = Inr res \<and> mset (map exercise_id res) = {#''e'', ''e''#}
     \<and> distinct (map (\<lambda>q. (exercise_id q, question_id q)) res)"
proof -
  have e: "examQuestions_v0 [(blank_source ''e'')\<lparr>number_of_questions := Some 2\<rparr>] = [(''e'', None, 0), (''e'', None, 1)]"
    by code_simp
  have "well_formed_v0 [(blank_source ''e'')\<lparr>number_of_questions := Some 2\<rparr>] [(''e'', [''a'', ''b'', ''c''])]"
    unfolding well_formed_v0_def e
    by (simp add: obj_wf_def obj_entries_def obj_keys_def is_index_def obj_get_def blank_source_def)
  from convert_v0_correct [OF this, of 5, unfolded e] show ?thesis by simp blast
qed

text \<open>
  Annotating questions with counters numbers the questions of each exercise \<open>1, 2, 3, ...\<close>
  in the order they come, and changes nothing else.
\<close>

theorem annotate_counts_occurrences:
  "annotateQuestionSourcesWithCounter srcs
     = map (\<lambda>i. (srcs ! i)\<lparr>counter_in_exercise :=
         Some (int (count_list (map exercise_id (take (Suc i) srcs)) (exercise_id (srcs ! i))))\<rparr>) [0..<length srcs]"
  by (intro nth_equalityI)
    (simp_all add: annotateQuestionSourcesWithCounter_def annotate_from_nth)

text \<open>
  C4. The conversion raises its two documented errors exactly for a version 0 quiz without nodes
  or without a seed.  For every version but 0 it raises nothing, whatever nodes are passed, and
  keeps the order and the ids of the questions.  Whenever it returns questions, of any version, the
  item of each is \<open>exercise:question\<close>.  The order of a version 0 quiz, which is shuffled, is the
  subject of \<open>convert_v0_correct\<close>.
\<close>

theorem convert_errors_and_items:
  "(data_model_version ex = 0 \<longleftrightarrow> convertExamQuestionSources sc ex None = Inl missing_nodes)
   \<and> (data_model_version ex = 0 \<and> seed ex = None \<longleftrightarrow>
       convertExamQuestionSources sc ex (Some nodes) = Inl missing_seed)
   \<and> (data_model_version ex = 0 \<or>
       (\<exists>res. convertExamQuestionSources sc ex nodes' = Inr res
         \<and> map (\<lambda>q. (exercise_id q, question_id q, item q)) res
           = map (\<lambda>q. (exercise_id q, question_id q, Some (exercise_id q @ '':'' @ show_option (question_id q))))
               (question_sources ex)))
   \<and> (case convertExamQuestionSources sc ex nodes' of
        Inr res \<Rightarrow> list_all (\<lambda>q. item q = Some (exercise_id q @ '':'' @ show_option (question_id q))) res
      | Inl _ \<Rightarrow> True)"
proof -
  have "data_model_version ex = 0 \<longleftrightarrow> convertExamQuestionSources sc ex None = Inl missing_nodes"
    by (simp add: convertExamQuestionSources_def)
  moreover have "list_all (\<lambda>q. item q = Some (exercise_id q @ '':'' @ show_option (question_id q))) (annotateQuestionsWithItem qs)" for qs
    by (simp add: annotateQuestionsWithItem_def list_all_iff)
  then have "case convertExamQuestionSources sc ex nodes' of
        Inr res \<Rightarrow> list_all (\<lambda>q. item q = Some (exercise_id q @ '':'' @ show_option (question_id q))) res
      | Inl _ \<Rightarrow> True"
    by (auto simp: convertExamQuestionSources_def Let_def bind_result_Inr split: sum.splits option.splits)
  ultimately show ?thesis
    using not_seed_error [of sc ex nodes] convert_items [of ex sc nodes']
    by (auto simp: with_item_def comp_def)
qed

text \<open>
  The report of a version 0 quiz that has no seed never arrives: the promise is neither
  resolved nor rejected when the conversion raises, although both requests succeeded.
\<close>

theorem report_without_seed_never_settles:
  "getExamReport sc (Inr \<lparr>data_model_version = 0, seed = None, question_sources = srcs\<rparr>)
     (\<lambda>_. Inr nodes) t q i = Pending"
  by (simp add: getExamReport_def convertExamQuestionSources_def)

end
