(* ===== verification/Question_Selection.thy ===== *)
theory Question_Selection
  imports Exam_Conversion
begin

text \<open>
  \<open>kolibri/plugins/coach/assets/src/modules/examCreation/selectQuestions.js\<close>: the choice of
  the questions of a new quiz.  \<open>sh_idx\<close> and \<open>sh_ids\<close> are \<open>shuffled(items, seed)\<close> of
  \<open>kolibri.utils.shuffled\<close> at the quiz's seed (a third-party Knuth shuffle) on the exercise
  indices and on the question ids.  The loop may not end when there are more arrays of
  questions than exercises, so it is a partial function.
\<close>

definition getTotalOfQuestions :: "'q list list \<Rightarrow> nat" where
  "getTotalOfQuestions arrays = sum_list (map length arrays)"

definition selected_question :: "string list \<Rightarrow> string list \<Rightarrow> nat \<Rightarrow> string \<Rightarrow> question_source" where
  "selected_question exerciseIds exerciseTitles ri q =
     (blank_source (show_option (nth_opt exerciseIds ri)))
       \<lparr>question_id := Some q, title := nth_opt exerciseTitles ri\<rparr>"

partial_function (option) select_loop ::
  "nat \<Rightarrow> string list \<Rightarrow> string list \<Rightarrow> nat list \<Rightarrow> string list list \<Rightarrow> nat \<Rightarrow> question_source list
     \<Rightarrow> question_source list js_result option" where
  "select_loop numQuestions ids titles randomIndexes arrays i out =
     (if length out < numQuestions then
        (case nth_opt randomIndexes i of
           None \<Rightarrow> Some (Inl undefined_property)
         | Some ri \<Rightarrow>
             (case nth_opt arrays ri of
                None \<Rightarrow> Some (Inl undefined_property)
              | Some a \<Rightarrow>
                  (if 0 < length a then
                     select_loop numQuestions ids titles randomIndexes
                       (arrays[ri := butlast a]) (Suc i mod length ids)
                       (if find (\<lambda>q. question_id q = Some (last a)) out = None
                        then out @ [selected_question ids titles ri (last a)] else out)
                   else if getTotalOfQuestions arrays = 0 then Some (Inr out)
                   else select_loop numQuestions ids titles randomIndexes
                       arrays (Suc i mod length ids) out)))
      else Some (Inr out))"

text \<open>lodash's \<open>sortBy\<close> on a string property puts the undefined ones last.\<close>

definition title_key :: "question_source \<Rightarrow> nat list" where
  "title_key q = (case title q of Some t \<Rightarrow> 0 # map of_char t | None \<Rightarrow> [1])"

definition selectQuestions ::
  "(nat list \<Rightarrow> nat list) \<Rightarrow> (string list \<Rightarrow> string list) \<Rightarrow> nat \<Rightarrow> string list \<Rightarrow> string list
     \<Rightarrow> string list list \<Rightarrow> question_source list js_result option" where
  "selectQuestions sh_idx sh_ids numQuestions exerciseIds exerciseTitles questionIdArrays =
     (case select_loop numQuestions exerciseIds exerciseTitles (sh_idx [0..<length exerciseIds])
             (map sh_ids questionIdArrays) 0 [] of
        None \<Rightarrow> None
      | Some r \<Rightarrow> Some (bind_result r (\<lambda>out.
          Inr (sort_key title_key (annotateQuestionSourcesWithCounter out)))))"

section \<open>The loop ends and takes every question it can\<close>

text \<open>
  The state of the loop: what was taken and what is left make up all the questions, nothing is
  taken twice, and every taken question comes from its exercise's array.
\<close>

definition selection_inv ::
  "nat \<Rightarrow> string list \<Rightarrow> nat list \<Rightarrow> string list list \<Rightarrow> string list list \<Rightarrow> nat \<Rightarrow> question_source list \<Rightarrow> bool" where
  "selection_inv n ids ridx all arrays i out \<longleftrightarrow>
     mset ridx = mset [0..<length ids] \<and> length all = length ids \<and> length arrays = length ids
     \<and> i < length ids \<and> length out \<le> n \<and> distinct (map question_id out)
     \<and> (\<forall>r < length ids. set (arrays ! r) \<subseteq> set (all ! r))
     \<and> (\<forall>q \<in> set out. \<exists>r < length ids. \<exists>x \<in> set (all ! r). exercise_id q = ids ! r \<and> question_id q = Some x)
     \<and> question_id ` set out \<union> Some ` (\<Union> (set ` set arrays)) = Some ` (\<Union> (set ` set all))"

definition selection_done :: "nat \<Rightarrow> string list \<Rightarrow> string list list \<Rightarrow> question_source list \<Rightarrow> bool" where
  "selection_done n ids all out \<longleftrightarrow>
     length out = min n (card (\<Union> (set ` set all))) \<and> distinct (map question_id out)
     \<and> (\<forall>q \<in> set out. \<exists>r < length ids. \<exists>x \<in> set (all ! r). exercise_id q = ids ! r \<and> question_id q = Some x)"

lemma inv_length_out:
  assumes "selection_inv n ids ridx all arrays i out"
  shows "length out = card (question_id ` set out)"
proof -
  have "distinct (map question_id out)" using assms by (simp add: selection_inv_def)
  then show ?thesis using distinct_card by fastforce
qed

lemma inv_taken:
  "selection_inv n ids ridx all arrays i out \<Longrightarrow>
     question_id ` set out \<union> Some ` (\<Union> (set ` set arrays)) = Some ` (\<Union> (set ` set all))"
  unfolding selection_inv_def by (elim conjE) assumption

lemma done_when_enough:
  assumes "selection_inv n ids ridx all arrays i out" and "\<not> length out < n"
  shows "selection_done n ids all out"
proof -
  have "question_id ` set out \<subseteq> Some ` (\<Union> (set ` set all))"
    using inv_taken [OF assms(1)] by blast
  then have "length out \<le> card (\<Union> (set ` set all))"
    unfolding inv_length_out [OF assms(1)]
    by (metis (no_types, lifting) List.finite_set card_image card_mono finite_UN finite_imageI inj_Some)
  with assms show ?thesis by (auto simp: selection_inv_def selection_done_def)
qed

lemma done_when_empty:
  assumes "selection_inv n ids ridx all arrays i out" and "getTotalOfQuestions arrays = 0"
  shows "selection_done n ids all out"
proof -
  have "\<Union> (set ` set arrays) = {}" using assms(2) by (auto simp: getTotalOfQuestions_def)
  then have "question_id ` set out = Some ` (\<Union> (set ` set all))"
    using inv_taken [OF assms(1)] by (metis image_empty sup_bot.right_neutral)
  then have "length out = card (\<Union> (set ` set all))"
    using inv_length_out [OF assms(1)] by (simp add: card_image)
  with assms show ?thesis by (auto simp: selection_inv_def selection_done_def)
qed

lemma inv_index:
  assumes "selection_inv n ids ridx all arrays i out"
  shows "nth_opt ridx i = Some (ridx ! i)" and "ridx ! i < length ids"
    and "nth_opt arrays (ridx ! i) = Some (arrays ! (ridx ! i))"
proof -
  have m: "mset ridx = mset [0..<length ids]" and i: "i < length ids"
    and la: "length arrays = length ids"
    using assms by (simp_all add: selection_inv_def)
  have "length ridx = length ids" using m by (metis length_upt minus_nat.diff_0 size_mset)
  moreover have "set ridx = {0..<length ids}" using m by (metis set_mset_mset set_upt)
  ultimately show r: "nth_opt ridx i = Some (ridx ! i)" "ridx ! i < length ids"
    using i by (auto simp: nth_opt_def dest: nth_mem)
  with la show "nth_opt arrays (ridx ! i) = Some (arrays ! (ridx ! i))" by (simp add: nth_opt_def)
qed

lemma inv_skip:
  "selection_inv n ids ridx all arrays i out \<Longrightarrow> selection_inv n ids ridx all arrays (Suc i mod length ids) out"
  by (auto simp: selection_inv_def intro!: mod_less_divisor)

lemma total_butlast:
  assumes "r < length arrays" and "arrays ! r \<noteq> []"
  shows "getTotalOfQuestions (arrays[r := butlast (arrays ! r)]) < getTotalOfQuestions arrays"
proof -
  have "arrays = take r arrays @ arrays ! r # drop (Suc r) arrays"
    using assms(1) by (simp add: id_take_nth_drop)
  then have "sum_list (map length arrays)
      = sum_list (map length (take r arrays)) + length (arrays ! r) + sum_list (map length (drop (Suc r) arrays))"
    by (metis append.simps map_append list.simps(9) sum_list.append sum_list.Cons add.assoc)
  with assms show ?thesis
    by (simp add: getTotalOfQuestions_def upd_conv_take_nth_drop)
qed

lemma last_butlast_set: "a \<noteq> [] \<Longrightarrow> set a = insert (last a) (set (butlast a))"
  by (induction a) auto

lemma Union_set_update:
  assumes "r < length arrays" and "arrays ! r \<noteq> []"
  shows "insert (last (arrays ! r)) (\<Union> (set ` set (arrays[r := butlast (arrays ! r)]))) = \<Union> (set ` set arrays)"
proof -
  have "arrays = take r arrays @ arrays ! r # drop (Suc r) arrays"
    using assms(1) by (simp add: id_take_nth_drop)
  then have "\<Union> (set ` set arrays) = \<Union> (set ` set (take r arrays)) \<union> set (arrays ! r) \<union> \<Union> (set ` set (drop (Suc r) arrays))"
    by (metis UN_insert UN_Un list.simps(15) set_append sup_assoc)
  with assms show ?thesis by (auto simp: upd_conv_take_nth_drop last_butlast_set)
qed

definition taken :: "string list \<Rightarrow> string list \<Rightarrow> nat \<Rightarrow> string \<Rightarrow> question_source list \<Rightarrow> question_source list" where
  "taken ids titles r x out =
     (if find (\<lambda>q. question_id q = Some x) out = None then out @ [selected_question ids titles r x] else out)"

lemma set_taken: "question_id ` set (taken ids titles r x out) = insert (Some x) (question_id ` set out)"
  by (force simp: taken_def selected_question_def find_None_iff find_Some_iff dest: nth_mem)

lemma distinct_taken: "distinct (map question_id out) \<Longrightarrow> distinct (map question_id (taken ids titles r x out))"
  by (auto simp: taken_def selected_question_def find_None_iff)

lemma inv_take:
  assumes inv: "selection_inv n ids ridx all arrays i out" and "length out < n"
    and ne: "arrays ! (ridx ! i) \<noteq> []"
  shows "selection_inv n ids ridx all (arrays[ridx ! i := butlast (arrays ! (ridx ! i))])
     (Suc i mod length ids) (taken ids titles (ridx ! i) (last (arrays ! (ridx ! i))) out)"
proof -
  let ?r = "ridx ! i"
  let ?x = "last (arrays ! ?r)"
  have r: "?r < length ids" using inv by (rule inv_index(2))
  have la: "length arrays = length ids" and i: "i < length ids" and d: "distinct (map question_id out)"
    and sub: "\<And>r. r < length ids \<Longrightarrow> set (arrays ! r) \<subseteq> set (all ! r)"
    and own: "\<forall>q \<in> set out. \<exists>r < length ids. \<exists>x \<in> set (all ! r). exercise_id q = ids ! r \<and> question_id q = Some x"
    using inv by (simp_all add: selection_inv_def)
  have x: "?x \<in> set (all ! ?r)" using sub [OF r] ne last_in_set by blast
  have "set (arrays[?r := butlast (arrays ! ?r)] ! k) \<subseteq> set (all ! k)" if "k < length ids" for k
    using sub [OF that] la r that by (cases "k = ?r") (auto dest: in_set_butlastD)
  moreover have "\<forall>q \<in> set (taken ids titles ?r ?x out). \<exists>r < length ids. \<exists>x \<in> set (all ! r). exercise_id q = ids ! r \<and> question_id q = Some x"
    using own r x
    by (auto simp: taken_def selected_question_def nth_opt_def show_option_def blank_source_def)
  moreover have "question_id ` set (taken ids titles ?r ?x out) \<union> Some ` (\<Union> (set ` set (arrays[?r := butlast (arrays ! ?r)])))
      = Some ` (\<Union> (set ` set all))"
    using inv_taken [OF inv] Union_set_update [of ?r arrays] r la ne
    by (metis (no_types, lifting) Un_insert_left Un_insert_right image_insert set_taken)
  moreover have "length (taken ids titles ?r ?x out) \<le> n" using assms(2) by (simp add: taken_def)
  moreover have "Suc i mod length ids < length ids" using i by (intro mod_less_divisor) auto
  ultimately show ?thesis
    using inv d la unfolding selection_inv_def
    by (elim conjE) (intro conjI allI impI; (assumption | simp add: distinct_taken)?)
qed

lemma some_array_left:
  assumes "selection_inv n ids ridx all arrays i out" and "getTotalOfQuestions arrays \<noteq> 0"
  shows "\<exists>k. arrays ! (ridx ! ((i + k) mod length ids)) \<noteq> []"
proof -
  obtain a where "a \<in> set arrays" "a \<noteq> []"
    using assms(2) that by (auto simp: getTotalOfQuestions_def)
  then obtain r where r: "r < length arrays" "arrays ! r \<noteq> []" by (metis in_set_conv_nth)
  have m: "mset ridx = mset [0..<length ids]" and la: "length arrays = length ids" and i: "i < length ids"
    using assms(1) by (simp_all add: selection_inv_def)
  have "length ridx = length ids" using m by (metis length_upt minus_nat.diff_0 size_mset)
  moreover have "r \<in> set ridx" using m r la by (metis atLeastLessThan_iff set_mset_mset set_upt zero_le)
  ultimately obtain j where j: "j < length ids" "ridx ! j = r" by (metis in_set_conv_nth)
  have "(i + (length ids - i + j)) mod length ids = j" using i j by simp
  with j r(2) show ?thesis by metis
qed

lemma select_loop_skips:
  assumes "\<And>i. selection_inv n ids ridx all arrays i out \<Longrightarrow> arrays ! (ridx ! i) \<noteq> []
      \<Longrightarrow> \<exists>res. select_loop n ids titles ridx arrays i out = Some (Inr res) \<and> selection_done n ids all res"
    and "selection_inv n ids ridx all arrays i out" and "length out < n" and "getTotalOfQuestions arrays \<noteq> 0"
    and "arrays ! (ridx ! ((i + k) mod length ids)) \<noteq> []"
  shows "\<exists>res. select_loop n ids titles ridx arrays i out = Some (Inr res) \<and> selection_done n ids all res"
  using assms(2,5)
proof (induction k arbitrary: i)
  case 0
  then show ?case using assms(1) by (simp add: selection_inv_def)
next
  case (Suc k)
  show ?case
  proof (cases "arrays ! (ridx ! i) = []")
    case True
    have "(Suc i mod length ids + k) mod length ids = (i + Suc k) mod length ids"
      by (simp add: mod_add_left_eq)
    with Suc.IH [OF inv_skip [OF Suc.prems(1)]] Suc.prems(2)
    have "\<exists>res. select_loop n ids titles ridx arrays (Suc i mod length ids) out = Some (Inr res) \<and> selection_done n ids all res"
      by simp
    with True assms(3,4) show ?thesis
      by (subst select_loop.simps) (simp add: inv_index [OF Suc.prems(1)])
  qed (use assms(1) Suc.prems(1) in blast)
qed

lemma select_loop_total:
  assumes "selection_inv n ids ridx all arrays i out"
  shows "\<exists>res. select_loop n ids titles ridx arrays i out = Some (Inr res) \<and> selection_done n ids all res"
  using assms
proof (induction "getTotalOfQuestions arrays" arbitrary: arrays i out rule: less_induct)
  case less
  show ?case
  proof (cases "length out < n \<and> getTotalOfQuestions arrays \<noteq> 0")
    case True
    then have lt: "length out < n" and left: "getTotalOfQuestions arrays \<noteq> 0" by auto
    have step: "\<exists>res. select_loop n ids titles ridx arrays i out = Some (Inr res) \<and> selection_done n ids all res"
      if inv: "selection_inv n ids ridx all arrays i out" and ne: "arrays ! (ridx ! i) \<noteq> []" for i
    proof -
      have "ridx ! i < length arrays" using inv_index(2) [OF inv] inv by (simp add: selection_inv_def)
      then have "getTotalOfQuestions (arrays[ridx ! i := butlast (arrays ! (ridx ! i))]) < getTotalOfQuestions arrays"
        using ne by (rule total_butlast)
      from less.hyps [OF this inv_take [OF inv lt ne]] show ?thesis
        using lt ne by (subst select_loop.simps) (simp add: inv_index [OF inv] taken_def)
    qed
    obtain k where "arrays ! (ridx ! ((i + k) mod length ids)) \<noteq> []"
      using some_array_left [OF less.prems left] by blast
    from select_loop_skips [OF step less.prems lt left this] show ?thesis by blast
  next
    case False
    then show ?thesis
    proof (cases "length out < n")
      case lt: True
      with False have z: "getTotalOfQuestions arrays = 0" by simp
      then have "\<forall>a \<in> set arrays. a = []" by (auto simp: getTotalOfQuestions_def)
      moreover have "ridx ! i < length arrays"
        using inv_index(2) [OF less.prems] less.prems by (simp add: selection_inv_def)
      ultimately have "arrays ! (ridx ! i) = []" by simp
      with z lt done_when_empty [OF less.prems z] show ?thesis
        by (subst select_loop.simps) (simp add: inv_index [OF less.prems])
    next
      case enough: False
      with done_when_enough [OF less.prems] show ?thesis by (subst select_loop.simps) simp
    qed
  qed
qed

lemma selection_inv_initial:
  assumes "length arrays = length ids" and "ids \<noteq> []" and "mset ridx = mset [0..<length ids]"
  shows "selection_inv n ids ridx arrays arrays 0 []"
  using assms by (simp add: selection_inv_def)

text \<open>What the caller gets: the questions by title, each with its counter.\<close>

definition chosen_well :: "nat \<Rightarrow> string list \<Rightarrow> string list list \<Rightarrow> question_source list \<Rightarrow> bool" where
  "chosen_well n ids arrays res \<longleftrightarrow>
     length res = min n (card (\<Union> (set ` set arrays))) \<and> distinct (map question_id res)
     \<and> sorted (map title_key res)
     \<and> (\<forall>q \<in> set res. \<exists>r < length ids. \<exists>x \<in> set (arrays ! r). exercise_id q = ids ! r \<and> question_id q = Some x)"

lemma question_ids_annotated:
  "map question_id (annotate_from m srcs) = map question_id srcs
   \<and> map exercise_id (annotate_from m srcs) = map exercise_id srcs"
  by (induction srcs arbitrary: m) (simp_all add: Let_def)

lemma annotated_from:
  assumes "q \<in> set (annotate_from m srcs)"
  shows "\<exists>p \<in> set srcs. exercise_id q = exercise_id p \<and> question_id q = question_id p"
  using assms by (induction srcs arbitrary: m) (auto simp: Let_def)

lemma chosen_well_sorted:
  assumes "selection_done n ids all out"
  shows "chosen_well n ids all (sort_key title_key (annotateQuestionSourcesWithCounter out))"
proof -
  let ?a = "annotateQuestionSourcesWithCounter out"
  have "distinct (map question_id ?a)"
    using assms question_ids_annotated [of "[]" out]
    by (simp add: annotateQuestionSourcesWithCounter_def selection_done_def)
  then have "distinct (map question_id (sort_key title_key ?a))"
    by (metis mset_eq_imp_distinct_iff mset_map mset_sort)
  then show ?thesis
    using assms annotated_from
    unfolding chosen_well_def selection_done_def annotateQuestionSourcesWithCounter_def
    by (fastforce simp: annotateQuestionSourcesWithCounter_def)
qed

lemma selectQuestions_chosen:
  assumes "length arrays = length ids" and "ids \<noteq> []"
    and "mset (sh_idx [0..<length ids]) = mset [0..<length ids]"
    and "\<And>a. a \<in> set arrays \<Longrightarrow> mset (sh_ids a) = mset a"
  shows "\<exists>res. selectQuestions sh_idx sh_ids n ids titles arrays = Some (Inr res) \<and> chosen_well n ids arrays res"
proof -
  let ?all = "map sh_ids arrays"
  have sets: "\<And>a. a \<in> set arrays \<Longrightarrow> set (sh_ids a) = set a" using assms(4) by (metis set_mset_mset)
  obtain out where out: "select_loop n ids titles (sh_idx [0..<length ids]) ?all 0 [] = Some (Inr out)"
    and "selection_done n ids ?all out"
    using select_loop_total [OF selection_inv_initial [of ?all ids]] assms by fastforce
  then have "chosen_well n ids ?all (sort_key title_key (annotateQuestionSourcesWithCounter out))"
    by (intro chosen_well_sorted)
  moreover have "\<Union> (set ` set ?all) = \<Union> (set ` set arrays)" using sets by simp
  moreover have "set (?all ! r) = set (arrays ! r)" if "r < length ids" for r
    using that assms(1) sets by simp
  ultimately have "chosen_well n ids arrays (sort_key title_key (annotateQuestionSourcesWithCounter out))"
    unfolding chosen_well_def by (metis (no_types, lifting))
  then show ?thesis using out by (simp add: selectQuestions_def)
qed

text \<open>
  C3. Choosing the questions of a new quiz ends, whatever the shuffle, as long as there are
  exercises: it returns as many questions as were asked for, or every distinct one when there
  are fewer, without duplicates, each from its own exercise's array, sorted by title.
\<close>

theorem selectQuestions_correct:
  assumes "length arrays = length ids" and "ids \<noteq> []"
    and "mset (sh_idx [0..<length ids]) = mset [0..<length ids]"
    and "\<And>a. a \<in> set arrays \<Longrightarrow> mset (sh_ids a) = mset a"
  shows "\<exists>res. selectQuestions sh_idx sh_ids n ids titles arrays = Some (Inr res)
     \<and> length res = min n (card (\<Union> (set ` set arrays))) \<and> distinct (map question_id res)
     \<and> sorted (map title_key res)
     \<and> (\<forall>q \<in> set res. \<exists>r < length ids. \<exists>x \<in> set (arrays ! r). exercise_id q = ids ! r \<and> question_id q = Some x)"
  using selectQuestions_chosen [of arrays ids sh_idx sh_ids n titles, OF assms] unfolding chosen_well_def by blast

lemma selectQuestions_witness:
  "\<exists>res. selectQuestions rev rev 3 [''e1'', ''e2''] [''B'', ''A''] [[''a'', ''b''], [''b'', ''c'']] = Some (Inr res)
     \<and> length res = 3"
  using selectQuestions_correct [of "[[''a'', ''b''], [''b'', ''c'']]" "[''e1'', ''e2'']" rev rev 3 "[''B'', ''A'']"]
  by (auto simp: card_insert_if)

end
