(* ===== verification/Js_Value.thy ===== *)
theory Js_Value
  imports Js_Collections
begin

text \<open>
  JavaScript values as trees: what JSON can express, with \<open>undefined\<close>.  An array is the list of
  its own properties under their string keys, so that holes and named properties are kept.
  Conversions to a string and to a number, truthiness, and reading and writing a property are
  the language's.  Members inherited from a prototype are not looked up, and the identity of
  objects is not represented.
\<close>

datatype jsval =
    JUndef
  | JNull
  | JBool bool
  | JNum jsnum
  | JStr string
  | JArr "(string \<times> jsval) list"
  | JObj "(string \<times> jsval) list"

section \<open>Numbers as strings\<close>

fun ndigits :: "nat \<Rightarrow> nat" where
  "ndigits n = (if n = 0 then 0 else Suc (ndigits (n div 10)))"

declare ndigits.simps [simp del]

fun nat_digits :: "nat \<Rightarrow> string" where
  "nat_digits n = (if n < 10 then [char_of (48 + n)] else nat_digits (n div 10) @ [char_of (48 + n mod 10)])"

declare nat_digits.simps [simp del]

text \<open>\<open>Number::toString\<close>: the fewest digits that read back as the same double.\<close>

definition dec_expo :: "rat \<Rightarrow> int" where
  "dec_expo x = (if 1 \<le> x then int (ndigits (nat \<lfloor>x\<rfloor>)) else 1 - int (ndigits (nat (\<lceil>1 / x\<rceil> - 1))))"

definition shortest_digits :: "rat \<Rightarrow> int \<Rightarrow> string" where
  "shortest_digits x n =
     (let digits = (\<lambda>k. round_even (scale10 x (int k - n)));
          good = (\<lambda>k. fl64 (scale10 (of_int (digits k)) (n - int k)) = x)
      in case find good [1..<18] of
           Some k \<Rightarrow> nat_digits (nat (digits k))
         | None \<Rightarrow> nat_digits (nat (digits 17)))"

definition pos_string :: "rat \<Rightarrow> string" where
  "pos_string x =
     (let n = dec_expo x; ds = shortest_digits x n; k = int (length ds)
      in if k \<le> n \<and> n \<le> 21 then ds @ replicate (nat (n - k)) CHR ''0''
         else if 0 < n \<and> n \<le> 21 then take (nat n) ds @ ''.'' @ drop (nat n) ds
         else if -6 < n \<and> n \<le> 0 then ''0.'' @ replicate (nat (- n)) CHR ''0'' @ ds
         else (let e = n - 1; es = (if e < 0 then ''-'' else ''+'') @ nat_digits (nat \<bar>e\<bar>)
               in if k = 1 then ds @ ''e'' @ es else take 1 ds @ ''.'' @ drop 1 ds @ ''e'' @ es))"

definition num_string :: "jsnum \<Rightarrow> string" where
  "num_string n = (case n of
       NaN \<Rightarrow> ''NaN'' | PosInf \<Rightarrow> ''Infinity'' | NegInf \<Rightarrow> ''-Infinity''
     | Fin x \<Rightarrow> if x = 0 then ''0'' else if x < 0 then CHR ''-'' # pos_string (- x) else pos_string x)"

section \<open>Conversions\<close>

definition arr_length :: "'v jsobj \<Rightarrow> nat" where
  "arr_length m = foldr (\<lambda>e n. if is_index (fst e) then max (Suc (digits_val (fst e))) n else n) m 0"

definition arr_string :: "(string \<times> string) list \<Rightarrow> string" where
  "arr_string m = js_join '','' (map (\<lambda>i. case obj_get m (nat_digits i) of Some s \<Rightarrow> s | None \<Rightarrow> [])
     [0..<arr_length m])"

text \<open>\<open>String(v)\<close>.  Inside an array \<open>undefined\<close> and \<open>null\<close> are empty.\<close>

fun js_string :: "jsval \<Rightarrow> string" where
  "js_string JUndef = ''undefined''"
| "js_string JNull = ''null''"
| "js_string (JBool b) = (if b then ''true'' else ''false'')"
| "js_string (JNum n) = num_string n"
| "js_string (JStr s) = s"
| "js_string (JArr m) = arr_string (map (\<lambda>(k, v).
     (k, case v of JUndef \<Rightarrow> [] | JNull \<Rightarrow> [] | _ \<Rightarrow> js_string v)) m)"
| "js_string (JObj m) = ''[object Object]''"

definition js_number :: "jsval \<Rightarrow> jsnum" where
  "js_number v = (case v of
       JUndef \<Rightarrow> NaN | JNull \<Rightarrow> Fin 0 | JBool b \<Rightarrow> Fin (if b then 1 else 0)
     | JNum n \<Rightarrow> n | JStr s \<Rightarrow> to_number s | _ \<Rightarrow> to_number (js_string v))"

definition js_is_nan :: "jsval \<Rightarrow> bool" where
  "js_is_nan v \<longleftrightarrow> js_number v = NaN"

definition truthy :: "jsval \<Rightarrow> bool" where
  "truthy v \<longleftrightarrow> (case v of
       JUndef \<Rightarrow> False | JNull \<Rightarrow> False | JBool b \<Rightarrow> b | JNum n \<Rightarrow> n \<noteq> Fin 0 \<and> n \<noteq> NaN
     | JStr s \<Rightarrow> s \<noteq> [] | _ \<Rightarrow> True)"

definition js_or :: "jsval \<Rightarrow> jsval \<Rightarrow> jsval" where
  "js_or v w = (if truthy v then v else w)"

section \<open>Arithmetic\<close>

text \<open>The remainder of two doubles is exact; \<open>Math.round\<close> takes halves upwards.\<close>

definition num_rem :: "jsnum \<Rightarrow> jsnum \<Rightarrow> jsnum" where
  "num_rem m n = (case (m, n) of
       (Fin a, Fin b) \<Rightarrow> if b = 0 then NaN
         else Fin ((if a < 0 then -1 else 1) * (\<bar>a\<bar> - \<bar>b\<bar> * of_int \<lfloor>\<bar>a\<bar> / \<bar>b\<bar>\<rfloor>))
     | (Fin a, PosInf) \<Rightarrow> Fin a | (Fin a, NegInf) \<Rightarrow> Fin a
     | _ \<Rightarrow> NaN)"

definition math_floor :: "jsnum \<Rightarrow> jsnum" where
  "math_floor n = (case n of Fin a \<Rightarrow> Fin (of_int \<lfloor>a\<rfloor>) | _ \<Rightarrow> n)"

definition math_round :: "jsnum \<Rightarrow> jsnum" where
  "math_round n = (case n of Fin a \<Rightarrow> Fin (of_int \<lfloor>a + 1 / 2\<rfloor>) | _ \<Rightarrow> n)"

text \<open>\<open>s == v\<close> for a string \<open>s\<close>.\<close>

definition string_loose_eq :: "string \<Rightarrow> jsval \<Rightarrow> bool" where
  "string_loose_eq s v = (case v of
       JUndef \<Rightarrow> False | JNull \<Rightarrow> False | JStr t \<Rightarrow> s = t
     | JNum n \<Rightarrow> n \<noteq> NaN \<and> to_number s = n
     | JBool b \<Rightarrow> to_number s = js_number v
     | _ \<Rightarrow> s = js_string v)"

section \<open>Properties of a value\<close>

text \<open>\<open>Object.prototype.hasOwnProperty\<close> and the value found.\<close>

definition js_own :: "jsval \<Rightarrow> string \<Rightarrow> jsval option" where
  "js_own v k = (case v of
       JStr s \<Rightarrow> (if is_index k \<and> digits_val k < length s then Some (JStr [s ! digits_val k])
                 else if k = ''length'' then Some (JNum (Fin (of_nat (length s)))) else None)
     | JArr m \<Rightarrow> (if k = ''length'' then Some (JNum (Fin (of_nat (arr_length m)))) else obj_get m k)
     | JObj m \<Rightarrow> obj_get m k
     | _ \<Rightarrow> None)"

definition js_prop :: "jsval \<Rightarrow> string \<Rightarrow> jsval" where
  "js_prop v k = (case js_own v k of Some w \<Rightarrow> w | None \<Rightarrow> JUndef)"

definition nullish :: "jsval \<Rightarrow> bool" where
  "nullish v \<longleftrightarrow> v = JUndef \<or> v = JNull"

text \<open>\<open>v[k]\<close>, which raises on \<open>undefined\<close> and \<open>null\<close>.\<close>

definition js_get :: "jsval \<Rightarrow> string \<Rightarrow> jsval js_result" where
  "js_get v k = (if nullish v then Inl (TypeError ''Cannot read properties'') else Inr (js_prop v k))"

text \<open>\<open>v[k] = w\<close> in strict mode: raises on anything that is not an object or an array.\<close>

definition js_put :: "jsval \<Rightarrow> string \<Rightarrow> jsval \<Rightarrow> jsval js_result" where
  "js_put v k w = (case v of
       JObj m \<Rightarrow> Inr (JObj (obj_set k w m))
     | JArr m \<Rightarrow> Inr (JArr (obj_set k w m))
     | _ \<Rightarrow> Inl (TypeError ''Cannot create property''))"

definition is_array :: "jsval \<Rightarrow> bool" where
  "is_array v \<longleftrightarrow> (case v of JArr _ \<Rightarrow> True | _ \<Rightarrow> False)"

definition jint :: "int \<Rightarrow> jsval" where
  "jint n = JNum (Fin (of_int n))"

definition js_array :: "jsval list \<Rightarrow> jsval" where
  "js_array vs = JArr (zip (map nat_digits [0..<length vs]) vs)"

lemma js_put_cases:
  "js_put v k w = Inr v' \<longleftrightarrow>
     (\<exists>m. v = JObj m \<and> v' = JObj (obj_set k w m)) \<or> (\<exists>m. v = JArr m \<and> v' = JArr (obj_set k w m))"
  by (cases v) (auto simp: js_put_def)

lemma js_prop_put:
  "js_put v k w = Inr v' \<Longrightarrow> k' \<noteq> ''length'' \<Longrightarrow> js_prop v' k' = (if k' = k then w else js_prop v k')"
  by (auto simp: js_put_cases js_prop_def js_own_def)

lemma truthy_simps [js_simps]:
  "\<not> truthy JUndef" "\<not> truthy JNull" "truthy (JBool b) = b" "truthy (JStr s) \<longleftrightarrow> s \<noteq> []"
  "truthy (JArr m)" "truthy (JObj m)" "truthy (JNum n) \<longleftrightarrow> n \<noteq> Fin 0 \<and> n \<noteq> NaN"
  by (simp_all add: truthy_def)

section \<open>Index keys\<close>

lemma digit_char: "d < 10 \<Longrightarrow> of_char (char_of (48 + d) :: char) = (48 + d :: nat)"
  by (simp add: of_char_of take_bit_nat_def)

lemma digits_val_append: "digits_val (s @ [c]) = 10 * digits_val s + digit_val c"
  by (simp add: digits_val_def)

lemma nat_digits_digits: "list_all is_digit (nat_digits n) \<and> nat_digits n \<noteq> [] \<and> digits_val (nat_digits n) = n"
proof (induction n rule: nat_digits.induct)
  case (1 n)
  have d: "is_digit (char_of (48 + d))" "digit_val (char_of (48 + d)) = d" if "d < 10" for d
    using that by (simp_all add: is_digit_def digit_val_def digit_char)
  show ?case
  proof (cases "n < 10")
    case True
    then show ?thesis using d [of n] by (simp add: nat_digits.simps [of n] digits_val_def)
  next
    case False
    then show ?thesis using 1 d [of "n mod 10"] by (simp add: nat_digits.simps [of n] digits_val_append)
  qed
qed

lemma nat_digits_lead: "0 < n \<Longrightarrow> hd (nat_digits n) \<noteq> CHR ''0''"
proof (induction n rule: nat_digits.induct)
  case (1 n)
  have z: "of_char (CHR ''0'') = (48 :: nat)" by simp
  show ?case
  proof (cases "n < 10")
    case True
    have "of_char (char_of (48 + n) :: char) \<noteq> (48 :: nat)" using True 1(2) by (simp add: digit_char)
    then show ?thesis using True z by (metis list.sel(1) nat_digits.simps)
  next
    case False
    then show ?thesis using 1 nat_digits_digits [of "n div 10"] by (simp add: nat_digits.simps [of n])
  qed
qed

lemma digits_val_nat_digits [simp]: "digits_val (nat_digits n) = n"
  using nat_digits_digits by blast

lemma nat_digits_inj [simp]: "nat_digits m = nat_digits n \<longleftrightarrow> m = n"
  by (metis digits_val_nat_digits)

lemma is_index_nat_digits [simp]: "is_index (nat_digits n) \<longleftrightarrow> n < 4294967295"
proof (cases "n = 0")
  case True
  then show ?thesis by (simp add: is_index_def nat_digits.simps [of 0] is_digit_def digits_val_def digit_val_def)
next
  case False
  then show ?thesis using nat_digits_digits [of n] nat_digits_lead [of n] by (simp add: is_index_def)
qed

lemma arr_length_zip: "length vs \<le> 4294967295 \<Longrightarrow> arr_length (zip (map nat_digits [0..<length vs]) vs) = length vs"
proof -
  have "length ks = length ws \<Longrightarrow> foldr (\<lambda>e n. if is_index (fst e) then max (Suc (digits_val (fst e))) n else n) (zip (map nat_digits ks) ws) 0
      = foldr (\<lambda>k n. max (Suc k) n) ks 0" if "\<forall>k \<in> set ks. k < 4294967295" for ks and ws :: "'a list"
    using that by (induction ks arbitrary: ws) (auto simp: Suc_length_conv length_Suc_conv split: list.splits)
  moreover have "foldr (\<lambda>k n. max (Suc k) n) [0..<m] 0 = m" for m
  proof -
    have "foldr (\<lambda>k n. max (Suc k) n) [0..<m] a = (if m = 0 then a else max m a)" for a
      by (induction m arbitrary: a) auto
    then show ?thesis by simp
  qed
  moreover assume "length vs \<le> 4294967295"
  ultimately show ?thesis by (simp add: arr_length_def)
qed

section \<open>Kinds of values, equality, copies\<close>

definition is_object :: "jsval \<Rightarrow> bool" where
  "is_object v \<longleftrightarrow> (case v of JObj _ \<Rightarrow> True | _ \<Rightarrow> False)"

definition is_string :: "jsval \<Rightarrow> bool" where
  "is_string v \<longleftrightarrow> (case v of JStr _ \<Rightarrow> True | _ \<Rightarrow> False)"

definition is_number :: "jsval \<Rightarrow> bool" where
  "is_number v \<longleftrightarrow> (case v of JNum _ \<Rightarrow> True | _ \<Rightarrow> False)"

definition is_boolean :: "jsval \<Rightarrow> bool" where
  "is_boolean v \<longleftrightarrow> (case v of JBool _ \<Rightarrow> True | _ \<Rightarrow> False)"

lemma is_cases: "is_number v \<longleftrightarrow> (\<exists>n. v = JNum n)" "is_string v \<longleftrightarrow> (\<exists>s. v = JStr s)" "is_object v \<longleftrightarrow> (\<exists>m. v = JObj m)"
  "is_array v \<longleftrightarrow> (\<exists>m. v = JArr m)"
  by (cases v; simp add: is_number_def is_string_def is_object_def is_array_def)+

text \<open>\<open>===\<close>: arrays and objects that come from different places are never the same.\<close>

definition strict_eq :: "jsval \<Rightarrow> jsval \<Rightarrow> bool" where
  "strict_eq a b \<longleftrightarrow> a = b \<and> a \<noteq> JNum NaN \<and> \<not> is_array a \<and> \<not> is_object a"

definition js_delete :: "string \<Rightarrow> jsval \<Rightarrow> jsval" where
  "js_delete k v = (case v of JObj m \<Rightarrow> JObj (obj_del k m) | JArr m \<Rightarrow> JArr (obj_del k m) | _ \<Rightarrow> v)"

definition elements :: "jsval \<Rightarrow> jsval list" where
  "elements v = (case v of JArr m \<Rightarrow> map (\<lambda>i. case obj_get m (nat_digits i) of Some w \<Rightarrow> w | None \<Rightarrow> JUndef) [0..<arr_length m] | _ \<Rightarrow> [])"

lemma elements_js_array [simp]: "length vs \<le> 4294967295 \<Longrightarrow> elements (js_array vs) = vs"
proof -
  assume l: "length vs \<le> 4294967295"
  have "map_of (zip (map nat_digits [0..<length vs]) vs) (nat_digits i) = Some (vs ! i)" if "i < length vs" for i
    using that by (intro map_of_is_SomeI) (auto simp: distinct_map inj_on_def in_set_zip intro!: exI [of _ i])
  then show ?thesis unfolding elements_def js_array_def jsval.case arr_length_zip [OF l] obj_get_def
    by (intro nth_equalityI) simp_all
qed

text \<open>
  \<open>JSON.parse(JSON.stringify(v))\<close>: \<open>None\<close> where a value has no JSON; in
  an array such a value, and a hole, becomes \<open>null\<close>, in an object its key is dropped.
\<close>

definition json_list :: "(string \<times> jsval option) list \<Rightarrow> jsval" where
  "json_list m = js_array (map (\<lambda>i. case obj_get m (nat_digits i) of Some (Some w) \<Rightarrow> w | _ \<Rightarrow> JNull) [0..<arr_length m])"

definition json_record :: "(string \<times> jsval option) list \<Rightarrow> jsval" where
  "json_record m = JObj (List.map_filter (\<lambda>(k, v). map_option (\<lambda>w. (k, w)) v) (obj_entries m))"

fun json_copy :: "jsval \<Rightarrow> jsval option" where
  "json_copy JUndef = None"
| "json_copy JNull = Some JNull"
| "json_copy (JBool b) = Some (JBool b)"
| "json_copy (JNum n) = Some (case n of Fin _ \<Rightarrow> JNum n | _ \<Rightarrow> JNull)"
| "json_copy (JStr s) = Some (JStr s)"
| "json_copy (JArr m) = Some (json_list (map (\<lambda>(k, v). (k, json_copy v)) m))"
| "json_copy (JObj m) = Some (json_record (map (\<lambda>(k, v). (k, json_copy v)) m))"

section \<open>Reading properties\<close>

lemma js_prop_JObj: "js_prop (JObj m) k = (case obj_get m k of Some v \<Rightarrow> v | None \<Rightarrow> JUndef)"
  by (simp add: js_prop_def js_own_def split: option.split)

lemma js_prop_nullish [simp]: "js_prop JUndef k = JUndef" "js_prop JNull k = JUndef"
  by (simp_all add: js_prop_def js_own_def)

lemma js_prop_obj_set [simp]: "js_prop (JObj (obj_set k w m)) j = (if j = k then w else js_prop (JObj m) j)"
  by (simp add: js_prop_JObj)

lemma js_prop_obj_del [simp]: "js_prop (JObj (obj_del k m)) j = (if j = k then JUndef else js_prop (JObj m) j)"
  by (simp add: js_prop_JObj)

lemma js_prop_num [simp]: "js_prop (JNum n) k = JUndef"
  by (simp add: js_prop_def js_own_def)

section \<open>Sizes, for recursion into values\<close>

lemma in_list_size: "(k, v) \<in> set m \<Longrightarrow> size v < Suc (size_list (size_prod (\<lambda>_. 0) size) m)"
  by (induction m) auto

lemma size_own: "obj_get m k = Some v \<Longrightarrow> size v < size (JObj m) \<and> size v < size (JArr m)"
  using in_list_size [of k v m] by (auto simp: obj_get_def dest: map_of_SomeD)

lemma size_js_prop:
  assumes "js_prop v k \<noteq> JUndef" "k \<noteq> ''length''" "\<not> is_index k"
  shows "size (js_prop v k) < size v"
  using assms size_own by (fastforce simp: js_prop_def js_own_def split: jsval.splits option.splits)

lemma size_elements: "w \<in> set (elements (JArr m)) \<Longrightarrow> size w < size (JArr m)"
  by (auto simp: elements_def split: option.splits dest!: size_own)

text \<open>The members every object inherits.\<close>

definition object_members :: "string list" where
  "object_members = [''constructor'', ''__defineGetter__'', ''__defineSetter__'', ''hasOwnProperty'',
     ''__lookupGetter__'', ''__lookupSetter__'', ''isPrototypeOf'', ''propertyIsEnumerable'',
     ''toString'', ''valueOf'', ''__proto__'', ''toLocaleString'']"

end
