(* ===== verification/Scorm.thy ===== *)
theory Scorm
  imports Js_Value
begin

text \<open>
  \<open>packages/hashi/src/SCORM.js\<close>: the SCORM 1.2 run-time interface offered to sandboxed
  content.  The schema is data, because the code also resolves key paths that lead into the
  schema's own properties; key paths are resolved and written exactly as the code does, and the
  part of a rejected write that is carried out stays.  The schema is read with the members its
  objects, strings and functions have or inherit, because the code's \<open>schema[key]\<close> finds those too;
  \<open>__proto__\<close>, the members of such a member, and inherited members met on the way through the
  data are not covered.
\<close>

section \<open>Validators\<close>

datatype cmi_type = CMIDecimal | CMITimeSpan | CMITime | CMIString255 | CMIString4096
  | CMIIdentifier | CMIFeedback | CMIResult

text \<open>
  Regular expressions as functions from a string to the rests after a match at its start;
  \<open>test\<close> looks for a match at any position.
\<close>

type_synonym matcher = "string \<Rightarrow> string list"

definition m_class :: "(char \<Rightarrow> bool) \<Rightarrow> matcher" where
  "m_class p s = (case s of c # t \<Rightarrow> if p c then [t] else [] | [] \<Rightarrow> [])"

definition m_seq :: "matcher \<Rightarrow> matcher \<Rightarrow> matcher" where
  "m_seq f g s = concat (map g (f s))"

definition m_alt :: "matcher \<Rightarrow> matcher \<Rightarrow> matcher" where
  "m_alt f g s = f s @ g s"

definition m_opt :: "matcher \<Rightarrow> matcher" where
  "m_opt f s = f s @ [s]"

fun re_test :: "matcher \<Rightarrow> string \<Rightarrow> bool" where
  "re_test f [] = (f [] \<noteq> [])"
| "re_test f (c # s) = (f (c # s) \<noteq> [] \<or> re_test f s)"

definition char_range :: "char \<Rightarrow> char \<Rightarrow> char \<Rightarrow> bool" where
  "char_range a b c \<longleftrightarrow> a \<le> c \<and> c \<le> b"

abbreviation m_range :: "char \<Rightarrow> char \<Rightarrow> matcher" where
  "m_range a b \<equiv> m_class (char_range a b)"

abbreviation m_char :: "char \<Rightarrow> matcher" where
  "m_char a \<equiv> m_class (\<lambda>c. c = a)"

abbreviation d09 :: matcher where "d09 \<equiv> m_range CHR ''0'' CHR ''9''"
abbreviation d05 :: matcher where "d05 \<equiv> m_range CHR ''0'' CHR ''5''"

definition m_seconds :: matcher where
  "m_seconds = m_seq d05 (m_seq d09 (m_opt (m_seq (m_char CHR ''.'') (m_seq d09 (m_opt d09)))))"

definition timeSpanRegex :: matcher where
  "timeSpanRegex =
     m_seq (m_opt (m_seq (m_alt (m_seq d09 (m_seq d09 (m_seq d09 d09))) (m_seq d09 d09)) (m_char CHR '':'')))
       (m_seq (m_opt (m_seq (m_seq d05 d09) (m_char CHR '':''))) m_seconds)"

definition timeRegex :: matcher where
  "timeRegex =
     m_seq (m_alt (m_seq (m_range CHR ''0'' CHR ''1'') d09) (m_seq (m_char CHR ''2'') (m_range CHR ''0'' CHR ''3'')))
       (m_seq (m_char CHR '':'') (m_seq (m_seq d05 d09) (m_seq (m_char CHR '':'') m_seconds)))"

definition isStringLike :: "jsval \<Rightarrow> bool" where
  "isStringLike v = string_loose_eq (js_string v) v"

definition lowerCaseLetterNumber :: "char \<Rightarrow> bool" where
  "lowerCaseLetterNumber c \<longleftrightarrow> char_range CHR ''0'' CHR ''9'' c \<or> char_range CHR ''a'' CHR ''z'' c"

definition singleLowerCaseLetterNumber :: "string \<Rightarrow> bool" where
  "singleLowerCaseLetterNumber s \<longleftrightarrow> length s = 1 \<and> list_ex lowerCaseLetterNumber s"

definition validate_string255 :: "jsval \<Rightarrow> bool" where
  "validate_string255 v \<longleftrightarrow> isStringLike v \<and> length (js_string v) \<le> 255"

text \<open>Stripping the optional braces of a \<open>choice\<close> or \<open>matching\<close> response.\<close>

definition unbrace :: "string \<Rightarrow> string option" where
  "unbrace s = (if s \<noteq> [] \<and> hd s = CHR ''{''
     then (if last s = CHR ''}'' then Some (butlast (tl s)) else None) else Some s)"

definition validate_feedback :: "jsval \<Rightarrow> jsval \<Rightarrow> bool" where
  "validate_feedback v obj =
     (if v = JStr [] then True
      else if \<not> isStringLike v then False
      else let s = js_string v; t = js_prop obj ''type'' in
        if t = JStr ''true-false'' then list_ex (\<lambda>c. c \<in> set ''01tf'') s \<and> length s = 1
        else if t = JStr ''choice'' then
          (case unbrace s of None \<Rightarrow> False | Some b \<Rightarrow> list_all singleLowerCaseLetterNumber (js_split CHR '','' b))
        else if t = JStr ''fill-in'' \<or> t = JStr ''performance'' then length s \<le> 255
        else if t = JStr ''numeric'' then \<not> js_is_nan (JStr s)
        else if t = JStr ''likert'' then singleLowerCaseLetterNumber s
        else if t = JStr ''matching'' then
          (case unbrace s of None \<Rightarrow> False | Some b \<Rightarrow>
             list_all (\<lambda>p. length p = 3 \<and> list_all singleLowerCaseLetterNumber (js_split CHR ''.'' p))
               (js_split CHR '','' b))
        else if t = JStr ''sequencing'' then list_all singleLowerCaseLetterNumber (js_split CHR '','' s)
        else True)"

text \<open>
  An object used as a set of allowed values: \<open>values[v]\<close> is truthy for its own keys with a
  non-empty value and for the members every object inherits.
\<close>

definition value_listed :: "string list \<Rightarrow> jsval \<Rightarrow> bool" where
  "value_listed vs v \<longleftrightarrow> (js_string v \<in> set vs \<and> js_string v \<noteq> []) \<or> js_string v \<in> set object_members"

definition validate :: "cmi_type \<Rightarrow> jsval \<Rightarrow> jsval \<Rightarrow> bool" where
  "validate t v obj = (case t of
       CMIDecimal \<Rightarrow> \<not> js_is_nan v
     | CMITimeSpan \<Rightarrow> re_test timeSpanRegex (js_string v)
     | CMITime \<Rightarrow> re_test timeRegex (js_string v)
     | CMIString255 \<Rightarrow> validate_string255 v
     | CMIString4096 \<Rightarrow> isStringLike v \<and> length (js_string v) \<le> 4096
     | CMIIdentifier \<Rightarrow> validate_string255 v \<and> \<not> list_ex is_space (js_string v)
     | CMIFeedback \<Rightarrow> validate_feedback v obj
     | CMIResult \<Rightarrow> \<not> js_is_nan v
         \<or> value_listed [''correct'', ''wrong'', ''unanticipated'', ''neutral'', ''''] v)"

section \<open>What is derived from the user's data\<close>

definition pad2 :: "jsnum \<Rightarrow> string" where
  "pad2 n = (if num_lt n (Fin 10) then CHR ''0'' # num_string n else num_string n)"

definition convertFromSeconds :: "jsval \<Rightarrow> string" where
  "convertFromSeconds v =
     (let seconds = js_number v;
          s = num_div (math_round (num_mul (num_rem seconds (Fin 60)) (Fin 100))) (Fin 100);
          m = math_floor (num_div (num_rem seconds (Fin 3600)) (Fin 60));
          h = math_floor (num_div seconds (Fin 3600))
      in if h \<noteq> NaN \<and> \<not> num_lt h (Fin 10000) then []
         else pad2 h @ '':'' @ pad2 m @ '':'' @ pad2 s)"

datatype user_field = StudentId | StudentName | Credit | Entry | TotalTime | LessonMode | Language

definition fromUserData :: "user_field \<Rightarrow> jsval \<Rightarrow> jsval js_result" where
  "fromUserData f userData =
     (if nullish userData then Inl (TypeError ''Cannot read properties'')
      else let p = js_prop userData in
        Inr (case f of
            StudentId \<Rightarrow> js_or (p ''userId'') (JStr [])
          | StudentName \<Rightarrow> js_or (p ''userFullName'') (JStr [])
          | Credit \<Rightarrow> JStr (if truthy (p ''userId'') then ''credit'' else ''no-credit'')
          | Entry \<Rightarrow> (if truthy (p ''progress'')
                      then JStr (if num_lt (js_number (p ''progress'')) (Fin 1) then ''resume'' else [])
                      else JStr ''ab-initio'')
          | TotalTime \<Rightarrow> JStr (convertFromSeconds (if truthy (p ''timeSpent'') then p ''timeSpent'' else jint 0))
          | LessonMode \<Rightarrow> (if truthy (p ''userId'')
                      then JStr (if truthy (p ''complete'') then ''review'' else ''normal'') else JStr ''browse'')
          | Language \<Rightarrow> js_or (p ''language'') (JStr [])))"

section \<open>The schema\<close>

text \<open>
  The values a key path can meet in the schema: objects, strings, booleans, numbers (the length
  of a string), a validator object (\<open>SType\<close>), its \<open>validate\<close> function, and the other functions.
\<close>

datatype schema =
    SObj "(string \<times> schema) list"
  | SStr string
  | SBool bool
  | SNum nat
  | SType cmi_type
  | SValidate cmi_type
  | SUser user_field
  | SConvert
  | SMember string

text \<open>
  The names of the members that objects, functions, strings and numbers inherit.  A member that
  is found this way, such as the function \<open>toString\<close>, is \<open>SMember\<close>: a truthy value without any of
  the properties the code asks a schema entry for.  Functions have a \<open>name\<close> and a \<open>length\<close> of
  their own.
\<close>

definition inherited_members :: "string list" where
  "inherited_members = removeAll ''__proto__'' object_members"

definition function_members :: "string list" where
  "function_members = [''apply'', ''bind'', ''call''] @ inherited_members"

definition string_members :: "string list" where
  "string_members = [''anchor'', ''at'', ''big'', ''blink'', ''bold'', ''charAt'', ''charCodeAt'', ''codePointAt'',
     ''concat'', ''endsWith'', ''fixed'', ''fontcolor'', ''fontsize'', ''includes'', ''indexOf'', ''isWellFormed'',
     ''italics'', ''lastIndexOf'', ''link'', ''localeCompare'', ''match'', ''matchAll'', ''normalize'', ''padEnd'',
     ''padStart'', ''repeat'', ''replace'', ''replaceAll'', ''search'', ''slice'', ''small'', ''split'', ''startsWith'',
     ''strike'', ''sub'', ''substr'', ''substring'', ''sup'', ''toLocaleLowerCase'', ''toLocaleUpperCase'',
     ''toLowerCase'', ''toUpperCase'', ''toWellFormed'', ''trim'', ''trimEnd'', ''trimLeft'', ''trimRight'',
     ''trimStart''] @ inherited_members"

definition number_members :: "string list" where
  "number_members = [''toExponential'', ''toFixed'', ''toPrecision''] @ inherited_members"

definition inherited :: "string list \<Rightarrow> string \<Rightarrow> schema option" where
  "inherited ms k = (if k \<in> set ms then Some (SMember k) else None)"

definition function_member :: "string \<Rightarrow> nat \<Rightarrow> string \<Rightarrow> schema option" where
  "function_member nm arity k = (if k = ''name'' then Some (SStr nm)
     else if k = ''length'' then Some (SNum arity) else inherited function_members k)"

text \<open>\<open>s[k]\<close>.\<close>

definition smember :: "schema \<Rightarrow> string \<Rightarrow> schema option" where
  "smember s k = (case s of
       SObj m \<Rightarrow> (case map_of m k of Some s' \<Rightarrow> Some s' | None \<Rightarrow> inherited inherited_members k)
     | SStr t \<Rightarrow> (if is_index k \<and> digits_val k < length t then Some (SStr [t ! digits_val k])
                 else if k = ''length'' then Some (SNum (length t)) else inherited string_members k)
     | SBool _ \<Rightarrow> inherited inherited_members k
     | SNum _ \<Rightarrow> inherited number_members k
     | SType t \<Rightarrow> (if k = ''validate'' then Some (SValidate t)
                  else if t = CMITimeSpan \<and> k = ''convertFromSeconds'' then Some SConvert
                  else inherited inherited_members k)
     | SValidate t \<Rightarrow> function_member ''validate'' (if t = CMIFeedback then 2 else 1) k
     | SUser _ \<Rightarrow> function_member ''fromUserData'' 1 k
     | SConvert \<Rightarrow> function_member ''convertFromSeconds'' 1 k
     | SMember _ \<Rightarrow> None)"

definition struthy :: "schema option \<Rightarrow> bool" where
  "struthy s = (case s of None \<Rightarrow> False | Some (SStr t) \<Rightarrow> t \<noteq> [] | Some (SBool b) \<Rightarrow> b
     | Some (SNum n) \<Rightarrow> n \<noteq> 0 | Some _ \<Rightarrow> True)"

text \<open>\<open>s && s.k\<close>.\<close>

definition sub :: "schema option \<Rightarrow> string \<Rightarrow> schema option" where
  "sub s k = (case s of Some s' \<Rightarrow> (if struthy s then smember s' k else s) | None \<Rightarrow> None)"

definition RO :: schema where "RO = SStr ''RO''"
definition RW :: schema where "RW = SStr ''RW''"
definition WO :: schema where "WO = SStr ''WO''"

abbreviation values_obj :: "string list \<Rightarrow> schema" where
  "values_obj vs \<equiv> SObj (map (\<lambda>v. (v, SStr v)) vs)"

abbreviation element :: "cmi_type \<Rightarrow> schema \<Rightarrow> schema" where
  "element t rw \<equiv> SObj [(''type'', SType t), (''readWrite'', rw)]"

abbreviation derived :: "user_field \<Rightarrow> schema" where
  "derived f \<equiv> SObj [(''fromUserData'', SUser f), (''readWrite'', RO)]"

abbreviation not_implemented :: "schema \<Rightarrow> schema" where
  "not_implemented rw \<equiv> SObj [(''notImplemented'', SBool True), (''readWrite'', rw)]"

definition SCORE_SCHEMA :: schema where
  "SCORE_SCHEMA = SObj [(''hasChildren'', SBool True), (''raw'', element CMIDecimal RW),
     (''min'', element CMIDecimal RW), (''max'', element CMIDecimal RW)]"

definition STATUS_SCHEMA :: schema where
  "STATUS_SCHEMA = SObj [(''readWrite'', RW), (''values'', values_obj
     [''passed'', ''completed'', ''failed'', ''incomplete'', ''browsed'', ''not attempted'', ''''])]"

definition CORE_SCHEMA :: schema where
  "CORE_SCHEMA = SObj [
     (''hasChildren'', SBool True),
     (''student_id'', SObj [(''type'', SType CMIIdentifier), (''fromUserData'', SUser StudentId), (''readWrite'', RO)]),
     (''student_name'', SObj [(''type'', SType CMIString255), (''fromUserData'', SUser StudentName), (''readWrite'', RO)]),
     (''lesson_location'', element CMIString255 RW),
     (''credit'', derived Credit),
     (''lesson_status'', STATUS_SCHEMA),
     (''entry'', derived Entry),
     (''score'', SCORE_SCHEMA),
     (''total_time'', SObj [(''type'', SType CMITimeSpan), (''fromUserData'', SUser TotalTime), (''readWrite'', RO)]),
     (''lesson_mode'', derived LessonMode),
     (''exit'', SObj [(''readWrite'', WO), (''values'', values_obj [''time-out'', ''suspend'', ''logout'', ''''])]),
     (''session_time'', element CMITimeSpan WO)]"

definition INTERACTIONS_SCHEMA :: schema where
  "INTERACTIONS_SCHEMA = SObj [(''hasChildren'', SBool True), (''arraySchema'', SObj [
     (''id'', element CMIIdentifier RW),
     (''objectives'', SObj [(''arraySchema'', SObj [(''id'', element CMIIdentifier WO)])]),
     (''time'', element CMITime WO),
     (''type'', SObj [(''readWrite'', WO), (''values'', values_obj
        [''true-false'', ''choice'', ''fill-in'', ''matching'', ''performance'', ''sequencing'', ''likert'', ''numeric'', ''''])]),
     (''correct_responses'', SObj [(''arraySchema'', SObj [(''pattern'', SObj [(''readWrite'', WO)])])]),
     (''weighting'', element CMIDecimal WO),
     (''student_response'', element CMIFeedback WO),
     (''result'', SObj [(''readWrite'', WO), (''validate'', SValidate CMIResult)]),
     (''latency'', SObj [(''readWrite'', WO), (''type'', SType CMITimeSpan)])])]"

definition SCHEMA :: schema where
  "SCHEMA = SObj [(''cmi'', SObj [
     (''hasChildren'', SBool True),
     (''core'', CORE_SCHEMA),
     (''launch_data'', element CMIString4096 RO),
     (''comments'', element CMIString4096 RW),
     (''comments_from_lms'', element CMIString4096 RO),
     (''objectives'', SObj [(''hasChildren'', SBool True), (''arraySchema'', SObj [
        (''id'', element CMIIdentifier RW), (''score'', SCORE_SCHEMA), (''status'', STATUS_SCHEMA)])]),
     (''student_data'', SObj [(''hasChildren'', SBool True), (''mastery_score'', not_implemented RO),
        (''max_time_allowed'', not_implemented RO), (''time_limit_action'', not_implemented RO)]),
     (''student_preference'', SObj [(''hasChildren'', SBool True),
        (''language'', SObj [(''type'', SType CMIString255), (''fromUserData'', SUser Language), (''readWrite'', RW)]),
        (''audio'', not_implemented RW), (''speed'', not_implemented RW), (''text'', not_implemented RW)]),
     (''interactions'', INTERACTIONS_SCHEMA),
     (''suspend_data'', element CMIString4096 RW)])]"

section \<open>Key paths\<close>

datatype scorm_exn = ScormError nat | Thrown js_error

abbreviation "INVALID_ARGUMENT_ERROR \<equiv> (201 :: nat)"
abbreviation "ELEMENT_CANNOT_HAVE_CHILDREN \<equiv> (202 :: nat)"
abbreviation "ELEMENT_NOT_AN_ARRAY \<equiv> (203 :: nat)"
abbreviation "NOT_IMPLEMENTED_ERROR \<equiv> (401 :: nat)"
abbreviation "ELEMENT_IS_KEYWORD \<equiv> (402 :: nat)"
abbreviation "ELEMENT_IS_READ_ONLY \<equiv> (403 :: nat)"
abbreviation "ELEMENT_IS_WRITE_ONLY \<equiv> (404 :: nat)"
abbreviation "INCORRECT_DATA_TYPE \<equiv> (405 :: nat)"

definition lift_js :: "'a js_result \<Rightarrow> scorm_exn + 'a" where
  "lift_js r = (case r of Inl e \<Rightarrow> Inl (Thrown e) | Inr v \<Rightarrow> Inr v)"

text \<open>The part before the first dot and the part after it.\<close>

definition key_split :: "string \<Rightarrow> (string \<times> string) option" where
  "key_split p = (case dropWhile (\<lambda>c. c \<noteq> CHR ''.'') p of
       [] \<Rightarrow> None | _ # r \<Rightarrow> Some (takeWhile (\<lambda>c. c \<noteq> CHR ''.'') p, r))"

lemma key_split_shorter [termination_simp]: "key_split p = Some (k, r) \<Longrightarrow> length r < length p"
  using length_dropWhile_le [of "\<lambda>c. c \<noteq> CHR ''.''" p] by (auto simp: key_split_def split: list.splits)

text \<open>The schema the rest of a path is resolved in.\<close>

definition inner_schema :: "schema \<Rightarrow> string \<Rightarrow> schema option" where
  "inner_schema ls k =
     (if struthy (sub (smember ls k) ''arraySchema'') then sub (smember ls k) ''arraySchema''
      else if \<not> js_is_nan (JStr k) then Some ls
      else smember ls k)"

definition children :: "schema option \<Rightarrow> string" where
  "children s = (case s of
       Some (SObj m) \<Rightarrow> js_join '','' (filter (\<lambda>k. k \<noteq> ''hasChildren''
          \<and> \<not> struthy (sub (map_of m k) ''notImplemented'')) (obj_keys m))
     | _ \<Rightarrow> [])"

fun getByKeyPath :: "jsval \<Rightarrow> string \<Rightarrow> schema option \<Rightarrow> jsval \<Rightarrow> scorm_exn + jsval" where
  "getByKeyPath obj path localSchema userData =
     (case localSchema of None \<Rightarrow> Inl (ScormError INVALID_ARGUMENT_ERROR) | Some ls \<Rightarrow>
      (if path = [] \<or> \<not> struthy localSchema then Inl (ScormError INVALID_ARGUMENT_ERROR)
       else if sub (smember ls path) ''readWrite'' = Some WO then Inl (ScormError ELEMENT_IS_WRITE_ONLY)
       else (case sub (smember ls path) ''fromUserData'' of
         Some (SUser f) \<Rightarrow> lift_js (fromUserData f userData)
       | _ \<Rightarrow>
         (case (if truthy obj then js_own obj path else None) of
            Some v \<Rightarrow> Inr v
          | None \<Rightarrow>
            (case key_split path of
               Some (k, rest) \<Rightarrow>
                 (let innerObj = (if truthy obj then js_prop obj k else obj) in
                  if rest = ''_count'' then
                    (if struthy (sub (smember ls k) ''arraySchema'')
                     then Inr (if is_array innerObj then js_prop innerObj ''length'' else jint 0)
                     else Inl (ScormError ELEMENT_NOT_AN_ARRAY))
                  else if rest = ''_children'' then
                    (if struthy (sub (smember ls k) ''hasChildren'')
                     then Inr (JStr (children (inner_schema ls k)))
                     else Inl (ScormError ELEMENT_CANNOT_HAVE_CHILDREN))
                  else getByKeyPath innerObj rest (inner_schema ls k) userData)
             | None \<Rightarrow>
                 (if struthy (smember ls path) then
                    (if struthy (sub (smember ls path) ''notImplemented'')
                     then Inl (ScormError NOT_IMPLEMENTED_ERROR) else Inr (JStr []))
                  else Inl (ScormError INVALID_ARGUMENT_ERROR)))))))"

declare getByKeyPath.simps [simp del]

text \<open>The checks on the element itself; \<open>None\<close> when it may be written.\<close>

definition leaf_check :: "jsval \<Rightarrow> jsval \<Rightarrow> schema option \<Rightarrow> scorm_exn option" where
  "leaf_check obj v s =
     (if sub s ''readWrite'' = Some RO then Some (ScormError ELEMENT_IS_READ_ONLY)
      else if struthy (sub s ''notImplemented'') then Some (ScormError NOT_IMPLEMENTED_ERROR)
      else if \<not> struthy s then Some (ScormError INVALID_ARGUMENT_ERROR)
      else let typed = struthy (sub s ''type'');
               rest = ((case sub s ''validate'' of Some (SValidate t) \<Rightarrow> \<not> validate t v obj | _ \<Rightarrow> False)
                 \<or> (case sub s ''values'' of Some (SObj m) \<Rightarrow> \<not> value_listed (map fst m) v | _ \<Rightarrow> False)
                 \<or> (\<not> typed \<and> \<not> isStringLike v))
        in if typed then
             (case sub s ''type'' of
                Some (SType t) \<Rightarrow> (if \<not> validate t v obj \<or> rest then Some (ScormError INCORRECT_DATA_TYPE) else None)
              | _ \<Rightarrow> Some (Thrown (TypeError ''validate is not a function'')))
           else if rest then Some (ScormError INCORRECT_DATA_TYPE) else None)"

text \<open>\<open>obj[k] = obj[k] || dflt\<close>.\<close>

definition ensure :: "jsval \<Rightarrow> string \<Rightarrow> jsval \<Rightarrow> jsval js_result" where
  "ensure obj k dflt = bind_result (js_get obj k) (\<lambda>v. js_put obj k (js_or v dflt))"

text \<open>
  Writing: the object as it is afterwards, and the exception if one was raised.  What was
  initialised on the way stays.
\<close>

fun setByKeyPath :: "jsval \<Rightarrow> string \<Rightarrow> jsval \<Rightarrow> schema option \<Rightarrow> jsval \<times> scorm_exn option" where
  "setByKeyPath obj path value localSchema =
     (case localSchema of None \<Rightarrow> (obj, Some (ScormError INVALID_ARGUMENT_ERROR)) | Some ls \<Rightarrow>
      (if path = [] \<or> \<not> struthy localSchema then (obj, Some (ScormError INVALID_ARGUMENT_ERROR))
       else (case key_split path of
         Some (k, rest) \<Rightarrow>
           (case (if struthy (sub (smember ls k) ''arraySchema'') then ensure obj k (JArr []) else Inr obj) of
              Inl e \<Rightarrow> (obj, Some (Thrown e))
            | Inr obj1 \<Rightarrow>
                (if rest = ''_count'' \<or> rest = ''_children'' then (obj1, Some (ScormError ELEMENT_IS_KEYWORD))
                 else (case ensure obj1 k (JObj []) of
                    Inl e \<Rightarrow> (obj1, Some (Thrown e))
                  | Inr obj2 \<Rightarrow>
                      (case setByKeyPath (js_prop obj2 k) rest value (inner_schema ls k) of
                         (child, err) \<Rightarrow>
                           (case js_put obj2 k child of Inr obj3 \<Rightarrow> (obj3, err) | Inl e \<Rightarrow> (obj2, err))))))
       | None \<Rightarrow>
           (case leaf_check obj value (smember ls path) of
              Some e \<Rightarrow> (obj, Some e)
            | None \<Rightarrow> (case js_put obj path value of
                         Inr obj' \<Rightarrow> (obj', None) | Inl e \<Rightarrow> (obj, Some (Thrown e)))))))"

declare setByKeyPath.simps [simp del]

end
