(* ===== verification/Scorm_Api.thy ===== *)
theory Scorm_Api
  imports Scorm
begin

text \<open>
  The \<open>SCORM\<close> shim itself: progress from the data, the \<open>LMS\<close> calls with their error state and
  the messages they send, and what holds of reading and writing key paths.
\<close>

section \<open>Progress\<close>

definition statusProgressMap :: "rat jsobj" where
  "statusProgressMap = [(''passed'', 1), (''failed'', 1 / 2), (''browsed'', 1 / 2),
     (''not attempted'', 0), (''incomplete'', 1 / 2)]"

definition score_progress :: "jsval \<Rightarrow> jsnum" where
  "score_progress score =
     (let min = (if js_is_nan (js_prop score ''min'') then Fin 0 else js_number (js_prop score ''min''));
          max = (if js_is_nan (js_prop score ''max'') then Fin 100 else js_number (js_prop score ''max''));
          raw = (if js_is_nan (js_prop score ''raw'') then min else js_number (js_prop score ''raw''))
      in math_max (math_min (num_div (num_sub raw min) (num_sub max min)) (Fin 1)) (Fin 0))"

definition bind_scorm :: "scorm_exn + 'a \<Rightarrow> ('a \<Rightarrow> scorm_exn + 'b) \<Rightarrow> scorm_exn + 'b" where
  "bind_scorm r f = (case r of Inl e \<Rightarrow> Inl e | Inr x \<Rightarrow> f x)"

definition calculateProgress :: "jsval \<Rightarrow> scorm_exn + jsval" where
  "calculateProgress d =
     bind_scorm (getByKeyPath d ''cmi.core.score'' (Some SCHEMA) JUndef) (\<lambda>score.
       if truthy score then Inr (JNum (score_progress score))
       else bind_scorm (getByKeyPath d ''cmi.core.lesson_status'' (Some SCHEMA) JUndef) (\<lambda>status.
         case obj_get statusProgressMap (js_string status) of
           Some r \<Rightarrow> Inr (JNum (Fin r))
         | None \<Rightarrow> Inr JNull))"

section \<open>The shim\<close>

record scorm_shim =
  scorm_data :: jsval
  scorm_user :: jsval
  lms_error :: jsval
  scorm_sent :: "(string \<times> jsval) list"

definition new_shim :: scorm_shim where
  "new_shim = \<lparr>scorm_data = JObj [], scorm_user = JObj [], lms_error = jint 0, scorm_sent = []\<rparr>"

definition scorm_stateUpdated :: "scorm_shim \<Rightarrow> scorm_shim" where
  "scorm_stateUpdated s = s\<lparr>scorm_sent := scorm_sent s @ [(''stateupdate'', scorm_data s)]\<rparr>"

definition scorm_userDataUpdated :: "scorm_shim \<Rightarrow> scorm_shim" where
  "scorm_userDataUpdated s = s\<lparr>scorm_sent := scorm_sent s @ [(''userdataupdate'', scorm_user s)]\<rparr>"

text \<open>Default parameters: an argument that is \<open>undefined\<close> is replaced by an empty object.\<close>

definition default_obj :: "jsval \<Rightarrow> jsval" where
  "default_obj v = (if v = JUndef then JObj [] else v)"

definition scorm_setData :: "jsval \<Rightarrow> scorm_shim \<Rightarrow> scorm_shim" where
  "scorm_setData d s = s\<lparr>scorm_data := default_obj d\<rparr>"

definition scorm_setUserData :: "jsval \<Rightarrow> scorm_shim \<Rightarrow> scorm_shim" where
  "scorm_setUserData d s = s\<lparr>scorm_user := default_obj d\<rparr>"

datatype lms_call =
    LMSInitialize
  | LMSFinish
  | LMSSetValue jsval jsval
  | LMSGetValue jsval
  | LMSCommit
  | LMSGetLastError
  | LMSGetErrorString jsval
  | LMSGetDiagnostic jsval
  | StateUpdate jsval
  | UserDataUpdate jsval
  | SetData jsval
  | SetUserData jsval

datatype lms_result = Returns jsval | Throws js_error

definition error_message :: "nat \<Rightarrow> jsval" where
  "error_message n = JStr (nat_digits n)"

abbreviation "TRUE \<equiv> JStr ''true''"
abbreviation "FALSE \<equiv> JStr ''false''"
abbreviation "BLANK \<equiv> JStr []"

text \<open>A path that is not a string is an invalid argument, as an empty one is.\<close>

definition path_arg :: "jsval \<Rightarrow> string" where
  "path_arg v = (case v of JStr p \<Rightarrow> p | _ \<Rightarrow> [])"

definition do_set :: "jsval \<Rightarrow> jsval \<Rightarrow> scorm_shim \<Rightarrow> scorm_shim \<times> lms_result" where
  "do_set path v s0 =
     (let s = s0\<lparr>lms_error := jint 0\<rparr>;
          (d, err) = setByKeyPath (scorm_data s) (path_arg path) v (Some SCHEMA);
          s' = s\<lparr>scorm_data := d\<rparr>
      in case err of
           None \<Rightarrow> (scorm_stateUpdated s', Returns TRUE)
         | Some (ScormError n) \<Rightarrow> (s'\<lparr>lms_error := error_message n\<rparr>, Returns FALSE)
         | Some (Thrown e) \<Rightarrow> (s', Throws e))"

definition do_get :: "jsval \<Rightarrow> scorm_shim \<Rightarrow> scorm_shim \<times> lms_result" where
  "do_get path s0 =
     (let s = s0\<lparr>lms_error := jint 0\<rparr>
      in case getByKeyPath (scorm_data s) (path_arg path) (Some SCHEMA) (scorm_user s) of
           Inr v \<Rightarrow> (s, Returns v)
         | Inl (ScormError n) \<Rightarrow> (s\<lparr>lms_error := error_message n\<rparr>, Returns BLANK)
         | Inl (Thrown e) \<Rightarrow> (s, Throws e))"

definition lms :: "lms_call \<Rightarrow> scorm_shim \<Rightarrow> scorm_shim \<times> lms_result" where
  "lms c s = (case c of
       LMSInitialize \<Rightarrow> (scorm_stateUpdated s, Returns TRUE)
     | LMSFinish \<Rightarrow> (s, Returns TRUE)
     | LMSSetValue p v \<Rightarrow> do_set p v s
     | LMSGetValue p \<Rightarrow> do_get p s
     | LMSCommit \<Rightarrow> (s\<lparr>lms_error := jint 0\<rparr>, Returns TRUE)
     | LMSGetLastError \<Rightarrow> (s, Returns (lms_error s))
     | LMSGetErrorString _ \<Rightarrow> (s, Returns BLANK)
     | LMSGetDiagnostic _ \<Rightarrow> (s, Returns BLANK)
     | StateUpdate d \<Rightarrow> (scorm_setData d s, Returns JUndef)
     | UserDataUpdate d \<Rightarrow> (scorm_setUserData d s, Returns JUndef)
     | SetData d \<Rightarrow> (scorm_stateUpdated (scorm_setData d s), Returns JUndef)
     | SetUserData d \<Rightarrow> (scorm_userDataUpdated (scorm_setUserData d s), Returns JUndef))"

definition lms_step :: "scorm_shim \<Rightarrow> lms_call \<Rightarrow> scorm_shim" where
  "lms_step s c = fst (lms c s)"

section \<open>Key paths\<close>

definition dotless :: "string \<Rightarrow> bool" where
  "dotless k \<longleftrightarrow> CHR ''.'' \<notin> set k"

lemma key_split_None [simp]: "key_split p = None \<longleftrightarrow> dotless p"
proof -
  have e: "dotless p \<longleftrightarrow> dropWhile (\<lambda>c. c \<noteq> CHR ''.'') p = []"
    by (auto simp: dotless_def)
  show ?thesis
    unfolding e key_split_def by (cases "dropWhile (\<lambda>c. c \<noteq> CHR ''.'') p") (simp_all only: list.case, simp_all)
qed

lemma key_split_Some: "key_split p = Some (k, r) \<longleftrightarrow> p = k @ CHR ''.'' # r \<and> dotless k"
proof
  assume a: "key_split p = Some (k, r)"
  then obtain c where d: "dropWhile (\<lambda>c. c \<noteq> CHR ''.'') p = c # r" and t: "takeWhile (\<lambda>c. c \<noteq> CHR ''.'') p = k"
    by (auto simp: key_split_def split: list.splits)
  from d have "c = CHR ''.''" by (metis (mono_tags) dropWhile_eq_Cons_conv)
  with d t have "p = k @ CHR ''.'' # r" by (metis takeWhile_dropWhile_id)
  moreover have "dotless k" using t set_takeWhileD unfolding dotless_def by fastforce
  ultimately show "p = k @ CHR ''.'' # r \<and> dotless k" by simp
next
  assume a: "p = k @ CHR ''.'' # r \<and> dotless k"
  then have "dropWhile (\<lambda>c. c \<noteq> CHR ''.'') p = CHR ''.'' # r" "takeWhile (\<lambda>c. c \<noteq> CHR ''.'') p = k"
    by (auto simp: dotless_def dropWhile_append takeWhile_append)
  then show "key_split p = Some (k, r)" by (simp add: key_split_def)
qed



lemma index_dotless: "is_index k \<Longrightarrow> dotless k"
  by (auto simp: is_index_def dotless_def list_all_iff is_digit_def)

lemma length_dotless: "dotless ''length''" "dotless ''name''" "dotless ''validate''" "dotless ''convertFromSeconds''"
  by (simp_all add: dotless_def)





fun clean_value :: "jsval \<Rightarrow> bool" where
  "clean_value (JObj m) \<longleftrightarrow> list_all (\<lambda>(k, v). dotless k \<and> clean_value v) m"
| "clean_value (JArr m) \<longleftrightarrow> list_all (\<lambda>(k, v). dotless k \<and> clean_value v) m"
| "clean_value _ \<longleftrightarrow> True"




lemma clean_own: "clean_value v \<Longrightarrow> js_own v k = Some w \<Longrightarrow> dotless k \<and> clean_value w"
  by (cases v) (auto simp: js_own_def obj_get_def list_all_iff index_dotless length_dotless split: if_splits dest: map_of_SomeD)

lemma clean_prop: "clean_value v \<Longrightarrow> clean_value (js_prop v k)"
  using clean_own by (auto simp: js_prop_def split: option.splits)

lemma clean_obj_set:
  "list_all (\<lambda>(k, v). dotless k \<and> clean_value v) m \<Longrightarrow> dotless k \<Longrightarrow> clean_value w
   \<Longrightarrow> list_all (\<lambda>(k, v). dotless k \<and> clean_value v) (obj_set k w m)"
  by (induction m) (auto simp: obj_set_def)

lemma clean_put: "js_put v k w = Inr v' \<Longrightarrow> clean_value v \<Longrightarrow> dotless k \<Longrightarrow> clean_value w \<Longrightarrow> clean_value v'"
  by (auto simp: js_put_cases clean_obj_set)

lemma clean_ensure:
  assumes "ensure obj k d = Inr obj'" and "clean_value obj" and "dotless k" and "clean_value d"
  shows "clean_value obj'"
proof -
  from assms(1) have "js_put obj k (js_or (js_prop obj k) d) = Inr obj'"
    by (auto simp: ensure_def bind_result_Inr js_get_def split: if_splits)
  then show ?thesis using assms(2,3) by (rule clean_put) (simp add: js_or_def clean_prop assms)
qed

section \<open>Unfolding a write\<close>

lemma set_invalid:
  assumes "path = [] \<or> \<not> struthy s"
  shows "setByKeyPath obj path v s = (obj, Some (ScormError INVALID_ARGUMENT_ERROR))"
proof (cases s)
  case None
  show ?thesis unfolding None by (subst setByKeyPath.simps) (rule option.case(1))
next
  case (Some ls)
  show ?thesis
    using assms unfolding Some
    by (subst setByKeyPath.simps) (simp only: option.case if_True)
qed

lemma set_leaf:
  "path \<noteq> [] \<Longrightarrow> struthy (Some ls) \<Longrightarrow> dotless path \<Longrightarrow> setByKeyPath obj path v (Some ls) =
     (case leaf_check obj v (smember ls path) of
        Some e \<Rightarrow> (obj, Some e)
      | None \<Rightarrow> (case js_put obj path v of Inr obj' \<Rightarrow> (obj', None) | Inl e \<Rightarrow> (obj, Some (Thrown e))))"
  by (subst setByKeyPath.simps) (simp add: iffD2 [OF key_split_None])

definition prepared :: "jsval \<Rightarrow> string \<Rightarrow> schema \<Rightarrow> jsval js_result" where
  "prepared obj k ls = (if struthy (sub (smember ls k) ''arraySchema'') then ensure obj k (JArr []) else Inr obj)"

lemma set_inner:
  assumes "key_split path = Some (k, r)" and "struthy (Some ls)"
  shows "setByKeyPath obj path v (Some ls) =
     (case prepared obj k ls of
        Inl e \<Rightarrow> (obj, Some (Thrown e))
      | Inr obj1 \<Rightarrow>
          (if r = ''_count'' \<or> r = ''_children'' then (obj1, Some (ScormError ELEMENT_IS_KEYWORD))
           else (case ensure obj1 k (JObj []) of
              Inl e \<Rightarrow> (obj1, Some (Thrown e))
            | Inr obj2 \<Rightarrow>
                (case setByKeyPath (js_prop obj2 k) r v (inner_schema ls k) of
                   (child, err) \<Rightarrow>
                     (case js_put obj2 k child of Inr obj3 \<Rightarrow> (obj3, err) | Inl e \<Rightarrow> (obj2, err))))))"
proof -
  have "path \<noteq> []" using assms(1) by (auto simp: key_split_Some)
  then show ?thesis using assms by (subst setByKeyPath.simps) (simp add: prepared_def)
qed

text \<open>Induction over a write: an invalid one, one of an element, one further down.\<close>

lemma set_induct [case_names invalid leaf inner]:
  assumes "\<And>obj path s. path = [] \<or> \<not> struthy s \<Longrightarrow> P obj path s"
    and "\<And>obj path ls. path \<noteq> [] \<Longrightarrow> struthy (Some ls) \<Longrightarrow> dotless path \<Longrightarrow> P obj path (Some ls)"
    and "\<And>obj path ls k r. key_split path = Some (k, r) \<Longrightarrow> dotless k \<Longrightarrow> struthy (Some ls)
      \<Longrightarrow> (\<And>o2. P o2 r (inner_schema ls k)) \<Longrightarrow> P obj path (Some ls)"
  shows "P obj path s"
proof (induction path arbitrary: obj s rule: length_induct)
  case (1 path obj s)
  show ?case
  proof (cases "path = [] \<or> \<not> struthy s")
    case False
    then obtain ls where s: "s = Some ls" "struthy (Some ls)" by (cases s) (auto simp: struthy_def)
    show ?thesis
    proof (cases "key_split path")
      case (Some p)
      then obtain k r where k: "key_split path = Some (k, r)" by (cases p) auto
      moreover from this have "dotless k" by (simp add: key_split_Some)
      ultimately show ?thesis
        using assms(3) s 1 key_split_shorter [OF k] by blast
    qed (use assms(2) s False in auto)
  qed (rule assms(1))
qed

lemma clean_prepared: "prepared obj k ls = Inr obj' \<Longrightarrow> clean_value obj \<Longrightarrow> dotless k \<Longrightarrow> clean_value obj'"
  by (auto simp: prepared_def clean_ensure split: if_splits)

lemma clean_setByKeyPath:
  assumes "clean_value obj" and "clean_value v"
  shows "clean_value (fst (setByKeyPath obj path v s))"
  using assms(1)
proof (induction obj path s rule: set_induct)
  case (leaf obj path ls)
  then show ?case using assms(2) by (auto simp: set_leaf split: option.splits sum.splits intro: clean_put)
next
  case (inner obj path ls k r)
  show ?case
  proof (cases "prepared obj k ls")
    case (Inr obj1)
    then have c1: "clean_value obj1" using inner.prems inner.hyps(2) by (rule clean_prepared)
    show ?thesis
    proof (cases "ensure obj1 k (JObj [])")
      case o2: (Inr obj2)
      then have c2: "clean_value obj2" using c1 inner.hyps(2) by (auto intro: clean_ensure)
      then have "clean_value (fst (setByKeyPath (js_prop obj2 k) r v (inner_schema ls k)))"
        by (intro inner.IH clean_prop)
      then show ?thesis using Inr o2 c1 c2 inner.hyps
        by (auto simp: set_inner split: prod.splits sum.splits intro: clean_put)
    qed (use Inr c1 inner.hyps in \<open>simp add: set_inner\<close>)
  qed (use inner in \<open>simp add: set_inner\<close>)
qed (simp add: set_invalid)

section \<open>Reading what was written\<close>




lemma js_put_truthy: "js_put obj k v = Inr obj' \<Longrightarrow> truthy obj'"
  by (auto simp: js_put_cases js_simps)


lemma ensure_truthy: "ensure obj k d = Inr obj' \<Longrightarrow> truthy obj'"
  by (auto simp: ensure_def bind_result_Inr intro: js_put_truthy)




section \<open>The state of the shim\<close>


lemma clean_default: "clean_value d \<Longrightarrow> clean_value (default_obj d)"
  by (simp add: default_obj_def)

fun call_values :: "lms_call \<Rightarrow> jsval list" where
  "call_values (LMSSetValue p v) = [v]"
| "call_values (StateUpdate d) = [d]"
| "call_values (SetData d) = [d]"
| "call_values _ = []"

text \<open>
  The data never has a key with a dot, and the error is the number 0 or the message of a
  SCORM error.
\<close>

definition shim_inv :: "scorm_shim \<Rightarrow> bool" where
  "shim_inv s \<longleftrightarrow> clean_value (scorm_data s) \<and> (lms_error s = jint 0 \<or> (\<exists>n. lms_error s = error_message n))"

lemma shim_inv_step:
  assumes "shim_inv s" and "list_all clean_value (call_values c)"
  shows "shim_inv (lms_step s c)"
proof (cases c)
  case (LMSSetValue p v)
  obtain d err where "setByKeyPath (scorm_data s) (path_arg p) v (Some SCHEMA) = (d, err)" by fastforce
  moreover from this have "clean_value d"
    using assms clean_setByKeyPath [of "scorm_data s" v "path_arg p" "Some SCHEMA"]
    by (simp add: LMSSetValue shim_inv_def)
  ultimately show ?thesis
    using assms by (auto simp: LMSSetValue lms_step_def lms_def do_set_def Let_def shim_inv_def scorm_stateUpdated_def
      split: option.splits scorm_exn.splits)
qed (use assms in \<open>auto simp: lms_step_def lms_def do_get_def Let_def shim_inv_def scorm_stateUpdated_def
  scorm_userDataUpdated_def scorm_setData_def scorm_setUserData_def clean_default
  split: sum.splits scorm_exn.splits\<close>)

interpretation scorm: stepper "\<lambda>s c. if list_all clean_value (call_values c) then lms_step s c else s" shim_inv
  by unfold_locales (simp add: shim_inv_step)





section \<open>What a successful write says of the element\<close>
















section \<open>Clock times\<close>

lemma fl64_div_floor:
  assumes "0 < b" and "a < 2 ^ 50" and "b \<le> 3600"
  shows "\<lfloor>fl64 (of_nat a / of_nat b)\<rfloor> = int (a div b)"
proof -
  let ?x = "of_nat a / of_nat b :: rat"
  have x0: "0 \<le> ?x" by simp
  have q: "of_nat (a div b) \<le> ?x"
    using assms(1) by (simp add: pos_le_divide_eq flip: of_nat_mult)
  then have "of_nat (a div b) \<le> fl64 ?x"
  proof -
    have "a div b < 2 ^ 50" using div_le_dividend assms(2) by (rule order_le_less_trans)
    also have "\<dots> < (2 ^ 53 :: nat)" by simp
    finally have "a div b < 2 ^ 53" .
    from fl64_of_nat [OF this] show ?thesis using fl64_mono [OF q] by simp
  qed
  moreover have "fl64 ?x < of_nat (a div b) + 1"
  proof -
    have "a + 1 \<le> (a div b + 1) * b"
      using dividend_less_div_times [OF assms(1), of a] by (simp add: algebra_simps)
    then have "of_nat a + 1 \<le> (of_nat (a div b) + 1) * (of_nat b :: rat)"
      by (metis (no_types, lifting) of_nat_1 of_nat_add of_nat_le_iff of_nat_mult)
    then have gap: "?x + 1 / of_nat b \<le> of_nat (a div b) + 1"
      using assms(1) by (simp add: field_simps)
    have "fl64 ?x - ?x \<le> ?x * (1 / 2 ^ 53)"
      using fl64_error [of ?x] x0 by (simp add: abs_le_iff)
    also have "\<dots> < 1 / of_nat b"
    proof -
      have "of_nat a < (2 ^ 50 :: rat)" using assms(2) by (metis of_nat_less_iff of_nat_numeral of_nat_power)
      then show ?thesis using assms(1) by (simp add: field_simps)
    qed
    finally show ?thesis using gap by simp
  qed
  ultimately show ?thesis by (intro floor_unique) simp_all
qed

lemma floor_of_nat_half: "\<lfloor>of_nat k + 1 / 2 :: rat\<rfloor> = int k"
  by (intro floor_unique) simp_all

section \<open>Properties\<close>





text \<open>
  What the schema does not declare but its objects inherit can be written: \<open>cmi.constructor\<close>, and
  below the read-only element \<open>cmi.core.credit\<close> the name of the function it is derived with.
\<close>

theorem inherited_members_writable:
  "snd (lms (LMSSetValue (JStr ''cmi.constructor'') (JStr ''x'')) new_shim) = Returns TRUE
   \<and> snd (lms (LMSSetValue (JStr ''cmi.core.credit.fromUserData.name'') (JStr ''x'')) new_shim) = Returns TRUE
   \<and> snd (lms (LMSSetValue (JStr ''cmi.core.credit'') (JStr ''x'')) new_shim) = Returns FALSE"
  by code_simp

text \<open>
  The reported progress is \<open>null\<close>, a number between 0 and 1, or \<open>NaN\<close>; it is \<open>NaN\<close> only if
  the score has an infinite bound or its maximum equals its minimum.
\<close>

theorem progress_range:
  assumes "calculateProgress d = Inr p"
  shows "p = JNull \<or> p = JNum NaN \<or> (\<exists>r. p = JNum (Fin r) \<and> 0 \<le> r \<and> r \<le> 1)"
proof -
  have "score_progress s = NaN \<or> (\<exists>r. score_progress s = Fin r \<and> 0 \<le> r \<and> r \<le> 1)" for s
    unfolding score_progress_def Let_def using math_clamp_cases by blast
  moreover have "0 \<le> r \<and> r \<le> 1" if "obj_get statusProgressMap k = Some r" for k r
    using that by (auto simp: statusProgressMap_def obj_get_def split: if_splits)
  ultimately show ?thesis
    using assms by (auto simp: calculateProgress_def bind_scorm_def split: sum.splits if_splits option.splits)
qed

lemma progress_range_witness:
  "\<exists>r. calculateProgress (JObj [(''cmi'', JObj [(''core'', JObj [(''score'', JObj [(''raw'', JStr ''80'')])])])])
     = Inr (JNum (Fin r)) \<and> 0 \<le> r \<and> r \<le> 1"
proof -
  let ?d = "JObj [(''cmi'', JObj [(''core'', JObj [(''score'', JObj [(''raw'', JStr ''80'')])])])]"
  have "calculateProgress ?d = Inr (JNum (Fin (fl64 (80 / 100))))" by code_simp
  from progress_range [OF this] this show ?thesis by auto
qed

text \<open>
  A rejected write can change the learner's progress: after \<open>lesson_status\<close> was set to
  \<open>passed\<close> the progress is 1, and an \<open>LMSSetValue\<close> below \<open>cmi.core.score\<close> that is refused with
  error 201 leaves an empty score behind, from which the progress is 0.
\<close>

theorem rejected_write_resets_progress:
  "let s1 = fst (lms (LMSSetValue (JStr ''cmi.core.lesson_status'') (JStr ''passed'')) new_shim);
       (s2, r) = lms (LMSSetValue (JStr ''cmi.core.score.scaled'') (JStr ''1'')) s1
   in calculateProgress (scorm_data s1) = Inr (JNum (Fin 1))
      \<and> r = Returns FALSE \<and> lms_error s2 = error_message 201
      \<and> calculateProgress (scorm_data s2) = Inr (JNum (Fin 0))"
  by code_simp

text \<open>
  Two gaps of the tables: a lesson that reports \<open>completed\<close>, a status the schema accepts,
  yields no progress; and the blank status, which the schema lists, is refused with error 405.
\<close>

theorem status_gaps:
  "(let (s1, r1) = lms (LMSSetValue (JStr ''cmi.core.lesson_status'') (JStr ''completed'')) new_shim
    in r1 = Returns TRUE \<and> calculateProgress (scorm_data s1) = Inr JNull)
   \<and> (let (s2, r2) = lms (LMSSetValue (JStr ''cmi.core.lesson_status'') (JStr [])) new_shim
      in r2 = Returns FALSE \<and> lms_error s2 = error_message 405)"
  by code_simp

text \<open>
  The read-only element \<open>cmi.launch_data\<close> can be replaced by content: the path of its
  schema entry's own \<open>type\<close> is writable, and from then on reading \<open>cmi.launch_data\<close> returns the
  object that write created.
\<close>

theorem launch_data_not_protected:
  "let (s1, r1) = lms (LMSSetValue (JStr ''cmi.launch_data'') (JStr ''x'')) new_shim;
       (s2, r2) = lms (LMSSetValue (JStr ''cmi.launch_data.type'') (JStr ''x'')) new_shim
   in r1 = Returns FALSE \<and> lms_error s1 = error_message 403
      \<and> r2 = Returns TRUE
      \<and> snd (lms (LMSGetValue (JStr ''cmi.launch_data'')) s2) = Returns (JObj [(''type'', JStr ''x'')])"
  by code_simp

text \<open>
  For a whole number of seconds below ten thousand hours the time conversion is exact:
  hours, minutes and seconds, each with at least two digits, although it is computed in doubles.
\<close>

theorem convertFromSeconds_exact:
  assumes "n < 36000000"
  shows "convertFromSeconds (jint (int n)) =
     pad2 (Fin (of_nat (n div 3600))) @ '':'' @ pad2 (Fin (of_nat (n mod 3600 div 60))) @ '':''
       @ pad2 (Fin (of_nat (n mod 60)))"
proof -
  have rem: "num_rem (Fin (of_nat n)) (Fin (of_nat b)) = Fin (of_nat (n mod b))" if "0 < b" for b
  proof -
    have "\<lfloor>of_nat n / of_nat b :: rat\<rfloor> = int (n div b)"
      by (simp add: floor_divide_of_nat_eq)
    moreover have "of_nat n - of_nat b * of_nat (n div b) = (of_nat (n mod b) :: rat)"
      by (metis add_diff_cancel_left' mult_div_mod_eq of_nat_add of_nat_mult)
    ultimately show ?thesis using that by (simp add: num_rem_def)
  qed
  have fl: "fl64 (of_nat k) = of_nat k" if "k < 100000000" for k
    using that by (intro fl64_of_nat) simp
  have r60: "num_rem (Fin (of_nat n)) (Fin 60) = Fin (of_nat (n mod 60))" using rem [of 60] by simp
  have r3600: "num_rem (Fin (of_nat n)) (Fin 3600) = Fin (of_nat (n mod 3600))" using rem [of 3600] by simp
  have "num_mul (Fin (of_nat (n mod 60))) (Fin 100) = Fin (of_nat (n mod 60 * 100))"
    using fl [of "n mod 60 * 100"] mod_less_divisor [of 60 n] by (simp add: num_mul.simps)
  then have "math_round (num_mul (Fin (of_nat (n mod 60))) (Fin 100)) = Fin (of_nat (n mod 60 * 100))"
    using floor_of_nat_half [of "n mod 60 * 100"] by (simp only: math_round_def jsnum.case of_int_of_nat_eq)
  moreover have "fl64 (of_nat (n mod 60)) = of_nat (n mod 60)"
    using mod_less_divisor [of 60 n] by (intro fl) simp
  ultimately have s: "num_div (math_round (num_mul (Fin (of_nat (n mod 60))) (Fin 100))) (Fin 100) = Fin (of_nat (n mod 60))"
    by simp
  have m: "math_floor (num_div (Fin (of_nat (n mod 3600))) (Fin 60)) = Fin (of_nat (n mod 3600 div 60))"
    using fl64_div_floor [of 60 "n mod 3600"] mod_less_divisor [of 3600 n] by (simp add: math_floor_def)
  have h: "math_floor (num_div (Fin (of_nat n)) (Fin 3600)) = Fin (of_nat (n div 3600))"
    using fl64_div_floor [of 3600 n] assms by (simp add: math_floor_def)
  have "n div 3600 < 10000" using assms by (simp add: less_mult_imp_div_less)
  then have lt: "num_lt (Fin (of_nat (n div 3600))) (Fin 10000)"
    by simp
  show ?thesis
    unfolding convertFromSeconds_def Let_def jint_def js_number_def
    by (simp only: jsval.case of_int_of_nat_eq r60 r3600 s m h lt simp_thms if_False)
qed

lemma convertFromSeconds_witness:
  "convertFromSeconds (jint 3725) = ''01:02:05''"
proof -
  have "pad2 (Fin (of_nat (3725 div 3600))) @ '':'' @ pad2 (Fin (of_nat (3725 mod 3600 div 60))) @ '':''
       @ pad2 (Fin (of_nat (3725 mod 60))) = ''01:02:05''" by code_simp
  then show ?thesis using convertFromSeconds_exact [of 3725] by simp
qed

end
