(* ===== verification/Hashi_Mediator.thy ===== *)
theory Hashi_Mediator
  imports Js_Value
begin

text \<open>
  \<open>packages/hashi/src/mediator.js\<close> and \<open>baseShim.js\<close>: message handlers by name space and event,
  requests that wait for a reply, and the subscription guard of the shims.  Handler arrays live
  in a store, because a handler may change the array that is being iterated: removing a callback
  splices the array in place, removing all of them puts a new array in its place.
\<close>

section \<open>State\<close>

text \<open>
  A handler is a callback of a client, named by a number, or the handler of a pending request
  with its message id and name space.
\<close>

datatype handler = Callback nat | ReplyHandler string string

datatype settled = ResolvedWith jsval | RejectedWith jsval

record mediator =
  handler_table :: "nat jsobj jsobj"
  handler_arrays :: "handler list list"
  posted :: "jsval list"
  outcomes :: "(string \<times> settled) list"

definition new_mediator :: mediator where
  "new_mediator = \<lparr>handler_table = [], handler_arrays = [], posted = [], outcomes = []\<rparr>"

definition table_get :: "mediator \<Rightarrow> string \<Rightarrow> string \<Rightarrow> nat option" where
  "table_get m ns ev = (case obj_get (handler_table m) ns of None \<Rightarrow> None | Some t \<Rightarrow> obj_get t ev)"

definition table_put :: "string \<Rightarrow> string \<Rightarrow> nat \<Rightarrow> mediator \<Rightarrow> mediator" where
  "table_put ns ev a m = m\<lparr>handler_table :=
     obj_set ns (obj_set ev a (case obj_get (handler_table m) ns of None \<Rightarrow> [] | Some t \<Rightarrow> t)) (handler_table m)\<rparr>"

text \<open>The array registered for an event, empty when there is none.\<close>

definition array_at :: "mediator \<Rightarrow> nat \<Rightarrow> handler list" where
  "array_at m a = (if a < length (handler_arrays m) then handler_arrays m ! a else [])"

definition registered :: "mediator \<Rightarrow> string \<Rightarrow> string \<Rightarrow> handler list" where
  "registered m ns ev = (case table_get m ns ev of None \<Rightarrow> [] | Some a \<Rightarrow> array_at m a)"

section \<open>Operations\<close>

text \<open>The name space and the event may be \<open>undefined\<close>; then nothing is registered.\<close>

definition registerMessageHandler :: "string option \<Rightarrow> string option \<Rightarrow> handler \<Rightarrow> mediator \<Rightarrow> mediator" where
  "registerMessageHandler nameSpace event cb m =
     (case (nameSpace, event) of
        (Some ns, Some ev) \<Rightarrow>
          (case table_get m ns ev of
             Some a \<Rightarrow> m\<lparr>handler_arrays := (handler_arrays m)[a := array_at m a @ [cb]]\<rparr>
           | None \<Rightarrow> table_put ns ev (length (handler_arrays m))
                 (m\<lparr>handler_arrays := handler_arrays m @ [[cb]]\<rparr>))
      | _ \<Rightarrow> m)"

fun index_of :: "'a \<Rightarrow> 'a list \<Rightarrow> nat option" where
  "index_of x [] = None"
| "index_of x (y # ys) = (if y = x then Some 0 else map_option Suc (index_of x ys))"

definition splice_out :: "nat \<Rightarrow> 'a list \<Rightarrow> 'a list" where
  "splice_out i xs = take i xs @ drop (Suc i) xs"

definition removeMessageHandler :: "string option \<Rightarrow> string \<Rightarrow> handler option \<Rightarrow> mediator \<Rightarrow> mediator" where
  "removeMessageHandler nameSpace event cb m =
     (case nameSpace of None \<Rightarrow> m | Some ns \<Rightarrow>
       (case table_get m ns event of
          None \<Rightarrow> m
        | Some a \<Rightarrow>
            (case (case cb of None \<Rightarrow> None | Some c \<Rightarrow> index_of c (array_at m a)) of
               Some i \<Rightarrow> m\<lparr>handler_arrays := (handler_arrays m)[a := splice_out i (array_at m a)]\<rparr>
             | None \<Rightarrow> table_put ns event (length (handler_arrays m))
                 (m\<lparr>handler_arrays := handler_arrays m @ [[]]\<rparr>))))"

definition message :: "string \<Rightarrow> string \<Rightarrow> jsval \<Rightarrow> jsval" where
  "message ns ev d = JObj [(''event'', JStr ev), (''data'', d), (''nameSpace'', JStr ns)]"

definition sendMessage :: "string \<Rightarrow> string \<Rightarrow> jsval \<Rightarrow> mediator \<Rightarrow> mediator" where
  "sendMessage ns ev d m = m\<lparr>posted := posted m @ [message ns ev d]\<rparr>"

abbreviation DATARETURNED :: string where
  "DATARETURNED \<equiv> ''datareturned''"

text \<open>A promise keeps the first outcome it is given.\<close>

definition settle :: "string \<Rightarrow> settled \<Rightarrow> mediator \<Rightarrow> mediator" where
  "settle i r m = (if map_of (outcomes m) i = None then m\<lparr>outcomes := outcomes m @ [(i, r)]\<rparr> else m)"

text \<open>\<open>sendMessageAwaitReply\<close> with the id that was drawn; it raises unless \<open>data\<close> is an object.\<close>

definition sendMessageAwaitReply :: "string \<Rightarrow> string \<Rightarrow> string \<Rightarrow> jsval \<Rightarrow> mediator \<Rightarrow> mediator" where
  "sendMessageAwaitReply msgId ns ev d m =
     (let m' = registerMessageHandler (Some ns) (Some DATARETURNED) (ReplyHandler msgId ns) m
      in case js_put d ''message_id'' (JStr msgId) of
           Inr d' \<Rightarrow> sendMessage ns ev d' m'
         | Inl _ \<Rightarrow> settle msgId (RejectedWith (JStr ''TypeError'')) m')"

definition reply_outcome :: "jsval \<Rightarrow> settled" where
  "reply_outcome d =
     (if string_loose_eq ''success'' (js_prop d ''status'') then ResolvedWith (js_prop d ''data'')
      else if js_prop d ''status'' = JStr ''failure'' \<and> truthy (js_prop d ''err'')
           then RejectedWith (js_prop d ''err'')
      else RejectedWith JUndef)"

text \<open>
  Calling a handler.  \<open>eff\<close> is what a client's callback does to the mediator; an exception in
  one is caught, so it is part of \<open>eff\<close>.
\<close>

definition call_handler :: "(nat \<Rightarrow> jsval \<Rightarrow> mediator \<Rightarrow> mediator) \<Rightarrow> handler \<Rightarrow> jsval \<Rightarrow> mediator \<Rightarrow> mediator" where
  "call_handler eff h d m = (case h of
       Callback c \<Rightarrow> eff c d m
     | ReplyHandler i ns \<Rightarrow>
         (if js_prop d ''message_id'' = JStr i \<and> js_prop d ''type'' = JStr ''response''
          then removeMessageHandler (Some ns) DATARETURNED (Some h) (settle i (reply_outcome d) m)
          else m))"

text \<open>
  \<open>forEach\<close> on the array at address \<open>a\<close>: \<open>n\<close> indices from \<open>i\<close> on are visited, each read from the
  array as it is then; an index past its end is skipped.
\<close>

fun for_each :: "(nat \<Rightarrow> jsval \<Rightarrow> mediator \<Rightarrow> mediator) \<Rightarrow> jsval \<Rightarrow> nat \<Rightarrow> nat \<Rightarrow> nat \<Rightarrow> mediator \<Rightarrow> mediator" where
  "for_each eff d a i 0 m = m"
| "for_each eff d a i (Suc n) m = for_each eff d a (Suc i) n
     (if i < length (array_at m a) then call_handler eff (array_at m a ! i) d m else m)"

text \<open>The name space and event of a received message are used as property names.\<close>

definition handleMessage :: "(nat \<Rightarrow> jsval \<Rightarrow> mediator \<Rightarrow> mediator) \<Rightarrow> jsval \<Rightarrow> mediator \<Rightarrow> mediator" where
  "handleMessage eff msg m =
     (let ns = js_prop msg ''nameSpace''; ev = js_prop msg ''event'' in
      if ns = JUndef \<or> ev = JUndef then m
      else (case table_get m (js_string ns) (js_string ev) of
              None \<Rightarrow> m
            | Some a \<Rightarrow> for_each eff (js_prop msg ''data'') a 0 (length (array_at m a)) m))"

section \<open>The base class of the shims\<close>

definition hashi_events :: "string list" where
  "hashi_events = [''readycheck'', ''mainready'', ''iframeready'', ''stateupdate'', ''userdataupdate'',
     ''datarequested'', ''collectionrequested'', ''collectionpagerequested'', ''modelrequested'',
     ''searchresultrequested'', ''datareturned'', ''kolibridatareturned'', ''navigateTo'', ''context'',
     ''themechanged'', ''kolibriversionrequested'', ''channelmetadatarequested'',
     ''channelfilteroptionsrequested'', ''randomcollectionrequested'', ''now'', ''resize'', ''loading'', ''error'']"

text \<open>The name space of a shim is \<open>undefined\<close> until its subclass assigns it.\<close>

record shim =
  shim_ns :: "string option"
  nowDiff :: int

definition shim_on :: "shim \<Rightarrow> string \<Rightarrow> handler \<Rightarrow> mediator \<Rightarrow> mediator js_result" where
  "shim_on sh ev cb m =
     (if ev \<in> set hashi_events then Inr (registerMessageHandler (shim_ns sh) (Some ev) cb m)
      else Inl (ReferenceError (ev @ '' is not a valid event name for '' @
        (case shim_ns sh of Some n \<Rightarrow> n | None \<Rightarrow> ''undefined''))))"

definition shim_off :: "shim \<Rightarrow> string \<Rightarrow> handler option \<Rightarrow> mediator \<Rightarrow> mediator js_result" where
  "shim_off sh ev cb m =
     (if ev \<in> set hashi_events then Inr (removeMessageHandler (shim_ns sh) ev cb m)
      else Inl (ReferenceError (ev @ '' is not a valid event name for '' @
        (case shim_ns sh of Some n \<Rightarrow> n | None \<Rightarrow> ''undefined''))))"

text \<open>
  The constructor of \<open>BaseShim\<close>, run by \<open>super\<close> before the subclass sets its name space;
  \<open>setter\<close> is the bound \<open>__setNowDiff\<close>.  Then the subclass's part: its name space and its
  handler of state updates.
\<close>

definition base_constructor :: "handler \<Rightarrow> mediator \<Rightarrow> (shim \<times> mediator) js_result" where
  "base_constructor setter m =
     (let sh = \<lparr>shim_ns = None, nowDiff = 0\<rparr>
      in bind_result (shim_on sh ''now'' setter m) (\<lambda>m'. Inr (sh, m')))"

definition shim_constructor ::
  "string \<Rightarrow> handler \<Rightarrow> handler \<Rightarrow> mediator \<Rightarrow> (shim \<times> mediator) js_result" where
  "shim_constructor ns setter updater m =
     bind_result (base_constructor setter m) (\<lambda>(sh, m').
       let sh' = sh\<lparr>shim_ns := Some ns\<rparr>
       in bind_result (shim_on sh' ''stateupdate'' updater m') (\<lambda>m''. Inr (sh', m'')))"

definition setNowDiff :: "int \<Rightarrow> shim \<Rightarrow> shim" where
  "setNowDiff d sh = sh\<lparr>nowDiff := d\<rparr>"

text \<open>\<open>__now\<close> and \<open>setNow\<close>, at the client's own clock \<open>clock\<close> in milliseconds.\<close>

definition shim_now :: "int \<Rightarrow> shim \<Rightarrow> int" where
  "shim_now clock sh = clock + nowDiff sh"

definition setNow :: "int \<Rightarrow> int \<Rightarrow> shim \<Rightarrow> mediator \<Rightarrow> shim \<times> mediator" where
  "setNow clock now sh m =
     (let sh' = setNowDiff (now - clock) sh
      in (sh', sendMessage (case shim_ns sh of Some n \<Rightarrow> n | None \<Rightarrow> ''undefined'') ''now'' (jint (nowDiff sh')) m))"

section \<open>The handler arrays are not shared\<close>

definition mediator_inv :: "mediator \<Rightarrow> bool" where
  "mediator_inv m \<longleftrightarrow>
     (\<forall>ns ev a. table_get m ns ev = Some a \<longrightarrow> a < length (handler_arrays m)
        \<and> (\<forall>ns' ev'. table_get m ns' ev' = Some a \<longrightarrow> ns' = ns \<and> ev' = ev))"

lemma table_get_put [simp]:
  "table_get (table_put ns ev a m) ns' ev' = (if ns' = ns \<and> ev' = ev then Some a else table_get m ns' ev')"
  by (auto simp: table_get_def table_put_def split: option.splits)

lemma table_put_fields [simp]:
  "handler_arrays (table_put ns ev a m) = handler_arrays m"
  "posted (table_put ns ev a m) = posted m" "outcomes (table_put ns ev a m) = outcomes m"
  by (simp_all add: table_put_def)

lemma table_get_arrays [simp]:
  "table_get (m\<lparr>handler_arrays := x\<rparr>) ns ev = table_get m ns ev"
  "table_get (m\<lparr>posted := y\<rparr>) ns ev = table_get m ns ev"
  "table_get (m\<lparr>outcomes := z\<rparr>) ns ev = table_get m ns ev"
  by (simp_all add: table_get_def)

lemma array_at_simps [simp]:
  "array_at (m\<lparr>posted := y\<rparr>) a = array_at m a" "array_at (m\<lparr>outcomes := z\<rparr>) a = array_at m a"
  "array_at (table_put ns ev b m) a = array_at m a"
  by (simp_all add: array_at_def)

lemma inv_less: "mediator_inv m \<Longrightarrow> table_get m ns ev = Some a \<Longrightarrow> a < length (handler_arrays m)"
  by (simp add: mediator_inv_def)

lemma inv_unique:
  "mediator_inv m \<Longrightarrow> table_get m ns ev = Some a \<Longrightarrow> table_get m ns' ev' = Some a \<Longrightarrow> ns' = ns \<and> ev' = ev"
  by (simp add: mediator_inv_def)

lemma inv_register: "mediator_inv m \<Longrightarrow> mediator_inv (registerMessageHandler ns ev cb m)"
  by (auto simp: registerMessageHandler_def mediator_inv_def less_SucI split: option.splits)

lemma inv_remove: "mediator_inv m \<Longrightarrow> mediator_inv (removeMessageHandler ns ev cb m)"
  by (auto simp: removeMessageHandler_def mediator_inv_def less_SucI split: option.splits)

lemma registered_register:
  assumes "mediator_inv m"
  shows "registered (registerMessageHandler (Some ns) (Some ev) cb m) ns' ev' =
     (if ns' = ns \<and> ev' = ev then registered m ns ev @ [cb] else registered m ns' ev')"
  using assms
  by (auto simp: registerMessageHandler_def registered_def array_at_def nth_append nth_list_update
      dest: inv_less inv_unique split: option.splits)

text \<open>What is left after removing a callback that is registered, and one that is not.\<close>

lemma index_of_Some: "index_of x xs = Some i \<Longrightarrow> i < length xs \<and> xs ! i = x \<and> splice_out i xs = remove1 x xs"
proof (induction xs arbitrary: i)
  case (Cons y ys)
  then show ?case by (cases "y = x") (auto simp: splice_out_def)
qed simp

lemma index_of_None: "index_of x xs = None \<longleftrightarrow> x \<notin> set xs"
  by (induction xs) auto

lemma registered_remove:
  assumes "mediator_inv m"
  shows "registered (removeMessageHandler (Some ns) ev (Some cb) m) ns' ev' =
     (if ns' = ns \<and> ev' = ev
      then (if cb \<in> set (registered m ns ev) then remove1 cb (registered m ns ev) else [])
      else registered m ns' ev')"
proof (cases "table_get m ns ev")
  case (Some a)
  then have a: "a < length (handler_arrays m)" using assms by (rule inv_less [rotated])
  show ?thesis
  proof (cases "index_of cb (array_at m a)")
    case None
    then have "cb \<notin> set (array_at m a)" by (simp add: index_of_None)
    then show ?thesis using Some None
      by (auto simp: removeMessageHandler_def registered_def array_at_def nth_append
        dest: inv_less [OF assms] split: option.splits)
  next
    case i: (Some i)
    then have "cb \<in> set (array_at m a)" "splice_out i (array_at m a) = remove1 cb (array_at m a)"
      using index_of_Some [OF i] by (auto dest: nth_mem)
    then show ?thesis using Some i a
      by (auto simp: removeMessageHandler_def registered_def array_at_def nth_list_update
        dest: inv_unique [OF assms] split: option.splits)
  qed
qed (auto simp: removeMessageHandler_def registered_def split: option.splits)

section \<open>Delivery\<close>

text \<open>A handler that does nothing for this message.\<close>

definition idle :: "jsval \<Rightarrow> handler \<Rightarrow> bool" where
  "idle d h \<longleftrightarrow> (case h of Callback _ \<Rightarrow> False | ReplyHandler i ns \<Rightarrow> js_prop d ''message_id'' \<noteq> JStr i)"

lemma call_idle: "idle d h \<Longrightarrow> call_handler eff h d m = m"
  by (auto simp: idle_def call_handler_def split: handler.splits)

lemma for_each_idle:
  assumes "\<And>j. i \<le> j \<Longrightarrow> j < length (array_at m a) \<Longrightarrow> idle d (array_at m a ! j)"
  shows "for_each eff d a i n m = m"
  using assms
proof (induction n arbitrary: i)
  case (Suc n)
  have "for_each eff d a (Suc i) n m = m" using Suc by simp
  moreover have "i < length (array_at m a) \<Longrightarrow> call_handler eff (array_at m a ! i) d m = m"
    using Suc.prems [of i] by (simp add: call_idle)
  ultimately show ?case by simp
qed simp

lemma for_each_skip:
  assumes "\<And>j. i \<le> j \<Longrightarrow> j < i + n \<Longrightarrow> idle d (array_at m a ! j)"
  shows "for_each eff d a i (n + k) m = for_each eff d a (i + n) k m"
  using assms
proof (induction n arbitrary: i)
  case (Suc n)
  have "call_handler eff (array_at m a ! i) d m = m" using Suc.prems [of i] by (simp add: call_idle)
  then have "for_each eff d a i (Suc n + k) m = for_each eff d a (Suc i) (n + k) m" by simp
  also have "\<dots> = for_each eff d a (Suc i + n) k m" using Suc.prems by (intro Suc.IH) simp
  finally show ?case by simp
qed simp

lemma for_each_fold:
  assumes "\<And>c d m. handler_arrays (eff c d m) = handler_arrays m"
    and "\<forall>h \<in> set (array_at m a). \<exists>c. h = Callback c" and "i + n = length (array_at m a)"
  shows "for_each eff d a i n m = fold (\<lambda>h. call_handler eff h d) (drop i (array_at m a)) m"
  using assms(2,3)
proof (induction n arbitrary: i m)
  case (Suc n)
  then have i: "i < length (array_at m a)" by simp
  then obtain c where c: "array_at m a ! i = Callback c" using Suc.prems(1) nth_mem by metis
  let ?m = "eff c d m"
  have a: "array_at ?m a = array_at m a" using assms(1) by (simp add: array_at_def)
  have "for_each eff d a i (Suc n) m = for_each eff d a (Suc i) n ?m"
    using i c by (simp add: call_handler_def)
  also have "\<dots> = fold (\<lambda>h. call_handler eff h d) (drop (Suc i) (array_at m a)) ?m"
    using Suc.IH [of ?m "Suc i"] Suc.prems a by simp
  also have "\<dots> = fold (\<lambda>h. call_handler eff h d) (drop i (array_at m a)) m"
    using i c by (simp add: call_handler_def flip: Cons_nth_drop_Suc)
  finally show ?case .
qed simp

lemma outcomes_remove [simp]: "outcomes (removeMessageHandler ns ev cb m) = outcomes m"
  by (simp add: removeMessageHandler_def split: option.splits)

lemma registered_settle [simp]: "registered (settle i r m) ns ev = registered m ns ev"
  by (simp add: settle_def registered_def split: option.splits)

lemma inv_settle: "mediator_inv m \<Longrightarrow> mediator_inv (settle i r m)"
  by (simp add: settle_def mediator_inv_def)

text \<open>The array spliced by a reply handler holds one handler less.\<close>

lemma array_after_reply:
  assumes inv: "mediator_inv m" and t: "table_get m ns ev = Some a" and mem: "h \<in> set (array_at m a)"
  shows "array_at (removeMessageHandler (Some ns) ev (Some h) m) a = remove1 h (array_at m a)"
proof -
  have a: "a < length (handler_arrays m)" using inv t by (rule inv_less)
  obtain i where "index_of h (array_at m a) = Some i" using mem index_of_None [of h "array_at m a"] by auto
  moreover from this have "splice_out i (array_at m a) = remove1 h (array_at m a)" by (simp add: index_of_Some)
  ultimately show ?thesis using t a by (simp add: removeMessageHandler_def) (simp add: array_at_def)
qed

lemma table_after_reply:
  assumes "table_get m ns ev = Some a" and "h \<in> set (array_at m a)"
  shows "table_get (removeMessageHandler (Some ns) ev (Some h) m) ns ev = Some a"
  using assms index_of_None [of h "array_at m a"]
  by (auto simp: removeMessageHandler_def split: option.splits)

lemma idle_others:
  assumes "js_prop d ''message_id'' = JStr i"
    and "\<forall>h \<in> set hs. \<exists>j ns. h = ReplyHandler j ns \<and> j \<noteq> i"
  shows "\<forall>h \<in> set hs. idle d h"
  using assms by (auto simp: idle_def)

lemma handle_reply:
  assumes inv: "mediator_inv m"
    and reg: "registered m ns DATARETURNED = hs1 @ ReplyHandler i ns # hs2"
    and others: "\<forall>h \<in> set (hs1 @ hs2). \<exists>j ns. h = ReplyHandler j ns \<and> j \<noteq> i"
    and d: "js_prop d ''message_id'' = JStr i" "js_prop d ''type'' = JStr ''response''"
  shows "handleMessage eff (message ns DATARETURNED d) m
     = removeMessageHandler (Some ns) DATARETURNED (Some (ReplyHandler i ns)) (settle i (reply_outcome d) m)"
proof -
  let ?h = "ReplyHandler i ns"
  let ?m' = "removeMessageHandler (Some ns) DATARETURNED (Some ?h) (settle i (reply_outcome d) m)"
  obtain a where t: "table_get m ns DATARETURNED = Some a" and arr: "array_at m a = hs1 @ ?h # hs2"
    using reg by (auto simp: registered_def split: option.splits)
  have idle: "\<forall>h \<in> set (hs1 @ hs2). idle d h" using idle_others [OF d(1) others] .
  have notin: "?h \<notin> set hs1" using others by auto
  have "array_at ?m' a = remove1 ?h (array_at m a)"
    using array_after_reply [OF inv_settle [OF inv]] t arr
    by (simp add: settle_def)
  then have arr': "array_at ?m' a = hs1 @ hs2" using arr notin by (simp add: remove1_append)
  have "handleMessage eff (message ns DATARETURNED d) m = for_each eff d a 0 (length hs1 + Suc (length hs2)) m"
    using t arr by (simp add: handleMessage_def message_def js_prop_def js_own_def obj_get_def)
  also have "\<dots> = for_each eff d a (length hs1) (Suc (length hs2)) m"
  proof -
    have "idle d (array_at m a ! j)" if "j < 0 + length hs1" for j
      using that idle arr by (simp add: nth_append)
    from for_each_skip [of 0 "length hs1", OF this] show ?thesis
      by (simp only: add_0 for_each.simps(2) [symmetric])
  qed
  also have "\<dots> = for_each eff d a (Suc (length hs1)) (length hs2) ?m'"
    using arr d by (simp add: call_handler_def)
  also have "\<dots> = ?m'"
    using arr' idle by (intro for_each_idle) (metis nth_mem)
  finally show ?thesis .
qed

datatype mediator_event =
    Register "string option" "string option" handler
  | Remove "string option" string "handler option"
  | Send string string jsval
  | Await string string string jsval
  | Receive jsval

text \<open>One event, for callbacks that have no effect on the mediator.\<close>

definition mediator_step :: "mediator \<Rightarrow> mediator_event \<Rightarrow> mediator" where
  "mediator_step m e = (case e of
       Register ns ev h \<Rightarrow> registerMessageHandler ns ev h m
     | Remove ns ev h \<Rightarrow> removeMessageHandler ns ev h m
     | Send ns ev d \<Rightarrow> sendMessage ns ev d m
     | Await i ns ev d \<Rightarrow> sendMessageAwaitReply i ns ev d m
     | Receive msg \<Rightarrow> handleMessage (\<lambda>_ _ m. m) msg m)"

lemma inv_send: "mediator_inv m \<Longrightarrow> mediator_inv (sendMessage ns ev d m)"
  by (simp add: sendMessage_def mediator_inv_def)

lemma inv_call: "mediator_inv m \<Longrightarrow> mediator_inv (call_handler (\<lambda>_ _ m. m) h d m)"
  by (simp add: call_handler_def inv_remove inv_settle split: handler.splits)

lemma inv_for_each: "mediator_inv m \<Longrightarrow> mediator_inv (for_each (\<lambda>_ _ m. m) d a i n m)"
  by (induction n arbitrary: i m) (simp_all add: inv_call)

lemma inv_mediator_step: "mediator_inv m \<Longrightarrow> mediator_inv (mediator_step m e)"
  by (auto simp: mediator_step_def sendMessageAwaitReply_def Let_def handleMessage_def inv_register inv_remove
      inv_send inv_settle inv_for_each split: mediator_event.splits sum.splits option.splits)

interpretation mediator: stepper mediator_step mediator_inv
  by unfold_locales (rule inv_mediator_step)

lemma inv_new_mediator: "mediator_inv new_mediator"
  by (simp add: mediator_inv_def new_mediator_def table_get_def)

section \<open>Properties\<close>

text \<open>
  C7. Whatever events came before, when the response to a pending request arrives among other
  pending requests, exactly that request is settled, with the outcome the response's status
  asks for, its handler alone is removed although the array is being iterated, and a second
  response with the same id changes nothing.
\<close>

theorem reply_settles_its_request:
  assumes "m = foldl mediator_step new_mediator es"
    and "registered m ns ''datareturned'' = hs1 @ ReplyHandler i ns # hs2"
    and "\<forall>h \<in> set (hs1 @ hs2). \<exists>j ns. h = ReplyHandler j ns \<and> j \<noteq> i"
    and "map_of (outcomes m) i = None"
    and "js_prop d ''message_id'' = JStr i" and "js_prop d ''type'' = JStr ''response''"
  shows "let m' = mediator_step m (Receive (message ns ''datareturned'' d))
     in outcomes m' = outcomes m @ [(i, reply_outcome d)]
        \<and> registered m' ns ''datareturned'' = hs1 @ hs2
        \<and> outcomes (mediator_step m' (Receive (message ns ''datareturned'' d))) = outcomes m'"
proof -
  have inv: "mediator_inv m" unfolding assms(1) by (rule mediator.run_inv [OF inv_new_mediator])
  let ?m' = "removeMessageHandler (Some ns) DATARETURNED (Some (ReplyHandler i ns)) (settle i (reply_outcome d) m)"
  have s: "mediator_step m (Receive (message ns DATARETURNED d)) = ?m'"
    using handle_reply [OF inv assms(2,3,5,6)] by (simp add: mediator_step_def)
  have reg: "registered ?m' ns DATARETURNED = hs1 @ hs2"
  proof -
    have "ReplyHandler i ns \<notin> set hs1" using assms(3) by auto
    then show ?thesis using registered_remove [OF inv_settle [OF inv]] assms(2) by (simp add: remove1_append)
  qed
  have idle: "\<forall>h \<in> set (hs1 @ hs2). idle d h" by (rule idle_others [OF assms(5,3)])
  have "handleMessage (\<lambda>_ _ m. m) (message ns DATARETURNED d) ?m' = ?m'"
  proof (cases "table_get ?m' ns DATARETURNED")
    case (Some a)
    then have "array_at ?m' a = hs1 @ hs2" using reg by (simp add: registered_def)
    then have "for_each (\<lambda>_ _ m. m) d a 0 (length (hs1 @ hs2)) ?m' = ?m'"
      using idle by (intro for_each_idle) (metis nth_mem)
    then show ?thesis using Some \<open>array_at ?m' a = hs1 @ hs2\<close>
      by (simp add: handleMessage_def message_def js_prop_def js_own_def obj_get_def)
  qed (simp add: handleMessage_def message_def js_prop_def js_own_def obj_get_def)
  then show ?thesis using s reg assms(4) by (simp add: mediator_step_def settle_def)
qed

lemma reply_settles_witness:
  "let m = foldl mediator_step new_mediator
         [Await ''1'' ''hashi'' ''datarequested'' (JObj []), Await ''2'' ''hashi'' ''datarequested'' (JObj [])];
       d = JObj [(''message_id'', JStr ''1''), (''type'', JStr ''response''), (''status'', JStr ''success''), (''data'', JNull)]
   in outcomes (mediator_step m (Receive (message ''hashi'' ''datareturned'' d))) = [(''1'', ResolvedWith JNull)]"
proof -
  define m where "m = foldl mediator_step new_mediator
    [Await ''1'' ''hashi'' ''datarequested'' (JObj []), Await ''2'' ''hashi'' ''datarequested'' (JObj [])]"
  define d where "d = JObj [(''message_id'', JStr ''1''), (''type'', JStr ''response''),
    (''status'', JStr ''success''), (''data'', JNull)]"
  have "registered m ''hashi'' ''datareturned'' = [] @ ReplyHandler ''1'' ''hashi'' # [ReplyHandler ''2'' ''hashi'']"
    "outcomes m = []" unfolding m_def by code_simp+
  moreover have "js_prop d ''message_id'' = JStr ''1''" "js_prop d ''type'' = JStr ''response''"
    "reply_outcome d = ResolvedWith JNull" unfolding d_def by code_simp+
  ultimately show ?thesis
    using reply_settles_its_request [OF m_def, of "''hashi''" "[]" "''1''" "[ReplyHandler ''2'' ''hashi'']" d]
    by (simp add: Let_def m_def d_def)
qed

text \<open>
  A message reaches every callback registered for its event, once each and in the order they
  were registered, and no callback of another event.
\<close>

theorem message_delivered_in_order:
  assumes "\<And>c d m. handler_arrays (eff c d m) = handler_arrays m"
    and "registered m ns ev = map Callback cs"
  shows "handleMessage eff (message ns ev d) m = fold (\<lambda>c. eff c d) cs m"
proof (cases "table_get m ns ev")
  case None
  then show ?thesis using assms(2)
    by (simp add: handleMessage_def message_def js_prop_def js_own_def obj_get_def registered_def)
next
  case (Some a)
  then have "array_at m a = map Callback cs" using assms(2) by (simp add: registered_def)
  moreover have "(\<lambda>c. call_handler eff (Callback c) d) = (\<lambda>c. eff c d)"
    by (intro ext) (simp add: call_handler_def)
  ultimately show ?thesis
    using Some for_each_fold [of eff m a 0 "length cs" d, OF assms(1)]
    by (simp add: handleMessage_def message_def js_prop_def js_own_def obj_get_def fold_map comp_def)
qed

lemma message_delivered_witness:
  "handleMessage (\<lambda>c d m. m\<lparr>posted := posted m @ [jint (int c)]\<rparr>) (message ''hashi'' ''now'' JNull)
     (registerMessageHandler (Some ''hashi'') (Some ''now'') (Callback 7) new_mediator)
   = (registerMessageHandler (Some ''hashi'') (Some ''now'') (Callback 7) new_mediator)\<lparr>posted := [jint 7]\<rparr>"
proof -
  let ?m = "registerMessageHandler (Some ''hashi'') (Some ''now'') (Callback 7) new_mediator"
  have "registered ?m ''hashi'' ''now'' = map Callback [7]" "posted ?m = []" by code_simp+
  then show ?thesis
    using message_delivered_in_order [of "\<lambda>c d m. m\<lparr>posted := posted m @ [jint (int c)]\<rparr>" ?m "''hashi''" "''now''" "[7]" JNull]
    by simp
qed

text \<open>
  Unsubscribing is not idempotent: removing a callback that is not (or no longer) registered
  removes every handler of that event, other subscribers' included.
\<close>

theorem second_off_removes_everyone:
  "(let m = registerMessageHandler (Some ns) (Some ev) other (registerMessageHandler (Some ns) (Some ev) mine new_mediator);
        m1 = removeMessageHandler (Some ns) ev (Some mine) m;
        m2 = removeMessageHandler (Some ns) ev (Some mine) m1
    in mine = other \<or> (registered m1 ns ev = [other] \<and> registered m2 ns ev = []))"
  using inv_new_mediator
  by (simp add: Let_def registered_remove registered_register inv_register inv_remove)
    (simp add: registered_def new_mediator_def table_get_def)

text \<open>
  A shim never listens for clock corrections: the base constructor subscribes to \<open>now\<close>
  before the subclass has set the name space, the mediator ignores the registration, and a
  \<open>now\<close> message for the shim reaches nobody.
\<close>

theorem now_never_received:
  "case shim_constructor ns setter updater new_mediator of
     Inl _ \<Rightarrow> False
   | Inr (sh, m) \<Rightarrow> shim_ns sh = Some ns \<and> registered m ns ''stateupdate'' = [updater]
       \<and> registered m ns ''now'' = []
       \<and> handleMessage eff (message ns ''now'' d) m = m"
proof -
  let ?m = "registerMessageHandler (Some ns) (Some ''stateupdate'') updater new_mediator"
  have c: "shim_constructor ns setter updater new_mediator = Inr (\<lparr>shim_ns = Some ns, nowDiff = 0\<rparr>, ?m)"
    by (simp add: shim_constructor_def base_constructor_def shim_on_def hashi_events_def)
      (simp add: registerMessageHandler_def)
  have "table_get ?m ns ''now'' = None"
    by (simp add: registerMessageHandler_def new_mediator_def table_get_def table_put_def)
  then have "handleMessage eff (message ns ''now'' d) ?m = ?m"
    by (simp add: handleMessage_def message_def js_prop_def js_own_def obj_get_def)
  moreover have "registered ?m ns ''stateupdate'' = [updater]" "registered ?m ns ''now'' = []"
    by (simp_all add: registered_register inv_new_mediator)
      (simp_all add: registered_def new_mediator_def table_get_def)
  ultimately show ?thesis by (simp add: c)
qed

end
