(* ===== verification/Hashi_Storage.thy ===== *)
theory Hashi_Storage
  imports Js_Value
begin

text \<open>
  \<open>packages/hashi/src/baseStorage.js\<close>, \<open>localStorage.js\<close> and \<open>sessionStorage.js\<close>: the storage
  objects offered to sandboxed content.  The stored data and the own properties of the shim
  object are two copies that the code keeps in step.  Both are plain objects, so that reading finds
  inherited members too, and an assignment to \<open>__proto__\<close> stores nothing.
\<close>

section \<open>State and synchronisation\<close>

record storage =
  st_session :: bool
  st_data :: "jsval jsobj"
  st_shim :: "jsval jsobj option"
  st_sent :: "(string \<times> jsval) list"

definition internalKeys :: "string list" where
  "internalKeys = [''length'', ''key'', ''getItem'', ''setItem'', ''removeItem'', ''clear'']"

definition new_storage :: "bool \<Rightarrow> storage" where
  "new_storage session = \<lparr>st_session = session, st_data = [], st_shim = None, st_sent = []\<rparr>"

text \<open>The session storage overrides \<open>stateUpdated\<close> to send nothing.\<close>

definition st_stateUpdated :: "storage \<Rightarrow> storage" where
  "st_stateUpdated s = (if st_session s then s
     else s\<lparr>st_sent := st_sent s @ [(''stateupdate'', JObj (st_data s))]\<rparr>)"

definition filter_keys :: "(string \<Rightarrow> bool) \<Rightarrow> 'v jsobj \<Rightarrow> 'v jsobj" where
  "filter_keys p m = filter (\<lambda>e. p (fst e)) m"

text \<open>\<open>m[k] = v\<close> for a string \<open>v\<close>, and \<open>m[k]\<close>.\<close>

definition assign_key :: "string \<Rightarrow> jsval \<Rightarrow> jsval jsobj \<Rightarrow> jsval jsobj" where
  "assign_key k v m = (if k = ''__proto__'' then m else obj_set k v m)"

datatype member = Value jsval | Inherited string

definition member_of :: "jsval jsobj \<Rightarrow> string \<Rightarrow> member" where
  "member_of m k = (case obj_get m k of Some v \<Rightarrow> Value v
     | None \<Rightarrow> if k \<in> set object_members then Inherited k else Value JUndef)"

definition truthy_member :: "member \<Rightarrow> bool" where
  "truthy_member x = (case x of Value v \<Rightarrow> truthy v | Inherited _ \<Rightarrow> True)"

definition setDataToShim :: "storage \<Rightarrow> storage" where
  "setDataToShim s = (case st_shim s of None \<Rightarrow> s | Some sh \<Rightarrow>
     (let sh1 = fold (\<lambda>(k, v). assign_key k v)
            (filter (\<lambda>e. fst e \<notin> set internalKeys) (obj_entries (st_data s))) sh
      in s\<lparr>st_shim := Some (filter_keys (\<lambda>k. truthy_member (member_of (st_data s) k)) sh1)\<rparr>))"

definition st_setData :: "jsval jsobj \<Rightarrow> storage \<Rightarrow> storage" where
  "st_setData d s = setDataToShim (s\<lparr>st_data := d\<rparr>)"

text \<open>Changes made directly on the shim object: new or changed properties, then deleted ones.\<close>

definition changed_on_shim :: "jsval jsobj \<Rightarrow> jsval jsobj \<Rightarrow> string list" where
  "changed_on_shim d sh = filter (\<lambda>k. k \<notin> set internalKeys
     \<and> obj_get d k \<noteq> Some (JStr (js_string (the (obj_get sh k))))) (obj_keys sh)"

definition deleted_on_shim :: "jsval jsobj \<Rightarrow> jsval jsobj \<Rightarrow> string list" where
  "deleted_on_shim d sh = filter (\<lambda>k. obj_get sh k = None \<and> k \<notin> set internalKeys) (obj_keys d)"

definition setDataFromShim :: "storage \<Rightarrow> storage" where
  "setDataFromShim s = (case st_shim s of None \<Rightarrow> s | Some sh \<Rightarrow>
     (let ch = changed_on_shim (st_data s) sh; del = deleted_on_shim (st_data s) sh;
          d1 = fold (\<lambda>k. assign_key k (JStr (js_string (the (obj_get sh k))))) ch (st_data s)
      in if ch = [] \<and> del = [] then s
         else st_stateUpdated (st_setData (fold obj_del del d1) s)))"

section \<open>The storage interface\<close>

definition st_init :: "storage \<Rightarrow> storage" where
  "st_init s = setDataToShim (s\<lparr>st_shim := Some []\<rparr>)"

definition st_length :: "storage \<Rightarrow> storage \<times> nat" where
  "st_length s = (let s' = setDataFromShim s in (s', length (obj_keys (st_data s'))))"

definition st_key :: "nat \<Rightarrow> storage \<Rightarrow> storage \<times> jsval" where
  "st_key i s = (let s' = setDataFromShim s; ks = obj_keys (st_data s')
     in (s', if i < length ks then js_or (JStr (ks ! i)) JNull else JNull))"

definition getItem :: "string \<Rightarrow> storage \<Rightarrow> storage \<times> member" where
  "getItem k s = (let s' = setDataFromShim s
     in (s', case member_of (st_data s') k of Value v \<Rightarrow> Value (js_or v JNull) | Inherited m \<Rightarrow> Inherited m))"

definition setItem :: "string \<Rightarrow> jsval \<Rightarrow> storage \<Rightarrow> storage" where
  "setItem k v s =
     (let w = JStr (js_string v);
          s' = s\<lparr>st_data := assign_key k w (st_data s)\<rparr>
      in st_stateUpdated (if k \<in> set internalKeys then s'
           else s'\<lparr>st_shim := map_option (assign_key k w) (st_shim s')\<rparr>))"

definition removeItem :: "string \<Rightarrow> storage \<Rightarrow> storage" where
  "removeItem k s =
     (let s' = s\<lparr>st_data := obj_del k (st_data s)\<rparr>
      in st_stateUpdated (if k \<in> set internalKeys then s'
           else s'\<lparr>st_shim := map_option (obj_del k) (st_shim s')\<rparr>))"

definition st_clear :: "storage \<Rightarrow> storage" where
  "st_clear s = st_stateUpdated (s\<lparr>st_data := []\<rparr>)"

text \<open>
  What content does directly on the object: \<open>storage.k = v\<close> and \<open>delete storage.k\<close>, for a key that is
  none of the object's own methods and not \<open>__proto__\<close>.
\<close>

definition shim_assign :: "string \<Rightarrow> jsval \<Rightarrow> storage \<Rightarrow> storage" where
  "shim_assign k v s = s\<lparr>st_shim := map_option (obj_set k v) (st_shim s)\<rparr>"

definition shim_delete :: "string \<Rightarrow> storage \<Rightarrow> storage" where
  "shim_delete k s = s\<lparr>st_shim := map_option (obj_del k) (st_shim s)\<rparr>"

section \<open>The two copies agree\<close>

datatype storage_op =
    SetItem string jsval | RemoveItem string | Clear | GetItem string | GetLength | GetKey nat
  | Assign string jsval | Delete string | Load "(string \<times> string) list"

definition storage_step :: "storage \<Rightarrow> storage_op \<Rightarrow> storage" where
  "storage_step s opn = (case opn of
       SetItem k v \<Rightarrow> setItem k v s
     | RemoveItem k \<Rightarrow> removeItem k s
     | Clear \<Rightarrow> st_clear s
     | GetItem k \<Rightarrow> fst (getItem k s)
     | GetLength \<Rightarrow> fst (st_length s)
     | GetKey i \<Rightarrow> fst (st_key i s)
     | Assign k v \<Rightarrow> shim_assign k v s
     | Delete k \<Rightarrow> shim_delete k s
     | Load d \<Rightarrow> st_setData (map (\<lambda>(k, t). (k, JStr t)) d) s)"

text \<open>What content assigns directly is not one of the methods, and what is loaded are strings under distinct keys.\<close>

fun op_ok :: "storage_op \<Rightarrow> bool" where
  "op_ok (Assign k v) \<longleftrightarrow> k \<notin> set internalKeys \<and> k \<noteq> ''__proto__''"
| "op_ok (Delete k) \<longleftrightarrow> k \<notin> set internalKeys"
| "op_ok (Load d) \<longleftrightarrow> distinct (map fst d) \<and> ''__proto__'' \<notin> set (map fst d)"
| "op_ok _ \<longleftrightarrow> True"

text \<open>
  \<open>view\<close> is the store content sees: the non-empty texts, of the shim object where it may have the key and
  of the data otherwise.
\<close>

definition text_of :: "jsval option \<Rightarrow> string option" where
  "text_of x = (case x of Some v \<Rightarrow> if js_string v = [] then None else Some (js_string v) | None \<Rightarrow> None)"

definition shim_of :: "storage \<Rightarrow> jsval jsobj" where
  "shim_of s = (case st_shim s of Some sh \<Rightarrow> sh | None \<Rightarrow> [])"

definition view :: "storage \<Rightarrow> (string \<rightharpoonup> string)" where
  "view s k = text_of (obj_get (if k \<in> set internalKeys then st_data s else shim_of s) k)"

definition storage_ok :: "storage \<Rightarrow> bool" where
  "storage_ok s \<longleftrightarrow> st_shim s \<noteq> None \<and> obj_wf (shim_of s) \<and> obj_wf (st_data s)
     \<and> (\<forall>k \<in> set internalKeys \<union> {''__proto__''}. obj_get (shim_of s) k = None)
     \<and> (\<forall>k v. obj_get (st_data s) k = Some v \<longrightarrow> k \<noteq> ''__proto__'' \<and> (\<exists>t. v = JStr t))"

lemma text_of_simps [simp]: "text_of None = None" "text_of (Some v) = (if js_string v = [] then None else Some (js_string v))"
  by (simp_all add: text_of_def)

lemma obj_get_filter_keys [simp]: "obj_get (filter_keys p m) k = (if p k then obj_get m k else None)"
  by (induction m) (auto simp: filter_keys_def obj_get_def)

lemma obj_wf_filter_keys [simp]: "obj_wf m \<Longrightarrow> obj_wf (filter_keys p m)"
  by (simp add: obj_wf_def filter_keys_def distinct_map_filter)

lemma assign_key_simps [simp]:
  "obj_get (assign_key k v m) j = (if j = k \<and> k \<noteq> ''__proto__'' then Some v else obj_get m j)"
  "obj_wf m \<Longrightarrow> obj_wf (assign_key k v m)"
  by (auto simp: assign_key_def)

lemma fold_assign [simp]:
  "obj_get (fold (\<lambda>k. assign_key k (g k)) ks m) j = (if j \<in> set ks \<and> j \<noteq> ''__proto__'' then Some (g j) else obj_get m j)"
  "obj_wf m \<Longrightarrow> obj_wf (fold (\<lambda>k. assign_key k (g k)) ks m)"
  by (induction ks arbitrary: m) auto

lemma fold_del [simp]:
  "obj_get (fold obj_del ks m) j = (if j \<in> set ks then None else obj_get m j)"
  "obj_wf m \<Longrightarrow> obj_wf (fold obj_del ks m)"
  by (induction ks arbitrary: m) auto

lemma st_stateUpdated_simps [simp]:
  "st_data (st_stateUpdated s) = st_data s" "st_shim (st_stateUpdated s) = st_shim s"
  "st_session (st_stateUpdated s) = st_session s" "shim_of (st_stateUpdated s) = shim_of s"
  "view (st_stateUpdated s) = view s" "storage_ok (st_stateUpdated s) = storage_ok s"
  by (simp_all add: st_stateUpdated_def shim_of_def view_def fun_eq_iff storage_ok_def)

lemma to_shim:
  assumes "st_shim s = Some sh"
  shows "st_data (setDataToShim s) = st_data s" "st_shim (setDataToShim s) = Some (shim_of (setDataToShim s))"
    and "obj_wf sh \<Longrightarrow> obj_wf (shim_of (setDataToShim s))"
    and "obj_get (shim_of (setDataToShim s)) k = (if truthy_member (member_of (st_data s) k) then
       (if k \<notin> set internalKeys \<union> {''__proto__''} \<and> obj_get (st_data s) k \<noteq> None then obj_get (st_data s) k else obj_get sh k)
       else None)"
proof -
  let ?ks = "filter (\<lambda>k. k \<notin> set internalKeys) (obj_keys (st_data s))"
  have "fold (\<lambda>(k, v). assign_key k v) (filter (\<lambda>e. fst e \<notin> set internalKeys) (obj_entries (st_data s))) sh
      = fold (\<lambda>k. assign_key k (the (obj_get (st_data s) k))) ?ks sh"
    by (simp add: obj_entries_def filter_map fold_map comp_def)
  then have e: "setDataToShim s = s\<lparr>st_shim := Some (filter_keys (\<lambda>k. truthy_member (member_of (st_data s) k))
      (fold (\<lambda>k. assign_key k (the (obj_get (st_data s) k))) ?ks sh))\<rparr>"
    by (simp add: setDataToShim_def assms)
  then show "st_data (setDataToShim s) = st_data s" "st_shim (setDataToShim s) = Some (shim_of (setDataToShim s))"
    "obj_wf sh \<Longrightarrow> obj_wf (shim_of (setDataToShim s))"
    by (simp_all add: shim_of_def)
  show "obj_get (shim_of (setDataToShim s)) k = (if truthy_member (member_of (st_data s) k) then
       (if k \<notin> set internalKeys \<union> {''__proto__''} \<and> obj_get (st_data s) k \<noteq> None then obj_get (st_data s) k else obj_get sh k)
       else None)"
    by (auto simp: e shim_of_def)
qed

text \<open>Taking over what was done on the shim object.\<close>

lemma from_shim:
  assumes "storage_ok s"
  shows "storage_ok (setDataFromShim s)" and "view (setDataFromShim s) = view s"
    and "\<And>k. obj_get (st_data (setDataFromShim s)) k =
       (if k \<in> set internalKeys then obj_get (st_data s) k else map_option (\<lambda>v. JStr (js_string v)) (obj_get (shim_of s) k))"
proof -
  obtain sh where sh: "st_shim s = Some sh" using assms by (auto simp: storage_ok_def)
  then have [simp]: "shim_of s = sh" by (simp add: shim_of_def)
  let ?d = "st_data s"
  define ch del where "ch = changed_on_shim ?d sh" and "del = deleted_on_shim ?d sh"
  define d where "d = fold obj_del del (fold (\<lambda>k. assign_key k (JStr (js_string (the (obj_get sh k))))) ch ?d)"
  have no: "k \<in> set internalKeys \<Longrightarrow> obj_get sh k = None" "obj_get sh ''__proto__'' = None" "obj_wf sh" "obj_wf ?d"
    and str: "obj_get ?d k = Some v \<Longrightarrow> k \<noteq> ''__proto__'' \<and> (\<exists>t. v = JStr t)" for k v
    using assms by (auto simp: storage_ok_def)
  have ch: "k \<in> set ch \<longleftrightarrow> k \<notin> set internalKeys \<and> (\<exists>v. obj_get sh k = Some v \<and> obj_get ?d k \<noteq> Some (JStr (js_string v)))"
    and del: "k \<in> set del \<longleftrightarrow> k \<notin> set internalKeys \<and> obj_get ?d k \<noteq> None \<and> obj_get sh k = None" for k
    by (auto simp: ch_def del_def changed_on_shim_def deleted_on_shim_def)
  have data: "obj_get d k = (if k \<in> set internalKeys then obj_get ?d k else map_option (\<lambda>v. JStr (js_string v)) (obj_get sh k))" for k
    using no(2) str [of k] by (cases "obj_get sh k"; cases "obj_get ?d k") (auto simp: d_def ch del)
  have sd: "k \<noteq> ''__proto__'' \<and> (\<exists>t. v = JStr t)" if "obj_get d k = Some v" for k v
    using that str no(2) by (auto simp: data split: if_splits)
  have wf: "obj_wf d" using no(4) by (simp add: d_def)
  define r where "r = setDataFromShim s"
  have "storage_ok r \<and> view r = view s \<and> (\<forall>k. obj_get (st_data r) k = obj_get d k)"
  proof (cases "ch = [] \<and> del = []")
    case True
    then have "r = s" by (simp add: r_def setDataFromShim_def sh Let_def ch_def del_def)
    then show ?thesis using assms True by (simp add: d_def)
  next
    case False
    let ?s = "s\<lparr>st_data := d\<rparr>"
    have r: "r = st_stateUpdated (setDataToShim ?s)"
      using False by (auto simp: r_def setDataFromShim_def sh Let_def ch_def del_def d_def st_setData_def)
    note to = to_shim [of ?s sh, simplified, OF sh]
    have get: "obj_get (shim_of r) k = (if truthy_member (member_of d k) \<and> k \<notin> set internalKeys then obj_get d k else None)" for k
      using no(1,2) sd [of k] to(4) [of k] by (auto simp: r data)
    have dr: "st_data r = d" by (simp add: r to(1))
    have "view r k = view s k" for k
      by (auto simp: view_def get dr data truthy_member_def member_of_def text_of_def js_simps split: option.splits)
    moreover have "storage_ok r"
    proof -
      have "st_shim r \<noteq> None" "obj_wf (shim_of r)" using to(2,3) no(3) by (simp_all add: r)
      moreover have "obj_get (shim_of r) k = None" if "k \<in> set internalKeys \<union> {''__proto__''}" for k
        using that sd [of k] by (cases "obj_get d k") (auto simp: get)
      ultimately show ?thesis using sd wf by (auto simp: storage_ok_def dr)
    qed
    ultimately show ?thesis by (auto simp: dr)
  qed
  then show "storage_ok (setDataFromShim s)" "view (setDataFromShim s) = view s"
    "\<And>k. obj_get (st_data (setDataFromShim s)) k =
       (if k \<in> set internalKeys then obj_get (st_data s) k else map_option (\<lambda>v. JStr (js_string v)) (obj_get (shim_of s) k))"
    using data by (simp_all add: r_def)
qed

section \<open>Every operation on the view\<close>

definition view_step :: "(string \<rightharpoonup> string) \<Rightarrow> storage_op \<Rightarrow> (string \<rightharpoonup> string)" where
  "view_step m opn = (case opn of
       SetItem k v \<Rightarrow> if k = ''__proto__'' then m else m(k := text_of (Some v))
     | RemoveItem k \<Rightarrow> m(k := None)
     | Clear \<Rightarrow> m |` (- set internalKeys)
     | Assign k v \<Rightarrow> m(k := text_of (Some v))
     | Delete k \<Rightarrow> m(k := None)
     | Load d \<Rightarrow> (\<lambda>k. case map_of d k of
           Some t \<Rightarrow> if t = [] then None else Some t
         | None \<Rightarrow> if k \<in> set object_members \<and> k \<notin> set internalKeys then m k else None)
     | _ \<Rightarrow> m)"

lemma view_proto: "storage_ok s \<Longrightarrow> view s ''__proto__'' = None"
  by (simp add: view_def storage_ok_def) (metis not_None_eq text_of_simps(1))

lemma set_step:
  assumes "storage_ok s"
  shows "storage_ok (setItem k v s) \<and> view (setItem k v s) = view_step (view s) (SetItem k v)"
proof -
  obtain sh where sh: "st_shim s = Some sh" using assms by (auto simp: storage_ok_def)
  obtain t where t: "t = setItem k v s" by simp
  have "st_data t = assign_key k (JStr (js_string v)) (st_data s)"
    "st_shim t = Some (if k \<in> set internalKeys then sh else assign_key k (JStr (js_string v)) sh)"
    by (simp_all add: t setItem_def Let_def sh)
  then have "storage_ok t \<and> view t = view_step (view s) (SetItem k v)"
    using assms sh by (auto simp: storage_ok_def shim_of_def fun_eq_iff view_def view_step_def)
  then show ?thesis by (simp add: t)
qed

lemma remove_step:
  assumes "storage_ok s"
  shows "storage_ok (removeItem k s) \<and> view (removeItem k s) = view_step (view s) (RemoveItem k)"
proof -
  obtain sh where sh: "st_shim s = Some sh" using assms by (auto simp: storage_ok_def)
  obtain t where t: "t = removeItem k s" by simp
  have "st_data t = obj_del k (st_data s)" "st_shim t = Some (if k \<in> set internalKeys then sh else obj_del k sh)"
    by (simp_all add: t removeItem_def Let_def sh)
  then have "storage_ok t \<and> view t = view_step (view s) (RemoveItem k)"
    using assms sh by (auto simp: storage_ok_def shim_of_def fun_eq_iff view_def view_step_def)
  then show ?thesis by (simp add: t)
qed

lemma clear_step:
  assumes "storage_ok s"
  shows "storage_ok (st_clear s)" "view (st_clear s) = view_step (view s) Clear"
  using assms by (auto simp: storage_ok_def st_clear_def shim_of_def view_def view_step_def fun_eq_iff restrict_map_def)

lemma direct_step:
  assumes "storage_ok s"
  shows "op_ok (Assign k v) \<Longrightarrow> storage_ok (shim_assign k v s) \<and> view (shim_assign k v s) = view_step (view s) (Assign k v)"
    and "op_ok (Delete k) \<Longrightarrow> storage_ok (shim_delete k s) \<and> view (shim_delete k s) = view_step (view s) (Delete k)"
  using assms by (auto simp: storage_ok_def shim_assign_def shim_delete_def shim_of_def view_def view_step_def fun_eq_iff)

lemma load_step:
  assumes "storage_ok s" "op_ok (Load d)"
  shows "storage_ok (storage_step s (Load d)) \<and> view (storage_step s (Load d)) = view_step (view s) (Load d)"
proof -
  obtain sh where sh: "st_shim s = Some sh" using assms by (auto simp: storage_ok_def)
  let ?d = "map (\<lambda>(k, t). (k, JStr t)) d" let ?s = "s\<lparr>st_data := ?d\<rparr>"
  let ?r = "storage_step s (Load d)"
  have r: "?r = setDataToShim ?s" by (simp add: storage_step_def st_setData_def)
  have get: "obj_get ?d k = map_option JStr (map_of d k)" for k
    by (simp add: obj_get_def map_of_map)
  note to = to_shim [of ?s sh, simplified, OF sh, folded r]
  have no: "map_of d ''__proto__'' = None" using assms(2) by (simp add: map_of_eq_None_iff)
  have shim: "obj_get (shim_of ?r) k = (if k \<in> set internalKeys then None else case map_of d k of
      Some t \<Rightarrow> if t = [] then None else Some (JStr t) | None \<Rightarrow> if k \<in> set object_members then obj_get sh k else None)" for k
    using to(4) [of k] assms(1) no sh
    by (auto simp: get storage_ok_def shim_of_def truthy_member_def member_of_def js_simps split: option.splits)
  have dr: "st_data ?r = ?d" using to(1) by (simp add: r)
  have "obj_wf ?d" using assms(2) by (simp add: obj_wf_def comp_def case_prod_unfold)
  moreover have "st_shim ?r \<noteq> None" "obj_wf (shim_of ?r)" using to(2,3) assms(1) sh by (auto simp: r storage_ok_def shim_of_def)
  moreover have "\<forall>k \<in> set internalKeys \<union> {''__proto__''}. obj_get (shim_of ?r) k = None"
  proof
    fix k assume k: "k \<in> set internalKeys \<union> {''__proto__''}"
    show "obj_get (shim_of ?r) k = None"
  proof (cases "k \<in> set internalKeys")
    case False
    then have k: "k = ''__proto__''" using k by simp
    have "obj_get sh ''__proto__'' = None" using assms(1) sh by (simp add: storage_ok_def shim_of_def)
    then show ?thesis unfolding shim k no by simp
  qed (simp add: shim)
  qed
  moreover have "\<forall>k v. obj_get ?d k = Some v \<longrightarrow> k \<noteq> ''__proto__'' \<and> (\<exists>t. v = JStr t)"
    using no by (auto simp: get)
  ultimately have "storage_ok ?r" unfolding storage_ok_def dr by (intro conjI)
  moreover have "view ?r k = view_step (view s) (Load d) k" for k
  proof -
    have "shim_of s = sh" by (simp add: shim_of_def sh)
    then show ?thesis
      by (cases "map_of d k"; cases "k \<in> set internalKeys")
        (simp_all add: view_def view_step_def dr get shim js_string.simps)
  qed
  ultimately show ?thesis by (simp add: fun_eq_iff)
qed

lemma storage_view_step:
  assumes "op_ok opn" "storage_ok s"
  shows "storage_ok (storage_step s opn) \<and> view (storage_step s opn) = view_step (view s) opn"
proof (cases opn)
  case (Load d)
  then show ?thesis using load_step assms by simp
next
  case (Assign k v)
  then show ?thesis using direct_step(1) assms by (simp add: storage_step_def)
next
  case (Delete k)
  then show ?thesis using direct_step(2) assms by (simp add: storage_step_def)
qed (use assms set_step remove_step clear_step from_shim in
  \<open>simp_all add: storage_step_def view_step_def getItem_def st_length_def st_key_def Let_def\<close>)

interpretation storage: guarded_stepper storage_step op_ok storage_ok
  by unfold_locales (simp add: storage_view_step)

lemma new_storage_ok: "storage_ok (st_init (new_storage b))" "view (st_init (new_storage b)) = Map.empty"
  by (simp_all add: st_init_def new_storage_def setDataToShim_def filter_keys_def obj_entries_def obj_keys_def
    storage_ok_def shim_of_def view_def fun_eq_iff obj_get_def)

lemma view_run: "\<forall>e \<in> set ops. op_ok e \<Longrightarrow> storage_ok s \<Longrightarrow> view (foldl storage_step s ops) = foldl view_step (view s) ops"
proof (induction ops arbitrary: s)
  case (Cons opn ops)
  then show ?case using storage_view_step [of opn s] by simp
qed simp

text \<open>What reading returns.\<close>

lemma synced_data:
  assumes "storage_ok s"
  shows "text_of (obj_get (st_data (setDataFromShim s)) k) = view s k"
    and "obj_get (st_data (setDataFromShim s)) k = Some v \<Longrightarrow> \<exists>t. v = JStr t"
proof -
  show "text_of (obj_get (st_data (setDataFromShim s)) k) = view s k"
    by (cases "obj_get (shim_of s) k") (simp_all add: from_shim(3) [OF assms] view_def)
  show "obj_get (st_data (setDataFromShim s)) k = Some v \<Longrightarrow> \<exists>t. v = JStr t"
    using from_shim(1) [OF assms] by (auto simp: storage_ok_def)
qed

lemma getItem_view:
  assumes "storage_ok s"
  shows "snd (getItem k s) = (case view s k of Some t \<Rightarrow> Value (JStr t)
    | None \<Rightarrow> if k \<in> set object_members \<and> obj_get (st_data (setDataFromShim s)) k = None then Inherited k else Value JNull)"
proof (cases "obj_get (st_data (setDataFromShim s)) k")
  case None
  then show ?thesis using synced_data(1) [OF assms, of k] by (auto simp: getItem_def Let_def member_of_def js_or_def js_simps)
next
  case (Some v)
  then obtain t where "v = JStr t" using synced_data(2) [OF assms] by blast
  then have "view s k = (if t = [] then None else Some t)" using Some synced_data(1) [OF assms, of k]
    by (cases "t = []") (simp_all add: js_string.simps)
  then show ?thesis using Some \<open>v = JStr t\<close> by (simp add: getItem_def Let_def member_of_def js_or_def js_simps)
qed

section \<open>Properties\<close>

text \<open>
  C8. After any sequence of operations on a fresh storage (calls of its methods, among them \<open>clear\<close>, direct
  assignments \<open>storage.k = v\<close> and deletions \<open>delete storage.k\<close> by the content, and new data from the other
  side; \<open>op_ok\<close>: what is assigned or deleted directly is not one of the methods or \<open>__proto__\<close>, and new data
  are strings under distinct keys other than \<open>__proto__\<close>), what content reads is the map \<open>m\<close> of non-empty texts that \<open>view_step\<close> computes from the operations:
  \<open>getItem k\<close> is the text \<open>m\<close> has for \<open>k\<close>; otherwise it is \<open>null\<close>, except for the name of a member every
  object inherits that is not a stored key, where it is that member.  \<open>length\<close> is the number of the keys and
  \<open>key i\<close> the \<open>i\<close>th of them (\<open>null\<close> for the empty key and out of range); the keys are those of \<open>m\<close> and keys whose
  stored text is empty, for which \<open>getItem\<close> gives \<open>null\<close> too.  In \<open>view_step\<close>, \<open>clear\<close> only removes the names
  of the methods, \<open>__proto__\<close> is never stored, and new data leaves the names of inherited members behind.
\<close>

theorem storage_implements_map:
  assumes "\<forall>e \<in> set ops. op_ok e" and "s = foldl storage_step (st_init (new_storage b)) ops"
    and "m = foldl view_step Map.empty ops"
  shows "\<exists>ks. distinct ks \<and> snd (st_length s) = length ks
    \<and> (\<forall>i. snd (st_key i s) = (if i < length ks \<and> ks ! i \<noteq> [] then JStr (ks ! i) else JNull))
    \<and> dom m \<subseteq> set ks
    \<and> (\<forall>k \<in> set ks. m k = None \<longrightarrow> obj_get (st_data (fst (st_length s))) k = Some (JStr []))
    \<and> (\<forall>k. snd (getItem k s) = (case m k of Some t \<Rightarrow> Value (JStr t)
         | None \<Rightarrow> if k \<in> set object_members \<and> k \<notin> set ks then Inherited k else Value JNull))"
proof -
  have ok: "storage_ok s" unfolding assms(2) using assms(1) by (rule storage.guarded_run_inv [OF _ new_storage_ok(1)])
  have m: "view s = m" unfolding assms(2,3) using view_run [OF assms(1) new_storage_ok(1)] new_storage_ok(2) by simp
  let ?d = "st_data (setDataFromShim s)" let ?ks = "obj_keys ?d"
  have "distinct ?ks" using from_shim(1) [OF ok] by (auto simp: storage_ok_def)
  moreover have "snd (st_length s) = length ?ks" "st_data (fst (st_length s)) = ?d" by (simp_all add: st_length_def Let_def)
  moreover have "snd (st_key i s) = (if i < length ?ks \<and> ?ks ! i \<noteq> [] then JStr (?ks ! i) else JNull)" for i
    by (simp add: st_key_def Let_def js_or_def js_simps)
  moreover have "dom m \<subseteq> set ?ks" using synced_data(1) [OF ok] unfolding m by (auto simp: dom_def) (metis (no_types) option.distinct(1) not_None_eq text_of_simps(1))
  moreover have "\<forall>k \<in> set ?ks. m k = None \<longrightarrow> obj_get ?d k = Some (JStr [])"
  proof (intro ballI impI)
    fix k assume "k \<in> set ?ks" "m k = None"
    then obtain v where v: "obj_get ?d k = Some v" "text_of (Some v) = None" using synced_data(1) [OF ok, of k] unfolding m by auto
    then obtain t where "v = JStr t" using synced_data(2) [OF ok] by blast
    then show "obj_get ?d k = Some (JStr [])" using v by (simp add: js_string.simps split: if_splits)
  qed
  ultimately show ?thesis using getItem_view [OF ok] unfolding m
    by (intro exI [of _ ?ks] conjI allI) (simp_all split: option.split)
qed

text \<open>
  A key with an empty text, a direct assignment, two readings of \<open>length\<close>: the first takes over the
  assignment and drops the empty property from the shim object, the second therefore deletes the key.
\<close>

definition sample_ops :: "storage_op list" where
  "sample_ops = [SetItem ''a'' (JStr []), SetItem ''b'' (JStr ''x''), Assign ''b'' (JBool True)]"

lemma storage_implements_map_witness:
  "snd (getItem ''b'' (foldl storage_step (st_init (new_storage False)) sample_ops)) = Value (JStr ''true'')
   \<and> snd (getItem ''a'' (foldl storage_step (st_init (new_storage False)) sample_ops)) = Value JNull"
proof -
  have ok: "\<forall>e \<in> set sample_ops. op_ok e" by (simp add: sample_ops_def internalKeys_def)
  obtain m where m: "m = foldl view_step Map.empty sample_ops" by simp
  have "m ''b'' = Some ''true''" "m ''a'' = None"
    unfolding m sample_ops_def foldl_Cons foldl_Nil view_step_def storage_op.case text_of_simps js_string.simps by simp_all
  moreover have "''a'' \<notin> set object_members" by code_simp
  ultimately show ?thesis
    using storage_implements_map [OF ok refl m, of False] by auto
qed

lemma empty_text_is_lost:
  "let s = foldl storage_step (st_init (new_storage False)) sample_ops; (s1, n1) = st_length s; (s2, n2) = st_length s1
   in n1 = 2 \<and> n2 = 1"
  by code_simp

text \<open>
  \<open>clear\<close> does not clear: it empties the data but not the shim object, so the next access
  finds the old properties there and stores them again.
\<close>

theorem clear_is_undone:
  assumes "storage_ok s" and "view s k = Some v" and "k \<notin> set internalKeys"
  shows "snd (getItem k (st_clear s)) = Value (JStr v)"
  using assms clear_step [OF assms(1)] by (simp add: getItem_view view_step_def)

lemma clear_is_undone_witness:
  "snd (getItem ''token'' (st_clear (setItem ''token'' (JStr ''42'') (st_init (new_storage False))))) = Value (JStr ''42'')"
proof -
  let ?s = "setItem ''token'' (JStr ''42'') (st_init (new_storage False))"
  have "view ?s ''token'' = Some ''42''" by code_simp
  then show ?thesis
    using clear_is_undone [of ?s "''token''" "''42''"] set_step [OF new_storage_ok(1)] by (simp add: internalKeys_def)
qed

text \<open>
  The session storage never sends its data to the other side, whatever is called; the local
  storage announces every \<open>setItem\<close>, \<open>removeItem\<close> and \<open>clear\<close> with the data as it is then.
\<close>

theorem storage_announcements:
  "st_sent (foldl storage_step (st_init (new_storage True)) ops) = []
   \<and> st_sent (setItem k v (foldl storage_step (st_init (new_storage False)) ops))
       = st_sent (foldl storage_step (st_init (new_storage False)) ops)
         @ [(''stateupdate'', JObj (st_data (setItem k v (foldl storage_step (st_init (new_storage False)) ops))))]"
proof -
  have upd: "st_session (setDataToShim t) = st_session t \<and> st_sent (setDataToShim t) = st_sent t" for t
    by (simp add: setDataToShim_def split: option.splits)
  have from_shim: "st_session (setDataFromShim t) = st_session t
      \<and> (st_session t \<longrightarrow> st_sent (setDataFromShim t) = st_sent t)" for t
    using upd by (simp add: setDataFromShim_def st_setData_def st_stateUpdated_def Let_def split: option.splits)
  have load: "st_session (st_setData d t) = st_session t \<and> st_sent (st_setData d t) = st_sent t" for d t
    using upd by (simp add: st_setData_def)
  have step: "st_session (storage_step t opn) = st_session t
      \<and> (st_session t \<longrightarrow> st_sent (storage_step t opn) = st_sent t)" for t opn
    using from_shim load by (cases opn) (simp_all add: storage_step_def setItem_def removeItem_def getItem_def
      st_length_def st_key_def st_clear_def shim_assign_def shim_delete_def st_stateUpdated_def Let_def)
  have run: "st_session (foldl storage_step t ops) = st_session t
      \<and> (st_session t \<longrightarrow> st_sent (foldl storage_step t ops) = st_sent t)" for t
    using step by (induction ops arbitrary: t) auto
  have "st_session (st_init (new_storage b)) = b \<and> st_sent (st_init (new_storage b)) = []" for b
    using upd by (simp add: st_init_def new_storage_def)
  with run show ?thesis by (simp add: setItem_def st_stateUpdated_def Let_def)
qed

end
