(* ===== verification/Hashi_Cookie.thy ===== *)
theory Hashi_Cookie
  imports Js_Value
begin

text \<open>
  \<open>packages/hashi/src/cookie.js\<close>: the replacement of \<open>document.cookie\<close>.  The client's clock and
  the parser of date strings are parameters: \<open>clock\<close> is \<open>Date.now()\<close> and \<open>parse_date\<close> the time
  value of \<open>new Date(string)\<close>, \<open>NaN\<close> for a string that is no date.
\<close>

section \<open>State\<close>

datatype expiry = SessionOnly | ExpiresAt jsnum

record cookie =
  cookie_value :: "string option"
  expires :: expiry

record cookie_data =
  rootCookies :: "cookie jsobj"
  byPath :: "cookie jsobj jsobj"

record cookie_jar =
  jar :: cookie_data
  jar_nowDiff :: int
  jar_sent :: "cookie_data list"

definition clearData :: "cookie_jar \<Rightarrow> cookie_jar" where
  "clearData j = j\<lparr>jar := \<lparr>rootCookies = [], byPath = []\<rparr>\<rparr>"

definition new_jar :: cookie_jar where
  "new_jar = \<lparr>jar = \<lparr>rootCookies = [], byPath = []\<rparr>, jar_nowDiff = 0, jar_sent = []\<rparr>"

definition jar_now :: "int \<Rightarrow> cookie_jar \<Rightarrow> int" where
  "jar_now clock j = clock + jar_nowDiff j"

text \<open>\<open>new Date(expires) > now\<close>; the marker of a session cookie is no valid date.\<close>

definition not_expired :: "int \<Rightarrow> cookie \<Rightarrow> bool" where
  "not_expired now c = (case expires c of SessionOnly \<Rightarrow> False | ExpiresAt t \<Rightarrow> num_lt (Fin (of_int now)) t)"

definition filterCookies :: "(cookie \<Rightarrow> bool) \<Rightarrow> cookie jsobj \<Rightarrow> cookie jsobj" where
  "filterCookies p m = fold (\<lambda>k out. case obj_get m k of
       Some c \<Rightarrow> if p c then obj_set k c out else out | None \<Rightarrow> out) (obj_keys m) []"

definition filter_data :: "(cookie \<Rightarrow> bool) \<Rightarrow> cookie_data \<Rightarrow> cookie_data" where
  "filter_data p d = \<lparr>rootCookies = filterCookies p (rootCookies d),
     byPath = fold (\<lambda>path out. case obj_get (byPath d) path of
         Some m \<Rightarrow> (let f = filterCookies p m in if obj_keys f = [] then out else obj_set path f out)
       | None \<Rightarrow> out) (obj_keys (byPath d)) []\<rparr>"

definition removeExpiredCookies :: "int \<Rightarrow> cookie_data \<Rightarrow> cookie_data" where
  "removeExpiredCookies now d = filter_data (not_expired now) d"

text \<open>\<open>__setData\<close>; \<open>None\<close> stands for anything without the two parts.\<close>

definition cookie_setData :: "int \<Rightarrow> cookie_data option \<Rightarrow> cookie_jar \<Rightarrow> cookie_jar" where
  "cookie_setData clock d j = (case d of
       Some d' \<Rightarrow> j\<lparr>jar := removeExpiredCookies (jar_now clock j) d'\<rparr> | None \<Rightarrow> clearData j)"

text \<open>The \<open>data\<close> getter: what is persisted.\<close>

definition persisted :: "int \<Rightarrow> cookie_jar \<Rightarrow> cookie_data" where
  "persisted clock j = removeExpiredCookies (jar_now clock j) (filter_data (\<lambda>c. expires c \<noteq> SessionOnly) (jar j))"

definition cookie_stateUpdated :: "int \<Rightarrow> cookie_jar \<Rightarrow> cookie_jar" where
  "cookie_stateUpdated clock j = j\<lparr>jar_sent := jar_sent j @ [persisted clock j]\<rparr>"

section \<open>Reading\<close>

definition cookie_string :: "string \<times> cookie \<Rightarrow> string" where
  "cookie_string e = fst e @ ''='' @ (case cookie_value (snd e) of Some v \<Rightarrow> v | None \<Rightarrow> ''undefined'')"

definition getCookies :: "string \<Rightarrow> cookie_jar \<Rightarrow> string" where
  "getCookies pathname j =
     (let root = obj_assign [] (rootCookies (jar j));
          all = (case obj_get (byPath (jar j)) pathname of Some m \<Rightarrow> obj_assign root m | None \<Rightarrow> root)
      in js_join ''; '' (map cookie_string (obj_entries all)))"

section \<open>Writing\<close>

text \<open>
  \<open>/pre(.+)/.exec(s)\<close>: the rest of the line after the first occurrence of \<open>pre\<close> that has
  something after it.
\<close>

definition line_end :: "char \<Rightarrow> bool" where
  "line_end c \<longleftrightarrow> c = char_of (10 :: nat) \<or> c = char_of (13 :: nat)"

fun capture_after :: "string \<Rightarrow> string \<Rightarrow> string option" where
  "capture_after pre [] = None"
| "capture_after pre (c # s) =
     (let rest = drop (length pre) (c # s); cap = takeWhile (\<lambda>c. \<not> line_end c) rest
      in if take (length pre) (c # s) = pre \<and> cap \<noteq> [] then Some cap else capture_after pre s)"

text \<open>\<open>new Date(t)\<close> of a number: out of range is invalid, and fractions are cut off.\<close>

definition time_clip :: "jsnum \<Rightarrow> jsnum" where
  "time_clip n = (case n of
       Fin r \<Rightarrow> if \<bar>r\<bar> \<le> 8640000000000000 then Fin (of_int (if 0 \<le> r then \<lfloor>r\<rfloor> else \<lceil>r\<rceil>)) else NaN
     | _ \<Rightarrow> NaN)"

record cookie_options =
  opt_expires :: expiry
  opt_path :: "string option"
  deleteCookie :: bool

definition read_option :: "(string \<Rightarrow> jsnum) \<Rightarrow> int \<Rightarrow> int \<Rightarrow> string \<Rightarrow> cookie_options \<Rightarrow> cookie_options" where
  "read_option parse_date clock now part opt =
     (case capture_after ''path='' part of
        Some p \<Rightarrow> opt\<lparr>opt_path := Some p\<rparr>
      | None \<Rightarrow>
         (case capture_after ''max-age='' part of
            Some a \<Rightarrow>
              (let maxAge = to_number a in
               if maxAge = NaN then opt
               else if num_lt (Fin 0) maxAge
                    then opt\<lparr>opt_expires := ExpiresAt (time_clip (num_add (Fin (of_int now)) maxAge))\<rparr>
               else opt\<lparr>deleteCookie := True\<rparr>)
          | None \<Rightarrow>
             (case capture_after ''expires='' part of
                Some e \<Rightarrow>
                  (let t = parse_date e in
                   if t = NaN then opt
                   else if \<not> num_lt (Fin (of_int clock)) t then opt\<lparr>deleteCookie := True\<rparr>
                   else opt\<lparr>opt_expires := ExpiresAt (time_clip
                          (num_add (Fin (of_int now)) (num_sub t (Fin (of_int clock)))))\<rparr>)
              | None \<Rightarrow> opt)))"

definition removeCookie :: "int \<Rightarrow> string \<Rightarrow> string option \<Rightarrow> cookie_jar \<Rightarrow> cookie_jar" where
  "removeCookie clock key path j =
     (let d = jar j;
          d' = (case path of
                  Some p \<Rightarrow>
                    (case obj_get (byPath d) p of
                       Some m \<Rightarrow> (let m' = obj_del key m in
                         d\<lparr>byPath := (if obj_keys m' = [] then obj_del p (byPath d) else obj_set p m' (byPath d))\<rparr>)
                     | None \<Rightarrow> d)
                | None \<Rightarrow> d\<lparr>rootCookies := obj_del key (rootCookies d)\<rparr>)
      in cookie_stateUpdated clock (j\<lparr>jar := d'\<rparr>))"

definition storeCookie :: "string \<Rightarrow> cookie \<Rightarrow> string option \<Rightarrow> cookie_data \<Rightarrow> cookie_data" where
  "storeCookie key c path d = (case path of
       Some p \<Rightarrow> d\<lparr>byPath := obj_set p
           (obj_set key c (case obj_get (byPath d) p of Some m \<Rightarrow> m | None \<Rightarrow> [])) (byPath d)\<rparr>
     | None \<Rightarrow> d\<lparr>rootCookies := obj_set key c (rootCookies d)\<rparr>)"

text \<open>Assigning a string to \<open>document.cookie\<close>.  An \<open>=\<close> in the value ends it.\<close>

definition setCookie :: "(string \<Rightarrow> jsnum) \<Rightarrow> int \<Rightarrow> string \<Rightarrow> cookie_jar \<Rightarrow> cookie_jar" where
  "setCookie parse_date clock s j =
     (let parts = js_split CHR '';'' s in
      if hd parts = [] then j
      else
        (let kv = js_split CHR ''='' (hd parts);
             key = hd kv; v = (case tl kv of w # _ \<Rightarrow> Some w | [] \<Rightarrow> None);
             opt = fold (read_option parse_date clock (jar_now clock j)) (tl parts)
                     \<lparr>opt_expires = SessionOnly, opt_path = None, deleteCookie = False\<rparr>
         in cookie_stateUpdated clock
              (if deleteCookie opt then removeCookie clock key (opt_path opt) j
               else j\<lparr>jar := storeCookie key \<lparr>cookie_value = v, expires = opt_expires opt\<rparr> (opt_path opt) (jar j)\<rparr>)))"

section \<open>Filtering\<close>

lemma fold_filter_get:
  "distinct ks \<Longrightarrow> obj_get (fold (\<lambda>k out. case f k of Some c \<Rightarrow> obj_set k c out | None \<Rightarrow> out) ks out) k
     = (if k \<in> set ks then (case f k of Some c \<Rightarrow> Some c | None \<Rightarrow> obj_get out k) else obj_get out k)"
  by (induction ks arbitrary: out) (auto split: option.splits)

lemma fold_filter_wf:
  "obj_wf out \<Longrightarrow> obj_wf (fold (\<lambda>k out. case f k of Some c \<Rightarrow> obj_set k c out | None \<Rightarrow> out) ks out)"
  by (induction ks arbitrary: out) (auto split: option.splits)

lemma filterCookies_alt:
  "filterCookies p m = fold (\<lambda>k out. case (case obj_get m k of Some c \<Rightarrow> if p c then Some c else None | None \<Rightarrow> None) of
     Some c \<Rightarrow> obj_set k c out | None \<Rightarrow> out) (obj_keys m) []"
  unfolding filterCookies_def by (intro arg_cong [of _ _ "\<lambda>f. fold f _ _"] ext) (simp split: option.splits)

lemma obj_get_filterCookies [simp]:
  "obj_wf m \<Longrightarrow> obj_get (filterCookies p m) k = (case obj_get m k of Some c \<Rightarrow> if p c then Some c else None | None \<Rightarrow> None)"
  by (auto simp: filterCookies_alt fold_filter_get split: option.splits)

lemma obj_wf_filterCookies [simp]: "obj_wf (filterCookies p m)"
  unfolding filterCookies_alt by (rule fold_filter_wf) simp

definition filter_path :: "(cookie \<Rightarrow> bool) \<Rightarrow> cookie jsobj jsobj \<Rightarrow> string \<Rightarrow> cookie jsobj option" where
  "filter_path p m path = (case obj_get m path of
     Some c \<Rightarrow> if obj_keys (filterCookies p c) = [] then None else Some (filterCookies p c) | None \<Rightarrow> None)"

lemma byPath_filter:
  "byPath (filter_data p d) = fold (\<lambda>k out. case filter_path p (byPath d) k of
     Some c \<Rightarrow> obj_set k c out | None \<Rightarrow> out) (obj_keys (byPath d)) []"
  unfolding filter_data_def cookie_data.simps
  by (intro arg_cong [of _ _ "\<lambda>f. fold f _ _"] ext) (simp add: filter_path_def Let_def split: option.splits)

lemma obj_get_byPath_filter [simp]:
  "obj_wf (byPath d) \<Longrightarrow> obj_get (byPath (filter_data p d)) path = filter_path p (byPath d) path"
  unfolding byPath_filter by (auto simp: fold_filter_get filter_path_def split: option.splits)

text \<open>Every object of the jar has distinct keys, and no path is left without cookies.\<close>

definition data_inv :: "cookie_data \<Rightarrow> bool" where
  "data_inv d \<longleftrightarrow> obj_wf (rootCookies d) \<and> obj_wf (byPath d)
     \<and> (\<forall>p m. obj_get (byPath d) p = Some m \<longrightarrow> obj_wf m \<and> m \<noteq> [])"

lemma data_inv_filter: "data_inv d \<Longrightarrow> data_inv (filter_data p d)"
proof -
  assume d: "data_inv d"
  then have "obj_wf (byPath (filter_data p d))" unfolding byPath_filter by (intro fold_filter_wf) simp
  moreover have "obj_wf (rootCookies (filter_data p d))" by (simp add: filter_data_def)
  ultimately show ?thesis using d
    by (auto simp: data_inv_def filter_path_def obj_keys_def split: option.splits if_splits)
qed

text \<open>All cookies of the data with the place they are stored at.\<close>

definition cookie_at :: "cookie_data \<Rightarrow> string option \<Rightarrow> string \<Rightarrow> cookie option" where
  "cookie_at d path k = (case path of
       None \<Rightarrow> obj_get (rootCookies d) k
     | Some p \<Rightarrow> (case obj_get (byPath d) p of Some m \<Rightarrow> obj_get m k | None \<Rightarrow> None))"

lemma cookie_at_filter:
  assumes "data_inv d"
  shows "cookie_at (filter_data p d) path k =
     (case cookie_at d path k of Some c \<Rightarrow> if p c then Some c else None | None \<Rightarrow> None)"
proof (cases path)
  case None
  then show ?thesis using assms by (simp add: cookie_at_def data_inv_def filter_data_def)
next
  case (Some q)
  show ?thesis
  proof (cases "obj_get (byPath d) q")
    case None
    then show ?thesis using assms Some by (simp add: cookie_at_def data_inv_def filter_path_def)
  next
    case m: (Some m)
    then have wf: "obj_wf m" "obj_wf (byPath d)" using assms by (auto simp: data_inv_def)
    then have "obj_get (filterCookies p m) k = (case obj_get m k of Some c \<Rightarrow> if p c then Some c else None | None \<Rightarrow> None)"
      by simp
    moreover have "obj_keys (filterCookies p m) = [] \<Longrightarrow> obj_get (filterCookies p m) k = None"
      by (simp add: obj_keys_empty_iff)
    ultimately show ?thesis using Some m wf by (auto simp: cookie_at_def filter_path_def)
  qed
qed

lemma cookie_at_store:
  "cookie_at (storeCookie key c path d) path' k =
     (if path' = path \<and> k = key then Some c else cookie_at d path' k)"
  by (auto simp: cookie_at_def storeCookie_def split: option.splits)

lemma obj_set_not_Nil [simp]: "obj_set k v m \<noteq> []"
  by (simp add: obj_set_def update_nonempty)

lemma data_inv_store: "data_inv d \<Longrightarrow> data_inv (storeCookie key c path d)"
  by (auto simp: data_inv_def storeCookie_def split: option.splits if_splits)

definition removed_from :: "string \<Rightarrow> string option \<Rightarrow> cookie_data \<Rightarrow> cookie_data" where
  "removed_from key path d = (case path of
     Some p \<Rightarrow> (case obj_get (byPath d) p of
        Some m \<Rightarrow> d\<lparr>byPath := (if obj_keys (obj_del key m) = [] then obj_del p (byPath d)
                              else obj_set p (obj_del key m) (byPath d))\<rparr>
      | None \<Rightarrow> d)
   | None \<Rightarrow> d\<lparr>rootCookies := obj_del key (rootCookies d)\<rparr>)"

lemma removeCookie_alt:
  "removeCookie clock key path j = cookie_stateUpdated clock (j\<lparr>jar := removed_from key path (jar j)\<rparr>)"
  by (simp add: removeCookie_def removed_from_def Let_def split: option.splits)

lemma cookie_at_removed:
  "cookie_at (removed_from key path d) path' k =
     (if path' = path \<and> k = key then None else cookie_at d path' k)"
proof -
  have "obj_get m k = None" if "obj_del key m = []" "k \<noteq> key" for m :: "cookie jsobj"
    using that obj_get_del [of key m k] by simp
  then show ?thesis by (auto simp: cookie_at_def removed_from_def obj_keys_empty_iff split: option.splits)
qed

lemma data_inv_removed: "data_inv d \<Longrightarrow> data_inv (removed_from key path d)"
  by (auto simp: data_inv_def removed_from_def obj_keys_empty_iff split: option.splits if_splits)

lemma jar_stateUpdated [simp]: "jar (cookie_stateUpdated clock j) = jar j"
  by (simp add: cookie_stateUpdated_def)

lemma data_inv_setCookie: "data_inv (jar j) \<Longrightarrow> data_inv (jar (setCookie pd clock s j))"
  by (simp add: setCookie_def Let_def removeCookie_alt data_inv_store data_inv_removed)

lemma data_inv_setData:
  "data_inv (jar j) \<Longrightarrow> (\<And>x. d = Some x \<Longrightarrow> data_inv x) \<Longrightarrow> data_inv (jar (cookie_setData clock d j))"
  by (cases d) (simp_all add: cookie_setData_def removeExpiredCookies_def data_inv_filter clearData_def,
    simp add: data_inv_def)

text \<open>What happens to a jar; an update from the other side is applied if it is well formed.\<close>

datatype cookie_event = SetCookie int string | CookieUpdate int "cookie_data option"

definition cookie_step :: "(string \<Rightarrow> jsnum) \<Rightarrow> cookie_jar \<Rightarrow> cookie_event \<Rightarrow> cookie_jar" where
  "cookie_step pd j e = (case e of
       SetCookie clock s \<Rightarrow> setCookie pd clock s j
     | CookieUpdate clock d \<Rightarrow>
         (if (case d of Some x \<Rightarrow> obj_wf (rootCookies x) \<and> obj_wf (byPath x)
               \<and> list_all (\<lambda>(p, m). obj_wf m \<and> m \<noteq> []) (byPath x) | None \<Rightarrow> True)
          then cookie_setData clock d j else j))"

lemma data_inv_step: "data_inv (jar j) \<Longrightarrow> data_inv (jar (cookie_step pd j e))"
proof (cases e)
  case (CookieUpdate clock d)
  have "data_inv x" if "obj_wf (rootCookies x)" "obj_wf (byPath x)" "list_all (\<lambda>(p, m). obj_wf m \<and> m \<noteq> []) (byPath x)" for x
    using that by (auto simp: data_inv_def list_all_iff obj_get_def dest: map_of_SomeD)
  then show "data_inv (jar j) \<Longrightarrow> data_inv (jar (cookie_step pd j e))"
    by (auto simp: CookieUpdate cookie_step_def split: option.splits intro!: data_inv_setData)
qed (simp add: cookie_step_def data_inv_setCookie)

interpretation cookies: stepper "cookie_step pd" "\<lambda>j. data_inv (jar j)" for pd
  by unfold_locales (rule data_inv_step)

lemma data_inv_new: "data_inv (jar new_jar)"
  by (simp add: data_inv_def new_jar_def)

lemma cookie_at_persisted:
  assumes "data_inv (jar j)"
  shows "cookie_at (persisted clock j) path k = (case cookie_at (jar j) path k of
     Some c \<Rightarrow> if expires c \<noteq> SessionOnly \<and> not_expired (jar_now clock j) c then Some c else None | None \<Rightarrow> None)"
  using assms
  by (simp add: persisted_def removeExpiredCookies_def cookie_at_filter data_inv_filter split: option.splits)

section \<open>Properties\<close>

text \<open>
  C9. Assigning \<open>key=value\<close> with any attributes changes exactly one cookie, the one of that key
  at the path the attributes name (the root without one): it is deleted if an attribute says so,
  and otherwise holds the value up to a second \<open>=\<close> and the expiry the attributes ask for.
\<close>

theorem setCookie_changes_one:
  assumes "CHR '';'' \<notin> set (key @ v)" and "CHR ''='' \<notin> set (key @ v)" and "\<forall>a \<in> set attrs. CHR '';'' \<notin> set a"
  shows "cookie_at (jar (setCookie pd clock (js_join '';'' ((key @ ''='' @ v) # attrs)) j)) path k =
     (let opt = fold (read_option pd clock (jar_now clock j)) attrs
                  \<lparr>opt_expires = SessionOnly, opt_path = None, deleteCookie = False\<rparr>
      in if path = opt_path opt \<and> k = key
         then (if deleteCookie opt then None else Some \<lparr>cookie_value = Some v, expires = opt_expires opt\<rparr>)
         else cookie_at (jar j) path k)"
proof -
  have parts: "js_split CHR '';'' (js_join '';'' ((key @ ''='' @ v) # attrs)) = (key @ ''='' @ v) # attrs"
    using assms by (intro js_split_join) auto
  have kv: "js_split CHR ''='' (key @ ''='' @ v) = [key, v]"
    using js_split_append [of "CHR ''=''" key v] js_split_single [of "CHR ''=''" v] assms(2) by simp
  show ?thesis
    unfolding setCookie_def parts Let_def
    by (simp add: kv [simplified] removeCookie_alt cookie_at_removed cookie_at_store)
qed

lemma setCookie_changes_one_witness:
  "cookie_at (jar (setCookie (\<lambda>_. NaN) 1000 ''a=1;path=/x'' new_jar)) (Some ''/x'') ''a''
     = Some \<lparr>cookie_value = Some ''1'', expires = SessionOnly\<rparr>"
proof -
  have j: "js_join '';'' ((''a'' @ ''='' @ ''1'') # [''path=/x'']) = ''a=1;path=/x''" by simp
  have "fold (read_option (\<lambda>_. NaN) 1000 (jar_now 1000 new_jar)) [''path=/x'']
      \<lparr>opt_expires = SessionOnly, opt_path = None, deleteCookie = False\<rparr>
    = \<lparr>opt_expires = SessionOnly, opt_path = Some ''/x'', deleteCookie = False\<rparr>" by code_simp
  with setCookie_changes_one [of "''a''" "''1''" "[''path=/x'']" "\<lambda>_. NaN" 1000 new_jar "Some ''/x''" "''a''", unfolded j]
  show ?thesis by (simp add: Let_def)
qed

text \<open>
  Whatever was assigned and received before, what is persisted is exactly the cookies with
  an expiry that is not past on the corrected clock; session cookies never are, and an update
  from the other side drops every session cookie the jar had.
\<close>

theorem persisted_exactly:
  assumes "j = foldl (cookie_step pd) new_jar es"
  shows "cookie_at (persisted clock j) path k = (case cookie_at (jar j) path k of
       Some c \<Rightarrow> if not_expired (jar_now clock j) c then Some c else None | None \<Rightarrow> None)
     \<and> (\<forall>c. cookie_at (jar (cookie_setData clock (Some (jar j)) j)) path k = Some c \<longrightarrow> expires c \<noteq> SessionOnly)"
proof -
  have inv: "data_inv (jar j)" unfolding assms by (rule cookies.run_inv) (rule data_inv_new)
  have "not_expired now c \<Longrightarrow> expires c \<noteq> SessionOnly" for now c by (auto simp: not_expired_def)
  then show ?thesis using inv
    by (auto simp: cookie_at_persisted cookie_setData_def removeExpiredCookies_def cookie_at_filter split: option.splits)
qed

lemma persisted_exactly_witness:
  "cookie_at (persisted 5 (foldl (cookie_step (\<lambda>_. NaN)) new_jar [SetCookie 0 ''a=1'', SetCookie 0 ''b=2; max-age=9''])) None ''a'' = None"
proof -
  let ?j = "foldl (cookie_step (\<lambda>_. NaN)) new_jar [SetCookie 0 ''a=1'', SetCookie 0 ''b=2; max-age=9'']"
  have "cookie_at (jar ?j) None ''a'' = Some \<lparr>cookie_value = Some ''1'', expires = SessionOnly\<rparr>" by code_simp
  then show ?thesis
    using persisted_exactly [of ?j "\<lambda>_. NaN" "[SetCookie 0 ''a=1'', SetCookie 0 ''b=2; max-age=9'']" 5 None "''a''"]
    by (simp add: not_expired_def)
qed

text \<open>
  The \<open>max-age\<close> attribute, seconds by its definition, is added to the clock as milliseconds:
  a cookie set with \<open>max-age=3600\<close> is persisted 3599 milliseconds later and is gone one
  millisecond after that.
\<close>

theorem max_age_in_milliseconds:
  assumes "0 \<le> clock" and "clock < 8000000000000000"
  shows "let j = setCookie pd clock ''k=v; max-age=3600'' new_jar
     in cookie_at (persisted (clock + 3599) j) None ''k''
          = Some \<lparr>cookie_value = Some ''v'', expires = ExpiresAt (Fin (of_int (clock + 3600)))\<rparr>
        \<and> cookie_at (persisted (clock + 3600) j) None ''k'' = None"
proof -
  let ?j = "setCookie pd clock ''k=v; max-age=3600'' new_jar"
  let ?e = "ExpiresAt (Fin (of_int (clock + 3600)))"
  let ?start = "\<lparr>opt_expires = SessionOnly, opt_path = None, deleteCookie = False\<rparr>"
  have p: "capture_after ''path='' '' max-age=3600'' = None" by code_simp
  have m: "capture_after ''max-age='' '' max-age=3600'' = Some ''3600''" by code_simp
  have n: "to_number ''3600'' = Fin 3600"
    using fl64_of_nat [of 3600]
    by (simp add: to_number_def js_trim_def is_space_def parse_unsigned_def parse_decimal_def is_digit_def
      digits_val_def digit_val_def Let_def)
  have s1: "js_split CHR '';'' ''k=v; max-age=3600'' = [''k=v'', '' max-age=3600'']" by code_simp
  have s2: "js_split CHR ''='' ''k=v'' = [''k'', ''v'']" by code_simp
  have "fl64 (of_int (clock + 3600)) = of_int (clock + 3600)" using assms by (intro fl64_int) simp
  moreover have "\<bar>of_int (clock + 3600)\<bar> \<le> (8640000000000000 :: rat)"
    using assms by (simp add: abs_le_iff)
  ultimately have clip: "time_clip (num_add (Fin (of_int clock)) (Fin 3600)) = Fin (of_int (clock + 3600))"
    using assms(1) by (simp add: time_clip_def)
  have opt: "read_option pd clock clock '' max-age=3600'' ?start = ?start\<lparr>opt_expires := ?e\<rparr>"
    unfolding read_option_def p m n option.case Let_def clip by simp
  have now: "jar_now t new_jar = t" for t by (simp add: jar_now_def new_jar_def)
  have j: "?j = cookie_stateUpdated clock (new_jar\<lparr>jar :=
      storeCookie ''k'' \<lparr>cookie_value = Some ''v'', expires = ?e\<rparr> None (jar new_jar)\<rparr>)"
    unfolding setCookie_def s1 Let_def list.sel s2 now fold_simps opt by simp
  have jj: "jar_now t ?j = t" for t
    unfolding j by (simp add: jar_now_def cookie_stateUpdated_def new_jar_def)
  have c: "cookie_at (jar ?j) None ''k'' = Some \<lparr>cookie_value = Some ''v'', expires = ?e\<rparr>"
    unfolding j by (simp add: cookie_at_store)
  have "data_inv (jar ?j)" by (intro data_inv_setCookie data_inv_new)
  then have "cookie_at (persisted t ?j) None ''k''
      = (if t < clock + 3600 then Some \<lparr>cookie_value = Some ''v'', expires = ?e\<rparr> else None)" for t
    unfolding cookie_at_persisted [OF \<open>data_inv (jar ?j)\<close>] c jj by (simp add: not_expired_def del: of_int_add)
  then show ?thesis by (simp add: Let_def)
qed

lemma max_age_witness:
  "cookie_at (persisted 4600 (setCookie (\<lambda>_. NaN) 1000 ''k=v; max-age=3600'' new_jar)) None ''k'' = None"
  using max_age_in_milliseconds [of 1000 "\<lambda>_. NaN"] by (simp add: Let_def)

end
