(* ===== verification/Setup_Wizard.thy ===== *)
theory Setup_Wizard
  imports Js_Value
begin

text \<open>
  \<open>kolibri/plugins/setup_wizard/assets/src/machines/wizardMachine.js\<close>: the machine of the set-up
  wizard.  The transition tables, actions and guards are the source's; they are run by the rules
  XState documents: the innermost state that has a transition for an event takes it, leaving a
  state runs its exit actions before the transition's own, and after each transition the
  eventless ones are taken while a guard holds.
\<close>

section \<open>States, events and context\<close>

datatype import_state = SelectFacilityForm | ImportAuthentication | LoadingTaskPage
  | SelectSuperAdminAccountForm | PersonalDataConsentForm

datatype lod_state = SelectLodSetupType | SelectLodFacility | LodProceedJoinOrNew | LodImportUserAuth
  | LodLoading | LodImportAsAdmin | LodJoinLoading | LodJoinFacility

datatype wizard_state = InitializeContext | HowAreYouUsingKolibri | OnMyOwnOrGroupSetup | DefaultLanguage
  | CreateAccountOrFinalizeSetup | CreateOnMyOwnAccount | DeviceName | FullOrLearnOnlyDevice | FullOrLodSetup
  | FullDeviceNewOrImportFacility | FacilitySetupType | SetFacilityPermissions | GuestAccess
  | CreateLearnerAccount | RequirePassword | PersonalDataConsent | CreateSuperuserAndFacility
  | ImportFacility import_state | ImportLodUsers lod_state | FinalizeSetup

datatype wizard_event = CONTINUE | BACK | START_OVER | BACK_SKIP_FACILITY_FORM | FINISH | CONTINUEADMIN
  | SET_SUPERADMIN | IMPORT_ANOTHER | LOADING | SET_SUPERUSER | ADD_IMPORTED_USER | SET_FIRST_LOD

datatype wizard_action = SetOnMyOwnOrGroup | SetDeviceName | SetFullOrLOD | SetCanGetOsUser
  | SetFacilityNewOrImport | SetSuperuser | SetSelectedImportDeviceFacility | ClearSelectedSetupType
  | RevertFullDeviceImport | SetFacilityTypeAndName | SetGuestAccess | SetLearnerCanCreateAccount
  | SetRequirePassword | SetLodType | AddImportedUser | SetFirstLodUser | SetLodAdmin | SetLodSuperAdmin
  | SetRemoteUsers | ResetContext | SetImportedFacility

text \<open>
  The list of imported users is a reference: to the array of \<open>initialContext\<close>, which every reset
  hands out again, or to an array of its own.
\<close>

datatype users_ref = InitialArray | OwnArray "jsval list"

record wizard_context =
  onMyOwnOrGroup :: jsval
  facilityNewOrImport :: jsval
  facilityName :: jsval
  fullOrLOD :: jsval
  lodImportOrJoin :: jsval
  deviceName :: jsval
  formalOrNonformal :: jsval
  guestAccess :: jsval
  learnerCanCreateAccount :: jsval
  requirePassword :: jsval
  selectedFacility :: jsval
  importDeviceId :: jsval
  importDevice :: jsval
  wiz_superuser :: jsval
  lodAdmin :: jsval
  remoteUsers :: jsval
  importedUsers :: users_ref
  firstImportedLodUser :: jsval
  facilitiesOnDeviceCount :: jsval
  isImportedFacility :: bool
  canGetOsUser :: jsval

definition initialContext :: wizard_context where
  "initialContext = \<lparr>onMyOwnOrGroup = JNull, facilityNewOrImport = JNull, facilityName = JStr [],
     fullOrLOD = JNull, lodImportOrJoin = JNull, deviceName = JStr [], formalOrNonformal = JNull,
     guestAccess = JNull, learnerCanCreateAccount = JNull, requirePassword = JNull,
     selectedFacility = JNull, importDeviceId = JNull, importDevice = JNull, wiz_superuser = JNull,
     lodAdmin = JObj [], remoteUsers = JArr [], importedUsers = InitialArray,
     firstImportedLodUser = JNull, facilitiesOnDeviceCount = JNull, isImportedFacility = False,
     canGetOsUser = JUndef\<rparr>"

record wizard =
  wiz_state :: wizard_state
  wiz_ctx :: wizard_context
  initial_users :: "jsval list"

section \<open>The transition tables\<close>

type_synonym transition = "wizard_event \<times> wizard_state option \<times> wizard_action list"

text \<open>The \<open>on\<close> tables of the forms of the two compound states.\<close>

fun import_table :: "import_state \<Rightarrow> transition list" where
  "import_table SelectFacilityForm =
     [(BACK, Some FullDeviceNewOrImportFacility, [ClearSelectedSetupType, RevertFullDeviceImport]),
      (CONTINUE, Some (ImportFacility ImportAuthentication), [SetSelectedImportDeviceFacility])]"
| "import_table ImportAuthentication =
     [(BACK, Some (ImportFacility SelectFacilityForm), []),
      (BACK_SKIP_FACILITY_FORM, Some FullDeviceNewOrImportFacility, [ClearSelectedSetupType, RevertFullDeviceImport]),
      (CONTINUE, Some (ImportFacility LoadingTaskPage), [])]"
| "import_table LoadingTaskPage = [(CONTINUE, Some (ImportFacility SelectSuperAdminAccountForm), [])]"
| "import_table SelectSuperAdminAccountForm =
     [(CONTINUE, Some (ImportFacility PersonalDataConsentForm), [SetSuperuser])]"
| "import_table PersonalDataConsentForm = [(BACK, Some (ImportFacility SelectSuperAdminAccountForm), [])]"

fun lod_table :: "lod_state \<Rightarrow> transition list" where
  "lod_table SelectLodSetupType =
     [(BACK, Some FullOrLearnOnlyDevice, []), (CONTINUE, Some (ImportLodUsers SelectLodFacility), [SetLodType])]"
| "lod_table SelectLodFacility =
     [(BACK, Some (ImportLodUsers SelectLodSetupType), []),
      (CONTINUE, Some (ImportLodUsers LodProceedJoinOrNew), [SetSelectedImportDeviceFacility])]"
| "lod_table LodProceedJoinOrNew = []"
| "lod_table LodImportUserAuth =
     [(BACK, Some (ImportLodUsers SelectLodSetupType), []),
      (CONTINUE, Some (ImportLodUsers LodLoading), [SetLodSuperAdmin]),
      (CONTINUEADMIN, Some (ImportLodUsers LodImportAsAdmin), [SetRemoteUsers, SetLodAdmin])]"
| "lod_table LodLoading =
     [(SET_SUPERADMIN, None, [SetLodSuperAdmin]), (IMPORT_ANOTHER, Some (ImportLodUsers LodImportUserAuth), [])]"
| "lod_table LodImportAsAdmin =
     [(BACK, Some (ImportLodUsers LodImportUserAuth), []), (LOADING, Some (ImportLodUsers LodLoading), []),
      (SET_SUPERADMIN, None, [SetLodSuperAdmin])]"
| "lod_table LodJoinLoading =
     [(SET_SUPERADMIN, None, [SetLodSuperAdmin]), (IMPORT_ANOTHER, Some (ImportLodUsers LodImportUserAuth), [])]"
| "lod_table LodJoinFacility =
     [(BACK, Some (ImportLodUsers SelectLodSetupType), []), (CONTINUE, Some (ImportLodUsers LodJoinLoading), [])]"

text \<open>The \<open>on\<close> table of each state, of the two compound states, and of the root.\<close>

fun own_table :: "wizard_state \<Rightarrow> transition list" where
  "own_table InitializeContext = [(CONTINUE, Some HowAreYouUsingKolibri, [SetCanGetOsUser])]"
| "own_table HowAreYouUsingKolibri = [(CONTINUE, Some OnMyOwnOrGroupSetup, [SetOnMyOwnOrGroup])]"
| "own_table OnMyOwnOrGroupSetup = [(BACK, Some HowAreYouUsingKolibri, [])]"
| "own_table DefaultLanguage = [(CONTINUE, Some CreateAccountOrFinalizeSetup, []), (BACK, Some HowAreYouUsingKolibri, [])]"
| "own_table CreateAccountOrFinalizeSetup = [(BACK, Some DefaultLanguage, [])]"
| "own_table CreateOnMyOwnAccount = [(CONTINUE, Some FinalizeSetup, [SetSuperuser]), (BACK, Some DefaultLanguage, [])]"
| "own_table DeviceName = [(CONTINUE, Some FullOrLearnOnlyDevice, [SetDeviceName]), (BACK, Some HowAreYouUsingKolibri, [])]"
| "own_table FullOrLearnOnlyDevice = [(CONTINUE, Some FullOrLodSetup, [SetFullOrLOD]), (BACK, Some DeviceName, [])]"
| "own_table FullOrLodSetup = [(BACK, Some FullOrLearnOnlyDevice, [])]"
| "own_table FullDeviceNewOrImportFacility = [(CONTINUE, Some FacilitySetupType, [SetFacilityNewOrImport]),
     (BACK, Some FullOrLearnOnlyDevice, [])]"
| "own_table FacilitySetupType = [(BACK, Some FullDeviceNewOrImportFacility, [])]"
| "own_table SetFacilityPermissions = [(CONTINUE, Some GuestAccess, [SetFacilityTypeAndName]),
     (BACK, Some FullDeviceNewOrImportFacility, [])]"
| "own_table GuestAccess = [(CONTINUE, Some CreateLearnerAccount, [SetGuestAccess]),
     (BACK, Some SetFacilityPermissions, [SetGuestAccess])]"
| "own_table CreateLearnerAccount = [(CONTINUE, Some RequirePassword, [SetLearnerCanCreateAccount]),
     (BACK, Some GuestAccess, [SetLearnerCanCreateAccount])]"
| "own_table RequirePassword = [(CONTINUE, Some PersonalDataConsent, [SetRequirePassword]),
     (BACK, Some CreateLearnerAccount, [SetRequirePassword])]"
| "own_table PersonalDataConsent = [(CONTINUE, Some CreateSuperuserAndFacility, []), (BACK, Some RequirePassword, [])]"
| "own_table CreateSuperuserAndFacility = [(CONTINUE, Some FinalizeSetup, [SetSuperuser]), (BACK, Some PersonalDataConsent, [])]"
| "own_table (ImportFacility i) = import_table i"
| "own_table (ImportLodUsers l) = lod_table l"
| "own_table FinalizeSetup = []"

definition parent_table :: "wizard_state \<Rightarrow> transition list" where
  "parent_table s = (case s of
       ImportFacility _ \<Rightarrow> [(FINISH, Some FinalizeSetup, [])]
     | ImportLodUsers _ \<Rightarrow> [(SET_SUPERUSER, None, [SetSuperuser]), (ADD_IMPORTED_USER, None, [AddImportedUser]),
         (SET_FIRST_LOD, None, [SetFirstLodUser]), (FINISH, Some FinalizeSetup, [])]
     | _ \<Rightarrow> [])"

definition root_table :: "transition list" where
  "root_table = [(START_OVER, Some HowAreYouUsingKolibri, [ResetContext])]"

text \<open>The first match of the state, its parent and the root.\<close>

definition handler :: "wizard_state \<Rightarrow> wizard_event \<Rightarrow> (wizard_state option \<times> wizard_action list) option" where
  "handler s e = map_of (own_table s @ parent_table s @ root_table) e"

definition exit_actions :: "wizard_state \<Rightarrow> wizard_action list" where
  "exit_actions s = (if s = ImportFacility PersonalDataConsentForm then [SetImportedFacility] else [])"

section \<open>Guards and eventless transitions\<close>

text \<open>\<open>os_user\<close> is \<open>checkCapability('get_os_user')\<close>, which the guard asks instead of the context.\<close>

definition always :: "bool \<Rightarrow> wizard_state \<Rightarrow> wizard_context \<Rightarrow> wizard_state option" where
  "always os_user s ctx = (case s of
       OnMyOwnOrGroupSetup \<Rightarrow> (if onMyOwnOrGroup ctx = JStr ''informal'' then Some DefaultLanguage
          else if onMyOwnOrGroup ctx = JStr ''group'' then Some DeviceName else None)
     | CreateAccountOrFinalizeSetup \<Rightarrow> (if os_user then Some FinalizeSetup else Some CreateOnMyOwnAccount)
     | FullOrLodSetup \<Rightarrow> (if fullOrLOD ctx = JStr ''LOD'' then Some (ImportLodUsers SelectLodSetupType)
          else if fullOrLOD ctx = JStr ''FULL'' then Some FullDeviceNewOrImportFacility else None)
     | FacilitySetupType \<Rightarrow> (if facilityNewOrImport ctx = JStr ''NEW'' then Some SetFacilityPermissions
          else if facilityNewOrImport ctx = JStr ''IMPORT'' then Some (ImportFacility SelectFacilityForm) else None)
     | ImportLodUsers LodProceedJoinOrNew \<Rightarrow> (if lodImportOrJoin ctx = JStr ''JOIN''
          then Some (ImportLodUsers LodJoinFacility) else Some (ImportLodUsers LodImportUserAuth))
     | _ \<Rightarrow> None)"

text \<open>No target of an eventless transition has one itself, so one round reaches rest.\<close>

definition rest_state :: "bool \<Rightarrow> wizard_state \<Rightarrow> wizard_context \<Rightarrow> wizard_state" where
  "rest_state os_user s ctx = (case always os_user s ctx of Some t \<Rightarrow> t | None \<Rightarrow> s)"

section \<open>Actions\<close>

text \<open>One action on the context and the initial array; reading a field of a missing value raises.\<close>

definition run_action :: "jsval \<Rightarrow> wizard_action \<Rightarrow> wizard \<Rightarrow> wizard js_result" where
  "run_action v a w =
     (let upd = (\<lambda>f. Inr (w\<lparr>wiz_ctx := f (wiz_ctx w)\<rparr>)) in
      case a of
        SetOnMyOwnOrGroup \<Rightarrow> upd (onMyOwnOrGroup_update (\<lambda>_. v))
      | SetDeviceName \<Rightarrow> upd (deviceName_update (\<lambda>_. v))
      | SetFullOrLOD \<Rightarrow> upd (fullOrLOD_update (\<lambda>_. v))
      | SetCanGetOsUser \<Rightarrow> upd (canGetOsUser_update (\<lambda>_. v))
      | SetFacilityNewOrImport \<Rightarrow> bind_result (js_get v ''importOrNew'') (\<lambda>x. bind_result (js_get v ''importDeviceId'') (\<lambda>y.
          upd (\<lambda>c. c\<lparr>facilityNewOrImport := x, importDeviceId := y\<rparr>)))
      | SetSuperuser \<Rightarrow> upd (wiz_superuser_update (\<lambda>_. v))
      | SetSelectedImportDeviceFacility \<Rightarrow> bind_result (js_get v ''selectedFacility'') (\<lambda>x.
          bind_result (js_get v ''importDevice'') (\<lambda>y. bind_result (js_get v ''facilitiesCount'') (\<lambda>z.
          upd (\<lambda>c. c\<lparr>selectedFacility := x, importDevice := y, facilitiesOnDeviceCount := z\<rparr>))))
      | ClearSelectedSetupType \<Rightarrow> upd (facilityNewOrImport_update (\<lambda>_. JNull))
      | RevertFullDeviceImport \<Rightarrow> upd (\<lambda>c. c\<lparr>selectedFacility := JNull, importDeviceId := JNull\<rparr>)
      | SetFacilityTypeAndName \<Rightarrow> bind_result (js_get v ''selected'') (\<lambda>x. bind_result (js_get v ''facilityName'') (\<lambda>y.
          upd (\<lambda>c. c\<lparr>formalOrNonformal := x, facilityName := y\<rparr>)))
      | SetGuestAccess \<Rightarrow> upd (guestAccess_update (\<lambda>_. v))
      | SetLearnerCanCreateAccount \<Rightarrow> upd (learnerCanCreateAccount_update (\<lambda>_. v))
      | SetRequirePassword \<Rightarrow> upd (requirePassword_update (\<lambda>_. v))
      | SetLodType \<Rightarrow> bind_result (js_get v ''importOrJoin'') (\<lambda>x. bind_result (js_get v ''importDeviceId'') (\<lambda>y.
          upd (\<lambda>c. c\<lparr>lodImportOrJoin := x, importDeviceId := y\<rparr>)))
      | AddImportedUser \<Rightarrow>
          (case importedUsers (wiz_ctx w) of
             InitialArray \<Rightarrow> (let us = initial_users w @ [v] in
               Inr (w\<lparr>initial_users := us, wiz_ctx := (wiz_ctx w)\<lparr>importedUsers := OwnArray (uniq us)\<rparr>\<rparr>))
           | OwnArray us \<Rightarrow> upd (importedUsers_update (\<lambda>_. OwnArray (uniq (us @ [v])))))
      | SetFirstLodUser \<Rightarrow> upd (firstImportedLodUser_update (\<lambda>_. v))
      | SetLodAdmin \<Rightarrow> bind_result (js_get v ''adminUsername'') (\<lambda>x. bind_result (js_get v ''adminPassword'') (\<lambda>y.
          bind_result (js_get v ''id'') (\<lambda>z.
          upd (lodAdmin_update (\<lambda>_. JObj [(''username'', x), (''password'', y), (''id'', z)])))))
      | SetLodSuperAdmin \<Rightarrow>
          (if \<not> truthy (wiz_superuser (wiz_ctx w))
           then bind_result (js_get v ''username'') (\<lambda>x. bind_result (js_get v ''password'') (\<lambda>y.
                  upd (wiz_superuser_update (\<lambda>_. JObj [(''username'', x), (''password'', y)]))))
           else Inr w)
      | SetRemoteUsers \<Rightarrow> bind_result (js_get v ''users'') (\<lambda>x. upd (remoteUsers_update (\<lambda>_. x)))
      | ResetContext \<Rightarrow> upd (\<lambda>c. initialContext\<lparr>canGetOsUser := canGetOsUser c\<rparr>)
      | SetImportedFacility \<Rightarrow> upd (isImportedFacility_update (\<lambda>_. True)))"

fun run_actions :: "jsval \<Rightarrow> wizard_action list \<Rightarrow> wizard \<Rightarrow> wizard js_result" where
  "run_actions v [] w = Inr w"
| "run_actions v (a # as) w = bind_result (run_action v a w) (run_actions v as)"

text \<open>The array the context's \<open>importedUsers\<close> refers to.\<close>

definition imported_users :: "wizard \<Rightarrow> jsval list" where
  "imported_users w = (case importedUsers (wiz_ctx w) of InitialArray \<Rightarrow> initial_users w | OwnArray us \<Rightarrow> us)"

section \<open>Sending an event\<close>

definition wizard_start :: wizard where
  "wizard_start = \<lparr>wiz_state = InitializeContext, wiz_ctx = initialContext, initial_users = []\<rparr>"

definition wizard_send :: "bool \<Rightarrow> wizard \<Rightarrow> wizard_event \<times> jsval \<Rightarrow> wizard js_result" where
  "wizard_send os_user w ev =
     (case handler (wiz_state w) (fst ev) of
        None \<Rightarrow> Inr w
      | Some (None, as) \<Rightarrow> run_actions (snd ev) as w
      | Some (Some t, as) \<Rightarrow>
          bind_result (run_actions (snd ev) (exit_actions (wiz_state w) @ as) w) (\<lambda>w'.
            Inr (w'\<lparr>wiz_state := rest_state os_user t (wiz_ctx w')\<rparr>)))"

text \<open>An event whose actions raise leaves the machine as it was.\<close>

definition wizard_step :: "bool \<Rightarrow> wizard \<Rightarrow> wizard_event \<times> jsval \<Rightarrow> wizard" where
  "wizard_step os_user w ev = (case wizard_send os_user w ev of Inr w' \<Rightarrow> w' | Inl _ \<Rightarrow> w)"

section \<open>The choices that decide the way\<close>

text \<open>The four fields the guards read, and what an action does to them.\<close>

definition choices :: "wizard_context \<Rightarrow> jsval \<times> jsval \<times> jsval \<times> jsval" where
  "choices c = (onMyOwnOrGroup c, fullOrLOD c, facilityNewOrImport c, lodImportOrJoin c)"

fun pick :: "jsval \<Rightarrow> wizard_action \<Rightarrow> jsval \<times> jsval \<times> jsval \<times> jsval \<Rightarrow> jsval \<times> jsval \<times> jsval \<times> jsval" where
  "pick v SetOnMyOwnOrGroup (g, f, n, l) = (v, f, n, l)"
| "pick v SetFullOrLOD (g, f, n, l) = (g, v, n, l)"
| "pick v SetFacilityNewOrImport (g, f, n, l) = (g, f, js_prop v ''importOrNew'', l)"
| "pick v ClearSelectedSetupType (g, f, n, l) = (g, f, JNull, l)"
| "pick v SetLodType (g, f, n, l) = (g, f, n, js_prop v ''importOrJoin'')"
| "pick v ResetContext k = (JNull, JNull, JNull, JNull)"
| "pick v _ k = k"

lemma choices_run_action:
  "run_action v a w = Inr w' \<Longrightarrow> choices (wiz_ctx w') = pick v a (choices (wiz_ctx w)) \<and> wiz_state w' = wiz_state w"
  by (cases a) (auto simp: run_action_def choices_def bind_result_Inr js_get_def initialContext_def Let_def
    split: if_splits users_ref.splits)

lemma choices_run_actions:
  "run_actions v as w = Inr w' \<Longrightarrow>
     choices (wiz_ctx w') = fold (pick v) as (choices (wiz_ctx w)) \<and> wiz_state w' = wiz_state w"
  by (induction as arbitrary: w) (auto simp: bind_result_Inr dest!: choices_run_action)

definition always_on :: "bool \<Rightarrow> wizard_state \<Rightarrow> jsval \<times> jsval \<times> jsval \<times> jsval \<Rightarrow> wizard_state" where
  "always_on os_user s k = rest_state os_user s (initialContext\<lparr>onMyOwnOrGroup := fst k, fullOrLOD := fst (snd k),
     facilityNewOrImport := fst (snd (snd k)), lodImportOrJoin := snd (snd (snd k))\<rparr>)"

lemma rest_state_choices: "rest_state os_user s c = always_on os_user s (choices c)"
  by (simp add: always_on_def rest_state_def always_def choices_def split: wizard_state.splits lod_state.splits)

text \<open>What the choices must be in each state for it to make sense.\<close>

fun fits :: "wizard_state \<Rightarrow> jsval \<times> jsval \<times> jsval \<times> jsval \<Rightarrow> bool" where
  "fits InitializeContext k \<longleftrightarrow> True"
| "fits HowAreYouUsingKolibri k \<longleftrightarrow> True"
| "fits OnMyOwnOrGroupSetup k \<longleftrightarrow> True"
| "fits DefaultLanguage (g, f, n, l) \<longleftrightarrow> g = JStr ''informal''"
| "fits CreateAccountOrFinalizeSetup (g, f, n, l) \<longleftrightarrow> g = JStr ''informal''"
| "fits CreateOnMyOwnAccount (g, f, n, l) \<longleftrightarrow> g = JStr ''informal''"
| "fits DeviceName (g, f, n, l) \<longleftrightarrow> g = JStr ''group''"
| "fits FullOrLearnOnlyDevice (g, f, n, l) \<longleftrightarrow> g = JStr ''group''"
| "fits FullOrLodSetup (g, f, n, l) \<longleftrightarrow> g = JStr ''group''"
| "fits FullDeviceNewOrImportFacility (g, f, n, l) \<longleftrightarrow> g = JStr ''group'' \<and> f = JStr ''FULL''"
| "fits FacilitySetupType (g, f, n, l) \<longleftrightarrow> g = JStr ''group'' \<and> f = JStr ''FULL''"
| "fits (ImportFacility _) (g, f, n, l) \<longleftrightarrow> g = JStr ''group'' \<and> f = JStr ''FULL'' \<and> n = JStr ''IMPORT''"
| "fits (ImportLodUsers s) (g, f, n, l) \<longleftrightarrow> g = JStr ''group'' \<and> f = JStr ''LOD''
     \<and> (s = LodJoinFacility \<or> s = LodJoinLoading \<longrightarrow> l = JStr ''JOIN'')"
| "fits FinalizeSetup (g, f, n, l) \<longleftrightarrow> g = JStr ''informal''
     \<or> g = JStr ''group'' \<and> (f = JStr ''LOD'' \<or> f = JStr ''FULL'' \<and> (n = JStr ''NEW'' \<or> n = JStr ''IMPORT''))"
| "fits _ (g, f, n, l) \<longleftrightarrow> g = JStr ''group'' \<and> f = JStr ''FULL'' \<and> n = JStr ''NEW''"

text \<open>Each transition of the tables leads from choices that fit to choices that fit.\<close>

definition keeps_fit :: "bool \<Rightarrow> wizard_state \<Rightarrow> bool" where
  "keeps_fit os_user s \<longleftrightarrow> (\<forall>k v e t as. fits s k \<longrightarrow> handler s e = Some (t, as) \<longrightarrow>
     fits (case t of None \<Rightarrow> s | Some t' \<Rightarrow> always_on os_user t' (fold (pick v) (exit_actions s @ as) k))
       (fold (pick v) (case t of None \<Rightarrow> as | Some _ \<Rightarrow> exit_actions s @ as) k))"

lemma keeps_fit_import: "keeps_fit os_user (ImportFacility i)"
  by (cases i) (auto simp: keeps_fit_def handler_def parent_table_def root_table_def exit_actions_def
    always_on_def rest_state_def always_def initialContext_def split: if_splits)

lemma keeps_fit_lod: "keeps_fit os_user (ImportLodUsers l)"
  by (cases l) (auto simp: keeps_fit_def handler_def parent_table_def root_table_def exit_actions_def
    always_on_def rest_state_def always_def initialContext_def split: if_splits)

lemma keeps_fit_all: "keeps_fit os_user s"
proof (cases s)
  case (ImportFacility i)
  then show ?thesis by (simp add: keeps_fit_import)
next
  case (ImportLodUsers l)
  then show ?thesis by (simp add: keeps_fit_lod)
qed (auto simp: keeps_fit_def handler_def parent_table_def root_table_def exit_actions_def
    always_on_def rest_state_def always_def initialContext_def split: if_splits)

lemma keeps_fitD:
  assumes "fits s k" and "handler s e = Some (t, as)"
  shows "fits (case t of None \<Rightarrow> s | Some t' \<Rightarrow> always_on os_user t' (fold (pick v) (exit_actions s @ as) k))
     (fold (pick v) (case t of None \<Rightarrow> as | Some _ \<Rightarrow> exit_actions s @ as) k)"
  using keeps_fit_all [of os_user s] assms unfolding keeps_fit_def by blast

definition wizard_fits :: "wizard \<Rightarrow> bool" where
  "wizard_fits w \<longleftrightarrow> fits (wiz_state w) (choices (wiz_ctx w))"

lemma wizard_fits_step:
  assumes "wizard_fits w"
  shows "wizard_fits (wizard_step os_user w ev)"
proof (cases "wizard_send os_user w ev")
  case (Inr w')
  show ?thesis
  proof (cases "handler (wiz_state w) (fst ev)")
    case (Some h)
    obtain t as where h: "handler (wiz_state w) (fst ev) = Some (t, as)" using Some by (cases h) auto
    have k: "fits (wiz_state w) (choices (wiz_ctx w))" using assms by (simp add: wizard_fits_def)
    show ?thesis
    proof (cases t)
      case None
      with h Inr have "run_actions (snd ev) as w = Inr w'" by (simp add: wizard_send_def)
      from choices_run_actions [OF this] keeps_fitD [OF k h, of os_user "snd ev"] None Inr show ?thesis
        by (simp add: wizard_step_def wizard_fits_def)
    next
      case (Some t')
      with h Inr obtain w1 where r: "run_actions (snd ev) (exit_actions (wiz_state w) @ as) w = Inr w1"
        and "w' = w1\<lparr>wiz_state := rest_state os_user t' (wiz_ctx w1)\<rparr>"
        by (auto simp: wizard_send_def bind_result_Inr)
      from choices_run_actions [OF r] keeps_fitD [OF k h, of os_user "snd ev"] Some Inr this(2) show ?thesis
        by (simp add: wizard_step_def wizard_fits_def rest_state_choices)
    qed
  qed (use assms Inr in \<open>auto simp: wizard_step_def wizard_send_def\<close>)
qed (use assms in \<open>simp add: wizard_step_def\<close>)

interpretation wizard: stepper "wizard_step os_user" wizard_fits for os_user
  by unfold_locales (rule wizard_fits_step)

lemma wizard_fits_start: "wizard_fits wizard_start"
  by (simp add: wizard_fits_def wizard_start_def)

section \<open>The point of no return\<close>

definition committed :: "wizard_state set" where
  "committed = {ImportFacility LoadingTaskPage, ImportFacility SelectSuperAdminAccountForm,
     ImportFacility PersonalDataConsentForm, FinalizeSetup}"

lemma committed_step:
  assumes "wiz_state w \<in> committed" and "fst ev \<noteq> START_OVER"
  shows "wiz_state (wizard_step os_user w ev) \<in> committed"
proof (cases "handler (wiz_state w) (fst ev)")
  case None
  then show ?thesis using assms by (simp add: wizard_step_def wizard_send_def)
next
  case (Some h)
  then obtain t as where h: "handler (wiz_state w) (fst ev) = Some (Some t, as)" "t \<in> committed"
    "rest_state os_user t = (\<lambda>c. t)"
    using assms
    by (auto simp: committed_def handler_def parent_table_def root_table_def rest_state_def always_def fun_eq_iff
      split: if_splits)
  then show ?thesis using assms(1)
    by (auto simp: wizard_step_def wizard_send_def split: sum.splits elim!: bind_result.elims)
qed

lemma committed_run:
  "wiz_state w \<in> committed \<Longrightarrow> START_OVER \<notin> fst ` set es
   \<Longrightarrow> wiz_state (foldl (wizard_step os_user) w es) \<in> committed"
proof (induction es arbitrary: w)
  case (Cons e es)
  then show ?case using committed_step [of w e os_user] by (metis foldl_Cons image_eqI image_insert insertI1 insertI2 list.simps(15))
qed simp

section \<open>Properties\<close>

text \<open>
  C10. Whatever the user does, the wizard is only ever in states that fit the choices made: the
  facility forms with a group device set up in full, the import with \<open>IMPORT\<close> chosen, the
  learner-only branch with \<open>LOD\<close>, joining with \<open>JOIN\<close>; and it ends in \<open>finalizeSetup\<close> only for
  one of the complete sets of choices.
\<close>

theorem wizard_choices_fit:
  "fits (wiz_state (foldl (wizard_step os_user) wizard_start es))
     (choices (wiz_ctx (foldl (wizard_step os_user) wizard_start es)))"
  using wizard.run_inv [OF wizard_fits_start] by (simp add: wizard_fits_def)

text \<open>
  C11. Once the import of a facility has started there is no way back but starting over: without
  \<open>START_OVER\<close> every sequence of events leads only to the remaining import forms or the end.
\<close>

theorem wizard_no_return:
  assumes "wiz_state w = ImportFacility LoadingTaskPage" and "START_OVER \<notin> fst ` set es"
  shows "wiz_state (foldl (wizard_step os_user) w es) \<in>
     {ImportFacility LoadingTaskPage, ImportFacility SelectSuperAdminAccountForm,
      ImportFacility PersonalDataConsentForm, FinalizeSetup}"
  using committed_run [of w es os_user] assms by (simp add: committed_def)

lemma wizard_no_return_witness:
  "wiz_state (foldl (wizard_step False) (wizard_start\<lparr>wiz_state := ImportFacility LoadingTaskPage\<rparr>) [(BACK, JUndef)])
     \<in> {ImportFacility LoadingTaskPage, ImportFacility SelectSuperAdminAccountForm,
        ImportFacility PersonalDataConsentForm, FinalizeSetup}"
  by (rule wizard_no_return) simp_all

text \<open>
  Starting over restores every field but \<open>canGetOsUser\<close> to its initial value, except that the
  first user ever imported stays: \<open>addImportedUser\<close> pushes onto the array of the initial context,
  and the reset hands that array out again.
\<close>

theorem start_over_keeps_first_user:
  "(let w' = wizard_step os_user w (START_OVER, v)
    in wiz_state w' = HowAreYouUsingKolibri
       \<and> wiz_ctx w' = initialContext\<lparr>canGetOsUser := canGetOsUser (wiz_ctx w)\<rparr>
       \<and> imported_users w' = initial_users w)
   \<and> (let w = foldl (wizard_step False) wizard_start
          [(CONTINUE, JBool False), (CONTINUE, JStr ''group''), (CONTINUE, JStr ''device''), (CONTINUE, JStr ''LOD''),
           (ADD_IMPORTED_USER, JStr ''ana''), (ADD_IMPORTED_USER, JStr ''bo''), (START_OVER, JUndef)]
      in wiz_state w = HowAreYouUsingKolibri \<and> imported_users w = [JStr ''ana''])"
proof
  have h: "handler s START_OVER = Some (Some HowAreYouUsingKolibri, [ResetContext])" for s
  proof (cases s)
    case (ImportFacility i)
    then show ?thesis by (cases i) (simp_all add: handler_def parent_table_def root_table_def)
  next
    case (ImportLodUsers l)
    then show ?thesis by (cases l) (simp_all add: handler_def parent_table_def root_table_def)
  qed (simp_all add: handler_def parent_table_def root_table_def)
  show "let w' = wizard_step os_user w (START_OVER, v)
    in wiz_state w' = HowAreYouUsingKolibri
       \<and> wiz_ctx w' = initialContext\<lparr>canGetOsUser := canGetOsUser (wiz_ctx w)\<rparr>
       \<and> imported_users w' = initial_users w"
    by (simp add: wizard_step_def wizard_send_def h exit_actions_def run_action_def imported_users_def
      initialContext_def rest_state_def always_def Let_def)
qed code_simp

end
