(* ===== verification/Change_Facility.thy ===== *)
theory Change_Facility
  imports Js_Value
begin

text \<open>
  \<open>kolibri/plugins/user_profile/assets/src/machines/changeFacilityMachine.js\<close>: moving a user to
  another facility.  The tables, guards and actions are the source's, run by the rules XState
  documents; the two kinds of requests the machine invokes are answered by events.  Each forward
  step records the state it leaves, by an event the machine sends to itself, and \<open>BACK\<close> returns
  to the last one recorded.
\<close>

section \<open>States, events and context\<close>

datatype cf_state = ErrorState | Profile | SelectFacility | GetFacilityUsernames | ChangeFacility
  | CheckUsernameExists | ConfirmAccountUsername | DoesTargetRequirePassword | ProvideTargetAccountPassword
  | IsAdmin | FetchSourceFacilityUsers | CheckFacilityHasNoMoreUsers | SetCurrentUserToSuperAdmin
  | CheckNeedsNewSuperAdmin | ChooseAdmin | CheckIsMerging | ConfirmMerge | SyncChangeFacility | SyncFinished
  | CreateAccount | UsernameExists | RequireAccountCreds | UseAdminPassword | ConfirmAccountDetails
  | MergeAccounts | GetUserWithoutPasswordInfo

datatype cf_event = CfContinue | CfBack | CfReset | CfSetContext | CfSelectFacility | CfMerge | CfNew
  | CfSelectNewSuperAdmin | CfSetTaskId | CfFinish | CfTaskError | CfUseAdmin | CfDone | CfFailed

record cf_context =
  cf_role :: jsval
  cf_username :: jsval
  cf_fullname :: jsval
  cf_userId :: jsval
  targetAccount :: jsval
  sourceFacility :: jsval
  sourceFacilityUsers :: "jsval list"
  targetFacility :: jsval
  newSuperAdminId :: jsval
  accountExists :: bool
  isMerging :: bool
  taskId :: jsval
  setAsSuperAdmin :: bool
  cf_history :: "cf_state list"

definition generateMachineContext :: cf_context where
  "generateMachineContext = \<lparr>cf_role = JStr ''learner'', cf_username = JStr [], cf_fullname = JUndef,
     cf_userId = JStr [], targetAccount = JObj [(''username'', JStr []), (''password'', JStr [])],
     sourceFacility = JStr [], sourceFacilityUsers = [], targetFacility = JObj [], newSuperAdminId = JStr [],
     accountExists = False, isMerging = False, taskId = JNull, setAsSuperAdmin = False, cf_history = []\<rparr>"

record cf_machine =
  cf_at :: cf_state
  cf_ctx :: cf_context

definition cf_start :: cf_machine where
  "cf_start = \<lparr>cf_at = SelectFacility, cf_ctx = generateMachineContext\<rparr>"

section \<open>Actions\<close>

text \<open>The value of an event or, for the answer of a request, its data.\<close>

datatype cf_action = SetInitialContext | CheckExists jsval | SetCurrentUserAsSuperAdmin | SetNewSuperAdminId
  | SetTargetAccount | SetMerging | SetSourceFacilityUsers | ClearSourceFacilityUsers | SetTaskId
  | ResetTaskId | ResetMachineContext | SetTargetFacility

text \<open>The items of a list of users as the answer holds them.\<close>

definition js_items :: "jsval \<Rightarrow> jsval list" where
  "js_items v = (case v of JArr m \<Rightarrow> map (\<lambda>i. js_prop v (nat_digits i)) [0..<arr_length m] | _ \<Rightarrow> [])"

definition checkExists :: "jsval \<Rightarrow> jsval \<Rightarrow> cf_context \<Rightarrow> cf_context" where
  "checkExists facility users c =
     (case filter (\<lambda>u. js_prop u ''username'' = cf_username c) (js_items users) of
        [] \<Rightarrow> c\<lparr>accountExists := False\<rparr>
      | u # _ \<Rightarrow> c\<lparr>accountExists := True, targetFacility := facility, targetAccount := u\<rparr>)"

definition cf_act :: "jsval \<Rightarrow> cf_action \<Rightarrow> cf_context \<Rightarrow> cf_context" where
  "cf_act v a c = (case a of
       SetInitialContext \<Rightarrow> c\<lparr>sourceFacility := js_prop v ''facility'', cf_username := js_prop v ''username'',
         cf_fullname := js_prop v ''fullname'', cf_userId := js_prop v ''userId'', cf_role := js_prop v ''role'',
         targetAccount := JObj [(''username'', js_prop v ''username''), (''password'', JStr [])]\<rparr>
     | CheckExists facility \<Rightarrow> checkExists facility (js_prop v ''users'') c
     | SetCurrentUserAsSuperAdmin \<Rightarrow> c\<lparr>setAsSuperAdmin := True\<rparr>
     | SetNewSuperAdminId \<Rightarrow> c\<lparr>newSuperAdminId := v\<rparr>
     | SetTargetAccount \<Rightarrow> c\<lparr>targetAccount := v\<rparr>
     | SetMerging \<Rightarrow> c\<lparr>isMerging := True\<rparr>
     | SetSourceFacilityUsers \<Rightarrow> c\<lparr>sourceFacilityUsers := js_items v\<rparr>
     | ClearSourceFacilityUsers \<Rightarrow> c\<lparr>sourceFacilityUsers := []\<rparr>
     | SetTaskId \<Rightarrow> c\<lparr>taskId := js_prop v ''task_id''\<rparr>
     | ResetTaskId \<Rightarrow> c\<lparr>taskId := JNull\<rparr>
     | ResetMachineContext \<Rightarrow> generateMachineContext\<lparr>cf_fullname := cf_fullname c\<rparr>
     | SetTargetFacility \<Rightarrow> c\<lparr>targetFacility := v\<rparr>)"

section \<open>The transition tables\<close>

text \<open>
  A transition: its guard, its target, its actions, and whether it records the state it leaves.
  \<open>CfDone\<close> and \<open>CfFailed\<close> are the answers to the request a state invokes.
\<close>

record cf_transition =
  guard :: "cf_context \<Rightarrow> bool"
  cf_target :: "cf_state option"
  cf_actions :: "cf_action list"
  records :: bool

definition goes :: "cf_state \<Rightarrow> cf_action list \<Rightarrow> cf_transition" where
  "goes t as = \<lparr>guard = (\<lambda>_. True), cf_target = Some t, cf_actions = as, records = True\<rparr>"

definition goes_if :: "(cf_context \<Rightarrow> bool) \<Rightarrow> cf_state \<Rightarrow> cf_action list \<Rightarrow> cf_transition" where
  "goes_if g t as = \<lparr>guard = g, cf_target = Some t, cf_actions = as, records = True\<rparr>"

definition goes_silently :: "cf_state \<Rightarrow> cf_action list \<Rightarrow> cf_transition" where
  "goes_silently t as = \<lparr>guard = (\<lambda>_. True), cf_target = Some t, cf_actions = as, records = False\<rparr>"

definition stays :: "cf_action list \<Rightarrow> cf_transition" where
  "stays as = \<lparr>guard = (\<lambda>_. True), cf_target = None, cf_actions = as, records = False\<rparr>"

definition passwordless :: "cf_context \<Rightarrow> bool" where
  "passwordless c \<longleftrightarrow> truthy (js_prop (targetFacility c) ''learner_can_login_with_no_password'')"

definition has_keys :: "jsval \<Rightarrow> bool" where
  "has_keys v \<longleftrightarrow> (case v of JObj m \<Rightarrow> m \<noteq> [] | JArr m \<Rightarrow> m \<noteq> [] | JStr s \<Rightarrow> s \<noteq> [] | _ \<Rightarrow> False)"

text \<open>
  While a request is pending its facility is the value of the event that started it, kept in
  \<open>targetFacility\<close> by the same event's action.
\<close>

fun choosing_table :: "cf_context \<Rightarrow> cf_state \<Rightarrow> (cf_event \<times> cf_transition) list" where
  "choosing_table c ErrorState = [(CfReset, goes_silently SelectFacility [ResetMachineContext])]"
| "choosing_table c Profile = [(CfContinue, goes_if (\<lambda>c. truthy (sourceFacility c) \<and> truthy (cf_username c)) SelectFacility []),
     (CfSetContext, stays [SetInitialContext])]"
| "choosing_table c SelectFacility = [(CfContinue, goes_if (\<lambda>c. has_keys (targetFacility c)) ChangeFacility []),
     (CfSetContext, stays [SetInitialContext]), (CfSelectFacility, goes_silently GetFacilityUsernames [SetTargetFacility])]"
| "choosing_table c GetFacilityUsernames = [(CfDone, goes_silently SelectFacility [CheckExists (targetFacility c)]),
     (CfFailed, goes_silently SelectFacility [])]"
| "choosing_table c ChangeFacility = [(CfMerge, goes CheckUsernameExists [SetMerging]), (CfContinue, goes CheckUsernameExists [])]"
| "choosing_table c ConfirmAccountUsername =
     [(CfNew, goes_if (\<lambda>c. truthy (js_prop (targetFacility c) ''learner_can_sign_up'')) CreateAccount []),
      (CfContinue, goes DoesTargetRequirePassword [])]"
| "choosing_table c ProvideTargetAccountPassword = [(CfContinue, goes IsAdmin [SetTargetAccount])]"
| "choosing_table c _ = []"

fun finishing_table :: "cf_context \<Rightarrow> cf_state \<Rightarrow> (cf_event \<times> cf_transition) list" where
  "finishing_table c FetchSourceFacilityUsers = [(CfDone, goes_silently CheckFacilityHasNoMoreUsers [SetSourceFacilityUsers]),
     (CfFailed, goes_silently ErrorState [])]"
| "finishing_table c ChooseAdmin = [(CfContinue, goes_if (\<lambda>c. truthy (newSuperAdminId c)) CheckIsMerging [ClearSourceFacilityUsers]),
     (CfSelectNewSuperAdmin, stays [SetNewSuperAdminId])]"
| "finishing_table c ConfirmMerge = [(CfContinue, goes SyncChangeFacility [])]"
| "finishing_table c SyncChangeFacility = [(CfSetTaskId, stays [SetTaskId]), (CfFinish, goes_silently SyncFinished []),
     (CfTaskError, goes_silently ChangeFacility [ResetTaskId])]"
| "finishing_table c CreateAccount = [(CfContinue, goes IsAdmin [SetTargetAccount])]"
| "finishing_table c _ = []"

fun merging_table :: "cf_context \<Rightarrow> cf_state \<Rightarrow> (cf_event \<times> cf_transition) list" where
  "merging_table c UsernameExists =
     [(CfMerge, goes_if (\<lambda>c. accountExists c \<and> \<not> passwordless c) RequireAccountCreds []),
      (CfMerge, goes_if (\<lambda>c. accountExists c \<and> passwordless c) GetUserWithoutPasswordInfo []),
      (CfNew, goes CreateAccount [])]"
| "merging_table c RequireAccountCreds = [(CfContinue, goes ConfirmAccountDetails [SetTargetAccount]),
     (CfUseAdmin, goes UseAdminPassword [])]"
| "merging_table c UseAdminPassword = [(CfContinue, goes ConfirmAccountDetails [SetTargetAccount])]"
| "merging_table c ConfirmAccountDetails = [(CfContinue, goes IsAdmin [])]"
| "merging_table c MergeAccounts = [(CfContinue, goes RequireAccountCreds [SetTargetAccount])]"
| "merging_table c GetUserWithoutPasswordInfo = [(CfDone, goes_silently ConfirmAccountDetails [SetTargetAccount]),
     (CfFailed, goes_silently MergeAccounts [])]"
| "merging_table c _ = []"

definition cf_table :: "cf_context \<Rightarrow> cf_state \<Rightarrow> (cf_event \<times> cf_transition) list" where
  "cf_table c s = choosing_table c s @ finishing_table c s @ merging_table c s"

text \<open>The eventless transition of a state, with its actions.\<close>

definition needs_new_admin :: "cf_context \<Rightarrow> bool" where
  "needs_new_admin c \<longleftrightarrow> cf_role c = JStr ''superuser''
     \<and> find (\<lambda>u. js_prop u ''id'' \<noteq> cf_userId c \<and> truthy (js_prop u ''is_superuser'')) (sourceFacilityUsers c) = None"

fun cf_always :: "cf_state \<Rightarrow> cf_context \<Rightarrow> (cf_state \<times> cf_action list) option" where
  "cf_always CheckUsernameExists c = Some (if accountExists c then UsernameExists
     else if isMerging c then MergeAccounts else ConfirmAccountUsername, [])"
| "cf_always DoesTargetRequirePassword c =
     Some (if js_prop (targetFacility c) ''learner_can_login_with_no_password'' = JBool False
       then ProvideTargetAccountPassword else IsAdmin, [])"
| "cf_always IsAdmin c = Some (if cf_role c = JStr ''superuser'' then FetchSourceFacilityUsers else CheckIsMerging, [])"
| "cf_always CheckFacilityHasNoMoreUsers c = Some (if length (sourceFacilityUsers c) = 1
     then SetCurrentUserToSuperAdmin else CheckNeedsNewSuperAdmin, [])"
| "cf_always SetCurrentUserToSuperAdmin c = Some (CheckIsMerging, [SetCurrentUserAsSuperAdmin, ClearSourceFacilityUsers])"
| "cf_always CheckNeedsNewSuperAdmin c = Some (if needs_new_admin c then ChooseAdmin else CheckIsMerging, [])"
| "cf_always CheckIsMerging c = Some (if isMerging c then ConfirmMerge else SyncChangeFacility, [])"
| "cf_always _ c = None"

section \<open>Running\<close>

text \<open>Eventless transitions are taken until none applies; each goes up this rank.\<close>

fun rank :: "cf_state \<Rightarrow> nat" where
  "rank CheckUsernameExists = 5"
| "rank DoesTargetRequirePassword = 5"
| "rank IsAdmin = 4"
| "rank CheckFacilityHasNoMoreUsers = 3"
| "rank SetCurrentUserToSuperAdmin = 2"
| "rank CheckNeedsNewSuperAdmin = 2"
| "rank CheckIsMerging = 1"
| "rank _ = 0"

lemma cf_always_rank [termination_simp]: "cf_always s c = Some (t, as) \<Longrightarrow> rank t < rank s"
  by (cases s) auto

function rest :: "cf_machine \<Rightarrow> cf_machine" where
  "rest m = (case cf_always (cf_at m) (cf_ctx m) of
       None \<Rightarrow> m
     | Some (t, as) \<Rightarrow> rest \<lparr>cf_at = t, cf_ctx = fold (cf_act JUndef) as (cf_ctx m)\<rparr>)"
  by pat_completeness auto
termination by (relation "measure (\<lambda>m. rank (cf_at m))") (auto dest: cf_always_rank)

declare rest.simps [simp del]

definition find_transition :: "cf_machine \<Rightarrow> cf_event \<Rightarrow> cf_transition option" where
  "find_transition m e = map_option snd
     (find (\<lambda>(e', tr). e' = e \<and> guard tr (cf_ctx m)) (cf_table (cf_ctx m) (cf_at m)))"

definition push_history :: "cf_state \<Rightarrow> cf_machine \<Rightarrow> cf_machine" where
  "push_history s m = m\<lparr>cf_ctx := (cf_ctx m)\<lparr>cf_history := cf_history (cf_ctx m) @ [s]\<rparr>\<rparr>"

text \<open>\<open>BACK\<close> at the root: to the last recorded state, which is dropped.\<close>

definition go_back :: "cf_machine \<Rightarrow> cf_machine" where
  "go_back m = (let h = cf_history (cf_ctx m) in
     if h = [] then m
     else rest \<lparr>cf_at = last h, cf_ctx = (cf_ctx m)\<lparr>cf_history := butlast h\<rparr>\<rparr>)"

text \<open>The machine takes no event once it is in its final state.\<close>

definition cf_send :: "cf_machine \<Rightarrow> cf_event \<times> jsval \<Rightarrow> cf_machine" where
  "cf_send m ev =
     (if cf_at m = SyncFinished then m
      else (case find_transition m (fst ev) of
          None \<Rightarrow> (if fst ev = CfBack then go_back m else m)
        | Some tr \<Rightarrow>
            (let c' = fold (cf_act (snd ev)) (cf_actions tr) (cf_ctx m) in
             case cf_target tr of
               None \<Rightarrow> m\<lparr>cf_ctx := c'\<rparr>
             | Some t \<Rightarrow> (let m' = rest \<lparr>cf_at = t, cf_ctx = c'\<rparr>
                          in if records tr then push_history (cf_at m) m' else m'))))"

section \<open>The machine rests and remembers pages\<close>

text \<open>The states that record themselves: the ones with a form of their own.\<close>

definition pages :: "cf_state set" where
  "pages = {Profile, SelectFacility, ChangeFacility, ConfirmAccountUsername, ProvideTargetAccountPassword,
     ChooseAdmin, ConfirmMerge, CreateAccount, UsernameExists, RequireAccountCreds, UseAdminPassword,
     ConfirmAccountDetails, MergeAccounts}"

lemma rest_step:
  "cf_always (cf_at m) (cf_ctx m) = Some (t, as)
   \<Longrightarrow> rest m = rest \<lparr>cf_at = t, cf_ctx = fold (cf_act JUndef) as (cf_ctx m)\<rparr>"
  by (subst rest.simps) simp

lemma rest_id: "cf_always (cf_at m) (cf_ctx m) = None \<Longrightarrow> rest m = m"
  by (simp add: rest.simps)

text \<open>Induction over the eventless transitions.\<close>

lemma rest_induct [case_names step]:
  assumes "\<And>m. (\<And>t as. cf_always (cf_at m) (cf_ctx m) = Some (t, as)
     \<Longrightarrow> P \<lparr>cf_at = t, cf_ctx = fold (cf_act JUndef) as (cf_ctx m)\<rparr>) \<Longrightarrow> P m"
  shows "P m"
  by (induction m rule: rest.induct) (use assms in blast)

lemma rest_rests: "cf_always (cf_at (rest m)) (cf_ctx (rest m)) = None"
proof (induction m rule: rest_induct)
  case (step m)
  then show ?case
    by (cases "cf_always (cf_at m) (cf_ctx m)") (auto simp: rest_id rest_step)
qed

lemma cf_act_history [simp]: "cf_history (cf_act v a c) = (if a = ResetMachineContext then [] else cf_history c)"
  by (simp add: cf_act_def checkExists_def generateMachineContext_def split: cf_action.splits list.splits)

lemma cf_always_no_reset: "cf_always s c = Some (t, as) \<Longrightarrow> ResetMachineContext \<notin> set as \<and> t \<noteq> SyncFinished"
  by (cases s) (auto split: if_splits)

lemma fold_act_history: "ResetMachineContext \<notin> set as \<Longrightarrow> cf_history (fold (cf_act v) as c) = cf_history c"
  by (induction as arbitrary: c) auto

lemma fold_act_history_subset: "set (cf_history (fold (cf_act v) as c)) \<subseteq> set (cf_history c)"
proof (induction as arbitrary: c)
  case (Cons a as)
  have "set (cf_history (fold (cf_act v) as (cf_act v a c))) \<subseteq> set (cf_history (cf_act v a c))" by (rule Cons.IH)
  then show ?case by (auto split: if_splits)
qed simp

lemma rest_history: "cf_history (cf_ctx (rest m)) = cf_history (cf_ctx m)"
proof (induction m rule: rest_induct)
  case (step m)
  then show ?case using cf_always_no_reset [of "cf_at m" "cf_ctx m"]
    by (cases "cf_always (cf_at m) (cf_ctx m)") (auto simp: rest_id rest_step fold_act_history)
qed

lemma always_ignores_history [simp]: "cf_always s (c\<lparr>cf_history := h\<rparr>) = cf_always s c"
  by (cases s) (simp_all add: needs_new_admin_def)

lemma pages_rest: "s \<in> pages \<Longrightarrow> cf_always s c = None"
  by (auto simp: pages_def)

text \<open>A transition found in the table.\<close>

lemma find_transitionD:
  "find_transition m e = Some tr \<Longrightarrow> (e, tr) \<in> set (cf_table (cf_ctx m) (cf_at m)) \<and> guard tr (cf_ctx m)"
  by (auto simp: find_transition_def find_Some_iff dest: nth_mem)

lemma recorded_are_pages: "(e, tr) \<in> set (cf_table c s) \<Longrightarrow> records tr \<Longrightarrow> s \<in> pages"
  by (cases s) (auto simp: cf_table_def pages_def goes_silently_def stays_def)

lemma recorded_transition:
  "(e, tr) \<in> set (cf_table c s) \<Longrightarrow> records tr \<Longrightarrow>
     ResetMachineContext \<notin> set (cf_actions tr) \<and> (\<exists>t. cf_target tr = Some t \<and> t \<noteq> SyncFinished)"
  by (cases s) (auto simp: cf_table_def goes_def goes_if_def goes_silently_def stays_def)

lemma back_has_no_transition [simp]: "find_transition m CfBack = None"
  by (cases "cf_at m") (simp_all add: cf_table_def find_transition_def)

definition cf_inv :: "cf_machine \<Rightarrow> bool" where
  "cf_inv m \<longleftrightarrow> cf_always (cf_at m) (cf_ctx m) = None \<and> set (cf_history (cf_ctx m)) \<subseteq> pages"

lemma cf_stay: "(e, tr) \<in> set (cf_table c s) \<Longrightarrow> cf_target tr = None \<Longrightarrow> s \<in> pages \<union> {SyncChangeFacility}"
  by (cases s) (auto simp: cf_table_def pages_def goes_def goes_if_def goes_silently_def)

lemma cf_inv_send:
  assumes inv: "cf_inv m"
  shows "cf_inv (cf_send m ev)"
proof (cases "find_transition m (fst ev)")
  case None
  have "set (butlast h) \<subseteq> pages" if "set h \<subseteq> pages" for h using that by (auto dest: in_set_butlastD)
  then show ?thesis using inv None
    by (auto simp: cf_send_def go_back_def Let_def cf_inv_def rest_rests rest_history)
next
  case (Some tr)
  then have mem: "(fst ev, tr) \<in> set (cf_table (cf_ctx m) (cf_at m))" by (simp add: find_transitionD)
  let ?c = "fold (cf_act (snd ev)) (cf_actions tr) (cf_ctx m)"
  have h: "set (cf_history ?c) \<subseteq> pages" using inv fold_act_history_subset by (fastforce simp: cf_inv_def)
  show ?thesis
  proof (cases "cf_target tr")
    case None
    then have "cf_always (cf_at m) ?c = None" using cf_stay [OF mem] pages_rest by fastforce
    then show ?thesis using inv Some None h by (simp add: cf_send_def Let_def cf_inv_def)
  next
    case t: (Some t)
    then show ?thesis using inv Some h recorded_are_pages [OF mem]
      by (auto simp: cf_send_def Let_def cf_inv_def push_history_def rest_rests rest_history)
  qed
qed

interpretation change_facility: stepper cf_send cf_inv
  by unfold_locales (rule cf_inv_send)

lemma cf_inv_start: "cf_inv cf_start"
  by (simp add: cf_inv_def cf_start_def generateMachineContext_def)

lemma rest_not_finished: "cf_at m \<noteq> SyncFinished \<Longrightarrow> cf_at (rest m) \<noteq> SyncFinished"
proof (induction m rule: rest_induct)
  case (step m)
  then show ?case using cf_always_no_reset [of "cf_at m" "cf_ctx m"]
    by (cases "cf_always (cf_at m) (cf_ctx m)") (auto simp: rest_id rest_step)
qed

text \<open>Going back after a recorded step.\<close>

lemma back_after_record:
  assumes inv: "cf_inv m" and f: "find_transition m (fst ev) = Some tr" and r: "records tr"
  shows "cf_at (cf_send (cf_send m ev) (CfBack, v)) = cf_at m
     \<and> cf_history (cf_ctx (cf_send (cf_send m ev) (CfBack, v))) = cf_history (cf_ctx m)"
proof -
  have mem: "(fst ev, tr) \<in> set (cf_table (cf_ctx m) (cf_at m))" using f by (simp add: find_transitionD)
  obtain t where t: "cf_target tr = Some t" "t \<noteq> SyncFinished" and a: "ResetMachineContext \<notin> set (cf_actions tr)"
    using recorded_transition [OF mem r] by blast
  have page: "cf_at m \<in> pages" using recorded_are_pages [OF mem r] .
  let ?m = "rest \<lparr>cf_at = t, cf_ctx = fold (cf_act (snd ev)) (cf_actions tr) (cf_ctx m)\<rparr>"
  have fin: "cf_at m \<noteq> SyncFinished" using page by (auto simp: pages_def)
  then have s: "cf_send m ev = push_history (cf_at m) ?m" using f t r by (simp add: cf_send_def Let_def)
  have h: "cf_history (cf_ctx ?m) = cf_history (cf_ctx m)" using a by (simp add: rest_history fold_act_history)
  have "cf_at ?m \<noteq> SyncFinished" using t(2) by (intro rest_not_finished) simp
  then have "cf_send (cf_send m ev) (CfBack, v)
      = rest \<lparr>cf_at = cf_at m, cf_ctx = (cf_ctx ?m)\<lparr>cf_history := cf_history (cf_ctx m)\<rparr>\<rparr>"
    unfolding s by (simp add: cf_send_def go_back_def push_history_def Let_def h)
  then show ?thesis using pages_rest [OF page] by (simp add: rest_id)
qed

section \<open>Properties\<close>

text \<open>
  After any sequence of events the machine rests in a state without eventless transitions,
  and only pages are recorded in its history; so \<open>BACK\<close> never leads into a passing or waiting
  state, nor to the error page or the end.
\<close>

theorem change_facility_history:
  "let m = foldl cf_send cf_start es
   in cf_always (cf_at m) (cf_ctx m) = None
      \<and> set (cf_history (cf_ctx m)) \<subseteq>
          {Profile, SelectFacility, ChangeFacility, ConfirmAccountUsername, ProvideTargetAccountPassword,
           ChooseAdmin, ConfirmMerge, CreateAccount, UsernameExists, RequireAccountCreds, UseAdminPassword,
           ConfirmAccountDetails, MergeAccounts}"
  using change_facility.run_inv [OF cf_inv_start, of es] by (simp add: Let_def cf_inv_def pages_def)

text \<open>
  C12. \<open>BACK\<close> undoes the last step: after any forward step that recorded the page it left, however
  many eventless transitions it set off, \<open>BACK\<close> returns to that page with the history it had.
\<close>

theorem change_facility_back:
  assumes "m = foldl cf_send cf_start es"
    and "find_transition m (fst ev) = Some tr" and "records tr"
  shows "cf_at (cf_send (cf_send m ev) (CfBack, v)) = cf_at m
     \<and> cf_history (cf_ctx (cf_send (cf_send m ev) (CfBack, v))) = cf_history (cf_ctx m)"
proof -
  have "cf_inv m" unfolding assms(1) by (rule change_facility.run_inv [OF cf_inv_start])
  then show ?thesis using assms(2,3) by (rule back_after_record)
qed

abbreviation other_facility :: jsval where
  "other_facility \<equiv> JObj [(''name'', JStr ''fac2''), (''id'', JStr ''2'')]"

lemma change_facility_back_witness:
  "cf_at (cf_send (cf_send (foldl cf_send cf_start [(CfSelectFacility, other_facility), (CfFailed, JUndef)])
     (CfContinue, JUndef)) (CfBack, JUndef)) = SelectFacility"
proof -
  let ?es = "[(CfSelectFacility, other_facility), (CfFailed, JUndef)]"
  have "cf_at (foldl cf_send cf_start ?es) = SelectFacility" by code_simp
  moreover have "\<exists>tr. find_transition (foldl cf_send cf_start ?es) CfContinue = Some tr \<and> records tr"
    by (simp add: cf_send_def cf_start_def cf_table_def find_transition_def goes_silently_def goes_if_def stays_def
      Let_def rest_id cf_act_def generateMachineContext_def has_keys_def)
  ultimately show ?thesis using change_facility_back [OF refl, of ?es "(CfContinue, JUndef)" _ JUndef] by auto
qed

text \<open>
  Two choices stick that the user took back.  After choosing to merge, going back and
  continuing without merging, the user is led to the merge form again.  And when the users of a
  second facility cannot be fetched, the answer for the first one stands: the user is told that
  the account exists on the facility now selected.
\<close>

theorem change_facility_stale_choices:
  "(let m = foldl cf_send cf_start [(CfSelectFacility, other_facility), (CfDone, JObj [(''users'', JArr [])]),
            (CfContinue, JUndef), (CfMerge, JUndef), (CfBack, JUndef), (CfContinue, JUndef)]
    in cf_at m = MergeAccounts)
   \<and> (let m = foldl cf_send cf_start
            [(CfSetContext, JObj [(''username'', JStr ''ana'')]),
             (CfSelectFacility, JObj [(''id'', JStr ''1'')]),
             (CfDone, JObj [(''users'', js_array [JObj [(''username'', JStr ''ana'')]])]),
             (CfSelectFacility, other_facility), (CfFailed, JUndef), (CfContinue, JUndef), (CfContinue, JUndef)]
      in cf_at m = UsernameExists \<and> targetFacility (cf_ctx m) = other_facility)"
  by code_simp

text \<open>
  An existing account can be merged without the confirmation: when the user continues without
  choosing to merge and is then offered the existing account, merging it leads to the
  synchronisation with the merging flag unset, and the confirmation page is never entered.
\<close>

theorem merge_without_confirmation:
  "let es = [(CfSetContext, JObj [(''username'', JStr ''ana'')]),
             (CfSelectFacility, JObj [(''id'', JStr ''1'')]),
             (CfDone, JObj [(''users'', js_array [JObj [(''username'', JStr ''ana'')]])]),
             (CfContinue, JUndef), (CfContinue, JUndef), (CfMerge, JUndef),
             (CfContinue, JObj []), (CfContinue, JUndef)];
       m = foldl cf_send cf_start es
   in cf_at m = SyncChangeFacility \<and> \<not> isMerging (cf_ctx m) \<and> ConfirmMerge \<notin> set (cf_history (cf_ctx m))
      \<and> UsernameExists \<in> set (cf_history (cf_ctx m))"
  by code_simp

end
