(* ===== verification/Class_Summary.thy ===== *)
theory Class_Summary
  imports Js_Value
begin

text \<open>
  \<open>kolibri/plugins/coach/assets/src/modules/classSummary\<close>: the class summary of the coach plugin
  (\<open>index.js\<close>), its lookup getters (\<open>dataHelpers.js\<close>) and the updates it takes from
  notifications (\<open>actions.js\<close>).  Dates are times in milliseconds; \<open>parse_date\<close> is \<open>new Date\<close> on
  the server's strings.
\<close>

section \<open>Data\<close>

datatype status = NotStarted | Started | HelpNeeded | Completed | OtherStatus string

definition status_of :: "string \<Rightarrow> status" where
  "status_of s = (if s = ''NotStarted'' then NotStarted else if s = ''Started'' then Started
     else if s = ''HelpNeeded'' then HelpNeeded else if s = ''Completed'' then Completed else OtherStatus s)"

record user =
  user_id :: string
  user_name :: string

record group =
  group_id :: string
  group_name :: string
  member_ids :: "string list"

record quiz =
  quiz_id :: string
  quiz_title :: string
  quiz_assignments :: "string list"
  quiz_groups :: "string list"
  question_count :: nat
  quiz_size :: "rat option"
  size_string :: "string option"

record lesson =
  lesson_id :: string
  lesson_title :: string
  node_ids :: "string list"
  lesson_assignments :: "string list"
  lesson_groups :: "string list"
  lesson_size :: "rat option"

record content_item =
  content_id :: string
  content_node :: string
  kind :: string
  content_title :: string

text \<open>A learner's status on a content or a quiz; properties not set are \<open>None\<close>.\<close>

record status_obj =
  status :: status
  last_activity :: "int option"
  time_spent :: "rat option"
  num_correct :: "nat option"
  num_answered :: "nat option"
  score :: "jsnum option"

record summary =
  class_id :: string
  class_name :: string
  coachMap :: "user jsobj"
  learnerMap :: "user jsobj"
  groupMap :: "group jsobj"
  adHocGroupsMap :: "group jsobj"
  examMap :: "quiz jsobj"
  examLearnerStatusMap :: "status_obj jsobj jsobj"
  contentMap :: "content_item jsobj"
  contentNodeMap :: "content_item jsobj"
  contentLearnerStatusMap :: "status_obj jsobj jsobj"
  lessonMap :: "lesson jsobj"

definition itemMap :: "('a \<Rightarrow> string) \<Rightarrow> 'a list \<Rightarrow> 'a jsobj" where
  "itemMap key items = fold (\<lambda>it. obj_set (key it) it) items []"

text \<open>A status in the server's answer, with the two keys it is stored under.\<close>

record raw_status =
  raw_key :: string
  raw_learner :: string
  raw_status :: string
  raw_activity :: "string option"
  raw_time_spent :: "rat option"
  raw_num_correct :: "nat option"
  raw_num_answered :: "nat option"

definition put2 :: "string \<Rightarrow> string \<Rightarrow> 'v \<Rightarrow> 'v jsobj jsobj \<Rightarrow> 'v jsobj jsobj" where
  "put2 k1 k2 v m = obj_set k1 (obj_set k2 v (case obj_get m k1 of Some t \<Rightarrow> t | None \<Rightarrow> [])) m"

definition get2 :: "'v jsobj jsobj \<Rightarrow> string \<Rightarrow> string \<Rightarrow> 'v option" where
  "get2 m k1 k2 = (case obj_get m k1 of Some t \<Rightarrow> obj_get t k2 | None \<Rightarrow> None)"

definition statusMap :: "(string \<times> string \<times> status_obj) list \<Rightarrow> status_obj jsobj jsobj" where
  "statusMap statuses = fold (\<lambda>(k, l, s). put2 k l s) statuses []"

definition undefined_member :: js_error where
  "undefined_member = TypeError ''Cannot read properties of undefined''"

definition score_of :: "nat option \<Rightarrow> nat \<Rightarrow> jsnum option" where
  "score_of numCorrect numQuestions = (case numCorrect of None \<Rightarrow> None
     | Some n \<Rightarrow> Some (num_div (Fin (of_nat n)) (Fin (of_nat numQuestions))))"

section \<open>Mutations\<close>

record server_summary =
  sv_id :: string
  sv_name :: string
  sv_coaches :: "user list"
  sv_learners :: "user list"
  sv_groups :: "group list"
  sv_adhoclearners :: "group list"
  sv_exams :: "quiz list"
  sv_exam_learner_status :: "raw_status list"
  sv_content :: "content_item list"
  sv_content_learner_status :: "raw_status list"
  sv_lessons :: "lesson list"

text \<open>\<open>last_activity ? new Date(last_activity) : null\<close>.\<close>

definition convert_activity :: "(string \<Rightarrow> int) \<Rightarrow> string option \<Rightarrow> int option" where
  "convert_activity parse_date a = (case a of Some t \<Rightarrow> if t = [] then None else Some (parse_date t) | None \<Rightarrow> None)"

definition convert_status :: "(string \<Rightarrow> int) \<Rightarrow> raw_status \<Rightarrow> status_obj" where
  "convert_status parse_date r = \<lparr>status = status_of (raw_status r), last_activity = convert_activity parse_date (raw_activity r),
     time_spent = raw_time_spent r, num_correct = raw_num_correct r, num_answered = raw_num_answered r, score = None\<rparr>"

definition scored_status :: "(string \<Rightarrow> int) \<Rightarrow> quiz jsobj \<Rightarrow> raw_status \<Rightarrow> (string \<times> string \<times> status_obj) js_result" where
  "scored_status parse_date exams r = (case obj_get exams (raw_key r) of
       None \<Rightarrow> Inl undefined_member
     | Some q \<Rightarrow> Inr (raw_key r, raw_learner r,
         (convert_status parse_date r)\<lparr>score := score_of (raw_num_correct r) (question_count q)\<rparr>))"

definition patch_kind :: "content_item \<Rightarrow> content_item" where
  "patch_kind c = c\<lparr>kind := (if kind c = ''h5p'' then ''html5'' else kind c)\<rparr>"

definition SET_STATE :: "(string \<Rightarrow> int) \<Rightarrow> server_summary \<Rightarrow> summary \<Rightarrow> summary js_result" where
  "SET_STATE parse_date sv s =
     (let exams = itemMap quiz_id (sv_exams sv); content = map patch_kind (sv_content sv) in
      bind_result (map_result (scored_status parse_date exams) (sv_exam_learner_status sv)) (\<lambda>examStatuses.
      Inr (s\<lparr>class_id := sv_id sv, class_name := sv_name sv,
        coachMap := itemMap user_id (sv_coaches sv), learnerMap := itemMap user_id (sv_learners sv),
        groupMap := itemMap group_id (sv_groups sv), adHocGroupsMap := itemMap group_id (sv_adhoclearners sv),
        examMap := exams, examLearnerStatusMap := statusMap examStatuses,
        contentMap := itemMap content_id content, contentNodeMap := itemMap content_node content,
        contentLearnerStatusMap := statusMap (map (\<lambda>r. (raw_key r, raw_learner r, convert_status parse_date r))
          (sv_content_learner_status sv)),
        lessonMap := itemMap lesson_id (sv_lessons sv)\<rparr>)))"

text \<open>
  The item mutations, for the map given by its update function.  Updating an item that is not
  there raises; deleting it does nothing.
\<close>

definition CREATE_ITEM :: "(('a jsobj \<Rightarrow> 'a jsobj) \<Rightarrow> summary \<Rightarrow> summary) \<Rightarrow> string \<Rightarrow> 'a \<Rightarrow> summary \<Rightarrow> summary" where
  "CREATE_ITEM upd i x s = upd (\<lambda>m. obj_set i x (obj_assign [] m)) s"

definition UPDATE_ITEM ::
  "(summary \<Rightarrow> 'a jsobj) \<Rightarrow> (('a jsobj \<Rightarrow> 'a jsobj) \<Rightarrow> summary \<Rightarrow> summary) \<Rightarrow> string \<Rightarrow> ('a \<Rightarrow> 'a) \<Rightarrow> summary \<Rightarrow> summary js_result" where
  "UPDATE_ITEM sel upd i f s = (case obj_get (sel s) i of
       None \<Rightarrow> Inl (TypeError ''Cannot convert undefined or null to object'')
     | Some x \<Rightarrow> Inr (upd (obj_set i (f x)) s))"

definition DELETE_ITEM :: "(('a jsobj \<Rightarrow> 'a jsobj) \<Rightarrow> summary \<Rightarrow> summary) \<Rightarrow> string \<Rightarrow> summary \<Rightarrow> summary" where
  "DELETE_ITEM upd i s = upd (obj_del i) s"

record content_update =
  cu_content :: string
  cu_learner :: string
  cu_status :: status
  cu_activity :: int

record exam_update =
  eu_exam :: string
  eu_learner :: string
  eu_status :: status
  eu_activity :: int
  eu_correct :: "nat option"
  eu_answered :: "nat option"

definition apply_content_update :: "content_update \<Rightarrow> summary \<Rightarrow> summary" where
  "apply_content_update u s =
     (let new = (case get2 (contentLearnerStatusMap s) (cu_content u) (cu_learner u) of
           Some c \<Rightarrow> c\<lparr>status := cu_status u, last_activity := Some (cu_activity u)\<rparr>
         | None \<Rightarrow> \<lparr>status = cu_status u, last_activity = Some (cu_activity u), time_spent = Some 0,
                    num_correct = None, num_answered = None, score = None\<rparr>)
      in s\<lparr>contentLearnerStatusMap := put2 (cu_content u) (cu_learner u) new (contentLearnerStatusMap s)\<rparr>)"

definition apply_exam_update :: "exam_update \<Rightarrow> summary \<Rightarrow> summary js_result" where
  "apply_exam_update u s = (case obj_get (examMap s) (eu_exam u) of
       None \<Rightarrow> Inl undefined_member
     | Some q \<Rightarrow>
         (let sc = score_of (eu_correct u) (question_count q);
              new = (case get2 (examLearnerStatusMap s) (eu_exam u) (eu_learner u) of
                 Some c \<Rightarrow> c\<lparr>status := eu_status u, last_activity := Some (eu_activity u),
                   num_correct := eu_correct u, num_answered := eu_answered u, score := sc\<rparr>
               | None \<Rightarrow> \<lparr>status = eu_status u, last_activity = Some (eu_activity u), time_spent = None,
                   num_correct = eu_correct u, num_answered = eu_answered u, score = sc\<rparr>)
          in Inr (s\<lparr>examLearnerStatusMap := put2 (eu_exam u) (eu_learner u) new (examLearnerStatusMap s)\<rparr>)))"

definition APPLY_NOTIFICATION_UPDATES :: "content_update list \<Rightarrow> exam_update list \<Rightarrow> summary \<Rightarrow> summary js_result" where
  "APPLY_NOTIFICATION_UPDATES cus eus s = fold_result apply_exam_update eus (fold apply_content_update cus s)"

text \<open>Sizes by id; \<open>bytes\<close> renders a size for the quizzes.\<close>

definition set_sizes :: "(rat \<Rightarrow> 'a \<Rightarrow> 'a) \<Rightarrow> rat jsobj list \<Rightarrow> 'a jsobj \<Rightarrow> 'a jsobj" where
  "set_sizes f sizes m = fold (\<lambda>item. fold (\<lambda>(k, v) m. case obj_get m k of
       Some x \<Rightarrow> obj_set k (f v x) m | None \<Rightarrow> m) (obj_entries item)) sizes m"

definition SET_CLASS_LESSONS_SIZES :: "rat jsobj list \<Rightarrow> summary \<Rightarrow> summary" where
  "SET_CLASS_LESSONS_SIZES sizes s = s\<lparr>lessonMap := set_sizes (\<lambda>v l. l\<lparr>lesson_size := Some v\<rparr>) sizes (lessonMap s)\<rparr>"

definition SET_CLASS_QUIZZES_SIZES :: "(rat \<Rightarrow> string) \<Rightarrow> rat jsobj list \<Rightarrow> summary \<Rightarrow> summary" where
  "SET_CLASS_QUIZZES_SIZES bytes sizes s = s\<lparr>examMap :=
     set_sizes (\<lambda>v q. q\<lparr>quiz_size := Some v, size_string := Some (bytes v)\<rparr>) sizes (examMap s)\<rparr>"

text \<open>\<open>bytesForHumans\<close>: the unit and the whole number of units that are formatted.\<close>

definition bytesForHumans :: "rat \<Rightarrow> rat \<times> int" where
  "bytesForHumans bytes =
     (let unit = (case find (\<lambda>x. x \<le> bytes) [1000000000, 1000000, 1000] of Some u \<Rightarrow> u | None \<Rightarrow> 1)
      in (unit, \<lfloor>fl64 (bytes / unit)\<rfloor>))"

section \<open>Getters of the module\<close>

definition statuses_flat :: "'v jsobj jsobj \<Rightarrow> 'v list" where
  "statuses_flat m = concat (map obj_values (obj_values m))"

text \<open>The status of a lesson's node for a learner: \<open>NotStarted\<close> unless it is known.\<close>

definition node_status :: "summary \<Rightarrow> string \<Rightarrow> string \<Rightarrow> status" where
  "node_status s learner node = (case obj_get (contentNodeMap s) node of
       None \<Rightarrow> NotStarted
     | Some c \<Rightarrow> (case get2 (contentLearnerStatusMap s) (content_id c) learner of
           Some st \<Rightarrow> status st | None \<Rightarrow> NotStarted))"

definition lessonStatusForLearner :: "summary \<Rightarrow> string \<Rightarrow> string \<Rightarrow> status js_result" where
  "lessonStatusForLearner s lessonId learnerId = (case obj_get (lessonMap s) lessonId of
       None \<Rightarrow> Inl undefined_member
     | Some l \<Rightarrow>
         (if node_ids l = [] then Inr NotStarted
          else let sts = map (node_status s learnerId) (node_ids l); tally = count_list sts in
            if tally HelpNeeded \<noteq> 0 then Inr HelpNeeded
            else if tally Completed = length sts then Inr Completed
            else if tally NotStarted = length sts then Inr NotStarted
            else Inr Started))"

text \<open>\<open>a > b\<close> on dates and \<open>null\<close>, which compares as 0.\<close>

definition later :: "int option \<Rightarrow> int option \<Rightarrow> bool" where
  "later a b \<longleftrightarrow> (case b of Some t \<Rightarrow> t | None \<Rightarrow> 0) < (case a of Some t \<Rightarrow> t | None \<Rightarrow> 0)"

definition node_activity :: "summary \<Rightarrow> string \<Rightarrow> string \<Rightarrow> int option" where
  "node_activity s learner node =
     (let key = (case obj_get (contentNodeMap s) node of Some c \<Rightarrow> content_id c | None \<Rightarrow> ''null'')
      in case get2 (contentLearnerStatusMap s) key learner of Some st \<Rightarrow> last_activity st | None \<Rightarrow> None)"

definition lesson_last_activity :: "summary \<Rightarrow> lesson \<Rightarrow> string \<Rightarrow> int option" where
  "lesson_last_activity s l learner = fold (\<lambda>node last. let a = node_activity s learner node
     in if later a last then a else last) (node_ids l) None"

definition lesson_row :: "summary \<Rightarrow> lesson \<Rightarrow> (status \<times> int option) jsobj js_result" where
  "lesson_row s l = bind_result
     (map_result (\<lambda>u. bind_result (lessonStatusForLearner s (lesson_id l) (user_id u)) (\<lambda>st.
        Inr (user_id u, st, lesson_last_activity s l (user_id u)))) (obj_values (learnerMap s)))
     (\<lambda>row. Inr (fold (\<lambda>(u, v). obj_set u v) row []))"

definition lessonLearnerStatusMap :: "summary \<Rightarrow> (status \<times> int option) jsobj jsobj js_result" where
  "lessonLearnerStatusMap s = bind_result
     (map_result (\<lambda>l. bind_result (lesson_row s l) (\<lambda>row. Inr (lesson_id l, row))) (obj_values (lessonMap s)))
     (\<lambda>rows. Inr (fold (\<lambda>(i, row). obj_set i row) rows []))"

text \<open>\<open>upper\<close> is \<open>toUpperCase\<close>.  The result is the first other item with the same title.\<close>

definition title_taken :: "(string \<Rightarrow> string) \<Rightarrow> (string \<times> string) list \<Rightarrow> string \<Rightarrow> string \<Rightarrow> (string \<times> string) option" where
  "title_taken upper items title excludeId =
     find (\<lambda>(i, t). i \<noteq> excludeId \<and> upper (js_trim t) = upper (js_trim title)) items"

definition quizTitleUnavailable :: "(string \<Rightarrow> string) \<Rightarrow> summary \<Rightarrow> string \<Rightarrow> string \<Rightarrow> (string \<times> string) option" where
  "quizTitleUnavailable upper s = title_taken upper (map (\<lambda>q. (quiz_id q, quiz_title q)) (obj_values (examMap s)))"

definition lessonTitleUnavailable :: "(string \<Rightarrow> string) \<Rightarrow> summary \<Rightarrow> string \<Rightarrow> string \<Rightarrow> (string \<times> string) option" where
  "lessonTitleUnavailable upper s = title_taken upper (map (\<lambda>l. (lesson_id l, lesson_title l)) (obj_values (lessonMap s)))"

section \<open>Actions\<close>

text \<open>
  The requests are parameters: the answer to the request for the sizes, \<open>None\<close> when it fails (the
  error goes to the root store), and for the class summary.  The two size requests change different
  maps, so it does not matter which answer comes first.
\<close>

definition fetchLessonsSizes :: "(string \<Rightarrow> rat jsobj list option) \<Rightarrow> string \<Rightarrow> summary \<Rightarrow> summary" where
  "fetchLessonsSizes request cls s =
     (if obj_keys (lessonMap s) = [] then s
      else case request cls of Some sizes \<Rightarrow> SET_CLASS_LESSONS_SIZES sizes s | None \<Rightarrow> s)"

definition fetchQuizzesSizes :: "(rat \<Rightarrow> string) \<Rightarrow> (string \<Rightarrow> rat jsobj list option) \<Rightarrow> string \<Rightarrow> summary \<Rightarrow> summary" where
  "fetchQuizzesSizes bytes request cls s =
     (if obj_keys (examMap s) = [] then s
      else case request cls of Some sizes \<Rightarrow> SET_CLASS_QUIZZES_SIZES bytes sizes s | None \<Rightarrow> s)"

definition loadClassSummary ::
  "(string \<Rightarrow> int) \<Rightarrow> (rat \<Rightarrow> string) \<Rightarrow> (string \<Rightarrow> server_summary js_result) \<Rightarrow> (string \<Rightarrow> rat jsobj list option)
     \<Rightarrow> (string \<Rightarrow> rat jsobj list option) \<Rightarrow> string \<Rightarrow> summary \<Rightarrow> summary js_result" where
  "loadClassSummary parse_date bytes fetchModel lessonSizes quizSizes cls s =
     bind_result (fetchModel cls) (\<lambda>sv. bind_result (SET_STATE parse_date sv s) (\<lambda>s'.
       Inr (fetchQuizzesSizes bytes quizSizes cls (fetchLessonsSizes lessonSizes cls s'))))"

definition refreshClassSummary ::
  "(string \<Rightarrow> int) \<Rightarrow> (rat \<Rightarrow> string) \<Rightarrow> (string \<Rightarrow> server_summary js_result) \<Rightarrow> (string \<Rightarrow> rat jsobj list option)
     \<Rightarrow> (string \<Rightarrow> rat jsobj list option) \<Rightarrow> summary \<Rightarrow> summary js_result" where
  "refreshClassSummary parse_date bytes fetchModel lessonSizes quizSizes s =
     loadClassSummary parse_date bytes fetchModel lessonSizes quizSizes (class_id s) s"

end
