(* ===== verification/Class_Reports.thy ===== *)
theory Class_Reports
  imports Class_Summary
begin

text \<open>
  The rest of the class summary module: the updates computed from new notifications
  (\<open>actions.js\<close>) and the lookup getters the reports are made of (\<open>dataHelpers.js\<close>), with the
  properties of the module.
\<close>

section \<open>Updates from notifications\<close>

record notification =
  n_id :: string
  n_user :: string
  n_object :: string
  n_event :: string
  n_timestamp :: string
  n_quiz :: string
  n_lesson :: string
  n_contentnode :: string
  n_num_correct :: "nat option"
  n_num_answered :: "nat option"
  n_collections :: "string list"

abbreviation "QUIZ \<equiv> ''Quiz''"
abbreviation "LESSON \<equiv> ''Lesson''"
abbreviation "RESOURCE \<equiv> ''Resource''"

definition needs_reload :: "summary \<Rightarrow> notification \<Rightarrow> bool" where
  "needs_reload s n \<longleftrightarrow> obj_get (learnerMap s) (n_user n) = None
     \<or> n_object n = QUIZ \<and> obj_get (examMap s) (n_quiz n) = None
     \<or> (n_object n = LESSON \<or> n_object n = RESOURCE) \<and> obj_get (lessonMap s) (n_lesson n) = None
     \<or> n_object n = RESOURCE \<and> obj_get (contentNodeMap s) (n_contentnode n) = None"

datatype update_outcome = NoUpdate | LoadClassSummary string | Commit "content_update list" "exam_update list"

definition content_update_of :: "(string \<Rightarrow> int) \<Rightarrow> summary \<Rightarrow> notification \<Rightarrow> content_update" where
  "content_update_of parse_date s n = \<lparr>cu_content = content_id (the (obj_get (contentNodeMap s) (n_contentnode n))),
     cu_learner = n_user n, cu_status = status_of (n_event n), cu_activity = parse_date (n_timestamp n)\<rparr>"

definition exam_update_of :: "(string \<Rightarrow> int) \<Rightarrow> notification \<Rightarrow> exam_update" where
  "exam_update_of parse_date n = \<lparr>eu_exam = n_quiz n, eu_learner = n_user n,
     eu_status = status_of (if n_event n = ''Answered'' then ''Started'' else n_event n),
     eu_activity = parse_date (n_timestamp n), eu_correct = n_num_correct n, eu_answered = n_num_answered n\<rparr>"

text \<open>The loop over the sorted notifications, which a missing item ends.\<close>

fun update_loop ::
  "(string \<Rightarrow> int) \<Rightarrow> summary \<Rightarrow> notification list \<Rightarrow> content_update list \<Rightarrow> exam_update list \<Rightarrow> update_outcome" where
  "update_loop parse_date s [] cus eus = Commit cus eus"
| "update_loop parse_date s (n # ns) cus eus =
     (if needs_reload s n then LoadClassSummary (class_id s)
      else update_loop parse_date s ns
        (if n_object n = RESOURCE then cus @ [content_update_of parse_date s n] else cus)
        (if n_object n = QUIZ then eus @ [exam_update_of parse_date n] else eus))"

definition updateWithNotifications :: "(string \<Rightarrow> int) \<Rightarrow> summary \<Rightarrow> notification list \<Rightarrow> update_outcome" where
  "updateWithNotifications parse_date s ns =
     (if ns = [] then NoUpdate
      else update_loop parse_date s (sort_key (\<lambda>n. parse_date (n_timestamp n)) ns) [] [])"

section \<open>Lookups\<close>

definition invalid :: "string \<Rightarrow> 'a js_result" where
  "invalid f = Inl (PlainError (f @ '': invalid parameter(s)''))"

definition lookup_name :: "('a \<Rightarrow> string) \<Rightarrow> 'a jsobj \<Rightarrow> string \<Rightarrow> string js_result" where
  "lookup_name f m i = (case obj_get m i of Some x \<Rightarrow> Inr (f x) | None \<Rightarrow> Inl undefined_member)"

definition getGroupNames :: "summary \<Rightarrow> string list \<Rightarrow> string list js_result" where
  "getGroupNames s = map_result (lookup_name group_name (groupMap s))"

definition getGroupNamesForLearner :: "summary \<Rightarrow> string \<Rightarrow> string list js_result" where
  "getGroupNamesForLearner s learner =
     (if learner = [] then invalid ''getGroupNamesForLearner''
      else Inr (map group_name (filter (\<lambda>g. learner \<in> set (member_ids g)) (obj_values (groupMap s)))))"

definition group_members :: "summary \<Rightarrow> string \<Rightarrow> string list js_result" where
  "group_members s i = (case obj_get (groupMap s) i of Some g \<Rightarrow> Inr (member_ids g) | None \<Rightarrow> Inl undefined_member)"

definition getLearnersForGroups :: "summary \<Rightarrow> string list \<Rightarrow> string list js_result" where
  "getLearnersForGroups s groups =
     (if groups = [] then Inr (map user_id (obj_values (learnerMap s)))
      else bind_result (map_result (group_members s) groups) (\<lambda>ms. Inr (uniq (concat ms))))"

definition getAdHocLearners :: "summary \<Rightarrow> string list \<Rightarrow> string list" where
  "getAdHocLearners s assignments =
     (case find (\<lambda>g. group_id g \<in> set assignments) (obj_values (adHocGroupsMap s)) of
        Some g \<Rightarrow> member_ids g | None \<Rightarrow> [])"

text \<open>\<open>getLearnersForExam\<close> and \<open>getLearnersForLesson\<close> are the same function of the assignment.\<close>

definition learners_for :: "summary \<Rightarrow> string list \<Rightarrow> string list \<Rightarrow> string list js_result" where
  "learners_for s assignments groups =
     (let adhoc = getAdHocLearners s assignments in
      if adhoc \<noteq> [] then
        (if groups \<noteq> [] then bind_result (getLearnersForGroups s groups) (\<lambda>ls. Inr (uniq (adhoc @ ls)))
         else Inr adhoc)
      else if assignments \<noteq> [] then getLearnersForGroups s groups
      else Inr [])"

definition getLearnersForExam :: "summary \<Rightarrow> quiz \<Rightarrow> string list js_result" where
  "getLearnersForExam s q = learners_for s (quiz_assignments q) (quiz_groups q)"

definition getLearnersForLesson :: "summary \<Rightarrow> lesson \<Rightarrow> string list js_result" where
  "getLearnersForLesson s l = learners_for s (lesson_assignments l) (lesson_groups l)"

definition learner_names :: "summary \<Rightarrow> string list \<Rightarrow> string list js_result" where
  "learner_names s = map_result (lookup_name user_name (learnerMap s))"

definition getRecipientNamesForExam :: "summary \<Rightarrow> quiz \<Rightarrow> string list js_result" where
  "getRecipientNamesForExam s q =
     bind_result (learner_names s (getAdHocLearners s (quiz_assignments q))) (\<lambda>adhoc.
     bind_result (if quiz_groups q \<noteq> [] \<or> adhoc = [] then getLearnersForGroups s (quiz_groups q) else Inr []) (\<lambda>ls.
     bind_result (learner_names s ls) (\<lambda>selected.
     bind_result (getGroupNames s (quiz_groups q)) (\<lambda>gs.
     Inr (gs @ filter (\<lambda>n. n \<notin> set selected) adhoc)))))"

definition getRecipientNamesForLesson :: "summary \<Rightarrow> string \<Rightarrow> string list \<Rightarrow> string list js_result" where
  "getRecipientNamesForLesson s lessonId learnerIds =
     (case obj_get (lessonMap s) lessonId of
        None \<Rightarrow> Inr []
      | Some full \<Rightarrow>
          bind_result (if lesson_groups full \<noteq> [] then getLearnersForGroups s (lesson_groups full) else Inr []) (\<lambda>ls.
          bind_result (learner_names s ls) (\<lambda>selected.
          bind_result (getGroupNames s (lesson_groups full)) (\<lambda>gs.
          bind_result (learner_names s learnerIds) (\<lambda>names.
          Inr (gs @ filter (\<lambda>n. n \<notin> set selected) names))))))"

definition not_started :: status_obj where
  "not_started = \<lparr>status = NotStarted, last_activity = None, time_spent = None, num_correct = None,
     num_answered = None, score = None\<rparr>"

definition getContentStatusObjForLearner :: "summary \<Rightarrow> string \<Rightarrow> string \<Rightarrow> status_obj js_result" where
  "getContentStatusObjForLearner s c l =
     (if c = [] \<or> l = [] then invalid ''getContentStatusObjForLearner''
      else Inr (case get2 (contentLearnerStatusMap s) c l of Some st \<Rightarrow> st | None \<Rightarrow> not_started))"

definition getExamStatusObjForLearner :: "summary \<Rightarrow> string \<Rightarrow> string \<Rightarrow> status_obj js_result" where
  "getExamStatusObjForLearner s e l =
     (if e = [] \<or> l = [] then invalid ''getExamStatusObjForLearner''
      else Inr (case get2 (examLearnerStatusMap s) e l of Some st \<Rightarrow> st | None \<Rightarrow> not_started))"

definition getLessonStatusStringForLearner :: "summary \<Rightarrow> string \<Rightarrow> string \<Rightarrow> status js_result" where
  "getLessonStatusStringForLearner s lesson l =
     (if lesson = [] \<or> l = [] then invalid ''getLessonStatusStringForLearner''
      else bind_result (lessonLearnerStatusMap s) (\<lambda>m.
        Inr (case get2 m lesson l of Some (st, _) \<Rightarrow> st | None \<Rightarrow> NotStarted)))"

section \<open>Tallies\<close>

datatype tally = Tally (tl_started: nat) (tl_notStarted: nat) (tl_completed: nat) (tl_helpNeeded: nat)

instantiation tally :: comm_monoid_add
begin

definition zero_tally :: tally where
  "zero_tally = Tally 0 0 0 0"

definition plus_tally :: "tally \<Rightarrow> tally \<Rightarrow> tally" where
  "plus_tally a b = Tally (tl_started a + tl_started b) (tl_notStarted a + tl_notStarted b)
     (tl_completed a + tl_completed b) (tl_helpNeeded a + tl_helpNeeded b)"

instance
  by standard (simp_all add: zero_tally_def plus_tally_def tally.expand)

end

text \<open>Counting one status; one outside the four adds to a property nothing reads.\<close>

fun bump :: "tally \<Rightarrow> status \<Rightarrow> tally" where
  "bump (Tally a b c d) Started = Tally (a + 1) b c d"
| "bump (Tally a b c d) NotStarted = Tally a (b + 1) c d"
| "bump (Tally a b c d) Completed = Tally a b (c + 1) d"
| "bump (Tally a b c d) HelpNeeded = Tally a b c (d + 1)"
| "bump t (OtherStatus _) = t"

definition tally_of :: "(string \<Rightarrow> status js_result) \<Rightarrow> string list \<Rightarrow> tally js_result" where
  "tally_of f learners = bind_result (map_result f learners) (\<lambda>sts. Inr (foldl bump (Tally 0 0 0 0) sts))"

definition getContentStatusTally :: "summary \<Rightarrow> string \<Rightarrow> string list \<Rightarrow> tally js_result" where
  "getContentStatusTally s c learners =
     (if c = [] then invalid ''getContentStatusTally''
      else tally_of (\<lambda>l. bind_result (getContentStatusObjForLearner s c l) (\<lambda>st. Inr (status st))) learners)"

definition getExamStatusTally :: "summary \<Rightarrow> string \<Rightarrow> string list \<Rightarrow> tally js_result" where
  "getExamStatusTally s e learners =
     (if e = [] then invalid ''getExamStatusTally''
      else tally_of (\<lambda>l. bind_result (getExamStatusObjForLearner s e l) (\<lambda>st. Inr (status st))) learners)"

definition getLessonStatusTally :: "summary \<Rightarrow> string \<Rightarrow> string list \<Rightarrow> tally js_result" where
  "getLessonStatusTally s i learners =
     (if i = [] then invalid ''getLessonStatusTally''
      else tally_of (getLessonStatusStringForLearner s i) learners)"

text \<open>
  \<open>meanBy\<close>: lodash adds up the values that are not undefined and divides by the number of objects.
  A time not set is undefined; a score not set is \<open>null\<close>, which adds as 0.
\<close>

definition mean_by :: "('a \<Rightarrow> jsnum option) \<Rightarrow> 'a list \<Rightarrow> jsnum" where
  "mean_by f xs = num_div (case map the (filter (\<lambda>v. v \<noteq> None) (map f xs)) of
     [] \<Rightarrow> NaN | v # vs \<Rightarrow> foldl num_add v vs) (Fin (of_nat (length xs)))"

definition getContentAvgTimeSpent :: "summary \<Rightarrow> string \<Rightarrow> string list \<Rightarrow> jsnum option js_result" where
  "getContentAvgTimeSpent s c learners =
     (if c = [] then invalid ''getContentAvgTimeSpent''
      else bind_result (map_result (getContentStatusObjForLearner s c) learners) (\<lambda>objs.
        let sel = filter (\<lambda>st. status st \<noteq> NotStarted) objs
        in Inr (if sel = [] then None else Some (mean_by (\<lambda>st. map_option Fin (time_spent st)) sel))))"

definition getExamAvgScore :: "summary \<Rightarrow> string \<Rightarrow> string list \<Rightarrow> jsnum option js_result" where
  "getExamAvgScore s e learners =
     (if e = [] then invalid ''getExamAvgScore''
      else bind_result (map_result (getExamStatusObjForLearner s e) learners) (\<lambda>objs.
        let sel = filter (\<lambda>st. status st = Completed) objs
        in Inr (if sel = [] then None else Some (mean_by (\<lambda>st. Some (case score st of Some x \<Rightarrow> x | None \<Rightarrow> Fin 0)) sel))))"

section \<open>Lemmas\<close>

lemma get2_put2 [simp]: "get2 (put2 a b v m) c d = (if c = a \<and> d = b then Some v else get2 m c d)"
  by (auto simp: get2_def put2_def split: option.splits)

lemma content_update_fields [simp]:
  "examMap (fold apply_content_update cus s) = examMap s"
  "examLearnerStatusMap (fold apply_content_update cus s) = examLearnerStatusMap s"
  by (induction cus arbitrary: s) (simp_all add: apply_content_update_def Let_def)

definition content_status :: "summary \<Rightarrow> string \<Rightarrow> string \<Rightarrow> status option" where
  "content_status s c l = map_option status (get2 (contentLearnerStatusMap s) c l)"

definition exam_status :: "summary \<Rightarrow> string \<Rightarrow> string \<Rightarrow> status option" where
  "exam_status s e l = map_option status (get2 (examLearnerStatusMap s) e l)"

definition last_or :: "'b option \<Rightarrow> ('a \<Rightarrow> 'b) \<Rightarrow> 'a list \<Rightarrow> 'b option" where
  "last_or d f xs = (if xs = [] then d else Some (f (last xs)))"

lemma last_or_Cons [simp]: "last_or d f (x # xs) = last_or (Some (f x)) f xs"
  by (simp add: last_or_def)

lemma last_or_Nil [simp]: "last_or d f [] = d"
  by (simp add: last_or_def)

lemma content_status_updates:
  "content_status (fold apply_content_update cus s) c l
     = last_or (content_status s c l) cu_status (filter (\<lambda>u. cu_content u = c \<and> cu_learner u = l) cus)"
proof (induction cus arbitrary: s)
  case (Cons u cus)
  have "content_status (apply_content_update u s) c l
      = (if cu_content u = c \<and> cu_learner u = l then Some (cu_status u) else content_status s c l)"
    by (auto simp: content_status_def apply_content_update_def Let_def split: option.splits)
  with Cons show ?case by simp
qed simp

lemma exam_update_step:
  assumes "obj_get (examMap s) (eu_exam u) \<noteq> None"
  shows "\<exists>s'. apply_exam_update u s = Inr s' \<and> examMap s' = examMap s
     \<and> contentLearnerStatusMap s' = contentLearnerStatusMap s
     \<and> exam_status s' e l = (if eu_exam u = e \<and> eu_learner u = l then Some (eu_status u) else exam_status s e l)"
  using assms by (auto simp: apply_exam_update_def exam_status_def Let_def split: option.splits)

lemma exam_status_updates:
  assumes "\<forall>u \<in> set eus. obj_get (examMap s) (eu_exam u) \<noteq> None"
  shows "\<exists>s'. fold_result apply_exam_update eus s = Inr s'
     \<and> contentLearnerStatusMap s' = contentLearnerStatusMap s
     \<and> exam_status s' e l = last_or (exam_status s e l) eu_status (filter (\<lambda>u. eu_exam u = e \<and> eu_learner u = l) eus)"
  using assms
proof (induction eus arbitrary: s)
  case (Cons u eus)
  obtain s1 where s1: "apply_exam_update u s = Inr s1" "examMap s1 = examMap s"
    "contentLearnerStatusMap s1 = contentLearnerStatusMap s"
    "exam_status s1 e l = (if eu_exam u = e \<and> eu_learner u = l then Some (eu_status u) else exam_status s e l)"
    using exam_update_step [of s u e l] Cons.prems by auto
  with Cons.IH [of s1] Cons.prems show ?case by auto
qed simp

lemma update_loop_Commit:
  "update_loop pd s ns cus eus = Commit cus' eus' \<Longrightarrow>
     (\<forall>n \<in> set ns. \<not> needs_reload s n)
     \<and> cus' = cus @ map (content_update_of pd s) (filter (\<lambda>n. n_object n = RESOURCE) ns)
     \<and> eus' = eus @ map (exam_update_of pd) (filter (\<lambda>n. n_object n = QUIZ) ns)"
proof (induction ns arbitrary: cus eus)
  case (Cons n ns)
  have nr: "\<not> needs_reload s n" using Cons.prems by (auto split: if_splits)
  note ih = Cons.IH [OF Cons.prems [unfolded update_loop.simps if_not_P [OF nr]]]
  show ?case using ih nr by auto
qed simp

lemma update_loop_reload:
  "\<exists>n \<in> set ns. needs_reload s n \<Longrightarrow> update_loop pd s ns cus eus = LoadClassSummary (class_id s)"
  by (induction ns arbitrary: cus eus) auto

lemma update_loop_total:
  "\<not> (\<exists>n \<in> set ns. needs_reload s n) \<Longrightarrow> \<exists>cus' eus'. update_loop pd s ns cus eus = Commit cus' eus'"
  by (induction ns arbitrary: cus eus) auto

lemma last_or_map: "last_or d f (map g xs) = last_or d (f \<circ> g) xs"
  by (simp add: last_or_def last_map)

text \<open>The newest of the notifications that pass a test; of equally new ones the last.\<close>

definition latest :: "(string \<Rightarrow> int) \<Rightarrow> (notification \<Rightarrow> bool) \<Rightarrow> notification list \<Rightarrow> notification list" where
  "latest pd p ns = filter p (sort_key (\<lambda>n. pd (n_timestamp n)) ns)"

lemma foldl_bump: "foldl bump t sts = t + foldl bump 0 sts"
proof (induction sts arbitrary: t rule: rev_induct)
  case Nil
  show ?case by simp
next
  case (snoc x sts)
  have b: "bump (a + b) x = a + bump b x" for a b
    by (cases a; cases b; cases x) (simp_all add: plus_tally_def)
  have "foldl bump t (sts @ [x]) = bump (t + foldl bump 0 sts) x" using snoc [of t] by simp
  also have "\<dots> = t + bump (foldl bump 0 sts) x" by (rule b)
  finally show ?case by simp
qed

lemma map_result_append:
  "map_result f (xs @ ys) = bind_result (map_result f xs) (\<lambda>as. bind_result (map_result f ys) (\<lambda>bs. Inr (as @ bs)))"
proof (induction xs)
  case Nil
  show ?case by (cases "map_result f ys") simp_all
next
  case (Cons x xs)
  then show ?case by (cases "f x"; cases "map_result f xs"; cases "map_result f ys") simp_all
qed

lemma tally_append:
  "tally_of f xs = Inr a \<Longrightarrow> tally_of f ys = Inr b \<Longrightarrow> tally_of f (xs @ ys) = Inr (a + b)"
  by (auto simp: tally_of_def map_result_append bind_result_Inr zero_tally_def [symmetric])
    (metis foldl_bump)

definition about_content :: "summary \<Rightarrow> string \<Rightarrow> string \<Rightarrow> notification \<Rightarrow> bool" where
  "about_content s c l n \<longleftrightarrow> n_object n = RESOURCE \<and> n_user n = l
     \<and> map_option content_id (obj_get (contentNodeMap s) (n_contentnode n)) = Some c"

definition about_quiz :: "string \<Rightarrow> string \<Rightarrow> notification \<Rightarrow> bool" where
  "about_quiz e l n \<longleftrightarrow> n_object n = QUIZ \<and> n_user n = l \<and> n_quiz n = e"

definition quiz_event_status :: "notification \<Rightarrow> status" where
  "quiz_event_status n = status_of (if n_event n = ''Answered'' then ''Started'' else n_event n)"

lemma Commit_applied:
  assumes "updateWithNotifications pd s ns = Commit cus eus"
  shows "\<exists>s'. APPLY_NOTIFICATION_UPDATES cus eus s = Inr s'
     \<and> content_status s' c l = last_or (content_status s c l) (\<lambda>n. status_of (n_event n)) (latest pd (about_content s c l) ns)
     \<and> exam_status s' e l = last_or (exam_status s e l) quiz_event_status (latest pd (about_quiz e l) ns)"
proof -
  let ?ns = "sort_key (\<lambda>n. pd (n_timestamp n)) ns"
  have "update_loop pd s ?ns [] [] = Commit cus eus"
    using assms by (simp add: updateWithNotifications_def split: if_splits)
  note L = update_loop_Commit [OF this, simplified]
  let ?s = "fold apply_content_update cus s"
  have ok: "\<forall>u \<in> set eus. obj_get (examMap ?s) (eu_exam u) \<noteq> None"
    using L by (auto simp: exam_update_of_def needs_reload_def)
  obtain s' where s': "fold_result apply_exam_update eus ?s = Inr s'"
    "contentLearnerStatusMap s' = contentLearnerStatusMap ?s"
    "exam_status s' e l = last_or (exam_status ?s e l) eu_status (filter (\<lambda>u. eu_exam u = e \<and> eu_learner u = l) eus)"
    using exam_status_updates [OF ok] by blast
  have cf: "filter (\<lambda>u. cu_content u = c \<and> cu_learner u = l) cus = map (content_update_of pd s) (latest pd (about_content s c l) ns)"
    using L by (auto simp: latest_def about_content_def filter_map content_update_of_def needs_reload_def
        intro!: arg_cong [of _ _ "map _"] filter_cong)
  have ef: "filter (\<lambda>u. eu_exam u = e \<and> eu_learner u = l) eus = map (exam_update_of pd) (latest pd (about_quiz e l) ns)"
    using L by (auto simp: latest_def about_quiz_def filter_map exam_update_of_def intro!: arg_cong [of _ _ "map _"] filter_cong)
  have "content_status s' c l = content_status ?s c l" by (simp add: content_status_def s'(2))
  moreover have "exam_status ?s e l = exam_status s e l" by (simp add: exam_status_def)
  ultimately show ?thesis using s'(1,3)
    by (simp add: APPLY_NOTIFICATION_UPDATES_def content_status_updates cf ef last_or_map comp_def
        content_update_of_def exam_update_of_def quiz_event_status_def [abs_def])
qed

text \<open>What a tally counts.\<close>

definition counts :: "status list \<Rightarrow> tally" where
  "counts sts = Tally (count_list sts Started) (count_list sts NotStarted) (count_list sts Completed) (count_list sts HelpNeeded)"

lemma foldl_bump_counts: "foldl bump (Tally 0 0 0 0) sts = counts sts"
proof (induction sts rule: rev_induct)
  case (snoc x sts)
  then show ?case by (cases x) (simp_all add: counts_def)
qed (simp add: counts_def)

definition known :: "status option \<Rightarrow> status" where
  "known st = (case st of Some x \<Rightarrow> x | None \<Rightarrow> NotStarted)"

lemma content_tally:
  assumes "c \<noteq> []" "[] \<notin> set ls"
  shows "getContentStatusTally s c ls = Inr (counts (map (\<lambda>l. known (content_status s c l)) ls))"
proof -
  have "map_result (\<lambda>l. bind_result (getContentStatusObjForLearner s c l) (\<lambda>st. Inr (status st))) ls
      = Inr (map (\<lambda>l. known (content_status s c l)) ls)"
    using assms by (intro map_result_total)
      (auto simp: getContentStatusObjForLearner_def known_def content_status_def not_started_def split: option.splits)
  then show ?thesis using assms by (simp add: getContentStatusTally_def tally_of_def foldl_bump_counts)
qed

lemma exam_tally:
  assumes "e \<noteq> []" "[] \<notin> set ls"
  shows "getExamStatusTally s e ls = Inr (counts (map (\<lambda>l. known (exam_status s e l)) ls))"
proof -
  have "map_result (\<lambda>l. bind_result (getExamStatusObjForLearner s e l) (\<lambda>st. Inr (status st))) ls
      = Inr (map (\<lambda>l. known (exam_status s e l)) ls)"
    using assms by (intro map_result_total)
      (auto simp: getExamStatusObjForLearner_def known_def exam_status_def not_started_def split: option.splits)
  then show ?thesis using assms by (simp add: getExamStatusTally_def tally_of_def foldl_bump_counts)
qed

lemma counts_append: "counts (xs @ ys) = counts xs + counts ys"
  by (simp add: counts_def plus_tally_def)

definition total :: "tally \<Rightarrow> nat" where
  "total t = tl_started t + tl_notStarted t + tl_completed t + tl_helpNeeded t"

lemma total_counts: "total (counts sts) = length (filter (\<lambda>x. \<forall>y. x \<noteq> OtherStatus y) sts)"
proof (induction sts)
  case (Cons x sts)
  then show ?case by (cases x) (simp_all add: total_def counts_def)
qed (simp add: total_def counts_def)

lemma count_list_le: "count_list xs y \<le> length xs"
  by (induction xs) auto

lemma count_list_all: "count_list xs y = length xs \<longleftrightarrow> set xs \<subseteq> {y}"
proof (induction xs)
  case (Cons x xs)
  then show ?case using count_list_le [of xs y] by auto
qed simp

lemma group_members_result:
  "map_result (group_members s) gs = Inr ms \<Longrightarrow>
     \<Union> (set ` set ms) = {l. \<exists>i \<in> set gs. \<exists>g. obj_get (groupMap s) i = Some g \<and> l \<in> set (member_ids g)}"
proof (induction gs arbitrary: ms)
  case (Cons g gs)
  from Cons.prems obtain x xs where x: "obj_get (groupMap s) g = Some x" "map_result (group_members s) gs = Inr xs"
    "ms = member_ids x # xs"
    by (cases "obj_get (groupMap s) g") (auto simp: bind_result_Inr group_members_def [of s g])
  show ?case using x(1) by (simp add: x(3) Cons.IH [OF x(2)]) blast
qed simp

lemma adhoc_needs_assignments: "getAdHocLearners s [] = []"
proof -
  have "find (\<lambda>g. group_id g \<in> set []) gs = None" for gs :: "group list"
    by (simp add: find_None_iff)
  then show ?thesis by (simp add: getAdHocLearners_def)
qed

text \<open>The learners of a class, and of some of its groups.\<close>

definition class_learners :: "summary \<Rightarrow> string set" where
  "class_learners s = user_id ` set (obj_values (learnerMap s))"

definition groups_learners :: "summary \<Rightarrow> string list \<Rightarrow> string set" where
  "groups_learners s gs = {l. \<exists>i \<in> set gs. \<exists>g. obj_get (groupMap s) i = Some g \<and> l \<in> set (member_ids g)}"

lemma getLearnersForGroups_set:
  assumes "getLearnersForGroups s gs = Inr ls"
  shows "set ls = (if gs = [] then class_learners s else groups_learners s gs)" "gs \<noteq> [] \<Longrightarrow> distinct ls"
proof -
  consider "gs = []" "ls = map user_id (obj_values (learnerMap s))"
    | ms where "gs \<noteq> []" "map_result (group_members s) gs = Inr ms" "ls = uniq (concat ms)"
    using assms by (auto simp: getLearnersForGroups_def bind_result_Inr split: if_splits)
  then have "set ls = (if gs = [] then class_learners s else groups_learners s gs) \<and> (gs \<noteq> [] \<longrightarrow> distinct ls)"
  proof cases
    case 2
    then show ?thesis using group_members_result [OF 2(2)] by (simp add: groups_learners_def)
  qed (simp add: class_learners_def)
  then show "set ls = (if gs = [] then class_learners s else groups_learners s gs)" "gs \<noteq> [] \<Longrightarrow> distinct ls" by simp_all
qed

lemma learners_for_set:
  assumes "learners_for s as gs = Inr ls"
  shows "set ls = (if as = [] then {} else if gs \<noteq> [] then set (getAdHocLearners s as) \<union> groups_learners s gs
     else if getAdHocLearners s as \<noteq> [] then set (getAdHocLearners s as) else class_learners s)"
    "gs \<noteq> [] \<Longrightarrow> distinct ls"
  using assms adhoc_needs_assignments [of s]
  by (auto simp: learners_for_def Let_def bind_result_Inr split: if_splits dest: getLearnersForGroups_set)

section \<open>Properties\<close>

text \<open>
  C13. What new notifications do to the class summary.  Without notifications nothing happens;
  when one of them names a learner, quiz, lesson or resource the summary does not know, the summary
  of the class is loaded again; otherwise updates are committed, and applying them raises nothing
  and makes the status of every learner on every content (and on every quiz, where an answer
  counts as a start) that of the newest notification about the two, leaving all others as they were.
\<close>

theorem notifications_update_statuses:
  "case updateWithNotifications pd s ns of
     NoUpdate \<Rightarrow> ns = []
   | LoadClassSummary i \<Rightarrow> i = class_id s \<and> (\<exists>n \<in> set ns. needs_reload s n)
   | Commit cus eus \<Rightarrow> \<not> (\<exists>n \<in> set ns. needs_reload s n) \<and> (\<exists>s'. APPLY_NOTIFICATION_UPDATES cus eus s = Inr s'
       \<and> content_status s' c l
           = last_or (content_status s c l) (\<lambda>n. status_of (n_event n)) (latest pd (about_content s c l) ns)
       \<and> exam_status s' e l = last_or (exam_status s e l) quiz_event_status (latest pd (about_quiz e l) ns))"
proof (cases "updateWithNotifications pd s ns")
  case (Commit cus eus)
  have "update_loop pd s (sort_key (\<lambda>n. pd (n_timestamp n)) ns) [] [] = Commit cus eus"
    using Commit by (simp add: updateWithNotifications_def split: if_splits)
  with update_loop_Commit [OF this] Commit_applied [OF Commit, of c l e] Commit show ?thesis by simp
qed (use update_loop_reload [of "sort_key (\<lambda>n. pd (n_timestamp n)) ns" s pd "[]" "[]"]
      update_loop_total [of "sort_key (\<lambda>n. pd (n_timestamp n)) ns" s pd "[]" "[]"]
      in \<open>auto simp: updateWithNotifications_def split: if_splits\<close>)

text \<open>
  The status of a lesson for a learner: help is needed when it is on one of its resources;
  completed when there are resources and all are; not started when none is; else started.
\<close>

theorem lesson_status_rules:
  assumes "obj_get (lessonMap s) i = Some L"
  shows "lessonStatusForLearner s i l =
    (let S = node_status s l ` set (node_ids L) in
     Inr (if HelpNeeded \<in> S then HelpNeeded else if S = {Completed} then Completed
          else if S \<subseteq> {NotStarted} then NotStarted else Started))"
proof (cases "node_ids L")
  case Nil
  with assms show ?thesis by (simp add: lessonStatusForLearner_def)
next
  case (Cons n ns)
  let ?sts = "map (node_status s l) (node_ids L)"
  have n: "node_ids L \<noteq> []" using Cons by simp
  have S: "set ?sts = node_status s l ` set (node_ids L)" by simp
  have c: "node_status s l ` set (node_ids L) \<subseteq> {Completed} \<longleftrightarrow> node_status s l ` set (node_ids L) = {Completed}"
    using n by (cases "node_ids L") auto
  have h: "count_list ?sts HelpNeeded \<noteq> 0 \<longleftrightarrow> HelpNeeded \<in> set ?sts" by (simp only: count_list_0_iff not_not)
  show ?thesis
    unfolding lessonStatusForLearner_def assms option.case Let_def if_not_P [OF n] h count_list_all S c
    by (simp only: if_distrib [of Inr])
qed

definition demo_summary :: summary where
  "demo_summary = \<lparr>class_id = ''k'', class_name = ''K'', coachMap = [],
     learnerMap = [(''u'', \<lparr>user_id = ''u'', user_name = ''U''\<rparr>), (''v'', \<lparr>user_id = ''v'', user_name = ''V''\<rparr>)],
     groupMap = [(''g'', \<lparr>group_id = ''g'', group_name = ''G'', member_ids = [''u'']\<rparr>)], adHocGroupsMap = [],
     examMap = [], examLearnerStatusMap = [],
     contentMap = [], contentNodeMap = [(''n1'', \<lparr>content_id = ''c1'', content_node = ''n1'', kind = ''video'', content_title = ''T''\<rparr>)],
     contentLearnerStatusMap = put2 ''c1'' ''u'' (not_started\<lparr>status := Completed\<rparr>) [],
     lessonMap = [(''l'', \<lparr>lesson_id = ''l'', lesson_title = ''L'', node_ids = [''n1''], lesson_assignments = [''k''],
       lesson_groups = [''g''], lesson_size = None\<rparr>)]\<rparr>"

lemma lesson_status_witness:
  "lessonStatusForLearner demo_summary ''l'' ''u'' = Inr Completed \<and> lessonStatusForLearner demo_summary ''l'' ''v'' = Inr NotStarted"
proof -
  let ?L = "\<lparr>lesson_id = ''l'', lesson_title = ''L'', node_ids = [''n1''], lesson_assignments = [''k''],
       lesson_groups = [''g''], lesson_size = None\<rparr>"
  have L: "obj_get (lessonMap demo_summary) ''l'' = Some ?L" by code_simp
  have "node_status demo_summary ''u'' ''n1'' = Completed" "node_status demo_summary ''v'' ''n1'' = NotStarted"
    by code_simp+
  then show ?thesis using lesson_status_rules [OF L, of "''u''"] lesson_status_rules [OF L, of "''v''"] by simp
qed

text \<open>
  The tallies of a resource and of a quiz count every learner in the list once, under the
  learner's status, an unknown one as not started; the counts of the two parts of a list add up;
  and together they are the number of learners, unless one has a status outside the four.
\<close>

theorem tallies_count_learners:
  assumes "i \<noteq> []" "[] \<notin> set ls" "[] \<notin> set ls'"
  shows "getContentStatusTally s i (ls @ ls') = Inr (counts (map (\<lambda>l. known (content_status s i l)) ls)
           + counts (map (\<lambda>l. known (content_status s i l)) ls'))
     \<and> getExamStatusTally s i ls = Inr (counts (map (\<lambda>l. known (exam_status s i l)) ls))
     \<and> total (counts (map f ls)) = length (filter (\<lambda>l. \<forall>y. f l \<noteq> OtherStatus y) ls)"
  using assms by (simp_all add: content_tally exam_tally counts_append total_counts filter_map comp_def)

lemma tallies_witness:
  "getContentStatusTally demo_summary ''c1'' ([''u''] @ [''v'']) = Inr (Tally 0 1 1 0)"
proof -
  have *: "known (content_status demo_summary ''c1'' ''u'') = Completed" "known (content_status demo_summary ''c1'' ''v'') = NotStarted"
    by code_simp+
  show ?thesis using tallies_count_learners [of "''c1''" "[''u'']" "[''v'']" demo_summary "\<lambda>_. Started"]
    by (simp only: list.map * ) (simp add: counts_def plus_tally_def)
qed

text \<open>
  The learners a lesson is given to: nobody without an assignment; with groups their members
  and the individually assigned learners, each once; without groups the individually assigned
  learners, and when there are none of these the whole class.
\<close>

theorem lesson_recipients:
  assumes "getLearnersForLesson s L = Inr ls"
  shows "set ls = (let adhoc = getAdHocLearners s (lesson_assignments L) in
     if lesson_assignments L = [] then {}
     else if lesson_groups L \<noteq> [] then set adhoc \<union> groups_learners s (lesson_groups L)
     else if adhoc \<noteq> [] then set adhoc else class_learners s)
     \<and> (lesson_groups L \<noteq> [] \<longrightarrow> distinct ls)"
  using assms by (simp add: getLearnersForLesson_def Let_def learners_for_set)

lemma lesson_recipients_witness:
  "\<exists>ls. getLearnersForLesson demo_summary (the (obj_get (lessonMap demo_summary) ''l'')) = Inr ls \<and> set ls = {''u''} \<and> distinct ls"
proof -
  let ?L = "the (obj_get (lessonMap demo_summary) ''l'')"
  have *: "getLearnersForLesson demo_summary ?L = Inr [''u'']" by code_simp
  have "lesson_groups ?L \<noteq> []" by code_simp
  then show ?thesis using lesson_recipients [OF *] * by simp
qed

end
