(* ===== verification/Coach_Notifications.thy ===== *)
theory Coach_Notifications
  imports Class_Reports "HOL-Library.List_Lexorder" "HOL-Library.Char_ord"
begin

text \<open>
  \<open>kolibri/plugins/coach/assets/src/modules/coachNotifications\<close>: the coach's list of notifications
  and its polling (\<open>index.js\<close>), the notifications as they are shown (\<open>getters.js\<close>) and the page a
  notification links to (\<open>gettersUtils.js\<close>).  Time stamps are compared as strings.
\<close>

section \<open>The module\<close>

text \<open>
  Beside the state of the store: the pending time-outs of \<open>startingPolling\<close> (in milliseconds) and
  the polling requests under way, each with its classroom and its \<open>after\<close>.  The state has no \<open>poller\<close>, so the test for it is
  always passed.
\<close>

record coach =
  currentClassroomId :: "string option"
  notifications :: "notification list"
  timeouts :: "int list"
  polls :: "(string \<times> string) list"

definition init_coach :: coach where
  "init_coach = \<lparr>currentClassroomId = None, notifications = [], timeouts = [], polls = []\<rparr>"

text \<open>\<open>sortBy(xs, '-id')\<close> sorts by the property named \<open>-id\<close>, which no notification has.\<close>

definition sort_by_minus_id :: "notification list \<Rightarrow> notification list" where
  "sort_by_minus_id ns = sort_key (\<lambda>_. 0 :: nat) ns"

definition SET_NOTIFICATIONS :: "notification list \<Rightarrow> coach \<Rightarrow> coach" where
  "SET_NOTIFICATIONS ns s = s\<lparr>notifications := sort_by_minus_id ns\<rparr>"

definition INSERT_NOTIFICATIONS :: "notification list \<Rightarrow> coach \<Rightarrow> coach" where
  "INSERT_NOTIFICATIONS ns s = s\<lparr>notifications := uniq_by n_id (sort_by_minus_id (notifications s @ ns))\<rparr>"

definition SET_CURRENT_CLASSROOM_ID :: "string \<Rightarrow> coach \<Rightarrow> coach" where
  "SET_CURRENT_CLASSROOM_ID i s = s\<lparr>currentClassroomId := Some i\<rparr>"

definition has_classroom :: "coach \<Rightarrow> bool" where
  "has_classroom s \<longleftrightarrow> currentClassroomId s \<noteq> None \<and> currentClassroomId s \<noteq> Some []"

text \<open>\<open>maxBy\<close>: the first of the greatest numbers; an id that is no number is passed over.\<close>

definition max_by_number :: "('a \<Rightarrow> jsnum) \<Rightarrow> 'a list \<Rightarrow> 'a option" where
  "max_by_number f xs = fold (\<lambda>x best. case best of
       None \<Rightarrow> if f x = NaN then None else Some x
     | Some b \<Rightarrow> if num_lt (f b) (f x) then Some x else Some b) xs None"

definition maxNotificationIndex :: "coach \<Rightarrow> string js_result" where
  "maxNotificationIndex s =
     (if notifications s = [] then Inr ''0''
      else case max_by_number (\<lambda>n. to_number (n_id n)) (notifications s) of
        None \<Rightarrow> Inl undefined_member | Some n \<Rightarrow> Inr (n_id n))"

definition startingPolling :: "int \<Rightarrow> coach \<Rightarrow> coach" where
  "startingPolling coachesPolling s = s\<lparr>timeouts := timeouts s @ [2000 * min (max coachesPolling 1) 10]\<rparr>"

text \<open>
  What happens to the module: \<open>stopPolling\<close>; \<open>fetchNotificationsForClass\<close> and the answer to its
  request (\<open>None\<close> when it fails, else the results and \<open>coaches_polling\<close>); the end of the first
  pending time-out, which runs \<open>updateNotificationsForClass\<close>, and the answer to a polling request;
  the answer to the request of \<open>moreNotificationsForClass\<close>.
\<close>

datatype coach_event =
    StopPolling
  | Fetch string
  | FetchAnswer "(notification list \<times> int) option"
  | Timeout
  | PollAnswer "(notification list \<times> int) option"
  | MoreAnswer "(notification list \<times> bool) option"

definition fetchNotificationsForClass :: "string \<Rightarrow> coach \<Rightarrow> coach" where
  "fetchNotificationsForClass cls s = (if has_classroom s then s else SET_CURRENT_CLASSROOM_ID cls s)"

definition fetch_answer :: "(notification list \<times> int) option \<Rightarrow> coach \<Rightarrow> coach" where
  "fetch_answer a s = (case a of
       Some (results, coachesPolling) \<Rightarrow> startingPolling coachesPolling (SET_NOTIFICATIONS results s)
     | None \<Rightarrow> startingPolling 0 s)"

definition updateNotificationsForClass :: "string \<Rightarrow> string \<Rightarrow> coach \<Rightarrow> coach" where
  "updateNotificationsForClass cls after s =
     (if has_classroom s then s\<lparr>polls := polls s @ [(cls, after)]\<rparr> else s)"

definition timeout :: "coach \<Rightarrow> coach" where
  "timeout s = (let s = s\<lparr>timeouts := tl (timeouts s)\<rparr> in case maxNotificationIndex s of
       Inl e \<Rightarrow> s
     | Inr after \<Rightarrow> updateNotificationsForClass (case currentClassroomId s of Some i \<Rightarrow> i | None \<Rightarrow> []) after s)"

definition poll_answer :: "(notification list \<times> int) option \<Rightarrow> coach \<Rightarrow> coach" where
  "poll_answer a s = (let s = s\<lparr>polls := tl (polls s)\<rparr> in case a of
       Some (results, coachesPolling) \<Rightarrow>
         startingPolling coachesPolling (if results = [] then s else INSERT_NOTIFICATIONS results s)
     | None \<Rightarrow> startingPolling 0 s)"

text \<open>The request for older notifications: the classroom and the id before which to look.\<close>

definition more_request :: "coach \<Rightarrow> (string \<times> string) option" where
  "more_request s =
     (if \<not> has_classroom s \<or> notifications s = [] \<or> \<not> num_lt (Fin 1) (to_number (n_id (last (notifications s))))
          \<and> to_number (n_id (last (notifications s))) \<noteq> NaN
      then None
      else Some (the (currentClassroomId s), n_id (last (notifications s))))"

definition more_answer :: "(notification list \<times> bool) option \<Rightarrow> coach \<Rightarrow> coach \<times> bool" where
  "more_answer a s = (case a of
       Some (results, m) \<Rightarrow> if results = [] then (s, False) else (INSERT_NOTIFICATIONS results s, m)
     | None \<Rightarrow> (s, False))"

definition coach_step :: "coach \<Rightarrow> coach_event \<Rightarrow> coach" where
  "coach_step s e = (case e of
       StopPolling \<Rightarrow> SET_CURRENT_CLASSROOM_ID [] s
     | Fetch cls \<Rightarrow> fetchNotificationsForClass cls s
     | FetchAnswer a \<Rightarrow> fetch_answer a s
     | Timeout \<Rightarrow> (if timeouts s = [] then s else timeout s)
     | PollAnswer a \<Rightarrow> (if polls s = [] then s else poll_answer a s)
     | MoreAnswer a \<Rightarrow> fst (more_answer a s))"

section \<open>Notifications as shown\<close>

record shown = notification +
  shown_id :: jsnum
  coll_id :: string
  coll_name :: string
  coll_type :: string
  assignment :: "string \<times> string \<times> string"
  res_name :: string
  res_type :: string
  res_content :: string
  first_user :: string
  total_users :: nat
  groupCode :: string
  completesCollection :: bool

abbreviation "CLASSROOM \<equiv> ''classroom''"
abbreviation "LEARNERGROUP \<equiv> ''learnergroup''"
abbreviation "ADHOCLEARNERSGROUP \<equiv> ''adhoclearnersgroup''"

definition getResource :: "summary \<Rightarrow> string \<Rightarrow> string \<times> string \<times> string" where
  "getResource s node = (case obj_get (contentNodeMap s) node of
     Some c \<Rightarrow> (content_title c, kind c, content_id c) | None \<Rightarrow> ([], [], []))"

text \<open>The collection a notification is shown under: id, name, type.\<close>

definition collection_of :: "summary \<Rightarrow> notification \<Rightarrow> string \<times> string \<times> string" where
  "collection_of s n =
     (case List.map_filter (obj_get (groupMap s)) (n_collections n) of
        [] \<Rightarrow> (class_id s, class_name s, CLASSROOM)
      | g # gs \<Rightarrow>
          (let m = (case find (\<lambda>g. n_user n \<in> set (member_ids g)) (g # gs) of Some m \<Rightarrow> m | None \<Rightarrow> g)
           in (group_id m, group_name m, LEARNERGROUP)))"

definition reshapeNotification :: "summary \<Rightarrow> notification \<Rightarrow> shown option js_result" where
  "reshapeNotification s n = (case obj_get (learnerMap s) (n_user n) of
       None \<Rightarrow> Inr None
     | Some u \<Rightarrow>
         if n_object n = QUIZ \<and> obj_get (examMap s) (n_quiz n) = None then Inr None
         else if (n_object n = LESSON \<or> n_object n = RESOURCE) \<and> obj_get (lessonMap s) (n_lesson n) = None then Inr None
         else bind_result
           (if n_object n = QUIZ then
              Inr (quiz_title (the (obj_get (examMap s) (n_quiz n))), ''exam'', n_quiz n)
            else case obj_get (lessonMap s) (n_lesson n) of
              None \<Rightarrow> Inl undefined_member | Some l \<Rightarrow> Inr (lesson_title l, ''lesson'', n_lesson n))
           (\<lambda>asg. let (ci, cn, ct) = collection_of s n; (rn, rt, rc) = getResource s (n_contentnode n) in
              Inr (Some (notification.extend n \<lparr>shown_id = to_number (n_id n), coll_id = ci, coll_name = cn, coll_type = ct,
                assignment = asg, res_name = rn, res_type = rt, res_content = rc, first_user = user_name u,
                total_users = 1, groupCode = [], completesCollection = False\<rparr>))))"

definition allNotifications :: "summary \<Rightarrow> notification list \<Rightarrow> shown list js_result" where
  "allNotifications s ns = bind_result (map_result (reshapeNotification s) ns)
     (\<lambda>rs. Inr (order_by_desc n_timestamp (List.map_filter (\<lambda>r. r) rs)))"

definition group_code :: "shown \<Rightarrow> string" where
  "group_code n =
     (if n_object n = RESOURCE then n_object n @ ''_'' @ n_lesson n @ ''_'' @ n_contentnode n
      else if n_object n = LESSON then n_object n @ ''_'' @ n_lesson n
      else if n_object n = QUIZ then n_object n @ ''_'' @ n_quiz n
      else ''undefined'')"

text \<open>The events to summarise, with group code and collection, in the order of the loops.\<close>

definition event_groups :: "shown list \<Rightarrow> (string \<times> string \<times> shown list) list" where
  "event_groups ns = concat (map (\<lambda>(gc, evs).
     concat (map (\<lambda>(ci, cevs). map (\<lambda>(et, es). (gc, ci, es)) (obj_entries (group_by n_event cevs)))
       (obj_entries (group_by coll_id (sorted_uniq_by n_user evs)))))
     (obj_entries (group_by group_code (filter (\<lambda>n. n_event n \<noteq> ''Answered'') ns))))"

text \<open>
  The size of a collection.  The learners of the class and the ad hoc groups are plain objects
  and have no length, so theirs is undefined.
\<close>

definition collection_size :: "summary \<Rightarrow> string \<Rightarrow> string \<Rightarrow> nat option js_result" where
  "collection_size s type ci =
     (if type = CLASSROOM then Inr None
      else if type = LEARNERGROUP then (case obj_get (groupMap s) ci of
        Some g \<Rightarrow> Inr (Some (length (member_ids g))) | None \<Rightarrow> Inl undefined_member)
      else if type = ADHOCLEARNERSGROUP then (case obj_get (adHocGroupsMap s) ci of
        Some g \<Rightarrow> Inr None | None \<Rightarrow> Inl undefined_member)
      else Inr (Some 1))"

definition summarize :: "summary \<Rightarrow> string \<times> string \<times> shown list \<Rightarrow> shown js_result" where
  "summarize s = (\<lambda>(gc, ci, es). bind_result (collection_size s (coll_type (hd es)) ci) (\<lambda>size.
     Inr ((hd es)\<lparr>groupCode := gc @ ''_'' @ ci, total_users := length es,
       completesCollection := (Some (length es) = size)\<rparr>)))"

definition summarizedNotifications :: "summary \<Rightarrow> notification list \<Rightarrow> shown list js_result" where
  "summarizedNotifications s ns = bind_result (allNotifications s ns) (\<lambda>all.
     bind_result (map_result (summarize s) (event_groups all)) (\<lambda>out. Inr (order_by_desc n_timestamp out)))"

section \<open>Links\<close>

definition pageNameToNotificationPropsMap :: "((string \<times> bool \<times> bool) \<times> string) list" where
  "pageNameToNotificationPropsMap =
    [((''Exercise'', True, False), ''ReportsGroupReportLessonExerciseLearnerListPage''),
     ((''NonExercise'', True, False), ''ReportsGroupReportLessonResourceLearnerListPage''),
     ((''Lesson'', True, False), ''ReportsGroupReportLessonPage''),
     ((''Quiz'', True, False), ''ReportsGroupReportQuizLearnerListPage''),
     ((''Exercise'', True, True), ''ReportsLessonExerciseLearnerListPage''),
     ((''NonExercise'', True, True), ''ReportsLessonResourceLearnerListPage''),
     ((''Lesson'', True, True), ''ReportsLessonLearnerListPage''),
     ((''Quiz'', True, True), ''ReportsQuizLearnerListPage''),
     ((''Exercise'', False, False), ''ReportsGroupReportLessonExerciseLearnerPage''),
     ((''Lesson'', False, False), ''ReportsLessonLearnerPage''),
     ((''Quiz'', False, False), ''ReportsLearnerReportQuizPage''),
     ((''Exercise'', False, True), ''REPORTS_LESSON_EXERCISE_LEARNER_PAGE_ROOT''),
     ((''Lesson'', False, True), ''ReportsLessonLearnerPage''),
     ((''Quiz'', False, True), ''ReportsQuizLearnerPage'')]"

record link_params =
  p_group :: string
  p_lesson :: string
  p_quiz :: string
  p_resource :: string
  p_exercise :: string
  p_learner :: string
  p_question :: nat
  p_interaction :: nat
  p_try :: nat

definition makeParams :: "shown \<Rightarrow> link_params" where
  "makeParams n = (let i = snd (snd (assignment n)) in
     \<lparr>p_group = coll_id n, p_lesson = i, p_quiz = i, p_resource = res_content n, p_exercise = res_content n,
      p_learner = n_user n, p_question = 0, p_interaction = 0, p_try = 0\<rparr>)"

definition link_object :: "shown \<Rightarrow> string" where
  "link_object n = (if n_object n = RESOURCE then (if res_type n = ''exercise'' then ''Exercise'' else ''NonExercise'')
     else n_object n)"

definition isMultiple :: "shown \<Rightarrow> bool" where
  "isMultiple n =
     (if n_event n = ''HelpNeeded'' then False
      else if total_users n = 1 \<and> completesCollection n then True
      else if total_users n = 1 \<and> \<not> completesCollection n then False
      else 1 < total_users n)"

definition notificationLink :: "shown \<Rightarrow> (string \<times> link_params) option" where
  "notificationLink n = map_option (\<lambda>(_, name). (name, makeParams n))
     (find (\<lambda>(key, _). key = (link_object n, isMultiple n, coll_type n = CLASSROOM \<or> coll_type n = ADHOCLEARNERSGROUP))
       pageNameToNotificationPropsMap)"

section \<open>Lemmas\<close>

lemma sort_by_minus_id [simp]: "sort_by_minus_id ns = ns"
  by (simp add: sort_by_minus_id_def sort_key_const)

text \<open>The events an entry of the summary counts.\<close>

definition counted :: "shown list \<Rightarrow> string \<Rightarrow> string \<Rightarrow> string \<Rightarrow> shown list" where
  "counted ns gc ci et = filter (\<lambda>n. coll_id n = ci \<and> n_event n = et)
     (sorted_uniq_by n_user (filter (\<lambda>n. n_event n \<noteq> ''Answered'' \<and> group_code n = gc) ns))"

lemma entries_group_by: "(k, v) \<in> set (obj_entries (group_by f xs)) \<longleftrightarrow> v = filter (\<lambda>x. f x = k) xs \<and> v \<noteq> []"
  by (auto simp: set_obj_entries obj_get_group_by Let_def)

lemma set_event_groups:
  "(gc, ci, es) \<in> set (event_groups ns) \<longleftrightarrow> (\<exists>et. es = counted ns gc ci et \<and> es \<noteq> [])"
proof
  assume "(gc, ci, es) \<in> set (event_groups ns)"
  then obtain evs cevs et where
    e: "(gc, evs) \<in> set (obj_entries (group_by group_code (filter (\<lambda>n. n_event n \<noteq> ''Answered'') ns)))"
    "(ci, cevs) \<in> set (obj_entries (group_by coll_id (sorted_uniq_by n_user evs)))"
    "(et, es) \<in> set (obj_entries (group_by n_event cevs))"
    by (auto simp: event_groups_def)
  then have "es = counted ns gc ci et" "es \<noteq> []"
    unfolding entries_group_by counted_def by (auto simp: conj_commute)
  then show "\<exists>et. es = counted ns gc ci et \<and> es \<noteq> []" by blast
next
  assume "\<exists>et. es = counted ns gc ci et \<and> es \<noteq> []"
  then obtain et where et: "es = counted ns gc ci et" "es \<noteq> []" by blast
  let ?evs = "filter (\<lambda>n. group_code n = gc) (filter (\<lambda>n. n_event n \<noteq> ''Answered'') ns)"
  let ?cevs = "filter (\<lambda>n. coll_id n = ci) (sorted_uniq_by n_user ?evs)"
  have es: "es = filter (\<lambda>n. n_event n = et) ?cevs" using et(1) by (simp add: counted_def conj_commute)
  have ne: "?cevs \<noteq> []" using et(2) unfolding es by (metis filter.simps(1))
  then have "?evs \<noteq> []" by auto
  then have 1: "(gc, ?evs) \<in> set (obj_entries (group_by group_code (filter (\<lambda>n. n_event n \<noteq> ''Answered'') ns)))"
    unfolding entries_group_by by simp
  have 2: "(ci, ?cevs) \<in> set (obj_entries (group_by coll_id (sorted_uniq_by n_user ?evs)))"
    using ne unfolding entries_group_by by simp
  have 3: "(et, es) \<in> set (obj_entries (group_by n_event ?cevs))"
    using es et(2) unfolding entries_group_by by simp
  show "(gc, ci, es) \<in> set (event_groups ns)"
    unfolding event_groups_def set_concat set_map by (rule UN_I [OF imageI [OF 1]]) (use 2 3 in force)
qed

lemma sorted_wrt_sorted_uniq_by: "sorted_wrt R xs \<Longrightarrow> sorted_wrt R (sorted_uniq_by f xs)"
proof (induction f xs rule: sorted_uniq_by.induct)
  case (3 f x y xs)
  then show ?case using set_sorted_uniq_by_subset [of f "y # xs"] by auto
qed auto

lemma sorted_counted:
  "sorted_wrt R ns \<Longrightarrow> sorted_wrt R (counted ns gc ci et)"
  by (simp add: counted_def sorted_wrt_filter sorted_wrt_sorted_uniq_by)

lemma newest_counted:
  assumes "sorted_wrt (\<lambda>x y. n_timestamp y \<le> n_timestamp x) ns" "e \<in> set (counted ns gc ci et)"
  shows "n_timestamp e \<le> n_timestamp (hd (counted ns gc ci et))"
  using sorted_counted [OF assms(1), of gc ci et] assms(2) by (cases "counted ns gc ci et") auto

lemma everyone_counted:
  assumes "n \<in> set ns" "n_event n \<noteq> ''Answered''"
  shows "\<exists>ci et. \<exists>e \<in> set (counted ns (group_code n) ci et). n_user e = n_user n"
proof -
  let ?xs = "filter (\<lambda>m. n_event m \<noteq> ''Answered'' \<and> group_code m = group_code n) ns"
  have "n_user n \<in> n_user ` set (sorted_uniq_by n_user ?xs)" using assms by (simp only: image_sorted_uniq_by) simp
  then obtain e where "e \<in> set (sorted_uniq_by n_user ?xs)" "n_user e = n_user n" by auto
  then show ?thesis by (intro exI [of _ "coll_id e"] exI [of _ "n_event e"] bexI [of _ e]) (auto simp: counted_def)
qed

lemma summarize_Inr:
  "summarize s (gc, ci, es) = Inr r \<Longrightarrow> n_timestamp r = n_timestamp (hd es) \<and> total_users r = length es
     \<and> coll_type r = coll_type (hd es) \<and> (completesCollection r \<longleftrightarrow> collection_size s (coll_type (hd es)) ci = Inr (Some (length es)))"
  by (auto simp: summarize_def bind_result_Inr)

lemma sorted_allNotifications:
  "allNotifications s ns = Inr all \<Longrightarrow> sorted_wrt (\<lambda>x y. n_timestamp y \<le> n_timestamp x) all"
  by (auto simp: allNotifications_def bind_result_Inr sorted_order_by_desc)

lemma map_result_set: "map_result f xs = Inr ys \<Longrightarrow> set ys = {y. \<exists>x \<in> set xs. f x = Inr y}"
  by (induction xs arbitrary: ys) (fastforce simp: bind_result_Inr)+

lemma map_sum_Inr: "map_sum id f x = Inr y \<Longrightarrow> \<exists>z. x = Inr z \<and> f z = y"
  by (cases x) simp_all

section \<open>Polling\<close>

definition numeric :: "notification \<Rightarrow> bool" where
  "numeric n \<longleftrightarrow> to_number (n_id n) \<noteq> NaN"

definition answered :: "coach_event \<Rightarrow> notification list" where
  "answered e = (case e of
       FetchAnswer (Some (ns, _)) \<Rightarrow> ns | PollAnswer (Some (ns, _)) \<Rightarrow> ns | MoreAnswer (Some (ns, _)) \<Rightarrow> ns | _ \<Rightarrow> [])"

definition is_fetch_answer :: "coach_event \<Rightarrow> bool" where
  "is_fetch_answer e \<longleftrightarrow> (\<exists>a. e = FetchAnswer a)"

text \<open>The polling loops that are alive: waiting for a time-out or for an answer.\<close>

definition chains :: "coach \<Rightarrow> nat" where
  "chains s = length (timeouts s) + length (polls s)"

definition coach_inv :: "coach \<Rightarrow> bool" where
  "coach_inv s \<longleftrightarrow> (\<forall>t \<in> set (timeouts s). 2000 \<le> t \<and> t \<le> 20000)"

lemmas coach_defs = coach_step_def fetch_answer_def poll_answer_def more_answer_def timeout_def
  updateNotificationsForClass_def fetchNotificationsForClass_def startingPolling_def SET_NOTIFICATIONS_def
  INSERT_NOTIFICATIONS_def SET_CURRENT_CLASSROOM_ID_def

lemma in_tl: "x \<in> set (tl xs) \<Longrightarrow> x \<in> set xs"
  by (cases xs) auto

lemma coach_step_inv: "coach_inv s \<Longrightarrow> coach_inv (coach_step s e)"
  by (cases e) (auto simp: coach_inv_def coach_defs Let_def split: option.splits prod.splits sum.splits dest: in_tl)

interpretation coach_run: stepper coach_step coach_inv
  by unfold_locales (rule coach_step_inv)

lemma max_by_number_Some:
  assumes "xs \<noteq> []" "\<forall>x \<in> set xs. f x \<noteq> NaN"
  shows "\<exists>x. max_by_number f xs = Some x"
proof -
  have some: "\<exists>y. fold (\<lambda>x best. case best of
       None \<Rightarrow> if f x = NaN then None else Some x
     | Some b \<Rightarrow> if num_lt (f b) (f x) then Some x else Some b) xs (Some b) = Some y" for b xs
    by (induction xs arbitrary: b) auto
  from assms show ?thesis by (cases xs) (auto simp: max_by_number_def some)
qed

lemma notifications_INSERT: "set (notifications (INSERT_NOTIFICATIONS ns s)) \<subseteq> set (notifications s) \<union> set ns"
  using set_uniq_by_subset [of n_id "notifications s @ ns"] by (simp add: INSERT_NOTIFICATIONS_def)

lemma notifications_poll_answer: "set (notifications (poll_answer (Some (ns, cp)) s)) \<subseteq> set (notifications s) \<union> set ns"
  using notifications_INSERT [of ns "s\<lparr>polls := tl (polls s)\<rparr>"]
  by (simp add: poll_answer_def startingPolling_def Let_def)

lemma notifications_more_answer: "set (notifications (fst (more_answer (Some (ns, m)) s))) \<subseteq> set (notifications s) \<union> set ns"
  using notifications_INSERT [of ns s] by (simp add: more_answer_def)

lemma notifications_timeout: "notifications (timeout s) = notifications s"
  by (simp add: timeout_def updateNotificationsForClass_def Let_def split: sum.split)

lemma coach_step_notifications: "set (notifications (coach_step s e)) \<subseteq> set (notifications s) \<union> set (answered e)"
proof (cases e)
  case (PollAnswer a)
  show ?thesis
  proof (cases a)
    case (Some x)
    then show ?thesis using PollAnswer notifications_poll_answer [of "fst x" "snd x" s]
      by (cases x) (simp add: coach_step_def answered_def)
  qed (simp add: PollAnswer coach_step_def answered_def poll_answer_def startingPolling_def)
next
  case (MoreAnswer a)
  show ?thesis
  proof (cases a)
    case (Some x)
    then show ?thesis using MoreAnswer notifications_more_answer [of "fst x" "snd x" s]
      by (cases x) (simp add: coach_step_def answered_def)
  qed (simp add: MoreAnswer coach_step_def answered_def more_answer_def)
qed (auto simp: coach_step_def answered_def notifications_timeout fetchNotificationsForClass_def SET_CURRENT_CLASSROOM_ID_def
       fetch_answer_def startingPolling_def SET_NOTIFICATIONS_def split: option.splits)

lemma coach_step_numeric:
  "(\<forall>n \<in> set (notifications s). numeric n) \<Longrightarrow> (\<forall>n \<in> set (answered e). numeric n)
     \<Longrightarrow> \<forall>n \<in> set (notifications (coach_step s e)). numeric n"
  using coach_step_notifications [of s e] by blast

lemma maxNotificationIndex_numeric:
  "(\<forall>n \<in> set (notifications s). numeric n) \<Longrightarrow> \<exists>i. maxNotificationIndex s = Inr i"
  using max_by_number_Some [of "notifications s" "\<lambda>n. to_number (n_id n)"]
  by (auto simp: maxNotificationIndex_def numeric_def)

lemma has_classroom_step: "has_classroom s \<Longrightarrow> e \<noteq> StopPolling \<Longrightarrow> has_classroom (coach_step s e)"
  by (cases e) (auto simp: coach_defs has_classroom_def Let_def split: option.splits prod.splits sum.splits)

lemma chains_step:
  assumes "has_classroom s" "e \<noteq> StopPolling" "\<forall>n \<in> set (notifications s). numeric n"
  shows "chains (coach_step s e) = chains s + (if is_fetch_answer e then 1 else 0)"
proof (cases e)
  case Timeout
  have "maxNotificationIndex (s\<lparr>timeouts := tl (timeouts s)\<rparr>) = maxNotificationIndex s"
    by (simp add: maxNotificationIndex_def)
  moreover obtain i where "maxNotificationIndex s = Inr i" using maxNotificationIndex_numeric [OF assms(3)] ..
  ultimately show ?thesis using Timeout assms(1)
    by (cases "timeouts s") (auto simp: coach_defs chains_def has_classroom_def is_fetch_answer_def)
next
  case (PollAnswer a)
  then show ?thesis by (cases "polls s") (auto simp: coach_defs chains_def is_fetch_answer_def Let_def split: option.splits)
qed (use assms in \<open>auto simp: coach_defs chains_def is_fetch_answer_def split: option.splits\<close>)

lemma chains_run:
  assumes "has_classroom s" "\<forall>n \<in> set (notifications s). numeric n"
    "\<forall>e \<in> set es. e \<noteq> StopPolling \<and> (\<forall>n \<in> set (answered e). numeric n)"
  shows "chains (foldl coach_step s es) = chains s + length (filter is_fetch_answer es)"
  using assms
proof (induction es arbitrary: s)
  case (Cons e es)
  then show ?case using chains_step [of s e] Cons.IH [of "coach_step s e"] has_classroom_step [of s e] coach_step_numeric [of s e]
    by simp
qed simp

section \<open>Properties\<close>

text \<open>
  The summary of the notifications.  Its entries are exactly those of the groups of counted
  events (same code, collection and kind of event), most recent first; an entry counts its events,
  and its time is the time of the newest; and every learner with an event other than an answer is
  counted in an entry of the event's code.
\<close>

theorem summary_of_notifications:
  assumes all: "allNotifications s ns = Inr all" and out: "summarizedNotifications s ns = Inr out"
  shows "sorted_wrt (\<lambda>a b. n_timestamp b \<le> n_timestamp a) out
    \<and> set out = {r. \<exists>gc ci et. counted all gc ci et \<noteq> [] \<and> summarize s (gc, ci, counted all gc ci et) = Inr r}
    \<and> (\<forall>gc ci et r. summarize s (gc, ci, counted all gc ci et) = Inr r \<longrightarrow>
         total_users r = length (counted all gc ci et) \<and> (\<forall>e \<in> set (counted all gc ci et). n_timestamp e \<le> n_timestamp r))
    \<and> (\<forall>n \<in> set all. n_event n \<noteq> ''Answered'' \<longrightarrow>
         (\<exists>ci et. \<exists>e \<in> set (counted all (group_code n) ci et). n_user e = n_user n))"
proof -
  obtain rs where rs: "map_result (summarize s) (event_groups all) = Inr rs" and o: "out = order_by_desc n_timestamp rs"
    using all out by (auto simp: summarizedNotifications_def bind_result_Inr)
  have "set out = {r. \<exists>x \<in> set (event_groups all). summarize s x = Inr r}" by (simp add: o map_result_set [OF rs])
  also have "\<dots> = {r. \<exists>gc ci et. counted all gc ci et \<noteq> [] \<and> summarize s (gc, ci, counted all gc ci et) = Inr r}"
    by (force simp: set_event_groups)
  finally have "set out = \<dots>" .
  then show ?thesis
    using newest_counted [OF sorted_allNotifications [OF all]] everyone_counted [of _ all]
    by (auto simp: o sorted_order_by_desc dest!: summarize_Inr)
qed

definition quiz_event :: "string \<Rightarrow> string \<Rightarrow> string \<Rightarrow> string \<Rightarrow> notification" where
  "quiz_event i u e t = \<lparr>n_id = i, n_user = u, n_object = QUIZ, n_event = e, n_timestamp = t, n_quiz = ''q'', n_lesson = [],
     n_contentnode = [], n_num_correct = None, n_num_answered = None, n_collections = []\<rparr>"

definition help_event :: "string \<Rightarrow> string \<Rightarrow> string \<Rightarrow> notification" where
  "help_event i u t = \<lparr>n_id = i, n_user = u, n_object = RESOURCE, n_event = ''HelpNeeded'', n_timestamp = t, n_quiz = [],
     n_lesson = ''l'', n_contentnode = ''n1'', n_num_correct = None, n_num_answered = None, n_collections = []\<rparr>"

definition quiz_class :: summary where
  "quiz_class = demo_summary\<lparr>examMap := [(''q'', \<lparr>quiz_id = ''q'', quiz_title = ''Q'', quiz_assignments = [''k''], quiz_groups = [],
     question_count = 2, quiz_size = None, size_string = None\<rparr>)]\<rparr>"

lemma summary_witness:
  "\<exists>all out. allNotifications quiz_class [quiz_event ''1'' ''u'' ''Completed'' ''2'', quiz_event ''2'' ''v'' ''Completed'' ''3''] = Inr all
     \<and> summarizedNotifications quiz_class [quiz_event ''1'' ''u'' ''Completed'' ''2'', quiz_event ''2'' ''v'' ''Completed'' ''3''] = Inr out
     \<and> sorted_wrt (\<lambda>a b. n_timestamp b \<le> n_timestamp a) out"
proof -
  let ?ns = "[quiz_event ''1'' ''u'' ''Completed'' ''2'', quiz_event ''2'' ''v'' ''Completed'' ''3'']"
  have "\<not> isl (allNotifications quiz_class ?ns)" "\<not> isl (summarizedNotifications quiz_class ?ns)" by code_simp+
  then obtain all out where "allNotifications quiz_class ?ns = Inr all" "summarizedNotifications quiz_class ?ns = Inr out"
    by (metis isl_def sumE)
  then show ?thesis using summary_of_notifications [of quiz_class ?ns] by blast
qed

text \<open>
  What the summary gets wrong.  No entry for the whole class ever says that the class has
  completed the item, because the size of the class is read from a plain object's length.  And
  a learner whose events alternate with another's is counted more than once: here two learners
  need help and the entry counts three.
\<close>

theorem summary_miscounts:
  "(summarizedNotifications s ns = Inr out \<longrightarrow> (\<forall>r \<in> set out. coll_type r = CLASSROOM \<longrightarrow> \<not> completesCollection r))
   \<and> map_sum id (map total_users) (summarizedNotifications demo_summary
       [help_event ''3'' ''u'' ''3'', help_event ''2'' ''v'' ''2'', help_event ''1'' ''u'' ''1'']) = Inr [3]"
proof
  show "summarizedNotifications s ns = Inr out \<longrightarrow> (\<forall>r \<in> set out. coll_type r = CLASSROOM \<longrightarrow> \<not> completesCollection r)"
  proof (intro impI ballI)
    fix r assume "summarizedNotifications s ns = Inr out" "r \<in> set out" "coll_type r = CLASSROOM"
    then obtain x where "summarize s x = Inr r" by (auto simp: summarizedNotifications_def bind_result_Inr map_result_set)
    then show "\<not> completesCollection r" using \<open>coll_type r = CLASSROOM\<close>
      by (cases x) (auto simp: collection_size_def dest!: summarize_Inr)
  qed
qed code_simp

lemma summary_miscounts_witness:
  "\<exists>out. summarizedNotifications quiz_class [quiz_event ''1'' ''u'' ''Completed'' ''2'', quiz_event ''2'' ''v'' ''Completed'' ''3''] = Inr out
     \<and> map total_users out = [2] \<and> (\<forall>r \<in> set out. coll_type r = CLASSROOM \<longrightarrow> \<not> completesCollection r)"
proof -
  let ?ns = "[quiz_event ''1'' ''u'' ''Completed'' ''2'', quiz_event ''2'' ''v'' ''Completed'' ''3'']"
  have *: "map_sum id (map total_users) (summarizedNotifications quiz_class ?ns) = Inr [2]" by code_simp
  from map_sum_Inr [OF *] obtain out where out: "summarizedNotifications quiz_class ?ns = Inr out" "map total_users out = [2]"
    by (elim exE conjE)
  have "\<forall>r \<in> set out. coll_type r = CLASSROOM \<longrightarrow> \<not> completesCollection r"
    by (rule mp [OF conjunct1 [OF summary_miscounts [of quiz_class ?ns out]] out(1)])
  with out show ?thesis by (intro exI [of _ out] conjI)
qed

text \<open>
  The cursor for older notifications.  After a poll that brought new ones, the request for
  more asks for those before the last of the new ones, although older ones are held; as long as
  the answers hold nothing but known notifications the list does not change, nor does the request.
\<close>

theorem more_cursor_after_poll:
  assumes "currentClassroomId s = Some cls" "cls \<noteq> []" "polls s \<noteq> []"
    and "new \<noteq> []" "distinct (map n_id (notifications s @ new))" "num_lt (Fin 1) (to_number (n_id (last new)))"
  shows "let s' = coach_step s (PollAnswer (Some (new, cp))) in
     notifications s' = notifications s @ new \<and> more_request s' = Some (cls, n_id (last new))
     \<and> (\<forall>results m. n_id ` set results \<subseteq> n_id ` set (notifications s') \<longrightarrow> coach_step s' (MoreAnswer (Some (results, m))) = s')"
proof -
  let ?s = "coach_step s (PollAnswer (Some (new, cp)))"
  have n: "notifications ?s = notifications s @ new" "currentClassroomId ?s = Some cls"
    using assms by (simp_all add: coach_defs uniq_by_distinct)
  have d: "distinct (map n_id (notifications ?s))" using assms(5) n(1) by simp
  have "INSERT_NOTIFICATIONS rs ?s = ?s" if "n_id ` set rs \<subseteq> n_id ` set (notifications ?s)" for rs
  proof -
    have "filter (\<lambda>y. n_id y \<notin> n_id ` set (notifications ?s)) (uniq_by n_id rs) = []"
      using that set_uniq_by_subset [of n_id rs] by (auto simp: filter_empty_conv)
    then show ?thesis unfolding INSERT_NOTIFICATIONS_def sort_by_minus_id uniq_by_append uniq_by_distinct [OF d] by simp
  qed
  then have "coach_step ?s (MoreAnswer (Some (results, m))) = ?s"
    if "n_id ` set results \<subseteq> n_id ` set (notifications ?s)" for results m
    using that by (simp add: coach_step_def [of ?s] more_answer_def)
  moreover have "more_request ?s = Some (cls, n_id (last new))"
    using assms n by (simp add: more_request_def has_classroom_def)
  ultimately show ?thesis using n(1) by (simp add: Let_def)
qed

lemma more_cursor_witness:
  "more_request (coach_step \<lparr>currentClassroomId = Some ''k'', notifications = [quiz_event ''5'' ''u'' ''Started'' ''1''],
      timeouts = [], polls = [(''k'', ''5'')]\<rparr> (PollAnswer (Some ([quiz_event ''9'' ''u'' ''Completed'' ''2''], 1)))) = Some (''k'', ''9'')"
proof -
  let ?s = "\<lparr>currentClassroomId = Some ''k'', notifications = [quiz_event ''5'' ''u'' ''Started'' ''1''],
      timeouts = [], polls = [(''k'', ''5'')]\<rparr>"
  let ?n = "[quiz_event ''9'' ''u'' ''Completed'' ''2'']"
  have "distinct (map n_id (notifications ?s @ ?n))" "num_lt (Fin 1) (to_number (n_id (last ?n)))" "n_id (last ?n) = ''9''"
    by code_simp+
  then show ?thesis using more_cursor_after_poll [of ?s "''k''" ?n 1] by (simp add: Let_def)
qed

text \<open>
  Polling.  Time-outs are between 2 and 20 seconds whatever the server asks for.  And while a
  classroom is open no polling loop ends, but each answer to a fetch of the notifications starts
  one more, because the state has no poller to test.
\<close>

theorem polling_accumulates:
  assumes "s = foldl coach_step init_coach es" "\<forall>e \<in> set (es @ fs). \<forall>n \<in> set (answered e). numeric n"
    "has_classroom s" "StopPolling \<notin> set fs"
  shows "(\<forall>t \<in> set (timeouts (foldl coach_step s fs)). 2000 \<le> t \<and> t \<le> 20000)
     \<and> chains (foldl coach_step s fs) = chains s + length (filter is_fetch_answer fs)"
proof -
  have "coach_inv init_coach" by (simp add: coach_inv_def init_coach_def)
  from coach_run.run_inv [OF this, of "es @ fs"] have "coach_inv (foldl coach_step s fs)" by (simp add: assms(1))
  moreover have "\<forall>n \<in> set (notifications s). numeric n"
    using assms(2) unfolding assms(1)
  proof (induction es rule: rev_induct)
    case (snoc e es)
    then show ?case using coach_step_numeric [of "foldl coach_step init_coach es" e] by simp
  qed (simp add: init_coach_def)
  ultimately show ?thesis using assms(2-4) chains_run [of s fs] by (auto simp: coach_inv_def)
qed

lemma polling_witness:
  "chains (foldl coach_step init_coach [Fetch ''k'', FetchAnswer (Some ([], 1)), Timeout, Fetch ''k'', FetchAnswer None, PollAnswer None]) = 2"
proof -
  let ?fs = "[FetchAnswer (Some ([], 1)), Timeout, Fetch ''k'', FetchAnswer None, PollAnswer None]"
  have "has_classroom (foldl coach_step init_coach [Fetch ''k''])" "chains (foldl coach_step init_coach [Fetch ''k'']) = 0"
    by code_simp+
  moreover have "length (filter is_fetch_answer ?fs) = 2" by (simp add: is_fetch_answer_def)
  ultimately show ?thesis
    using polling_accumulates [of "foldl coach_step init_coach [Fetch ''k'']" "[Fetch ''k'']" ?fs]
    by (simp add: answered_def)
qed

end
