(* ===== verification/Api_Cache.thy ===== *)
theory Api_Cache
  imports Js_Value
begin

text \<open>
  \<open>kolibri/core/assets/src/api-resource.js\<close>, the client side of the REST API: the models and
  collections of a resource and its caches.  Models and collections are mutable and shared, so
  they live in two heaps; a cache maps the name of an endpoint and a key to an address.  The
  URL functions of the Django router are a parameter.  An argument that is not given is the empty
  string or \<open>undefined\<close>.
\<close>

section \<open>JSON\<close>

definition hex_digit :: "nat \<Rightarrow> char" where
  "hex_digit n = (if n < 10 then char_of (48 + n) else char_of (87 + n))"

definition json_char :: "char \<Rightarrow> string" where
  "json_char c = (let n = (of_char c :: nat) in
     if n = 34 then [char_of (92 :: nat), c] else if n = 92 then [c, c]
     else if n = 8 then [char_of (92 :: nat), CHR ''b''] else if n = 9 then [char_of (92 :: nat), CHR ''t'']
     else if n = 10 then [char_of (92 :: nat), CHR ''n''] else if n = 12 then [char_of (92 :: nat), CHR ''f'']
     else if n = 13 then [char_of (92 :: nat), CHR ''r'']
     else if n < 32 then [char_of (92 :: nat)] @ ''u00'' @ [hex_digit (n div 16), hex_digit (n mod 16)]
     else [c])"

definition json_quote :: "string \<Rightarrow> string" where
  "json_quote s = [char_of (34 :: nat)] @ concat (map json_char s) @ [char_of (34 :: nat)]"

definition json_array :: "(string \<times> string option) list \<Rightarrow> string" where
  "json_array es = ''['' @ js_join '','' (map (\<lambda>i. case obj_get es (nat_digits i) of
     Some (Some s) \<Rightarrow> s | _ \<Rightarrow> ''null'') [0..<arr_length es]) @ '']''"

definition json_object :: "(string \<times> string option) list \<Rightarrow> string" where
  "json_object es = ''{'' @ js_join '','' (List.map_filter (\<lambda>(k, r). map_option (\<lambda>s. json_quote k @ '':'' @ s) r)
     (obj_entries es)) @ ''}''"

text \<open>\<open>JSON.stringify\<close>; \<open>undefined\<close> has no text.\<close>

fun json :: "jsval \<Rightarrow> string option" where
  "json JUndef = None"
| "json JNull = Some ''null''"
| "json (JBool b) = Some (if b then ''true'' else ''false'')"
| "json (JNum n) = Some (case n of Fin x \<Rightarrow> num_string n | _ \<Rightarrow> ''null'')"
| "json (JStr s) = Some (json_quote s)"
| "json (JArr m) = Some (json_array (map (\<lambda>(k, v). (k, json v)) m))"
| "json (JObj m) = Some (json_object (map (\<lambda>(k, v). (k, json v)) m))"

text \<open>
  lodash \<open>isEqual\<close> on such values: by value, whatever the order of the properties.
\<close>

fun is_equal :: "jsval \<Rightarrow> jsval \<Rightarrow> bool" where
  "is_equal (JArr m) w = (case w of JArr n \<Rightarrow> length m = length n
     \<and> list_all (\<lambda>(k, v). case obj_get n k of Some u \<Rightarrow> is_equal v u | None \<Rightarrow> False) m | _ \<Rightarrow> False)"
| "is_equal (JObj m) w = (case w of JObj n \<Rightarrow> length m = length n
     \<and> list_all (\<lambda>(k, v). case obj_get n k of Some u \<Rightarrow> is_equal v u | None \<Rightarrow> False) m | _ \<Rightarrow> False)"
| "is_equal v w = (v = w)"

section \<open>Models and collections\<close>

type_synonym attrs = "jsval jsobj"

record api_model =
  attributes :: attrs
  getParams :: attrs
  m_url :: string
  m_synced :: bool
  m_new :: bool
  m_deleted :: bool
  m_promises :: "nat list"

record api_collection =
  c_params :: attrs
  c_url :: string
  members :: "nat list"
  model_map :: "nat jsobj"
  c_synced :: bool
  c_new :: bool
  metadata :: "attrs option"
  c_promises :: "nat list"

record resource =
  idKey :: string
  models :: "nat jsobj jsobj"
  collections :: "nat jsobj jsobj"
  mheap :: "api_model list"
  cheap :: "api_collection list"

definition attr :: "attrs \<Rightarrow> string \<Rightarrow> jsval" where
  "attr m k = (case obj_get m k of Some v \<Rightarrow> v | None \<Rightarrow> JUndef)"

definition model_id :: "string \<Rightarrow> api_model \<Rightarrow> jsval" where
  "model_id idk m = attr (attributes m) idk"

text \<open>\<open>set\<close> of a model: the id becomes a string.\<close>

definition string_id :: "string \<Rightarrow> attrs \<Rightarrow> attrs" where
  "string_id idk a = (case obj_get a idk of
     Some v \<Rightarrow> if truthy v then obj_set idk (JStr (js_string v)) a else a | None \<Rightarrow> a)"

definition model_set :: "string \<Rightarrow> jsval \<Rightarrow> api_model \<Rightarrow> api_model js_result" where
  "model_set idk v m = (case v of
       JObj a \<Rightarrow> Inr (m\<lparr>attributes := obj_assign (attributes m) (string_id idk a)\<rparr>)
     | JArr a \<Rightarrow> Inr (m\<lparr>attributes := obj_assign (attributes m) (string_id idk a)\<rparr>)
     | _ \<Rightarrow> if truthy v then Inl (TypeError ''Cannot use 'in' operator'') else Inr m)"

definition new_model :: "string \<Rightarrow> jsval \<Rightarrow> attrs \<Rightarrow> string \<Rightarrow> api_model js_result" where
  "new_model idk v params url =
     (if \<not> truthy v then Inl (TypeError ''data must be defined'')
      else case v of
        JObj a \<Rightarrow> (if a = [] then Inl (TypeError ''data must be instantiated with some data'')
          else model_set idk v \<lparr>attributes = [], getParams = params, m_url = url, m_synced = False, m_new = True,
                 m_deleted = False, m_promises = []\<rparr>)
      | JArr a \<Rightarrow> (if a = [] then Inl (TypeError ''data must be instantiated with some data'')
          else model_set idk v \<lparr>attributes = [], getParams = params, m_url = url, m_synced = False, m_new = True,
                 m_deleted = False, m_promises = []\<rparr>)
      | _ \<Rightarrow> Inl (TypeError ''data must be an object''))"

definition upd_model :: "nat \<Rightarrow> (api_model \<Rightarrow> api_model) \<Rightarrow> resource \<Rightarrow> resource" where
  "upd_model a f r = r\<lparr>mheap := (mheap r)[a := f (mheap r ! a)]\<rparr>"

definition upd_collection :: "nat \<Rightarrow> (api_collection \<Rightarrow> api_collection) \<Rightarrow> resource \<Rightarrow> resource" where
  "upd_collection c f r = r\<lparr>cheap := (cheap r)[c := f (cheap r ! c)]\<rparr>"

section \<open>Caches\<close>

text \<open>The key of some parameters: merged, the id as a string, the properties sorted by name.\<close>

definition cacheKey :: "string \<Rightarrow> attrs list \<Rightarrow> string" where
  "cacheKey idk params =
     (let allParams = fold (\<lambda>p m. obj_assign m p) params [];
          value = (\<lambda>k. if k = idk then JStr (js_string (attr allParams k)) else attr allParams k)
      in the (json (JObj (fold (\<lambda>k m. obj_set k (value k) m) (sort (obj_keys allParams)) []))))"

definition cacheName :: "string \<Rightarrow> string" where
  "cacheName endpoint = (if endpoint \<noteq> [] then ''endpoint-'' @ endpoint else ''default'')"

definition lookup_cache :: "nat jsobj jsobj \<Rightarrow> string \<Rightarrow> string \<Rightarrow> nat option" where
  "lookup_cache caches endpoint key =
     (case obj_get caches (cacheName endpoint) of Some cache \<Rightarrow> obj_get cache key | None \<Rightarrow> None)"

definition store_cache :: "string \<Rightarrow> string \<Rightarrow> nat \<Rightarrow> nat jsobj jsobj \<Rightarrow> nat jsobj jsobj" where
  "store_cache endpoint key a caches = obj_set (cacheName endpoint)
     (obj_set key a (case obj_get caches (cacheName endpoint) of Some cache \<Rightarrow> cache | None \<Rightarrow> [])) caches"

definition drop_cache :: "string \<Rightarrow> string \<Rightarrow> nat jsobj jsobj \<Rightarrow> nat jsobj jsobj" where
  "drop_cache endpoint key caches = obj_set (cacheName endpoint)
     (obj_del key (case obj_get caches (cacheName endpoint) of Some cache \<Rightarrow> cache | None \<Rightarrow> [])) caches"

text \<open>
  \<open>addModel\<close> for a model: one with an id is entered under its id and parameters, or merged into
  the model that is there; one without gets a temporary key, and the collections are forgotten.
\<close>

definition merge_model :: "nat \<Rightarrow> nat \<Rightarrow> resource \<Rightarrow> resource" where
  "merge_model b a r = upd_model b (\<lambda>m. m\<lparr>attributes :=
     obj_assign (attributes m) (string_id (idKey r) (attributes (mheap r ! a)))\<rparr>) r"

definition addModel :: "nat \<Rightarrow> string \<Rightarrow> resource \<Rightarrow> resource \<times> nat" where
  "addModel a endpoint r =
     (let m = mheap r ! a; i = model_id (idKey r) m in
      if truthy i then
        (let key = cacheKey (idKey r) [[(idKey r, i)], getParams m] in
         case lookup_cache (models r) endpoint key of
           None \<Rightarrow> (r\<lparr>models := store_cache endpoint key a (models r)\<rparr>, a)
         | Some b \<Rightarrow> (merge_model b a r, b))
      else (r\<lparr>models := store_cache endpoint (cacheKey (idKey r) [attributes m]) a (models r), collections := []\<rparr>, a))"

definition createModel ::
  "(string \<Rightarrow> jsval \<Rightarrow> string) \<Rightarrow> jsval \<Rightarrow> attrs \<Rightarrow> string \<Rightarrow> resource \<Rightarrow> (resource \<times> nat) js_result" where
  "createModel urls v params endpoint r =
     bind_result (new_model (idKey r) v params (if endpoint \<noteq> [] then urls endpoint (js_prop v (idKey r)) else [])) (\<lambda>m.
       Inr (addModel (length (mheap r)) endpoint (r\<lparr>mheap := mheap r @ [m]\<rparr>)))"

definition getModel ::
  "(string \<Rightarrow> jsval \<Rightarrow> string) \<Rightarrow> jsval \<Rightarrow> attrs \<Rightarrow> string \<Rightarrow> resource \<Rightarrow> (resource \<times> nat option) js_result" where
  "getModel urls i params endpoint r =
     (let key = cacheKey (idKey r) [[(idKey r, i)], params] in
      case lookup_cache (models r) endpoint key of
        Some a \<Rightarrow> Inr (r, Some a)
      | None \<Rightarrow> bind_result (createModel urls (JObj [(idKey r, i)]) params endpoint r) (\<lambda>(r', _).
          Inr (r', lookup_cache (models r') endpoint key)))"

text \<open>
  \<open>set\<close> of a collection, for data of models: stops at the first that cannot be one.
\<close>

definition add_member :: "nat \<Rightarrow> nat \<Rightarrow> resource \<Rightarrow> resource" where
  "add_member c a r =
     (let m = mheap r ! a; i = model_id (idKey r) m;
          key = (if truthy i then js_string i else cacheKey (idKey r) [attributes m])
      in if obj_get (model_map (cheap r ! c)) key \<noteq> None then r
         else upd_collection c (\<lambda>cl. cl\<lparr>model_map := obj_set key a (model_map cl), members := members cl @ [a]\<rparr>) r)"

definition set_params :: "api_collection \<Rightarrow> attrs" where
  "set_params cl = (let f = attr (c_params cl) ''fields'' in if truthy f then [(''fields'', f)] else [])"

fun set_members :: "(string \<Rightarrow> jsval \<Rightarrow> string) \<Rightarrow> nat \<Rightarrow> jsval list \<Rightarrow> resource \<Rightarrow> resource \<times> js_error option" where
  "set_members urls c [] r = (r, None)"
| "set_members urls c (v # vs) r = (case createModel urls v (set_params (cheap r ! c)) [] r of
       Inl e \<Rightarrow> (r, Some e)
     | Inr (r', a) \<Rightarrow> set_members urls c vs (add_member c a r'))"

definition array_values :: "attrs \<Rightarrow> jsval list" where
  "array_values m = map (\<lambda>i. attr m (nat_digits i)) [0..<arr_length m]"

definition collection_set :: "(string \<Rightarrow> jsval \<Rightarrow> string) \<Rightarrow> nat \<Rightarrow> jsval \<Rightarrow> resource \<Rightarrow> resource \<times> js_error option" where
  "collection_set urls c v r = set_members urls c (case v of JArr m \<Rightarrow> array_values m | _ \<Rightarrow> [v]) r"

definition clear_members :: "nat \<Rightarrow> resource \<Rightarrow> resource" where
  "clear_members c = upd_collection c (\<lambda>cl. cl\<lparr>members := [], model_map := []\<rparr>)"

text \<open>\<open>createCollection\<close> is only called without data; \<open>detailId\<close> is part of the key.\<close>

definition createCollection ::
  "(string \<Rightarrow> jsval \<Rightarrow> string) \<Rightarrow> attrs \<Rightarrow> string \<Rightarrow> jsval \<Rightarrow> resource \<Rightarrow> resource \<times> nat" where
  "createCollection urls params endpoint detailId r =
     (let c = length (cheap r);
          cl = \<lparr>c_params = params, c_url = (if endpoint \<noteq> [] then urls endpoint (if truthy detailId then detailId else JUndef) else []),
                members = [], model_map = [], c_synced = False, c_new = True, metadata = None, c_promises = []\<rparr>
      in (r\<lparr>cheap := cheap r @ [cl],
            collections := store_cache endpoint (cacheKey (idKey r) [params, [(''detailId'', detailId)]]) c (collections r)\<rparr>, c))"

definition getCollection ::
  "(string \<Rightarrow> jsval \<Rightarrow> string) \<Rightarrow> attrs \<Rightarrow> string \<Rightarrow> jsval \<Rightarrow> resource \<Rightarrow> resource \<times> nat" where
  "getCollection urls params endpoint detailId r =
     (case lookup_cache (collections r) endpoint (cacheKey (idKey r) [params, [(''detailId'', detailId)]]) of
        Some c \<Rightarrow> (r, c) | None \<Rightarrow> createCollection urls params endpoint detailId r)"

definition clearCache :: "resource \<Rightarrow> resource" where
  "clearCache r = r\<lparr>models := [], collections := []\<rparr>"

definition unCacheModel :: "jsval \<Rightarrow> attrs \<Rightarrow> string \<Rightarrow> resource \<Rightarrow> resource" where
  "unCacheModel i params endpoint r =
     (case lookup_cache (models r) endpoint (cacheKey (idKey r) [[(idKey r, i)], params]) of
        Some a \<Rightarrow> upd_model a (\<lambda>m. m\<lparr>m_synced := False\<rparr>) r | None \<Rightarrow> r)"

definition unCacheCollection :: "attrs \<Rightarrow> string \<Rightarrow> resource \<Rightarrow> resource" where
  "unCacheCollection params endpoint r =
     (case lookup_cache (collections r) endpoint (cacheKey (idKey r) [params]) of
        Some c \<Rightarrow> upd_collection c (\<lambda>cl. cl\<lparr>c_synced := False\<rparr>) r | None \<Rightarrow> r)"

definition removeModel :: "nat \<Rightarrow> string \<Rightarrow> resource \<Rightarrow> resource" where
  "removeModel a endpoint r = (let m = mheap r ! a in
     r\<lparr>models := drop_cache endpoint (cacheKey (idKey r) [[(idKey r, model_id (idKey r) m)], getParams m]) (models r)\<rparr>)"

definition removeCollection :: "nat \<Rightarrow> string \<Rightarrow> resource \<Rightarrow> resource" where
  "removeCollection c endpoint r = r\<lparr>collections :=
     drop_cache endpoint (cacheKey (idKey r) [c_params (cheap r ! c)]) (collections r)\<rparr>"

section \<open>Views of a collection\<close>

definition model_data :: "api_model \<Rightarrow> jsval" where
  "model_data m = JObj (attributes m)"

definition collection_data :: "resource \<Rightarrow> nat \<Rightarrow> jsval" where
  "collection_data r c =
     (let cl = cheap r ! c;
          ds = js_array (map model_data (filter (\<lambda>m. \<not> m_deleted m) (map (\<lambda>a. mheap r ! a) (members cl))))
      in case metadata cl of None \<Rightarrow> ds | Some md \<Rightarrow> JObj (obj_assign [(''results'', ds)] md))"

definition collection_synced :: "resource \<Rightarrow> nat \<Rightarrow> bool" where
  "collection_synced r c \<longleftrightarrow> c_synced (cheap r ! c) \<and> list_all (\<lambda>a. m_synced (mheap r ! a)) (members (cheap r ! c))"

definition set_collection_synced :: "nat \<Rightarrow> bool \<Rightarrow> resource \<Rightarrow> resource" where
  "set_collection_synced c v r =
     (let r' = upd_collection c (\<lambda>cl. cl\<lparr>c_synced := v\<rparr>) r in
      if v then fold (\<lambda>a. upd_model a (\<lambda>m. m\<lparr>m_synced := True\<rparr>)) (members (cheap r ! c)) r' else r')"

definition collection_new :: "resource \<Rightarrow> nat \<Rightarrow> bool" where
  "collection_new r c \<longleftrightarrow> c_new (cheap r ! c) \<and> list_all (\<lambda>a. m_new (mheap r ! a)) (members (cheap r ! c))"

definition set_collection_new :: "nat \<Rightarrow> bool \<Rightarrow> resource \<Rightarrow> resource" where
  "set_collection_new c v r =
     (let r' = upd_collection c (\<lambda>cl. cl\<lparr>c_new := v\<rparr>) r in
      if v then r' else fold (\<lambda>a. upd_model a (\<lambda>m. m\<lparr>m_new := False\<rparr>)) (members (cheap r ! c)) r')"

end
