(* ===== verification/Api_Requests.thy ===== *)
theory Api_Requests
  imports Api_Cache
begin

text \<open>
  The requests of \<open>api-resource.js\<close>.  Every operation on a model or a collection makes a promise,
  waits for the promises its target holds at that moment, and then answers from the cache or
  sends a request whose answer settles it.  The promise of operation \<open>i\<close> is number \<open>i\<close>.  The
  model is a step function over the calls, the moments an operation finds out what it waited for
  and the answers to requests, so it covers every interleaving.
\<close>

section \<open>Operations\<close>

datatype target = ModelAt nat | CollectionAt nat

datatype operation =
    FetchModel bool
  | SaveModel "attrs option" bool
  | DeleteModel
  | FetchCollection bool
  | SaveCollection "jsval list"
  | DeleteCollection

datatype promise = Pending | Resolved jsval | Rejected jsval

text \<open>
  An operation waits for some promises, has a request under way, or is over; one that is over
  with its promise pending has run into an exception.
\<close>

datatype phase = Waiting "nat list" | Requested | Over

record op =
  op_target :: target
  op_kind :: operation
  op_phase :: phase
  op_promise :: promise

record request =
  rq_method :: string
  rq_url :: string
  rq_data :: jsval
  rq_params :: attrs

record api = resource +
  ops :: "op list"
  sent :: "(nat \<times> request) list"

definition init_api :: "string \<Rightarrow> api" where
  "init_api idk = \<lparr>idKey = idk, models = [], collections = [], mheap = [], cheap = [], ops = [], sent = []\<rparr>"

definition with_resource :: "(resource \<Rightarrow> resource) \<Rightarrow> api \<Rightarrow> api" where
  "with_resource f s = (let r = f (resource.truncate s) in
     s\<lparr>idKey := idKey r, models := models r, collections := collections r, mheap := mheap r, cheap := cheap r\<rparr>)"

definition promises_of :: "target \<Rightarrow> 'a resource_scheme \<Rightarrow> nat list" where
  "promises_of t s = (case t of ModelAt a \<Rightarrow> m_promises (mheap s ! a) | CollectionAt c \<Rightarrow> c_promises (cheap s ! c))"

definition set_promises :: "target \<Rightarrow> (nat list \<Rightarrow> nat list) \<Rightarrow> api \<Rightarrow> api" where
  "set_promises t f s = with_resource (case t of
       ModelAt a \<Rightarrow> upd_model a (\<lambda>m. m\<lparr>m_promises := f (m_promises m)\<rparr>)
     | CollectionAt c \<Rightarrow> upd_collection c (\<lambda>cl. cl\<lparr>c_promises := f (c_promises cl)\<rparr>)) s"

definition upd_op :: "nat \<Rightarrow> (op \<Rightarrow> op) \<Rightarrow> api \<Rightarrow> api" where
  "upd_op i f s = s\<lparr>ops := (ops s)[i := f (ops s ! i)]\<rparr>"

text \<open>Making the promise: what it waits for is fixed, then it joins the promises of the target.\<close>

definition start_op :: "target \<Rightarrow> operation \<Rightarrow> api \<Rightarrow> api" where
  "start_op t k s = (let i = length (ops s) in
     set_promises t (\<lambda>ps. ps @ [i])
       (s\<lparr>ops := ops s @ [\<lparr>op_target = t, op_kind = k, op_phase = Waiting (promises_of t s), op_promise = Pending\<rparr>]\<rparr>))"

definition settle_op :: "nat \<Rightarrow> promise \<Rightarrow> api \<Rightarrow> api" where
  "settle_op i p = upd_op i (\<lambda>x. x\<lparr>op_phase := Over, op_promise := p\<rparr>)"

definition stick_op :: "nat \<Rightarrow> api \<Rightarrow> api" where
  "stick_op i = upd_op i (\<lambda>x. x\<lparr>op_phase := Over\<rparr>)"

text \<open>Settling and removing the promise from those of the target, as the request handlers do.\<close>

definition finish_op :: "nat \<Rightarrow> promise \<Rightarrow> api \<Rightarrow> api" where
  "finish_op i p s = set_promises (op_target (ops s ! i)) (remove1 i) (settle_op i p s)"

definition send_request :: "nat \<Rightarrow> request \<Rightarrow> api \<Rightarrow> api" where
  "send_request i rq s = (upd_op i (\<lambda>x. x\<lparr>op_phase := Requested\<rparr>) s)\<lparr>sent := sent s @ [(i, rq)]\<rparr>"

section \<open>When an operation may go on\<close>

definition the_url :: "(string \<Rightarrow> jsval \<Rightarrow> string) \<Rightarrow> api \<Rightarrow> nat \<Rightarrow> string" where
  "the_url urls s a = (let m = mheap s ! a in
     if m_url m \<noteq> [] then m_url m else urls ''detail'' (model_id (idKey s) m))"

definition collection_url :: "(string \<Rightarrow> jsval \<Rightarrow> string) \<Rightarrow> string" where
  "collection_url urls = urls ''list'' JUndef"

text \<open>What is to be saved: the changed attributes, if the model is known to be that of the server.\<close>

definition save_payload :: "api_model \<Rightarrow> attrs option \<Rightarrow> attrs js_result" where
  "save_payload m attrs =
     (if m_synced m then (case attrs of
        None \<Rightarrow> Inl (TypeError ''Cannot convert undefined or null to object'')
      | Some as \<Rightarrow> Inr (fold (\<lambda>(k, v). obj_set k v)
          (filter (\<lambda>(k, v). \<not> is_equal v (attr (attributes m) k)) (obj_entries as)) []))
      else Inr (obj_assign (obj_assign [] (attributes m)) (case attrs of Some as \<Rightarrow> as | None \<Rightarrow> [])))"

definition run_model_op :: "(string \<Rightarrow> jsval \<Rightarrow> string) \<Rightarrow> nat \<Rightarrow> nat \<Rightarrow> operation \<Rightarrow> api \<Rightarrow> api" where
  "run_model_op urls i a k s =
     (let m = mheap s ! a; unsync = with_resource (upd_model a (\<lambda>m. m\<lparr>m_synced := False\<rparr>)) in
      case k of
        FetchModel force \<Rightarrow>
          (if \<not> force \<and> m_synced m then settle_op i (Resolved (model_data m)) s
           else send_request i \<lparr>rq_method = ''get'', rq_url = the_url urls s a, rq_data = JUndef, rq_params = getParams m\<rparr> (unsync s))
      | SaveModel attrs exists \<Rightarrow> (case save_payload m attrs of
            Inl e \<Rightarrow> stick_op i s
          | Inr payload \<Rightarrow>
              (if payload = [] then settle_op i (Resolved (model_data m)) s
               else if \<not> m_new m \<or> exists then send_request i
                 \<lparr>rq_method = ''patch'', rq_url = the_url urls s a, rq_data = JObj payload, rq_params = getParams m\<rparr> (unsync s)
               else send_request i
                 \<lparr>rq_method = ''post'', rq_url = collection_url urls, rq_data = JObj payload, rq_params = getParams m\<rparr> (unsync s)))
      | DeleteModel \<Rightarrow>
          (if \<not> truthy (model_id (idKey s) m)
           then settle_op i (Rejected (JStr ''Can not delete model that we do not have an id for'')) s
           else send_request i \<lparr>rq_method = ''delete'', rq_url = the_url urls s a, rq_data = JUndef, rq_params = getParams m\<rparr> s)
      | _ \<Rightarrow> s)"

definition run_collection_op :: "(string \<Rightarrow> jsval \<Rightarrow> string) \<Rightarrow> nat \<Rightarrow> nat \<Rightarrow> operation \<Rightarrow> api \<Rightarrow> api" where
  "run_collection_op urls i c k s =
     (let r = resource.truncate s; cl = cheap s ! c; unsync = with_resource (set_collection_synced c False) in
      case k of
        FetchCollection force \<Rightarrow>
          (if \<not> force \<and> collection_synced r c then settle_op i (Resolved (collection_data r c)) s
           else send_request i \<lparr>rq_method = ''get'', rq_url = (if c_url cl \<noteq> [] then c_url cl else collection_url urls),
             rq_data = JUndef, rq_params = c_params cl\<rparr> (unsync s))
      | SaveCollection data \<Rightarrow>
          (if data = [] \<and> \<not> collection_new r c
           then finish_op i (Rejected (JStr ''Cannot update collections, only create them'')) s
           else send_request i \<lparr>rq_method = ''post'', rq_url = collection_url urls,
             rq_data = (if data \<noteq> [] then js_array data else collection_data r c), rq_params = []\<rparr> (unsync s))
      | DeleteCollection \<Rightarrow>
          (if c_params cl = []
           then settle_op i (Rejected (JStr ''Can not delete unfiltered collection (collection without any GET params'')) s
           else send_request i \<lparr>rq_method = ''delete'', rq_url = collection_url urls, rq_data = JUndef, rq_params = c_params cl\<rparr> s)
      | _ \<Rightarrow> s)"

text \<open>
  \<open>Promise.all(this.promises).then(...)\<close>: the first rejection of an awaited promise is passed on;
  when all are resolved the operation runs.
\<close>

definition reason :: "promise \<Rightarrow> jsval option" where
  "reason p = (case p of Rejected e \<Rightarrow> Some e | _ \<Rightarrow> None)"

definition rejection :: "api \<Rightarrow> nat list \<Rightarrow> jsval option" where
  "rejection s ws = (case find (\<lambda>j. reason (op_promise (ops s ! j)) \<noteq> None) ws of
     Some j \<Rightarrow> reason (op_promise (ops s ! j)) | None \<Rightarrow> None)"

definition all_resolved :: "api \<Rightarrow> nat list \<Rightarrow> bool" where
  "all_resolved s ws \<longleftrightarrow> list_all (\<lambda>j. case op_promise (ops s ! j) of Resolved _ \<Rightarrow> True | _ \<Rightarrow> False) ws"

definition continue_op :: "(string \<Rightarrow> jsval \<Rightarrow> string) \<Rightarrow> nat \<Rightarrow> api \<Rightarrow> api" where
  "continue_op urls i s = (let x = ops s ! i in case op_phase x of
       Waiting ws \<Rightarrow>
         (case rejection s ws of
            Some e \<Rightarrow> settle_op i (Rejected e) s
          | None \<Rightarrow> if all_resolved s ws
              then (case op_target x of ModelAt a \<Rightarrow> run_model_op urls i a (op_kind x) s
                                      | CollectionAt c \<Rightarrow> run_collection_op urls i c (op_kind x) s)
              else s)
     | _ \<Rightarrow> s)"

section \<open>Answers\<close>

datatype answer = Success jsval | Failure jsval

definition model_fetched :: "nat \<Rightarrow> nat \<Rightarrow> jsval \<Rightarrow> api \<Rightarrow> api" where
  "model_fetched i a v s = (case model_set (idKey s) v (mheap s ! a) of
       Inl e \<Rightarrow> stick_op i s
     | Inr m \<Rightarrow> (let m' = m\<lparr>m_synced := True, m_new := False\<rparr> in
         finish_op i (Resolved (model_data m')) (with_resource (upd_model a (\<lambda>_. m')) s)))"

definition model_saved :: "nat \<Rightarrow> nat \<Rightarrow> jsval \<Rightarrow> api \<Rightarrow> api" where
  "model_saved i a v s = (case model_set (idKey s) v (mheap s ! a) of
       Inl e \<Rightarrow> stick_op i s
     | Inr m \<Rightarrow>
         (let oldId = model_id (idKey s) (mheap s ! a);
              s1 = with_resource (upd_model a (\<lambda>_. m)) s;
              s2 = (if \<not> truthy oldId \<and> truthy (model_id (idKey s) m)
                    then with_resource (\<lambda>r. fst (addModel a [] r)) s1 else s1);
              s3 = with_resource (upd_model a (\<lambda>m. m\<lparr>m_synced := True, m_new := False\<rparr>)) s2
          in finish_op i (Resolved (model_data (mheap s3 ! a))) s3))"

definition model_deleted :: "nat \<Rightarrow> nat \<Rightarrow> api \<Rightarrow> api" where
  "model_deleted i a s =
     finish_op i (Resolved (model_id (idKey s) (mheap s ! a)))
       (with_resource (upd_model a (\<lambda>m. m\<lparr>m_deleted := True, m_synced := False, m_new := True\<rparr>) \<circ> removeModel a []) s)"

text \<open>
  What a collection takes from an answer: an array of models, or an object with results and
  further data.
\<close>

definition loaded :: "nat \<Rightarrow> resource \<Rightarrow> resource" where
  "loaded c = set_collection_new c False \<circ> set_collection_synced c True"

definition collection_fetched :: "(string \<Rightarrow> jsval \<Rightarrow> string) \<Rightarrow> nat \<Rightarrow> nat \<Rightarrow> jsval \<Rightarrow> api \<Rightarrow> api" where
  "collection_fetched urls i c v s =
     (let r = clear_members c (resource.truncate s);
          results = js_prop (if truthy v then v else JObj []) ''results'' in
      if is_array v then
        (case collection_set urls c v r of
           (r', Some e) \<Rightarrow> stick_op i (with_resource (\<lambda>_. r') s)
         | (r', None) \<Rightarrow> (let r'' = loaded c r' in finish_op i (Resolved (collection_data r'' c)) (with_resource (\<lambda>_. r'') s)))
      else if results \<noteq> JUndef then
        (case collection_set urls c results r of
           (r', Some e) \<Rightarrow> stick_op i (with_resource (\<lambda>_. r') s)
         | (r', None) \<Rightarrow>
             (let md = (case v of JObj m \<Rightarrow> obj_del ''results'' m | _ \<Rightarrow> []);
                  r'' = loaded c (upd_collection c (\<lambda>cl. cl\<lparr>metadata := Some md\<rparr>) r')
              in finish_op i (Resolved (collection_data r'' c)) (with_resource (\<lambda>_. r'') s)))
      else finish_op i (Rejected v) s)"

definition collection_saved :: "(string \<Rightarrow> jsval \<Rightarrow> string) \<Rightarrow> nat \<Rightarrow> nat \<Rightarrow> jsval \<Rightarrow> api \<Rightarrow> api" where
  "collection_saved urls i c v s =
     (if is_array v then
        (case collection_set urls c v (clear_members c (resource.truncate s)) of
           (r', Some e) \<Rightarrow> stick_op i (with_resource (\<lambda>_. r') s)
         | (r', None) \<Rightarrow> (let r'' = loaded c r' in finish_op i (Resolved (collection_data r'' c)) (with_resource (\<lambda>_. r'') s)))
      else finish_op i (Rejected v) s)"

definition collection_deleted :: "nat \<Rightarrow> nat \<Rightarrow> api \<Rightarrow> api" where
  "collection_deleted i c s =
     (let ms = members (cheap s ! c);
          s' = with_resource (fold (\<lambda>a r. removeModel a [] (upd_model a (\<lambda>m. m\<lparr>m_deleted := True\<rparr>) r)) ms
                 \<circ> removeCollection c []) s
      in finish_op i (Resolved (js_array (map (\<lambda>a. model_id (idKey s') (mheap s' ! a)) ms))) s')"

definition answer_op :: "(string \<Rightarrow> jsval \<Rightarrow> string) \<Rightarrow> nat \<Rightarrow> answer \<Rightarrow> api \<Rightarrow> api" where
  "answer_op urls i ans s = (let x = ops s ! i in
     if op_phase x \<noteq> Requested then s
     else case ans of
         Failure e \<Rightarrow> finish_op i (Rejected e) s
       | Success v \<Rightarrow> (case (op_target x, op_kind x) of
             (ModelAt a, FetchModel _) \<Rightarrow> model_fetched i a v s
           | (ModelAt a, SaveModel _ _) \<Rightarrow> model_saved i a v s
           | (ModelAt a, DeleteModel) \<Rightarrow> model_deleted i a s
           | (CollectionAt c, FetchCollection _) \<Rightarrow> collection_fetched urls i c v s
           | (CollectionAt c, SaveCollection _) \<Rightarrow> collection_saved urls i c v s
           | (CollectionAt c, DeleteCollection) \<Rightarrow> collection_deleted i c s
           | _ \<Rightarrow> s))"

section \<open>The interface of a resource\<close>

text \<open>
  The calls of a resource.  A call with an id or a name that is not given raises and does
  nothing; the others find their model or collection and start its operation.
\<close>

datatype api_call =
    CallFetchModel jsval attrs bool
  | CallSaveModel jsval attrs "jsval" bool
  | CallDeleteModel jsval attrs
  | CallFetchCollection attrs bool
  | CallSaveCollection "jsval list" attrs
  | CallDeleteCollection attrs
  | CallFetchDetailModel string jsval attrs
  | CallFetchDetailCollection string jsval attrs bool
  | CallFetchListCollection string attrs
  | CallClearCache
  | CallUnCacheModel jsval attrs string
  | CallUnCacheCollection attrs string

definition on_model :: "(string \<Rightarrow> jsval \<Rightarrow> string) \<Rightarrow> jsval \<Rightarrow> attrs \<Rightarrow> string \<Rightarrow> operation \<Rightarrow> api \<Rightarrow> api js_result" where
  "on_model urls i params endpoint k s = bind_result (getModel urls i params endpoint (resource.truncate s)) (\<lambda>(r, a).
     case a of None \<Rightarrow> Inl (TypeError ''Cannot read properties of undefined'')
     | Some a \<Rightarrow> Inr (start_op (ModelAt a) k (with_resource (\<lambda>_. r) s)))"

definition on_collection :: "(string \<Rightarrow> jsval \<Rightarrow> string) \<Rightarrow> attrs \<Rightarrow> string \<Rightarrow> jsval \<Rightarrow> operation \<Rightarrow> api \<Rightarrow> api" where
  "on_collection urls params endpoint detailId k s =
     (case getCollection urls params endpoint detailId (resource.truncate s) of
        (r, c) \<Rightarrow> start_op (CollectionAt c) k (with_resource (\<lambda>_. r) s))"

definition the_attrs :: "jsval \<Rightarrow> attrs" where
  "the_attrs v = (case v of JObj m \<Rightarrow> m | _ \<Rightarrow> [])"

definition call_api :: "(string \<Rightarrow> jsval \<Rightarrow> string) \<Rightarrow> api_call \<Rightarrow> api \<Rightarrow> api js_result" where
  "call_api urls call s = (case call of
       CallFetchModel i params force \<Rightarrow>
         (if \<not> truthy i then Inl (TypeError ''An id must be specified'') else on_model urls i params [] (FetchModel force) s)
     | CallSaveModel i params data exists \<Rightarrow>
         (if \<not> truthy i then
            bind_result (createModel urls data params [] (resource.truncate s)) (\<lambda>(r, a).
              Inr (start_op (ModelAt a) (SaveModel None False) (with_resource (\<lambda>_. r) s)))
          else on_model urls i params [] (SaveModel (Some (the_attrs data)) exists) s)
     | CallDeleteModel i params \<Rightarrow>
         (if \<not> truthy i then Inl (TypeError ''An id must be specified'') else on_model urls i params [] DeleteModel s)
     | CallFetchCollection params force \<Rightarrow> Inr (on_collection urls params [] JUndef (FetchCollection force) s)
     | CallSaveCollection data params \<Rightarrow> Inr (on_collection urls params [] JUndef (SaveCollection data) s)
     | CallDeleteCollection params \<Rightarrow> Inr (on_collection urls params [] JUndef DeleteCollection s)
     | CallFetchDetailModel name i params \<Rightarrow>
         (if \<not> truthy i then Inl (TypeError ''An id must be specified'')
          else if name = [] then Inl (TypeError ''A detailName must be specified'')
          else on_model urls i params name (FetchModel False) s)
     | CallFetchDetailCollection name i params force \<Rightarrow>
         (if \<not> truthy i then Inl (TypeError ''An id must be specified'')
          else if name = [] then Inl (TypeError ''A detailName must be specified'')
          else Inr (on_collection urls params name i (FetchCollection force) s))
     | CallFetchListCollection name params \<Rightarrow>
         (if name = [] then Inl (TypeError ''A listName must be specified'')
          else Inr (on_collection urls params name JUndef (FetchCollection False) s))
     | CallClearCache \<Rightarrow> Inr (with_resource clearCache s)
     | CallUnCacheModel i params endpoint \<Rightarrow> Inr (with_resource (unCacheModel i params endpoint) s)
     | CallUnCacheCollection params endpoint \<Rightarrow> Inr (with_resource (unCacheCollection params endpoint) s))"

datatype api_event = Call api_call | Continue nat | Answer nat answer

definition api_step :: "(string \<Rightarrow> jsval \<Rightarrow> string) \<Rightarrow> api \<Rightarrow> api_event \<Rightarrow> api" where
  "api_step urls s e = (case e of
       Call c \<Rightarrow> (case call_api urls c s of Inr s' \<Rightarrow> s' | Inl _ \<Rightarrow> s)
     | Continue i \<Rightarrow> if i < length (ops s) then continue_op urls i s else s
     | Answer i ans \<Rightarrow> if i < length (ops s) then answer_op urls i ans s else s)"

section \<open>Requests past the cache\<close>

text \<open>
  \<open>toLowerCase\<close> on 8-bit characters, and the requests of \<open>accessListEndpoint\<close> and
  \<open>accessDetailEndpoint\<close>, with the calls that are instances of them.  The last component says
  whether the data are sent as multipart form data.
\<close>

definition lower_char :: "char \<Rightarrow> char" where
  "lower_char c = (let n = (of_char c :: nat) in
     if 65 \<le> n \<and> n \<le> 90 \<or> 192 \<le> n \<and> n \<le> 222 \<and> n \<noteq> 215 then char_of (n + 32) else c)"

definition endpoint_request :: "string \<Rightarrow> string \<Rightarrow> attrs \<Rightarrow> request" where
  "endpoint_request method url args =
     (if map lower_char method = ''get'' then \<lparr>rq_method = method, rq_url = url, rq_data = JUndef, rq_params = args\<rparr>
      else \<lparr>rq_method = method, rq_url = url, rq_data = JObj args, rq_params = []\<rparr>)"

definition accessListEndpoint :: "(string \<Rightarrow> jsval \<Rightarrow> string) \<Rightarrow> string \<Rightarrow> string \<Rightarrow> attrs \<Rightarrow> bool \<Rightarrow> (request \<times> bool) js_result" where
  "accessListEndpoint urls method listName args multipart =
     (if listName = [] then Inl (TypeError ''A listName must be specified'')
      else Inr (endpoint_request method (urls listName JUndef) args, multipart))"

definition accessDetailEndpoint ::
  "(string \<Rightarrow> jsval \<Rightarrow> string) \<Rightarrow> string \<Rightarrow> string \<Rightarrow> jsval \<Rightarrow> attrs \<Rightarrow> bool \<Rightarrow> (request \<times> bool) js_result" where
  "accessDetailEndpoint urls method detailName i args multipart =
     (if detailName = [] then Inl (TypeError ''A detailName must be specified'')
      else if \<not> truthy i then Inl (TypeError ''An id must be specificied'')
      else Inr (endpoint_request method (urls detailName i) args, multipart))"

definition api_get :: "(string \<Rightarrow> jsval \<Rightarrow> string) \<Rightarrow> jsval \<Rightarrow> (request \<times> bool) js_result" where
  "api_get urls i = accessDetailEndpoint urls ''get'' ''detail'' i [] False"

definition api_list :: "(string \<Rightarrow> jsval \<Rightarrow> string) \<Rightarrow> attrs \<Rightarrow> (request \<times> bool) js_result" where
  "api_list urls params = accessListEndpoint urls ''get'' ''list'' params False"

definition api_create :: "(string \<Rightarrow> jsval \<Rightarrow> string) \<Rightarrow> attrs \<Rightarrow> bool \<Rightarrow> (request \<times> bool) js_result" where
  "api_create urls params multipart = accessListEndpoint urls ''post'' ''list'' params multipart"

definition getListEndpoint :: "(string \<Rightarrow> jsval \<Rightarrow> string) \<Rightarrow> string \<Rightarrow> attrs \<Rightarrow> (request \<times> bool) js_result" where
  "getListEndpoint urls listName params = accessListEndpoint urls ''get'' listName params False"

definition postListEndpoint :: "(string \<Rightarrow> jsval \<Rightarrow> string) \<Rightarrow> string \<Rightarrow> attrs \<Rightarrow> (request \<times> bool) js_result" where
  "postListEndpoint urls listName params = accessListEndpoint urls ''post'' listName params False"

definition postListEndpointMultipart :: "(string \<Rightarrow> jsval \<Rightarrow> string) \<Rightarrow> string \<Rightarrow> attrs \<Rightarrow> (request \<times> bool) js_result" where
  "postListEndpointMultipart urls listName params = accessListEndpoint urls ''post'' listName params True"

definition postDetailEndpoint :: "(string \<Rightarrow> jsval \<Rightarrow> string) \<Rightarrow> string \<Rightarrow> jsval \<Rightarrow> attrs \<Rightarrow> (request \<times> bool) js_result" where
  "postDetailEndpoint urls detailName i params = accessDetailEndpoint urls ''post'' detailName i params False"

end
