(* ===== verification/Api_Properties.thy ===== *)
theory Api_Properties
  imports Api_Requests
begin

text \<open>
  Properties of the resource layer: what every step keeps (\<open>api_inv\<close>), that the requests of one
  model or collection never overlap, what a rejected promise does to the operations after it, the
  cache of a model, what a save sends, and when two cache keys are the same.
\<close>

section \<open>What the operations on a resource keep\<close>

definition valid :: "target \<Rightarrow> 'a resource_scheme \<Rightarrow> bool" where
  "valid t r \<longleftrightarrow> (case t of ModelAt a \<Rightarrow> a < length (mheap r) | CollectionAt c \<Rightarrow> c < length (cheap r))"

definition cached :: "nat jsobj jsobj \<Rightarrow> nat set" where
  "cached caches = {a. \<exists>n k cache. obj_get caches n = Some cache \<and> obj_get cache k = Some a}"

definition cache_ok :: "'a resource_scheme \<Rightarrow> bool" where
  "cache_ok r \<longleftrightarrow> cached (models r) \<subseteq> {..<length (mheap r)} \<and> cached (collections r) \<subseteq> {..<length (cheap r)}"

definition extends :: "'a resource_scheme \<Rightarrow> 'b resource_scheme \<Rightarrow> bool" where
  "extends r r' \<longleftrightarrow> (\<forall>t. valid t r \<longrightarrow> valid t r' \<and> promises_of t r' = promises_of t r) \<and> (cache_ok r \<longrightarrow> cache_ok r')"

named_theorems extends "steps on a resource that keep the promises and the caches"

lemma extends_refl [simp, intro]: "extends r r"
  by (simp add: extends_def)

lemma extends_trans: "extends r r' \<Longrightarrow> extends r' r'' \<Longrightarrow> extends r r''"
  by (auto simp: extends_def)

lemma extends_fold: "(\<And>x r. extends r (f x r)) \<Longrightarrow> extends r (fold f xs r)"
  by (induction xs arbitrary: r) (auto intro: extends_trans)

lemma cached_store [simp]: "cached (store_cache e k a m) \<subseteq> insert a (cached m)"
  by (auto simp: cached_def store_cache_def split: if_splits option.splits)

lemma in_cached_store: "x \<in> cached (store_cache e k a m) \<Longrightarrow> x = a \<or> x \<in> cached m"
  using cached_store by blast

lemma same_after_update: "(\<And>x. g (f x) = g x) \<Longrightarrow> i < length xs \<Longrightarrow> g (xs[a := f (xs ! a)] ! i) = g (xs ! i)"
  by (cases "i = a") simp_all

lemma same_after_replace: "g y = g (xs ! a) \<Longrightarrow> i < length xs \<Longrightarrow> g (xs[a := y] ! i) = g (xs ! i)"
  by (cases "i = a") simp_all

lemma cached_drop [simp]: "cached (drop_cache e k m) \<subseteq> cached m"
  by (auto simp: cached_def drop_cache_def split: if_splits option.splits)

lemma cached_empty [simp]: "cached [] = {}"
  by (simp add: cached_def)

lemma lookup_cached: "lookup_cache m e k = Some a \<Longrightarrow> a \<in> cached m"
  by (auto simp: cached_def lookup_cache_def split: option.splits)

lemma lookup_store [simp]: "lookup_cache (store_cache e k a m) e k' = (if k' = k then Some a else lookup_cache m e k')"
  by (auto simp: lookup_cache_def store_cache_def split: option.splits)

lemma lookup_drop [simp]: "lookup_cache (drop_cache e k m) e k' = (if k' = k then None else lookup_cache m e k')"
  by (auto simp: lookup_cache_def drop_cache_def split: option.splits)

lemma extends_models: "cached ms \<subseteq> cached (models r) \<Longrightarrow> extends r (r\<lparr>models := ms\<rparr>)"
  by (auto simp: extends_def valid_def promises_of_def cache_ok_def split: target.splits)

lemma extends_collections: "cached cs \<subseteq> cached (collections r) \<Longrightarrow> extends r (r\<lparr>collections := cs\<rparr>)"
  by (auto simp: extends_def valid_def promises_of_def cache_ok_def split: target.splits)

lemma extends_upd_model [extends]:
  "(\<And>m. m_promises (f m) = m_promises m) \<Longrightarrow> extends r (upd_model a f r)"
  by (auto simp: extends_def valid_def promises_of_def cache_ok_def upd_model_def same_after_update [of m_promises] split: target.splits)

lemma extends_upd_collection [extends]:
  "(\<And>m. c_promises (f m) = c_promises m) \<Longrightarrow> extends r (upd_collection a f r)"
  by (auto simp: extends_def valid_def promises_of_def cache_ok_def upd_collection_def same_after_update [of c_promises] split: target.splits)

lemma extends_removeModel [extends]: "extends r (removeModel a e r)"
  unfolding removeModel_def Let_def by (rule extends_models) simp

lemma extends_removeCollection [extends]: "extends r (removeCollection c e r)"
  unfolding removeCollection_def by (rule extends_collections) simp

lemma extends_clearCache [extends]: "extends r (clearCache r)"
  unfolding clearCache_def using extends_trans [OF extends_models [of "[]" r] extends_collections [of "[]"]] by simp

lemma extends_unCacheModel [extends]: "extends r (unCacheModel i p e r)"
  by (auto simp: unCacheModel_def intro!: extends split: option.split)

lemma extends_unCacheCollection [extends]: "extends r (unCacheCollection p e r)"
  by (auto simp: unCacheCollection_def intro!: extends split: option.split)

lemma extends_merge_model [extends]: "extends r (merge_model b a r)"
  unfolding merge_model_def by (rule extends_upd_model) simp

lemma extends_addModel [extends]: "a < length (mheap r) \<Longrightarrow> extends r (fst (addModel a e r))"
proof -
  assume a: "a < length (mheap r)"
  have 1: "extends r (r\<lparr>models := store_cache e k a (models r)\<rparr>)" for k
    using a by (auto simp: extends_def valid_def promises_of_def cache_ok_def split: target.splits dest!: in_cached_store)
  have 2: "extends r (r\<lparr>models := store_cache e k a (models r), collections := []\<rparr>)" for k
    using extends_trans [OF 1 [of k] extends_collections [of "[]"]] by simp
  show ?thesis using 1 2 extends by (simp add: addModel_def Let_def split: option.split)
qed

lemma addModel_address:
  "a < length (mheap r) \<Longrightarrow> cache_ok r \<Longrightarrow> addModel a e r = (r', b) \<Longrightarrow> b < length (mheap r')"
  by (auto simp: addModel_def Let_def merge_model_def upd_model_def cache_ok_def split: if_splits option.splits dest: lookup_cached)

lemma extends_new_model: "extends r (r\<lparr>mheap := mheap r @ [m]\<rparr>)"
  by (auto simp: extends_def valid_def promises_of_def cache_ok_def nth_append split: target.splits)

lemma extends_createModel:
  assumes "createModel urls v params e r = Inr (r', a)"
  shows "extends r r' \<and> (cache_ok r \<longrightarrow> a < length (mheap r'))"
proof -
  obtain m where "addModel (length (mheap r)) e (r\<lparr>mheap := mheap r @ [m]\<rparr>) = (r', a)"
    using assms by (auto simp: createModel_def bind_result_Inr)
  moreover have "cache_ok r \<Longrightarrow> cache_ok (r\<lparr>mheap := mheap r @ [m]\<rparr>)" using extends_new_model [of r m] by (simp add: extends_def)
  ultimately show ?thesis
    using extends_addModel [of "length (mheap r)" "r\<lparr>mheap := mheap r @ [m]\<rparr>" e]
      addModel_address [of "length (mheap r)" "r\<lparr>mheap := mheap r @ [m]\<rparr>" e]
      extends_trans [OF extends_new_model] by auto
qed

lemma cache_ok_lookup: "cache_ok r \<Longrightarrow> lookup_cache (models r) e k = Some a \<Longrightarrow> a < length (mheap r)"
  "cache_ok r \<Longrightarrow> lookup_cache (collections r) e k = Some c \<Longrightarrow> c < length (cheap r)"
  by (auto simp: cache_ok_def dest: lookup_cached)

lemma extends_getModel:
  assumes "getModel urls i params e r = Inr (r', Some a)"
  shows "extends r r' \<and> (cache_ok r \<longrightarrow> valid (ModelAt a) r')"
proof (cases "lookup_cache (models r) e (cacheKey (idKey r) [[(idKey r, i)], params])")
  case None
  then obtain b where b: "createModel urls (JObj [(idKey r, i)]) params e r = Inr (r', b)"
    "lookup_cache (models r') e (cacheKey (idKey r) [[(idKey r, i)], params]) = Some a"
    using assms by (auto simp: getModel_def Let_def bind_result_Inr)
  then show ?thesis using extends_createModel [OF b(1)] cache_ok_lookup(1) [OF _ b(2)] by (auto simp: extends_def valid_def)
next
  case (Some b)
  then show ?thesis using assms cache_ok_lookup(1) [OF _ Some] by (auto simp: getModel_def Let_def valid_def)
qed

lemma extends_createCollection:
  assumes "createCollection urls params e d r = (r', c)"
  shows "extends r r' \<and> valid (CollectionAt c) r'"
  using assms by (auto simp: createCollection_def Let_def extends_def valid_def promises_of_def cache_ok_def nth_append
      split: target.splits dest!: in_cached_store)

lemma extends_getCollection:
  assumes "getCollection urls params e d r = (r', c)"
  shows "extends r r' \<and> (cache_ok r \<longrightarrow> valid (CollectionAt c) r')"
  using assms extends_createCollection [of urls params e d r]
  by (auto simp: getCollection_def valid_def split: option.splits dest: cache_ok_lookup)

lemma extends_add_member [extends]: "extends r (add_member c a r)"
  by (auto simp: add_member_def Let_def intro!: extends_upd_collection)

lemma extends_set_members: "set_members urls c vs r = (r', e) \<Longrightarrow> extends r r'"
proof (induction vs arbitrary: r)
  case (Cons v vs)
  show ?case
  proof (cases "createModel urls v (set_params (cheap r ! c)) [] r")
    case (Inr x)
    obtain r1 a where x: "x = (r1, a)" by (cases x)
    then have "set_members urls c vs (add_member c a r1) = (r', e)" using Cons.prems Inr by simp
    then have "extends (add_member c a r1) r'" by (rule Cons.IH)
    then show ?thesis using extends_createModel Inr x extends_add_member extends_trans by metis
  qed (use Cons.prems in auto)
qed simp

lemma extends_collection_set: "collection_set urls c v r = (r', e) \<Longrightarrow> extends r r'"
  unfolding collection_set_def by (rule extends_set_members)

lemma extends_set_synced [extends]: "extends r (set_collection_synced c v r)"
  unfolding set_collection_synced_def Let_def
  by (auto intro!: extends_trans [OF extends_upd_collection extends_fold] extends)

lemma extends_set_new [extends]: "extends r (set_collection_new c v r)"
  unfolding set_collection_new_def Let_def
  by (auto intro!: extends_trans [OF extends_upd_collection extends_fold] extends)

lemma extends_loaded [extends]: "extends r (loaded c r)"
  unfolding loaded_def comp_def by (rule extends_trans [OF extends_set_synced extends_set_new])

lemma extends_clear_members [extends]: "extends r (clear_members c r)"
  unfolding clear_members_def by (rule extends_upd_collection) simp

section \<open>What a step does to the operations\<close>

lemma with_resource_simps [simp]:
  "ops (with_resource f s) = ops s" "sent (with_resource f s) = sent s"
  "mheap (with_resource f s) = mheap (f (resource.truncate s))" "cheap (with_resource f s) = cheap (f (resource.truncate s))"
  "models (with_resource f s) = models (f (resource.truncate s))" "idKey (with_resource f s) = idKey (f (resource.truncate s))"
  "collections (with_resource f s) = collections (f (resource.truncate s))"
  by (simp_all add: with_resource_def Let_def)

lemma truncate_simps [simp]:
  "mheap (resource.truncate s) = mheap s" "cheap (resource.truncate s) = cheap s" "models (resource.truncate s) = models s"
  "collections (resource.truncate s) = collections s" "idKey (resource.truncate s) = idKey s"
  by (simp_all add: resource.defs)

text \<open>\<open>keeps\<close>: only the resource changes, and as above; \<open>effect i\<close>: what may happen to operation \<open>i\<close> besides.\<close>

definition keeps :: "api \<Rightarrow> api \<Rightarrow> bool" where
  "keeps s s' \<longleftrightarrow> ops s' = ops s \<and> sent s' = sent s \<and> extends s s'"

definition runnable :: "nat \<Rightarrow> api \<Rightarrow> bool" where
  "runnable i s \<longleftrightarrow> (\<exists>ws. op_phase (ops s ! i) = Waiting ws \<and> rejection s ws = None \<and> all_resolved s ws)"

definition effect :: "nat \<Rightarrow> api \<Rightarrow> api \<Rightarrow> bool" where
  "effect i s s' \<longleftrightarrow> length (ops s') = length (ops s) \<and> (\<forall>j. j \<noteq> i \<longrightarrow> ops s' ! j = ops s ! j)
     \<and> op_target (ops s' ! i) = op_target (ops s ! i) \<and> (cache_ok s \<longrightarrow> cache_ok s')
     \<and> (\<forall>t. valid t s \<longrightarrow> valid t s' \<and> (promises_of t s' = promises_of t s
          \<or> promises_of t s' = remove1 i (promises_of t s) \<and> op_promise (ops s' ! i) \<noteq> Pending \<and> op_phase (ops s ! i) \<noteq> Over))
     \<and> (ops s' ! i = ops s ! i \<or> op_phase (ops s ! i) \<noteq> Over \<and> op_phase (ops s' ! i) = Over
          \<or> runnable i s \<and> op_phase (ops s' ! i) = Requested \<and> op_promise (ops s' ! i) = op_promise (ops s ! i))
     \<and> (sent s' = sent s \<or> runnable i s \<and> op_phase (ops s' ! i) = Requested \<and> (\<exists>rq. sent s' = sent s @ [(i, rq)]))"

lemma keeps_with: "extends (resource.truncate s) (f (resource.truncate s)) \<Longrightarrow> keeps s (with_resource f s)"
  by (simp add: keeps_def extends_def valid_def promises_of_def cache_ok_def split: target.splits)

lemma keeps_with_const: "extends (resource.truncate s) r \<Longrightarrow> keeps s (with_resource (\<lambda>_. r) s)"
  by (rule keeps_with)

lemma keeps_trans: "keeps s s1 \<Longrightarrow> keeps s1 s2 \<Longrightarrow> keeps s s2"
  by (auto simp: keeps_def intro: extends_trans)

lemma keeps_refl [simp, intro]: "keeps s s"
  by (simp add: keeps_def)

lemma keeps_effect: "keeps s s1 \<Longrightarrow> effect i s1 s2 \<Longrightarrow> effect i s s2"
  by (auto simp: keeps_def extends_def effect_def runnable_def rejection_def all_resolved_def cong: option.case_cong)

lemma effect_refl [simp, intro]: "effect i s s"
  by (simp add: effect_def)

lemma upd_op_simps [simp]:
  "valid t (upd_op i f s) = valid t s" "promises_of t (upd_op i f s) = promises_of t s" "cache_ok (upd_op i f s) = cache_ok s"
  "length (ops (upd_op i f s)) = length (ops s)" "sent (upd_op i f s) = sent s"
  "j \<noteq> i \<Longrightarrow> ops (upd_op i f s) ! j = ops s ! j" "i < length (ops s) \<Longrightarrow> ops (upd_op i f s) ! i = f (ops s ! i)"
  by (simp_all add: upd_op_def valid_def promises_of_def cache_ok_def split: target.split)

lemma effect_settle: "i < length (ops s) \<Longrightarrow> op_phase (ops s ! i) \<noteq> Over \<Longrightarrow> effect i s (settle_op i p s)"
  by (simp add: effect_def settle_op_def)

lemma effect_stick: "i < length (ops s) \<Longrightarrow> op_phase (ops s ! i) \<noteq> Over \<Longrightarrow> effect i s (stick_op i s)"
  by (simp add: effect_def stick_op_def)

lemma sent_update_simps [simp]:
  "valid t (s\<lparr>sent := x\<rparr>) = valid t s" "promises_of t (s\<lparr>sent := x\<rparr>) = promises_of t s" "cache_ok (s\<lparr>sent := x\<rparr>) = cache_ok s"
  by (simp_all add: valid_def promises_of_def cache_ok_def split: target.split)

lemma effect_send: "i < length (ops s) \<Longrightarrow> runnable i s \<Longrightarrow> effect i s (send_request i rq s)"
  by (simp add: effect_def send_request_def)

lemma set_promises_simps [simp]:
  "ops (set_promises t f s) = ops s" "sent (set_promises t f s) = sent s" "cache_ok (set_promises t f s) = cache_ok s"
  "valid t' (set_promises t f s) = valid t' s"
  by (simp_all add: set_promises_def valid_def cache_ok_def upd_model_def upd_collection_def split: target.split)

lemma promises_of_set_promises:
  "valid t s \<Longrightarrow> promises_of t (set_promises t' f s) = (if t = t' then f (promises_of t s) else promises_of t s)"
  by (auto simp: set_promises_def promises_of_def valid_def upd_model_def upd_collection_def nth_list_update split: target.splits)

lemma effect_finish:
  "i < length (ops s) \<Longrightarrow> op_phase (ops s ! i) \<noteq> Over \<Longrightarrow> p \<noteq> Pending \<Longrightarrow> effect i s (finish_op i p s)"
  by (simp add: effect_def finish_op_def settle_op_def promises_of_set_promises)

lemma runnable_not_over: "runnable i s \<Longrightarrow> op_phase (ops s ! i) \<noteq> Over"
  by (auto simp: runnable_def)

lemma keeps_runnable: "keeps s s1 \<Longrightarrow> runnable i s1 = runnable i s"
  by (auto simp: keeps_def runnable_def rejection_def all_resolved_def cong: option.case_cong)

lemma effect_send_after:
  "keeps s s1 \<Longrightarrow> i < length (ops s) \<Longrightarrow> runnable i s \<Longrightarrow> effect i s (send_request i rq s1)"
  by (rule keeps_effect, assumption, rule effect_send) (simp add: keeps_def, simp add: keeps_runnable)

lemma effect_run_model_op:
  assumes "i < length (ops s)" "runnable i s"
  shows "effect i s (run_model_op urls i a k s)"
  using assms runnable_not_over [OF assms(2)]
  by (auto simp: run_model_op_def Let_def split: operation.split sum.split
      intro!: effect_settle effect_stick effect_send effect_send_after keeps_with extends)

lemma effect_run_collection_op:
  assumes "i < length (ops s)" "runnable i s"
  shows "effect i s (run_collection_op urls i c k s)"
  using assms runnable_not_over [OF assms(2)]
  by (auto simp: run_collection_op_def Let_def split: operation.split
      intro!: effect_settle effect_finish effect_send effect_send_after keeps_with extends)

lemma effect_continue: "i < length (ops s) \<Longrightarrow> effect i s (continue_op urls i s)"
  by (auto simp: continue_op_def Let_def runnable_def split: phase.split option.split target.split
      intro!: effect_settle effect_run_model_op effect_run_collection_op)

lemma effect_finish_after:
  "keeps s s1 \<Longrightarrow> i < length (ops s) \<Longrightarrow> op_phase (ops s ! i) \<noteq> Over \<Longrightarrow> p \<noteq> Pending \<Longrightarrow> effect i s (finish_op i p s1)"
  by (rule keeps_effect, assumption, rule effect_finish) (simp_all add: keeps_def [of s s1])

lemma effect_stick_after:
  "keeps s s1 \<Longrightarrow> i < length (ops s) \<Longrightarrow> op_phase (ops s ! i) \<noteq> Over \<Longrightarrow> effect i s (stick_op i s1)"
  by (rule keeps_effect, assumption, rule effect_stick) (simp_all add: keeps_def [of s s1])

lemma model_set_promises: "model_set idk v m = Inr m' \<Longrightarrow> m_promises m' = m_promises m"
  by (auto simp: model_set_def split: jsval.splits if_splits)

lemma extends_replace_model: "m_promises m' = m_promises (mheap r ! a) \<Longrightarrow> extends r (upd_model a (\<lambda>_. m') r)"
  by (auto simp: extends_def valid_def promises_of_def cache_ok_def upd_model_def same_after_replace [of m_promises] split: target.splits)

lemmas effect_after = effect_finish_after effect_stick_after effect_finish effect_stick

lemma effect_model_fetched:
  assumes "i < length (ops s)" "op_phase (ops s ! i) \<noteq> Over"
  shows "effect i s (model_fetched i a v s)"
proof (cases "model_set (idKey s) v (mheap s ! a)")
  case (Inr m)
  have "keeps s (with_resource (upd_model a (\<lambda>_. m\<lparr>m_synced := True, m_new := False\<rparr>)) s)"
    by (rule keeps_with, rule extends_replace_model) (simp add: model_set_promises [OF Inr])
  then show ?thesis using assms by (simp add: model_fetched_def Inr Let_def effect_finish_after)
qed (use assms in \<open>simp add: model_fetched_def effect_stick\<close>)

lemma effect_model_saved:
  assumes "i < length (ops s)" "op_phase (ops s ! i) \<noteq> Over" "valid (ModelAt a) s"
  shows "effect i s (model_saved i a v s)"
proof (cases "model_set (idKey s) v (mheap s ! a)")
  case (Inr m)
  let ?s1 = "with_resource (upd_model a (\<lambda>_. m)) s"
  have 1: "keeps s ?s1" by (rule keeps_with, rule extends_replace_model) (simp add: model_set_promises [OF Inr])
  have "keeps ?s1 (with_resource (\<lambda>r. fst (addModel a [] r)) ?s1)"
    by (rule keeps_with, rule extends_addModel) (use assms(3) in \<open>simp add: valid_def upd_model_def\<close>)
  then have 2: "keeps ?s1 (if b then with_resource (\<lambda>r. fst (addModel a [] r)) ?s1 else ?s1)" for b by simp
  have 3: "keeps x (with_resource (upd_model a (\<lambda>m. m\<lparr>m_synced := True, m_new := False\<rparr>)) x)" for x
    by (rule keeps_with, rule extends_upd_model) simp
  show ?thesis unfolding model_saved_def Inr sum.case Let_def
    by (rule effect_finish_after [OF keeps_trans [OF keeps_trans [OF 1 2] 3]]) (use assms in simp_all)
qed (use assms in \<open>simp add: model_saved_def effect_stick\<close>)

lemma effect_model_deleted:
  assumes "i < length (ops s)" "op_phase (ops s ! i) \<noteq> Over"
  shows "effect i s (model_deleted i a s)"
  unfolding model_deleted_def comp_def
  by (rule effect_finish_after [OF keeps_with]) (use assms in \<open>auto intro!: extends_trans [OF extends_removeModel extends_upd_model]\<close>)

lemma effect_results:
  assumes "i < length (ops s)" "op_phase (ops s ! i) \<noteq> Over" "\<And>r. extends r (f r)"
  shows "effect i s (case collection_set urls c v (clear_members c (resource.truncate s)) of
      (r', Some e) \<Rightarrow> stick_op i (with_resource (\<lambda>_. r') s)
    | (r', None) \<Rightarrow> finish_op i (Resolved (g r')) (with_resource (\<lambda>_. f r') s))"
proof -
  obtain r' e where x: "collection_set urls c v (clear_members c (resource.truncate s)) = (r', e)" by fastforce
  have "extends (resource.truncate s) r'"
    using extends_trans [OF extends_clear_members extends_collection_set [OF x]] .
  then have "keeps s (with_resource (\<lambda>_. r') s)" "keeps s (with_resource (\<lambda>_. f r') s)"
    using extends_trans [OF _ assms(3)] by (auto intro!: keeps_with_const)
  then show ?thesis using assms x by (auto split: option.split intro!: effect_stick_after effect_finish_after)
qed

lemma effect_collection_fetched:
  assumes "i < length (ops s)" "op_phase (ops s ! i) \<noteq> Over"
  shows "effect i s (collection_fetched urls i c v s)"
  using effect_results [OF assms, of "loaded c" "\<lambda>r. collection_data (loaded c r) c" urls c v]
    effect_results [OF assms, of "\<lambda>r. loaded c (upd_collection c (\<lambda>cl. cl\<lparr>metadata := Some md\<rparr>) r)"
      "\<lambda>r. collection_data (loaded c (upd_collection c (\<lambda>cl. cl\<lparr>metadata := Some md\<rparr>) r)) c" urls c for md]
    extends_trans [OF extends_upd_collection extends_loaded]
  by (simp add: collection_fetched_def Let_def extends_loaded effect_finish [OF assms])

lemma effect_collection_saved:
  assumes "i < length (ops s)" "op_phase (ops s ! i) \<noteq> Over"
  shows "effect i s (collection_saved urls i c v s)"
  using effect_results [OF assms, of "loaded c" "\<lambda>r. collection_data (loaded c r) c" urls c v]
  unfolding collection_saved_def Let_def by (simp add: extends_loaded effect_finish [OF assms])

lemma effect_collection_deleted:
  assumes "i < length (ops s)" "op_phase (ops s ! i) \<noteq> Over"
  shows "effect i s (collection_deleted i c s)"
  unfolding collection_deleted_def comp_def Let_def
  by (rule effect_finish_after [OF keeps_with])
    (use assms in \<open>auto intro!: extends_trans [OF extends_removeCollection extends_fold] extends_trans [OF extends_upd_model extends_removeModel]\<close>)

lemma effect_answer:
  assumes "i < length (ops s)" "valid (op_target (ops s ! i)) s"
  shows "effect i s (answer_op urls i ans s)"
  using assms
  by (auto simp: answer_op_def Let_def split: answer.split target.split operation.split
      intro!: effect_finish effect_model_fetched effect_model_saved effect_model_deleted effect_collection_fetched
        effect_collection_saved effect_collection_deleted)

section \<open>The invariant\<close>

definition api_inv :: "api \<Rightarrow> bool" where
  "api_inv s \<longleftrightarrow> cache_ok s \<and> (\<forall>x \<in> set (sent s). fst x < length (ops s))
     \<and> (\<forall>i < length (ops s). valid (op_target (ops s ! i)) s
          \<and> (op_promise (ops s ! i) = Pending \<longrightarrow> i \<in> set (promises_of (op_target (ops s ! i)) s))
          \<and> (op_phase (ops s ! i) \<noteq> Over \<longrightarrow> op_promise (ops s ! i) = Pending)
          \<and> (\<forall>j < i. op_target (ops s ! j) = op_target (ops s ! i) \<longrightarrow> op_promise (ops s ! j) = Pending \<longrightarrow>
               (case op_phase (ops s ! i) of Waiting ws \<Rightarrow> j \<in> set ws | Requested \<Rightarrow> False | Over \<Rightarrow> True)))"

lemma runnable_none_pending:
  "runnable i s \<Longrightarrow> op_phase (ops s ! i) = Waiting ws \<Longrightarrow> j \<in> set ws \<Longrightarrow> op_promise (ops s ! j) \<noteq> Pending"
  by (auto simp: runnable_def all_resolved_def list_all_iff split: promise.splits)

lemma inv_keeps: "api_inv s \<Longrightarrow> keeps s s' \<Longrightarrow> api_inv s'"
  unfolding api_inv_def keeps_def extends_def by fastforce

lemma effect_pending:
  assumes "api_inv s" "effect i s s'" "i < length (ops s)" "k < length (ops s)" "op_promise (ops s' ! k) = Pending"
  shows "op_promise (ops s ! k) = Pending" "promises_of t s' = promises_of t s \<or> k \<noteq> i \<or> \<not> valid t s"
  using assms by (cases "k = i"; auto simp: effect_def api_inv_def runnable_def)+

lemma inv_effect:
  assumes inv: "api_inv s" and i: "i < length (ops s)" and eff: "effect i s s'"
  shows "api_inv s'"
  unfolding api_inv_def
proof (intro conjI allI impI)
  show "cache_ok s'" using inv eff by (simp add: api_inv_def effect_def)
  show "\<forall>x \<in> set (sent s'). fst x < length (ops s')" using inv eff i by (auto simp: api_inv_def effect_def)
next
  fix k assume k: "k < length (ops s')"
  then have k': "k < length (ops s)" using eff by (simp add: effect_def)
  have t: "op_target (ops s' ! k) = op_target (ops s ! k)" using eff by (cases "k = i") (simp_all add: effect_def)
  have v: "valid (op_target (ops s ! k)) s" using inv k' by (simp add: api_inv_def)
  then show "valid (op_target (ops s' ! k)) s'" using eff unfolding t by (simp add: effect_def)
  { assume p: "op_promise (ops s' ! k) = Pending"
    then have "k \<in> set (promises_of (op_target (ops s ! k)) s)"
      using inv k' effect_pending(1) [OF inv eff i k' p] by (simp add: api_inv_def)
    moreover have "promises_of (op_target (ops s ! k)) s' = promises_of (op_target (ops s ! k)) s \<or>
        promises_of (op_target (ops s ! k)) s' = remove1 i (promises_of (op_target (ops s ! k)) s)"
      using eff v by (auto simp: effect_def)
    ultimately show "k \<in> set (promises_of (op_target (ops s' ! k)) s')"
      using effect_pending(2) [OF inv eff i k' p, of "op_target (ops s ! k)"] v unfolding t by auto }
  show "op_phase (ops s' ! k) \<noteq> Over \<Longrightarrow> op_promise (ops s' ! k) = Pending"
    using inv k' eff runnable_not_over [of i s] by (cases "k = i") (auto simp: api_inv_def effect_def)
  fix j assume j: "j < k" "op_target (ops s' ! j) = op_target (ops s' ! k)" "op_promise (ops s' ! j) = Pending"
  have j': "op_target (ops s ! j) = op_target (ops s ! k)" using j(2) eff t by (cases "j = i") (simp_all add: effect_def)
  have jp: "op_promise (ops s ! j) = Pending" using effect_pending(1) [OF inv eff i _ j(3)] j(1) k' by simp
  have "case op_phase (ops s ! k) of Waiting ws \<Rightarrow> j \<in> set ws | Requested \<Rightarrow> False | Over \<Rightarrow> True"
    using inv k' j(1) j' jp by (simp add: api_inv_def)
  then show "case op_phase (ops s' ! k) of Waiting ws \<Rightarrow> j \<in> set ws | Requested \<Rightarrow> False | Over \<Rightarrow> True"
    using eff runnable_none_pending [of k s _ j] jp
    by (cases "k = i") (auto simp: effect_def runnable_def split: phase.splits)
qed

lemma inv_start_op:
  assumes inv: "api_inv s" and v: "valid t s"
  shows "api_inv (start_op t k s)"
proof -
  let ?x = "\<lparr>op_target = t, op_kind = k, op_phase = Waiting (promises_of t s), op_promise = Pending\<rparr>"
  let ?s = "s\<lparr>ops := ops s @ [?x]\<rparr>"
  have f: "valid t' ?s = valid t' s" "promises_of t' ?s = promises_of t' s" "cache_ok ?s = cache_ok s" for t'
    by (simp_all add: valid_def promises_of_def cache_ok_def split: target.split)
  have p: "promises_of t' (start_op t k s) = (if t' = t then promises_of t s @ [length (ops s)] else promises_of t' s)"
    if "valid t' s" for t'
    using that by (simp add: start_op_def promises_of_set_promises f Let_def)
  have o: "ops (start_op t k s) = ops s @ [?x]" "sent (start_op t k s) = sent s" "valid t' (start_op t k s) = valid t' s" "cache_ok (start_op t k s) = cache_ok s" for t'
    by (simp_all add: start_op_def f Let_def)
  show ?thesis using inv v unfolding api_inv_def o
    by (auto simp: nth_append p less_Suc_eq)
qed

lemma inv_on_model: "api_inv s \<Longrightarrow> on_model urls i params e k s = Inr s' \<Longrightarrow> api_inv s'"
proof -
  assume inv: "api_inv s" and s': "on_model urls i params e k s = Inr s'"
  then obtain r a where x: "getModel urls i params e (resource.truncate s) = Inr (r, Some a)"
    "s' = start_op (ModelAt a) k (with_resource (\<lambda>_. r) s)"
    by (auto simp: on_model_def bind_result_Inr split: option.splits)
  have "keeps s (with_resource (\<lambda>_. r) s)" using extends_getModel [OF x(1)] by (intro keeps_with_const) simp
  moreover have "valid (ModelAt a) (with_resource (\<lambda>_. r) s)"
    using extends_getModel [OF x(1)] inv by (simp add: valid_def api_inv_def cache_ok_def)
  ultimately show ?thesis unfolding x(2) using inv by (intro inv_start_op) (auto intro: inv_keeps)
qed

lemma inv_on_collection: "api_inv s \<Longrightarrow> api_inv (on_collection urls params e d k s)"
proof -
  assume inv: "api_inv s"
  obtain r c where x: "getCollection urls params e d (resource.truncate s) = (r, c)" by fastforce
  have "keeps s (with_resource (\<lambda>_. r) s)" using extends_getCollection [OF x] by (intro keeps_with_const) simp
  moreover have "valid (CollectionAt c) (with_resource (\<lambda>_. r) s)"
    using extends_getCollection [OF x] inv by (simp add: valid_def api_inv_def cache_ok_def)
  ultimately show ?thesis unfolding on_collection_def x using inv by (auto intro!: inv_start_op intro: inv_keeps)
qed

lemma inv_new_and_save:
  assumes inv: "api_inv s" and x: "createModel urls v params [] (resource.truncate s) = Inr (r, a)"
  shows "api_inv (start_op (ModelAt a) k (with_resource (\<lambda>_. r) s))"
proof -
  have "keeps s (with_resource (\<lambda>_. r) s)" using extends_createModel [OF x] by (intro keeps_with_const) simp
  moreover have "valid (ModelAt a) (with_resource (\<lambda>_. r) s)"
    using extends_createModel [OF x] inv by (simp add: valid_def api_inv_def cache_ok_def)
  ultimately show ?thesis using inv by (intro inv_start_op) (auto intro: inv_keeps)
qed

lemma inv_api_call: "api_inv s \<Longrightarrow> call_api urls c s = Inr s' \<Longrightarrow> api_inv s'"
  by (cases c) (auto simp: call_api_def bind_result_Inr split: if_splits
      intro: inv_on_model inv_on_collection inv_new_and_save inv_keeps keeps_with extends)

lemma inv_valid: "api_inv s \<Longrightarrow> i < length (ops s) \<Longrightarrow> valid (op_target (ops s ! i)) s"
  by (simp add: api_inv_def)

lemma step_effect:
  "api_inv s \<Longrightarrow> i < length (ops s) \<Longrightarrow> e = Continue i \<or> e = Answer i ans \<Longrightarrow> effect i s (api_step urls s e)"
  using effect_continue [of i s urls] effect_answer [of i s urls ans] inv_valid [of s i] by (auto simp: api_step_def)

lemma api_step_inv: "api_inv s \<Longrightarrow> api_inv (api_step urls s e)"
proof (cases e)
  case (Call c)
  assume "api_inv s"
  with Call show ?thesis by (auto simp: api_step_def intro: inv_api_call split: sum.split)
next
  case (Continue i)
  assume "api_inv s"
  with Continue show ?thesis by (cases "i < length (ops s)") (auto intro: inv_effect step_effect, simp add: api_step_def)
next
  case (Answer i ans)
  assume "api_inv s"
  with Answer show ?thesis by (cases "i < length (ops s)") (auto intro: inv_effect step_effect, simp add: api_step_def)
qed

interpretation api_run: stepper "api_step urls" api_inv for urls
  by unfold_locales (rule api_step_inv)

lemma api_inv_init: "api_inv (init_api idk)"
  by (simp add: api_inv_def init_api_def cache_ok_def)

section \<open>After a rejection\<close>

text \<open>
  The promise of operation \<open>j\<close> is rejected and still among the promises of the target.  Then the
  operations from number \<open>n\<close> on wait for it and are rejected.
\<close>

definition stays_rejected :: "nat \<Rightarrow> target \<Rightarrow> api \<Rightarrow> bool" where
  "stays_rejected j t s \<longleftrightarrow> valid t s \<and> j < length (ops s) \<and> j \<in> set (promises_of t s)
     \<and> op_phase (ops s ! j) = Over \<and> reason (op_promise (ops s ! j)) \<noteq> None"

definition doomed :: "nat \<Rightarrow> nat \<Rightarrow> target \<Rightarrow> api \<Rightarrow> bool" where
  "doomed n j t s \<longleftrightarrow> (\<forall>i < length (ops s). n \<le> i \<longrightarrow> op_target (ops s ! i) = t \<longrightarrow>
       (case op_phase (ops s ! i) of Waiting ws \<Rightarrow> j \<in> set ws | Requested \<Rightarrow> False | Over \<Rightarrow> reason (op_promise (ops s ! i)) \<noteq> None))
     \<and> (\<forall>x \<in> set (sent s). fst x < length (ops s) \<and> (n \<le> fst x \<longrightarrow> op_target (ops s ! fst x) \<noteq> t))"

lemma stays_rejected_effect: "stays_rejected j t s \<Longrightarrow> effect i s s' \<Longrightarrow> stays_rejected j t s'"
proof -
  assume j: "stays_rejected j t s" and e: "effect i s s'"
  have o: "ops s' ! j = ops s ! j" using j e runnable_not_over [of i s] by (cases "j = i") (auto simp: effect_def stays_rejected_def)
  have "promises_of t s' = promises_of t s \<or> promises_of t s' = remove1 i (promises_of t s) \<and> i \<noteq> j"
    using j e by (auto simp: effect_def stays_rejected_def)
  then have "j \<in> set (promises_of t s')" using j by (auto simp: stays_rejected_def)
  then show ?thesis using j e o by (simp add: stays_rejected_def effect_def)
qed

lemma rejection_Some:
  assumes "j \<in> set ws" "reason (op_promise (ops s ! j)) \<noteq> None"
  shows "\<exists>e. rejection s ws = Some e"
proof (cases "find (\<lambda>j. reason (op_promise (ops s ! j)) \<noteq> None) ws")
  case (Some k)
  then have "reason (op_promise (ops s ! k)) \<noteq> None" by (auto simp: find_Some_iff)
  then show ?thesis using Some by (auto simp: rejection_def)
qed (use assms in \<open>auto simp: find_None_iff\<close>)

lemma doomed_other:
  assumes "doomed n j t s" "effect i s s'" "i < n \<or> op_target (ops s ! i) \<noteq> t" "i < length (ops s)"
  shows "doomed n j t s'"
proof -
  have "ops s' ! k = ops s ! k" if "n \<le> k" "op_target (ops s' ! k) = t" for k
    using assms(2,3) that by (cases "k = i") (auto simp: effect_def)
  moreover have "fst x = i \<or> x \<in> set (sent s)" if "x \<in> set (sent s')" for x
    using assms(2) that by (auto simp: effect_def)
  moreover have "op_target (ops s' ! k) = op_target (ops s ! k)" for k
    using assms(2) by (cases "k = i") (simp_all add: effect_def)
  ultimately show ?thesis using assms unfolding doomed_def effect_def
    by (metis linorder_not_le)
qed

lemma doomed_step_own:
  assumes d: "doomed n j t s" and j: "stays_rejected j t s" and i: "i < length (ops s)" "n \<le> i" "op_target (ops s ! i) = t"
    and e: "e = Continue i \<or> e = Answer i ans"
  shows "doomed n j t (api_step urls s e)"
proof (cases "op_phase (ops s ! i)")
  case (Waiting ws)
  then have "j \<in> set ws" using d i by (auto simp: doomed_def)
  then obtain r where r: "rejection s ws = Some r" using rejection_Some j by (metis stays_rejected_def)
  have "doomed n j t (settle_op i (Rejected r) s)"
    using d i by (auto simp: doomed_def settle_op_def upd_op_def nth_list_update reason_def cong: phase.case_cong)
  then show ?thesis using e i Waiting r d by (auto simp: api_step_def continue_op_def answer_op_def)
next
  case Requested
  then show ?thesis using d i by (auto simp: doomed_def)
next
  case Over
  then show ?thesis using e i d by (auto simp: api_step_def continue_op_def answer_op_def)
qed

lemma keeps_doomed: "keeps s s' \<Longrightarrow> doomed n j t s \<Longrightarrow> doomed n j t s'"
  by (simp add: keeps_def doomed_def cong: phase.case_cong)

lemma keeps_stays_rejected: "keeps s s' \<Longrightarrow> stays_rejected j t s \<Longrightarrow> stays_rejected j t s'"
  by (simp add: keeps_def stays_rejected_def extends_def)

lemma start_op_facts:
  "ops (start_op t k s) = ops s @ [\<lparr>op_target = t, op_kind = k, op_phase = Waiting (promises_of t s), op_promise = Pending\<rparr>]"
  "sent (start_op t k s) = sent s" "valid t' (start_op t k s) = valid t' s"
  "valid t' s \<Longrightarrow> set (promises_of t' s) \<subseteq> set (promises_of t' (start_op t k s))"
proof -
  let ?s = "s\<lparr>ops := ops s @ [\<lparr>op_target = t, op_kind = k, op_phase = Waiting (promises_of t s), op_promise = Pending\<rparr>]\<rparr>"
  have "valid t' ?s = valid t' s" "promises_of t' ?s = promises_of t' s" for t'
    by (simp_all add: valid_def promises_of_def split: target.split)
  then show "valid t' (start_op t k s) = valid t' s"
    "valid t' s \<Longrightarrow> set (promises_of t' s) \<subseteq> set (promises_of t' (start_op t k s))"
    by (auto simp: start_op_def promises_of_set_promises Let_def)
qed (simp_all add: start_op_def Let_def)

lemma start_stays_rejected: "stays_rejected j t s \<Longrightarrow> stays_rejected j t (start_op t' k s)"
  using start_op_facts(4) [of t s t' k] by (auto simp: stays_rejected_def start_op_facts(1-3) nth_append)

lemma start_doomed: "doomed n j t s \<Longrightarrow> stays_rejected j t s \<Longrightarrow> doomed n j t (start_op t' k s)"
  by (auto simp: doomed_def start_op_facts(1-3) nth_append stays_rejected_def less_Suc_eq cong: phase.case_cong)

text \<open>Every call either only changes the resource or starts an operation after that.\<close>

definition starts :: "api \<Rightarrow> api \<Rightarrow> bool" where
  "starts s s' \<longleftrightarrow> (\<exists>s1 t k. keeps s s1 \<and> s' = start_op t k s1)"

lemma starts_on_model: "on_model urls i params e k s = Inr s' \<Longrightarrow> starts s s'"
  unfolding starts_def on_model_def
  by (auto simp: bind_result_Inr split: option.splits dest!: extends_getModel intro!: exI keeps_with_const)

lemma starts_on_collection: "starts s (on_collection urls params e d k s)"
proof -
  obtain r c where x: "getCollection urls params e d (resource.truncate s) = (r, c)" by fastforce
  have "keeps s (with_resource (\<lambda>_. r) s)" using extends_getCollection [OF x] by (intro keeps_with_const) simp
  then show ?thesis unfolding starts_def on_collection_def x by auto
qed

lemma starts_new: "createModel urls v params [] (resource.truncate s) = Inr (r, a) \<Longrightarrow> starts s (start_op (ModelAt a) k (with_resource (\<lambda>_. r) s))"
  unfolding starts_def by (auto dest!: extends_createModel intro!: exI keeps_with_const)

lemma call_cases: "call_api urls c s = Inr s' \<Longrightarrow> keeps s s' \<or> starts s s'"
  by (cases c) (auto simp: call_api_def bind_result_Inr starts_on_collection split: if_splits
      dest: starts_on_model starts_new [where k = "SaveModel None False"] intro: keeps_with extends)

lemma doomed_step:
  assumes inv: "api_inv s" and j: "stays_rejected j t s" and d: "doomed n j t s"
  shows "stays_rejected j t (api_step urls s e) \<and> doomed n j t (api_step urls s e)"
proof (cases e)
  case (Call c)
  show ?thesis
  proof (cases "call_api urls c s")
    case (Inr s')
    then show ?thesis using call_cases [OF Inr] j d Call
      by (auto simp: api_step_def starts_def intro: keeps_doomed keeps_stays_rejected start_doomed start_stays_rejected)
  qed (use Call j d in \<open>simp add: api_step_def\<close>)
next
  case (Continue i)
  show ?thesis
  proof (cases "i < length (ops s)")
    case True
    have eff: "effect i s (api_step urls s e)" by (rule step_effect [OF inv True]) (simp add: Continue)
    show ?thesis using stays_rejected_effect [OF j eff] doomed_other [OF d eff] doomed_step_own [OF d j True, of e] True Continue
      by (cases "n \<le> i \<and> op_target (ops s ! i) = t") auto
  qed (use Continue j d in \<open>simp add: api_step_def\<close>)
next
  case (Answer i ans)
  show ?thesis
  proof (cases "i < length (ops s)")
    case True
    have eff: "effect i s (api_step urls s e)" by (rule step_effect [OF inv True]) (simp add: Answer)
    show ?thesis using stays_rejected_effect [OF j eff] doomed_other [OF d eff] doomed_step_own [OF d j True, of e ans] True Answer
      by (cases "n \<le> i \<and> op_target (ops s ! i) = t") auto
  qed (use Answer j d in \<open>simp add: api_step_def\<close>)
qed

lemma doomed_run:
  "api_inv s \<Longrightarrow> stays_rejected j t s \<Longrightarrow> doomed n j t s \<Longrightarrow> doomed n j t (foldl (api_step urls) s es)"
  by (induction es arbitrary: s) (auto simp: doomed_step api_step_inv)

section \<open>Keys\<close>

lemma obj_get_fold_set_keys:
  "obj_get (fold (\<lambda>k m. obj_set k (f k) m) ks m) j = (if j \<in> set ks then Some (f j) else obj_get m j)"
  by (induction ks arbitrary: m) auto

lemma sort_obj_keys:
  assumes "obj_wf m" "obj_wf n" "\<And>k. obj_get m k = None \<longleftrightarrow> obj_get n k = None"
  shows "sort (obj_keys m) = sort (obj_keys n)"
proof -
  have "set (obj_keys m) = set (obj_keys n)" using assms(3) by (simp add: set_obj_keys)
  then show ?thesis using assms(1,2)
    by (metis distinct_obj_keys distinct_sort sorted_distinct_set_unique set_sort sorted_sort)
qed

lemma obj_wf_merge [simp]: "obj_wf m \<Longrightarrow> obj_wf (fold (\<lambda>p m. obj_assign m p) ps m)"
  by (induction ps arbitrary: m) auto

lemma cacheKey_eq:
  assumes "\<And>k. obj_get (fold (\<lambda>p m. obj_assign m p) ps []) k = None \<longleftrightarrow> obj_get (fold (\<lambda>p m. obj_assign m p) qs []) k = None"
    and "\<And>k. k \<noteq> idk \<Longrightarrow> attr (fold (\<lambda>p m. obj_assign m p) ps []) k = attr (fold (\<lambda>p m. obj_assign m p) qs []) k"
    and "js_string (attr (fold (\<lambda>p m. obj_assign m p) ps []) idk) = js_string (attr (fold (\<lambda>p m. obj_assign m p) qs []) idk)"
  shows "cacheKey idk ps = cacheKey idk qs"
proof -
  have "(if k = idk then JStr (js_string (attr (fold (\<lambda>p m. obj_assign m p) ps []) k)) else attr (fold (\<lambda>p m. obj_assign m p) ps []) k)
      = (if k = idk then JStr (js_string (attr (fold (\<lambda>p m. obj_assign m p) qs []) k)) else attr (fold (\<lambda>p m. obj_assign m p) qs []) k)" for k
    using assms(2,3) by simp
  moreover have "sort (obj_keys (fold (\<lambda>p m. obj_assign m p) ps [])) = sort (obj_keys (fold (\<lambda>p m. obj_assign m p) qs []))"
    by (rule sort_obj_keys) (simp_all add: assms(1))
  ultimately show ?thesis unfolding cacheKey_def Let_def by presburger
qed

lemma cacheKey_same_params:
  assumes "obj_wf p" "obj_wf q" "\<And>k. obj_get p k = obj_get q k" "js_string i = js_string i'"
  shows "cacheKey idk [[(idk, i)], p] = cacheKey idk [[(idk, i')], q]"
proof (rule cacheKey_eq)
  have one: "obj_get (obj_assign [] [(idk, x)]) k = (if k = idk then Some x else None)" for k and x :: jsval
    by (cases "is_index idk") (auto simp: obj_assign_def obj_entries_def obj_keys_def obj_get_def obj_set_def)
  have g: "obj_get (fold (\<lambda>p m. obj_assign m p) [[(idk, x)], w] []) k = (case obj_get w k of Some v \<Rightarrow> Some v | None \<Rightarrow> if k = idk then Some x else None)"
    if "obj_wf w" for x :: jsval and k w using that by (cases "obj_get w k") (simp_all add: one obj_get_assign)
  show "obj_get (fold (\<lambda>p m. obj_assign m p) [[(idk, i)], p] []) k = None \<longleftrightarrow> obj_get (fold (\<lambda>p m. obj_assign m p) [[(idk, i')], q] []) k = None" for k
    using assms by (simp only: g) (simp split: option.split)
  show "k \<noteq> idk \<Longrightarrow> attr (fold (\<lambda>p m. obj_assign m p) [[(idk, i)], p] []) k = attr (fold (\<lambda>p m. obj_assign m p) [[(idk, i')], q] []) k" for k
    using assms by (simp only: g attr_def) (simp split: option.split)
  show "js_string (attr (fold (\<lambda>p m. obj_assign m p) [[(idk, i)], p] []) idk) = js_string (attr (fold (\<lambda>p m. obj_assign m p) [[(idk, i')], q] []) idk)"
    using assms by (simp only: g attr_def) (simp split: option.split)
qed

section \<open>Properties\<close>

text \<open>
  C14. Requests of one target never overlap.  In every state the calls, answers and continuations can
  reach, an operation with a request under way is the only one of its model or collection, and
  everything called before it on the same model or collection is settled.
\<close>

theorem requests_never_overlap:
  assumes s: "s = foldl (api_step urls) (init_api idk) es"
    and i: "i < length (ops s)" "op_phase (ops s ! i) = Requested"
    and j: "j < length (ops s)" "op_target (ops s ! j) = op_target (ops s ! i)"
  shows "(op_phase (ops s ! j) = Requested \<longrightarrow> j = i) \<and> (j < i \<longrightarrow> op_promise (ops s ! j) \<noteq> Pending)"
proof -
  have inv: "api_inv s" unfolding s by (rule api_run.run_inv [OF api_inv_init])
  have p: "op_phase (ops s ! k) = Requested \<Longrightarrow> k < length (ops s) \<Longrightarrow> op_promise (ops s ! k) = Pending" for k
    using inv by (simp add: api_inv_def)
  have before: "case op_phase (ops s ! l) of Waiting ws \<Rightarrow> k \<in> set ws | Requested \<Rightarrow> False | Over \<Rightarrow> True"
    if "k < l" "l < length (ops s)" "op_target (ops s ! k) = op_target (ops s ! l)" "op_promise (ops s ! k) = Pending" for k l
    using inv that unfolding api_inv_def by blast
  have *: "\<not> k < l" if "k < length (ops s)" "l < length (ops s)" "op_phase (ops s ! l) = Requested"
    "op_target (ops s ! k) = op_target (ops s ! l)" "op_promise (ops s ! k) = Pending" for k l
    using before [of k l] that by auto
  show ?thesis using * [OF j(1) i] * [OF i(1) j(1)] p i j by (metis linorder_neqE_nat)
qed

definition demo_urls :: "string \<Rightarrow> jsval \<Rightarrow> string" where
  "demo_urls name i = name @ ''/'' @ js_string i"

definition twice_fetched :: "api_event list" where
  "twice_fetched = [Call (CallFetchModel (JStr ''x'') [] False), Call (CallFetchModel (JStr ''x'') [] False), Continue 0, Continue 1]"

lemma requests_never_overlap_witness:
  "op_phase (ops (foldl (api_step demo_urls) (init_api ''id'') twice_fetched) ! 1) \<noteq> Requested"
proof -
  let ?s = "foldl (api_step demo_urls) (init_api ''id'') twice_fetched"
  have l: "length (ops ?s) = 2" "op_phase (ops ?s ! 0) = Requested" "op_target (ops ?s ! 1) = op_target (ops ?s ! 0)" by code_simp+
  then show ?thesis using requests_never_overlap [OF refl, of 0 demo_urls "''id''" twice_fetched 1] by simp
qed

text \<open>
  A rejection that stays is for ever.  When a settled, rejected promise is still among the
  promises of a model or collection, no operation started on it from then on ever sends a request
  or is resolved, whatever happens.  Operations that were queued behind a failing one leave such a
  promise, and so does deleting a model without an id, because only the request handlers remove
  their promise.
\<close>

theorem rejection_is_for_ever:
  assumes s: "s = foldl (api_step urls) (init_api idk) es" and j: "stays_rejected j t s"
    and s': "s' = foldl (api_step urls) s fs"
    and i: "length (ops s) \<le> i" "i < length (ops s')" "op_target (ops s' ! i) = t"
  shows "op_promise (ops s' ! i) \<noteq> Resolved v \<and> i \<notin> fst ` set (sent s')"
proof -
  have inv: "api_inv s" unfolding s by (rule api_run.run_inv [OF api_inv_init])
  have inv': "api_inv s'" unfolding s' by (rule api_run.run_inv [OF inv])
  have "doomed (length (ops s)) j t s" using inv by (auto simp: doomed_def api_inv_def)
  then have d: "doomed (length (ops s)) j t s'" unfolding s' by (rule doomed_run [OF inv j])
  then have "op_phase (ops s' ! i) = Over \<Longrightarrow> reason (op_promise (ops s' ! i)) \<noteq> None" using i by (auto simp: doomed_def)
  moreover have "op_phase (ops s' ! i) \<noteq> Over \<Longrightarrow> op_promise (ops s' ! i) = Pending" using inv' i by (simp add: api_inv_def)
  ultimately have "op_promise (ops s' ! i) \<noteq> Resolved v" by (cases "op_phase (ops s' ! i) = Over") (auto simp: reason_def)
  then show ?thesis using d i by (auto simp: doomed_def)
qed

lemma rejection_witness:
  "op_promise (ops (foldl (api_step demo_urls) (init_api ''id'') (twice_fetched @ [Answer 0 (Failure JNull), Continue 1,
     Call (CallFetchModel (JStr ''x'') [] True), Continue 2])) ! 2) \<noteq> Resolved JNull"
proof -
  let ?es = "twice_fetched @ [Answer 0 (Failure JNull), Continue 1]"
  let ?fs = "[Call (CallFetchModel (JStr ''x'') [] True), Continue 2]"
  let ?s = "foldl (api_step demo_urls) (init_api ''id'') ?es"
  have l: "stays_rejected 1 (ModelAt 0) ?s" "length (ops ?s) = 2" "length (ops (foldl (api_step demo_urls) ?s ?fs)) = 3"
    "op_target (ops (foldl (api_step demo_urls) ?s ?fs) ! 2) = ModelAt 0" by code_simp+
  then show ?thesis using rejection_is_for_ever [OF refl l(1) refl, of 2 ?fs JNull] by simp
qed

text \<open>
  C15. A fetched model is served from the cache.  When the answer to a fetch arrives and nothing else
  is queued, the promise is resolved with the old attributes overwritten by those of the answer,
  the id as a string, and a further fetch is resolved with the same data without a request.
\<close>

theorem fetched_model_is_cached:
  assumes "i < length (ops s)" "op_phase (ops s ! i) = Requested" "op_target (ops s ! i) = ModelAt a"
    "op_kind (ops s ! i) = FetchModel f" "promises_of (ModelAt a) s = [i]" "a < length (mheap s)"
  shows "let s1 = api_step urls s (Answer i (Success (JObj d)));
             data = JObj (obj_assign (attributes (mheap s ! a)) (string_id (idKey s) d));
             s2 = api_step urls (start_op (ModelAt a) (FetchModel False) s1) (Continue (length (ops s)))
         in op_promise (ops s1 ! i) = Resolved data \<and> op_promise (ops s2 ! length (ops s)) = Resolved data \<and> sent s2 = sent s"
proof -
  let ?m = "(mheap s ! a)\<lparr>attributes := obj_assign (attributes (mheap s ! a)) (string_id (idKey s) d), m_synced := True, m_new := False\<rparr>"
  let ?s1 = "api_step urls s (Answer i (Success (JObj d)))"
  let ?s2 = "start_op (ModelAt a) (FetchModel False) ?s1"
  have s1: "?s1 = finish_op i (Resolved (model_data ?m)) (with_resource (upd_model a (\<lambda>_. ?m)) s)"
    using assms unfolding api_step_def answer_op_def model_fetched_def model_set_def Let_def by simp
  have h: "mheap ?s1 ! a = ?m\<lparr>m_promises := []\<rparr>" "length (ops ?s1) = length (ops s)" "sent ?s1 = sent s"
      "op_promise (ops ?s1 ! i) = Resolved (model_data ?m)" "a < length (mheap ?s1)"
    using assms unfolding s1
    by (simp_all add: finish_op_def settle_op_def set_promises_def upd_model_def promises_of_def upd_op_def)
  have s2: "ops ?s2 ! length (ops s) = \<lparr>op_target = ModelAt a, op_kind = FetchModel False, op_phase = Waiting [], op_promise = Pending\<rparr>"
    "length (ops ?s2) = Suc (length (ops s))" "sent ?s2 = sent s" "m_synced (mheap ?s2 ! a)" "model_data (mheap ?s2 ! a) = model_data ?m"
    using h by (simp_all add: start_op_def Let_def nth_append promises_of_def set_promises_def upd_model_def model_data_def)
  have "api_step urls ?s2 (Continue (length (ops s))) = settle_op (length (ops s)) (Resolved (model_data ?m)) ?s2"
    using s2 by (simp add: api_step_def continue_op_def rejection_def all_resolved_def run_model_op_def)
  then show ?thesis using h s2 by (simp add: Let_def settle_op_def model_data_def)
qed

lemma fetched_model_witness:
  "\<exists>v. op_promise (ops (foldl (api_step demo_urls) (init_api ''id'') [Call (CallFetchModel (JStr ''x'') [] False), Continue 0,
     Answer 0 (Success (JObj [(''id'', jint 7), (''t'', JNull)]))]) ! 0) = Resolved v"
proof -
  let ?s = "foldl (api_step demo_urls) (init_api ''id'') [Call (CallFetchModel (JStr ''x'') [] False), Continue 0]"
  have "0 < length (ops ?s)" "op_phase (ops ?s ! 0) = Requested" "op_target (ops ?s ! 0) = ModelAt 0"
    "op_kind (ops ?s ! 0) = FetchModel False" "promises_of (ModelAt 0) ?s = [0]" "0 < length (mheap ?s)" by code_simp+
  from fetched_model_is_cached [OF this, of demo_urls "[(''id'', jint 7), (''t'', JNull)]"]
  show ?thesis by (auto simp: Let_def)
qed

text \<open>
  C16. The same parameters give the same model.  After a model was got, getting one with an id that
  reads the same and parameters with the same values, in whatever order, returns the same model
  and changes nothing.
\<close>

theorem same_params_same_model:
  assumes "getModel urls i p endpoint r = Inr (r', Some a)"
    and "obj_wf p" "obj_wf q" "\<And>k. obj_get p k = obj_get q k" "js_string i = js_string i'"
  shows "getModel urls i' q endpoint r' = Inr (r', Some a)"
proof -
  have key: "cacheKey idk [[(idk, i')], q] = cacheKey idk [[(idk, i)], p]" for idk
    by (rule cacheKey_same_params) (use assms in simp_all)
  have "lookup_cache (models r') endpoint (cacheKey (idKey r) [[(idKey r, i)], p]) = Some a"
    using assms(1) by (auto simp: getModel_def Let_def bind_result_Inr split: option.splits)
  moreover have "idKey r' = idKey r"
    using assms(1) by (auto simp: getModel_def createModel_def addModel_def merge_model_def upd_model_def Let_def bind_result_Inr
        split: option.splits if_splits)
  ultimately show ?thesis by (simp add: getModel_def Let_def key)
qed

lemma same_model_witness:
  "\<exists>r' a. getModel demo_urls (jint 5) [(''a'', JNull), (''b'', JStr ''x'')] [] (resource.truncate (init_api ''id'')) = Inr (r', Some a)
     \<and> getModel demo_urls (JStr ''5'') [(''b'', JStr ''x''), (''a'', JNull)] [] r' = Inr (r', Some a)"
proof -
  let ?g = "getModel demo_urls (jint 5) [(''a'', JNull), (''b'', JStr ''x'')] [] (resource.truncate (init_api ''id''))"
  have "map_sum id snd ?g = Inr (Some 0)" by code_simp
  then obtain r' where g: "?g = Inr (r', Some 0)" by (cases ?g) auto
  have "js_string (jint 5) = js_string (JStr ''5'')" by code_simp
  from same_params_same_model [OF g _ _ _ this, of "[(''b'', JStr ''x''), (''a'', JNull)]"] g
  show ?thesis by (auto simp: obj_wf_def obj_get_def)
qed

lemma payload_get:
  assumes "obj_wf as"
  shows "obj_get (fold (\<lambda>(k, v). obj_set k v) (filter (\<lambda>(k, v). P k v) (obj_entries as)) []) k =
     (case obj_get as k of Some v \<Rightarrow> if P k v then Some v else None | None \<Rightarrow> None)"
proof -
  let ?xs = "filter (\<lambda>(k, v). P k v) (obj_entries as)"
  have d: "distinct (map fst ?xs)" using assms by (simp add: distinct_map_filter)
  have eq: "(\<lambda>(k, v). obj_set k v) = (\<lambda>x :: string \<times> 'a. obj_set (fst x) (snd x))" by auto
  show ?thesis
  proof (cases "obj_get (fold (\<lambda>(k, v). obj_set k v) ?xs []) k")
    case None
    then have "k \<notin> fst ` set ?xs" unfolding eq by (metis jobj.get_fold_set_None)
    then show ?thesis using None by (auto simp: set_obj_entries image_iff split: option.split)
  next
    case (Some v)
    then have "k \<in> fst ` set ?xs" unfolding eq by (metis jobj.get_fold_set_None obj_get_empty option.distinct(1))
    then obtain w where "(k, w) \<in> set ?xs" by auto
    then show ?thesis using jobj.get_fold_set_distinct [OF d, of "(k, w)" snd "[]"] by (simp add: eq set_obj_entries)
  qed
qed

text \<open>
  C17. Saving sends what changed.  On a model known to be that of the server, and with nothing queued
  before it, a save whose attributes all equal the model's is resolved at once without a request;
  otherwise it sends one request with exactly the attributes that differ, by \<open>patch\<close> if the model
  exists and by \<open>post\<close> if it does not.
\<close>

theorem save_sends_changes:
  assumes "i < length (ops s)" "ops s ! i = \<lparr>op_target = ModelAt a, op_kind = SaveModel (Some as) exists, op_phase = Waiting [], op_promise = Pending\<rparr>"
    and "m_synced (mheap s ! a)" "obj_wf as"
  shows "let s' = api_step urls s (Continue i); cur = attributes (mheap s ! a) in
     if \<forall>k v. obj_get as k = Some v \<longrightarrow> is_equal v (attr cur k)
     then op_promise (ops s' ! i) = Resolved (JObj cur) \<and> sent s' = sent s
     else \<exists>payload. (\<forall>k. obj_get payload k = (case obj_get as k of
              Some v \<Rightarrow> if is_equal v (attr cur k) then None else Some v | None \<Rightarrow> None))
       \<and> op_promise (ops s' ! i) = Pending
       \<and> sent s' = sent s @ [(i, if m_new (mheap s ! a) \<and> \<not> exists
           then \<lparr>rq_method = ''post'', rq_url = collection_url urls, rq_data = JObj payload, rq_params = getParams (mheap s ! a)\<rparr>
           else \<lparr>rq_method = ''patch'', rq_url = the_url urls s a, rq_data = JObj payload, rq_params = getParams (mheap s ! a)\<rparr>)]"
proof -
  let ?m = "mheap s ! a"
  let ?same = "\<lambda>k v. is_equal v (attr (attributes ?m) k)"
  obtain p where p: "save_payload ?m (Some as) = Inr p"
    and get: "\<And>k. obj_get p k = (case obj_get as k of Some v \<Rightarrow> if ?same k v then None else Some v | None \<Rightarrow> None)"
  proof
    let ?p = "fold (\<lambda>(k, v). obj_set k v) (filter (\<lambda>(k, v). \<not> ?same k v) (obj_entries as)) []"
    show "save_payload ?m (Some as) = Inr ?p" using assms(3) by (simp add: save_payload_def)
    show "obj_get ?p k = (case obj_get as k of Some v \<Rightarrow> if ?same k v then None else Some v | None \<Rightarrow> None)" for k
      unfolding payload_get [OF assms(4)] by (simp split: option.split)
  qed
  have empty: "p = [] \<longleftrightarrow> (\<forall>k v. obj_get as k = Some v \<longrightarrow> ?same k v)" (is "_ \<longleftrightarrow> ?all")
  proof -
    have "p = [] \<longleftrightarrow> (\<forall>k. obj_get p k = None)" by (cases p) (auto simp: obj_get_def)
    also have "\<dots> \<longleftrightarrow> ?all" unfolding get by (simp split: option.split) blast
    finally show ?thesis .
  qed
  have run: "api_step urls s (Continue i) = run_model_op urls i a (SaveModel (Some as) exists) s"
    using assms(1,2) by (simp add: api_step_def continue_op_def rejection_def all_resolved_def)
  show ?thesis
  proof (cases "p = []")
    case True
    then have "api_step urls s (Continue i) = settle_op i (Resolved (model_data ?m)) s"
      unfolding run run_model_op_def Let_def by (simp add: p)
    then show ?thesis using True assms(1) empty by (simp add: Let_def settle_op_def model_data_def)
  next
    case False
    have pend: "op_promise (ops (send_request i rq (with_resource f s)) ! i) = Pending"
      "sent (send_request i rq (with_resource f s)) = sent s @ [(i, rq)]" for rq f
      using assms(1,2) by (simp_all add: send_request_def)
    have step: "api_step urls s (Continue i) = send_request i (if m_new ?m \<and> \<not> exists
           then \<lparr>rq_method = ''post'', rq_url = collection_url urls, rq_data = JObj p, rq_params = getParams ?m\<rparr>
           else \<lparr>rq_method = ''patch'', rq_url = the_url urls s a, rq_data = JObj p, rq_params = getParams ?m\<rparr>)
         (with_resource (upd_model a (\<lambda>m. m\<lparr>m_synced := False\<rparr>)) s)"
      unfolding run run_model_op_def Let_def using False by (simp add: p)
    from False have "\<not> ?all" using empty by simp
    then show ?thesis unfolding Let_def step pend if_not_P [OF \<open>\<not> ?all\<close>] using get by blast
  qed
qed

lemma save_witness:
  "map (rq_method \<circ> snd) (sent (foldl (api_step demo_urls) (init_api ''id'') [Call (CallFetchModel (JStr ''x'') [] False), Continue 0,
     Answer 0 (Success (JObj [(''id'', JStr ''x''), (''t'', JNull)])), Call (CallSaveModel (JStr ''x'') [] (JObj [(''t'', JNull), (''u'', JNull)]) False),
     Continue 1])) = [''get'', ''patch'']"
proof -
  let ?s = "foldl (api_step demo_urls) (init_api ''id'') [Call (CallFetchModel (JStr ''x'') [] False), Continue 0,
     Answer 0 (Success (JObj [(''id'', JStr ''x''), (''t'', JNull)])), Call (CallSaveModel (JStr ''x'') [] (JObj [(''t'', JNull), (''u'', JNull)]) False)]"
  have 1: "1 < length (ops ?s)" "ops ?s ! 1 = \<lparr>op_target = ModelAt 0, op_kind = SaveModel (Some [(''t'', JNull), (''u'', JNull)]) False,
      op_phase = Waiting [], op_promise = Pending\<rparr>" "m_synced (mheap ?s ! 0)" "obj_wf [(''t'', JNull), (''u'', JNull)]" by code_simp+
  have 2: "map (rq_method \<circ> snd) (sent ?s) = [''get'']" "m_new (mheap ?s ! 0) = False"
    "\<not> is_equal JNull (attr (attributes (mheap ?s ! 0)) ''u'')" by code_simp+
  have 3: "\<not> (\<forall>k v. obj_get [(''t'', JNull), (''u'', JNull)] k = Some v \<longrightarrow> is_equal v (attr (attributes (mheap ?s ! 0)) k))"
    using 2(3) by (auto simp: obj_get_def intro!: exI [of _ "''u''"])
  from save_sends_changes [OF 1, of demo_urls, unfolded Let_def if_not_P [OF 3]] 2
  show ?thesis by (auto simp: 2(1))
qed

text \<open>
  A deleted model is gone.  When the answer to a delete request arrives, the promise is resolved with
  the id, the model is no longer found under its id, every collection that holds it counts as out
  of date and lists only the other models.
\<close>

theorem deleted_model_is_gone:
  assumes "i < length (ops s)" "op_phase (ops s ! i) = Requested" "op_target (ops s ! i) = ModelAt a"
    and "op_kind (ops s ! i) = DeleteModel" "a < length (mheap s)"
  shows "let s' = api_step urls s (Answer i (Success v)); m = mheap s ! a in
     op_promise (ops s' ! i) = Resolved (model_id (idKey s) m)
     \<and> lookup_cache (models s') [] (cacheKey (idKey s) [[(idKey s, model_id (idKey s) m)], getParams m]) = None
     \<and> cheap s' = cheap s
     \<and> (a \<in> set (members (cheap s ! c)) \<longrightarrow> \<not> collection_synced (resource.truncate s') c)
     \<and> (metadata (cheap s ! c) = None \<longrightarrow> collection_data (resource.truncate s') c
          = js_array (map model_data (filter (\<lambda>m. \<not> m_deleted m) (map (\<lambda>b. mheap s ! b) (filter (\<lambda>b. b \<noteq> a) (members (cheap s ! c)))))))"
proof -
  let ?m = "mheap s ! a"
  obtain s' where s': "s' = api_step urls s (Answer i (Success v))" by simp
  have e: "s' = model_deleted i a s" using assms by (simp add: s' api_step_def answer_op_def)
  have h: "op_promise (ops s' ! i) = Resolved (model_id (idKey s) ?m)" "cheap s' = cheap s"
    "models s' = drop_cache [] (cacheKey (idKey s) [[(idKey s, model_id (idKey s) ?m)], getParams ?m]) (models s)"
    "mheap s' = (mheap s)[a := ?m\<lparr>m_deleted := True, m_synced := False, m_new := True, m_promises := remove1 i (m_promises ?m)\<rparr>]"
    using assms unfolding e
    by (simp_all add: model_deleted_def finish_op_def settle_op_def upd_op_def set_promises_def removeModel_def upd_model_def Let_def)
  have "map model_data (filter (\<lambda>m. \<not> m_deleted m) (map (\<lambda>b. mheap s' ! b) bs))
      = map model_data (filter (\<lambda>m. \<not> m_deleted m) (map (\<lambda>b. mheap s ! b) (filter (\<lambda>b. b \<noteq> a) bs)))" for bs
    using assms(5) by (induction bs) (auto simp: h(4))
  then have "metadata (cheap s ! c) = None \<Longrightarrow> collection_data (resource.truncate s') c
      = js_array (map model_data (filter (\<lambda>m. \<not> m_deleted m) (map (\<lambda>b. mheap s ! b) (filter (\<lambda>b. b \<noteq> a) (members (cheap s ! c))))))"
    by (simp add: collection_data_def Let_def h(2))
  moreover have "a \<in> set (members (cheap s ! c)) \<Longrightarrow> \<not> collection_synced (resource.truncate s') c"
    using assms(5) by (auto simp: collection_synced_def h list_all_iff intro!: bexI [of _ a])
  ultimately show ?thesis unfolding Let_def s' [symmetric] by (simp add: h(1-3))
qed

lemma deleted_model_witness:
  "op_promise (ops (api_step demo_urls (foldl (api_step demo_urls) (init_api ''id'') [Call (CallDeleteModel (JStr ''x'') []), Continue 0])
     (Answer 0 (Success JNull))) ! 0) = Resolved (JStr ''x'')"
proof -
  let ?s = "foldl (api_step demo_urls) (init_api ''id'') [Call (CallDeleteModel (JStr ''x'') []), Continue 0]"
  have 1: "0 < length (ops ?s)" "op_phase (ops ?s ! 0) = Requested" "op_target (ops ?s ! 0) = ModelAt 0"
    "op_kind (ops ?s ! 0) = DeleteModel" "0 < length (mheap ?s)" by code_simp+
  have "model_id (idKey ?s) (mheap ?s ! 0) = JStr ''x''" by code_simp
  then show ?thesis using deleted_model_is_gone [OF 1, of demo_urls JNull] unfolding Let_def by (simp only:)
qed

end
