(* ===== verification/Xapi_Schema.thy ===== *)
theory Xapi_Schema
  imports Js_Value
begin

text \<open>
  \<open>packages/hashi/src/xAPI/xAPISchema.js\<close> and \<open>xAPIConstants.js\<close>: the validation and cleaning of xAPI
  statements.  The libraries the validators ask (language codes, IRIs, durations, time stamps, UUIDs)
  are the parameter \<open>xlib\<close>; \<open>uuid\<close> in it is the id made for a statement without one.  A validator is a
  constructor with its test and its message; a schema is a constructor with its specification.
\<close>

section \<open>Constants\<close>

definition ObjectTypeChoices :: "string list" where
  "ObjectTypeChoices = [''Agent'', ''Group'', ''Activity'', ''StatementRef'', ''SubStatement'']"

definition InteractionTypeChoices :: "string list" where
  "InteractionTypeChoices = [''true-false'', ''choice'', ''fill-in'', ''long-fill-in'', ''matching'', ''performance'',
     ''sequencing'', ''likert'', ''numeric'', ''other'']"

definition interactionOptionsLookup :: "string \<Rightarrow> string list" where
  "interactionOptionsLookup k =
     (if k = ''choices'' then [''choice'', ''sequencing''] else if k = ''scale'' then [''likert'']
      else if k = ''source'' \<or> k = ''target'' then [''matching''] else if k = ''steps'' then [''performance''] else [])"

definition CMI_INTERACTION :: string where
  "CMI_INTERACTION = ''http://adlnet.gov/expapi/activities/cmi.interaction''"

section \<open>Libraries\<close>

record xlib =
  lang_ok :: "string \<Rightarrow> bool"
  lang_message :: "jsval \<Rightarrow> string"
  iri_ok :: "jsval \<Rightarrow> bool"
  irl_ok :: "jsval \<Rightarrow> bool"
  duration_ok :: "jsval \<Rightarrow> bool"
  timestamp_ok :: "jsval \<Rightarrow> bool"
  uuid_ok :: "jsval \<Rightarrow> bool"
  uuid :: string

section \<open>Text and numbers\<close>

text \<open>\<open>s.split(sep)\<close> for a separator that is not empty.\<close>

fun split_text :: "string \<Rightarrow> string \<Rightarrow> string \<Rightarrow> string list" where
  "split_text sep acc [] = [acc]"
| "split_text sep acc (c # s) = (if sep \<noteq> [] \<and> take (length sep) (c # s) = sep
     then acc # split_text sep [] (drop (length sep - 1) s) else split_text sep (acc @ [c]) s)"

definition js_split_text :: "string \<Rightarrow> string \<Rightarrow> string list" where
  "js_split_text s sep = split_text sep [] s"

definition xtoNumber :: "string \<Rightarrow> jsnum" where
  "xtoNumber s = (if s = [] then NaN else to_number s)"

definition numericValid :: "string \<Rightarrow> bool" where
  "numericValid r = (case js_split_text r ''[:]'' of
       [start] \<Rightarrow> xtoNumber start \<noteq> NaN
     | start # end' # _ \<Rightarrow>
         (if start = [] then xtoNumber end' \<noteq> NaN
          else if end' = [] then xtoNumber start \<noteq> NaN
          else xtoNumber start \<noteq> NaN \<and> xtoNumber end' \<noteq> NaN \<and> num_lt (xtoNumber start) (xtoNumber end'))
     | [] \<Rightarrow> False)"

definition num_le :: "jsnum \<Rightarrow> jsnum \<Rightarrow> bool" where
  "num_le a b \<longleftrightarrow> a \<noteq> NaN \<and> b \<noteq> NaN \<and> \<not> num_lt b a"

definition numIFI :: "jsval \<Rightarrow> nat" where
  "numIFI obj = length (filter (\<lambda>k. truthy (js_prop obj k)) [''mbox'', ''mbox_sha1sum'', ''openid'', ''account''])"

definition mbox_match :: "string \<Rightarrow> bool" where
  "mbox_match s \<longleftrightarrow> take 7 s = ''mailto:'' \<and>
     (case js_split_text (drop 7 s) ''@'' of [a, b] \<Rightarrow> a \<noteq> [] \<and> b \<noteq> [] | _ \<Rightarrow> False)"

definition is_hex :: "string \<Rightarrow> bool" where
  "is_hex s \<longleftrightarrow> list_all (\<lambda>c. c \<in> set ''0123456789abcdef'') s"

definition word_char :: "char \<Rightarrow> bool" where
  "word_char c \<longleftrightarrow> (let n = (of_char c :: nat) in
     48 \<le> n \<and> n \<le> 57 \<or> 65 \<le> n \<and> n \<le> 90 \<or> 97 \<le> n \<and> n \<le> 122 \<or> n = 95)"

text \<open>The expression for a MIME type is not anchored: it asks for a slash between two such characters.\<close>

fun mime_match :: "string \<Rightarrow> bool" where
  "mime_match (a # b # c # s) \<longleftrightarrow> word_char a \<and> b = CHR ''/'' \<and> (word_char c \<or> c = CHR ''-'' \<or> c = CHR ''.'') \<or> mime_match (b # c # s)"
| "mime_match s \<longleftrightarrow> False"

section \<open>Validators\<close>

datatype validator =
    IfiExactlyOne | IfiAtMostOne
  | IsString | IsArray | IsArrayOrObject | IsBoolean | IsNumber | IsObject
  | Mbox | Sha1 | Sha2 | MimeType
  | Language | LanguageMap | IsIRI | IsIRL | Duration | Timestamp | IsUUID
  | InteractionType | NoOptions | CorrectResponses
  | ObjectType | NoSubStatement | AuthorityType | AuthorityOAuth | ContextProperty
  | NoWhiteSpace | Scaled | MinScore | MaxScore | RawMin | RawMax | Version | NotAllowed
  | EnforceValue string

definition str_of :: "jsval \<Rightarrow> string" where
  "str_of v = (case v of JStr s \<Rightarrow> s | _ \<Rightarrow> js_string v)"

text \<open>\<open>xs.every(f)\<close> for a test that may raise.\<close>

fun every_result :: "('a \<Rightarrow> bool js_result) \<Rightarrow> 'a list \<Rightarrow> bool js_result" where
  "every_result f [] = Inr True"
| "every_result f (x # xs) = bind_result (f x) (\<lambda>b. if b then every_result f xs else Inr False)"

definition not_a_function :: "'a js_result" where
  "not_a_function = Inl (TypeError ''is not a function'')"

definition split_value :: "jsval \<Rightarrow> string \<Rightarrow> string list js_result" where
  "split_value r sep = (case r of JStr s \<Rightarrow> Inr (js_split_text s sep) | _ \<Rightarrow> if nullish r
     then Inl (TypeError ''Cannot read properties'') else not_a_function)"

definition item_ids :: "jsval \<Rightarrow> jsval list js_result" where
  "item_ids v = (case v of JArr m \<Rightarrow> map_result (\<lambda>c. js_get c ''id'') (elements v)
     | _ \<Rightarrow> if nullish v then Inl (TypeError ''Cannot read properties'') else not_a_function)"

definition nth_text :: "string list \<Rightarrow> nat \<Rightarrow> jsval" where
  "nth_text parts i = (if i < length parts then JStr (parts ! i) else JUndef)"

definition correctResponses :: "jsval \<Rightarrow> bool js_result" where
  "correctResponses obj =
     (let interactionType = js_prop obj ''interactionType''; rs = elements (js_prop obj ''correctResponsesPattern'') in
      if interactionType = JStr ''true-false'' then Inr (list_all (\<lambda>r. r = JStr ''true'' \<or> r = JStr ''false'') rs)
      else if interactionType = JStr ''choice'' \<or> interactionType = JStr ''sequencing'' then
        bind_result (item_ids (js_prop obj ''choices'')) (\<lambda>ids.
          every_result (\<lambda>r. bind_result (split_value r ''[,]'') (\<lambda>ps. Inr (list_all (\<lambda>i. JStr i \<in> set ids) ps))) rs)
      else if interactionType = JStr ''matching'' then
        bind_result (item_ids (js_prop obj ''source'')) (\<lambda>sids. bind_result (item_ids (js_prop obj ''target'')) (\<lambda>tids.
          every_result (\<lambda>r. bind_result (split_value r ''[,]'') (\<lambda>ps. Inr (list_all (\<lambda>p.
            let st = js_split_text p ''[.]'' in nth_text st 0 \<in> set sids \<and> nth_text st 1 \<in> set tids) ps))) rs))
      else if interactionType = JStr ''performance'' then
        bind_result (item_ids (js_prop obj ''steps'')) (\<lambda>ids.
          every_result (\<lambda>r. bind_result (split_value r ''[,]'') (\<lambda>ps. Inr (list_all (\<lambda>p.
            nth_text (js_split_text p ''[.]'') 0 \<in> set ids) ps))) rs)
      else if interactionType = JStr ''likert'' then
        bind_result (item_ids (js_prop obj ''scale'')) (\<lambda>ids. Inr (list_all (\<lambda>r. r \<in> set ids) rs))
      else if interactionType = JStr ''numeric'' then
        every_result (\<lambda>r. bind_result (split_value r ''[:]'') (\<lambda>_. Inr (numericValid (str_of r)))) rs
      else Inr True)"

definition member_count_two :: "jsval \<Rightarrow> bool js_result" where
  "member_count_two v = bind_result (js_get (js_prop v ''member'') ''length'') (\<lambda>n. Inr (n = jint 2))"

text \<open>\<open>v.test(value, key, obj)\<close>.  The object has the property; the value is not \<open>undefined\<close>.\<close>

definition vtest :: "xlib \<Rightarrow> validator \<Rightarrow> jsval \<Rightarrow> string \<Rightarrow> jsval \<Rightarrow> bool js_result" where
  "vtest L vd v k obj = (case vd of
       IfiExactlyOne \<Rightarrow> Inr (numIFI obj = 1)
     | IfiAtMostOne \<Rightarrow> Inr (numIFI obj < 2)
     | IsString \<Rightarrow> Inr (is_string v)
     | IsArray \<Rightarrow> Inr (is_array v)
     | IsArrayOrObject \<Rightarrow> Inr (is_array v \<or> is_object v)
     | IsBoolean \<Rightarrow> Inr (is_boolean v)
     | IsNumber \<Rightarrow> Inr (is_number v)
     | IsObject \<Rightarrow> Inr (is_object v)
     | Mbox \<Rightarrow> Inr (mbox_match (str_of v))
     | Sha1 \<Rightarrow> Inr (is_hex (str_of v) \<and> length (str_of v) = 40)
     | Sha2 \<Rightarrow> Inr (is_hex (str_of v) \<and> length (str_of v) \<in> {56, 64, 96, 128})
     | MimeType \<Rightarrow> Inr (mime_match (str_of v))
     | Language \<Rightarrow> Inr (lang_ok L (str_of v))
     | LanguageMap \<Rightarrow> Inr (case v of JObj m \<Rightarrow> list_all (\<lambda>(k, s). lang_ok L k \<and> is_string s) (obj_entries m) | _ \<Rightarrow> True)
     | IsIRI \<Rightarrow> Inr (iri_ok L v)
     | IsIRL \<Rightarrow> Inr (irl_ok L v)
     | Duration \<Rightarrow> Inr (duration_ok L v)
     | Timestamp \<Rightarrow> Inr (timestamp_ok L v)
     | IsUUID \<Rightarrow> Inr (uuid_ok L v)
     | InteractionType \<Rightarrow> Inr (\<exists>s \<in> set InteractionTypeChoices. v = JStr s)
     | NoOptions \<Rightarrow> Inr (\<exists>s \<in> set (interactionOptionsLookup k). js_prop obj ''interactionType'' = JStr s)
     | CorrectResponses \<Rightarrow> correctResponses obj
     | ObjectType \<Rightarrow> bind_result (js_get v ''objectType'') (\<lambda>t. Inr (t = JUndef \<or> (\<exists>s \<in> set ObjectTypeChoices. t = JStr s)))
     | NoSubStatement \<Rightarrow> bind_result (js_get v ''objectType'') (\<lambda>t. Inr (\<not> truthy t \<or> t \<noteq> JStr ''SubStatement''))
     | AuthorityType \<Rightarrow> bind_result (js_get v ''objectType'') (\<lambda>t. Inr (t = JStr ''Agent'' \<or> t = JStr ''Group''))
     | AuthorityOAuth \<Rightarrow> bind_result (js_get v ''objectType'') (\<lambda>t. if t \<noteq> JStr ''Group'' then Inr True else member_count_two v)
     | ContextProperty \<Rightarrow> bind_result (js_get v ''objectType'') (\<lambda>t.
         if t = JUndef \<or> t = JStr ''Activity'' then Inr True
         else let c = js_prop obj ''context'' in
           if c = JUndef then Inr True
           else bind_result (js_get c ''revision'') (\<lambda>r. Inr (r = JUndef \<and> js_prop c ''platform'' = JUndef)))
     | NoWhiteSpace \<Rightarrow> Inr (\<not> list_ex is_space (str_of v))
     | Scaled \<Rightarrow> Inr (num_le (Fin (-1)) (js_number v) \<and> num_le (js_number v) (Fin 1))
     | MinScore \<Rightarrow> Inr (js_prop obj ''max'' = JUndef \<or> num_lt (js_number v) (js_number (js_prop obj ''max'')))
     | MaxScore \<Rightarrow> Inr (js_prop obj ''min'' = JUndef \<or> num_lt (js_number (js_prop obj ''min'')) (js_number v))
     | RawMin \<Rightarrow> Inr (js_prop obj ''min'' = JUndef \<or> num_le (js_number (js_prop obj ''min'')) (js_number v))
     | RawMax \<Rightarrow> Inr (js_prop obj ''max'' = JUndef \<or> num_le (js_number v) (js_number (js_prop obj ''max'')))
     | Version \<Rightarrow> Inr (let parts = map xtoNumber (js_split_text (str_of v) ''.'') in
         length parts = 3 \<and> NaN \<notin> set parts \<and> parts ! 0 = Fin 1 \<and> parts ! 1 = Fin 0)
     | NotAllowed \<Rightarrow> Inr False
     | EnforceValue w \<Rightarrow> Inr (v = JStr w))"

definition warns :: "validator \<Rightarrow> bool" where
  "warns vd \<longleftrightarrow> vd = CorrectResponses"

definition response_message :: "jsval \<Rightarrow> string" where
  "response_message t = (let name = str_of t in
     if name = ''true-false'' then ''true-false must take either true or false as the answer''
     else if name = ''choice'' \<or> name = ''sequencing'' then name @ '' must only use choice ids from the item''
     else if name = ''fill-in'' \<or> name = ''long-fill-in'' then name @ '' must have no non blank answers''
     else if name = ''matching'' then ''matching must only use source and target ids from the item''
     else if name = ''performance'' then ''performance must only use step ids and fill-in or numeric responses''
     else if name = ''likert'' then name @ '' must only use scale ids from the item''
     else if name = ''numeric'' then name @ '' must have valid numeric responses''
     else ''undefined'')"

text \<open>\<open>v.msg(key, obj)\<close>.  The context validator has no message, so calling it raises.\<close>

definition vmsg :: "xlib \<Rightarrow> validator \<Rightarrow> string \<Rightarrow> jsval \<Rightarrow> string js_result" where
  "vmsg L vd k obj = (case vd of
       IfiExactlyOne \<Rightarrow> Inr ''Did not supply exactly one IFI''
     | IfiAtMostOne \<Rightarrow> Inr ''Supplied more than one IFI''
     | IsString \<Rightarrow> Inr (k @ '' must be a string'')
     | IsArray \<Rightarrow> Inr (k @ '' must be an array'')
     | IsArrayOrObject \<Rightarrow> Inr (k @ '' must be an array or object'')
     | IsBoolean \<Rightarrow> Inr (k @ '' must be a boolean'')
     | IsNumber \<Rightarrow> Inr (k @ '' must be a number'')
     | IsObject \<Rightarrow> Inr (k @ '' must be an object'')
     | Mbox \<Rightarrow> Inr (k @ '' does not start with mailto: or is not a valid email address'')
     | Sha1 \<Rightarrow> Inr (k @ '' is not a valid SHA1 sum'')
     | Sha2 \<Rightarrow> Inr (k @ '' is not a valid SHA2 hash'')
     | MimeType \<Rightarrow> Inr (k @ '' is not a valid mimetype'')
     | Language \<Rightarrow> Inr (k @ '' is not a valid language code because: '' @ lang_message L (js_prop obj k))
     | LanguageMap \<Rightarrow> Inr (k @ '' is not a valid LanguageMap'')
     | IsIRI \<Rightarrow> Inr (k @ '' is not a valid IRI'')
     | IsIRL \<Rightarrow> Inr (k @ '' is not a valid IRL'')
     | Duration \<Rightarrow> Inr (k @ '' must be an ISO 8601 duration'')
     | Timestamp \<Rightarrow> Inr (k @ '' must be an ISO 8601 timestamp'')
     | IsUUID \<Rightarrow> Inr (k @ '' must be a valid UUID'')
     | InteractionType \<Rightarrow> Inr (k @ '' was set as an invalid interaction type'')
     | NoOptions \<Rightarrow> Inr (k @ '' specified but '' @ js_string (js_prop obj ''interactionType'') @ '' does not support it'')
     | CorrectResponses \<Rightarrow> Inr (response_message (js_prop obj ''interactionType''))
     | ObjectType \<Rightarrow> Inr ''objectType must either be undefined or an allowed value''
     | NoSubStatement \<Rightarrow> Inr ''object cannot be a SubStatement''
     | AuthorityType \<Rightarrow> Inr ''authority must either be an Agent or a Group''
     | AuthorityOAuth \<Rightarrow> Inr ''if authority is a group, must specify two member Agents''
     | ContextProperty \<Rightarrow> Inl (TypeError ''v.msg is not a function'')
     | NoWhiteSpace \<Rightarrow> Inr (k @ '' must not contain whitespace'')
     | Scaled \<Rightarrow> Inr (k @ '' must be in the range -1 to 1 inclusive'')
     | MinScore \<Rightarrow> Inr ''min must be less than max''
     | MaxScore \<Rightarrow> Inr ''max must be greater than min''
     | RawMin \<Rightarrow> Inr ''raw must be greater than or equal to min''
     | RawMax \<Rightarrow> Inr ''raw must be less than or equal to max''
     | Version \<Rightarrow> Inr ''version must begin with 1.0 and be a semantic version''
     | NotAllowed \<Rightarrow> Inr (k @ '' was set but is not allowed'')
     | EnforceValue w \<Rightarrow> Inr (k @ '' value did not match '' @ w @ '' received '' @ js_string (js_prop obj k)))"

fun run_validators :: "xlib \<Rightarrow> validator list \<Rightarrow> jsval \<Rightarrow> string \<Rightarrow> jsval \<Rightarrow> unit js_result" where
  "run_validators L [] v k obj = Inr ()"
| "run_validators L (vd # vds) v k obj = bind_result (vtest L vd v k obj) (\<lambda>b.
     if b then run_validators L vds v k obj
     else bind_result (vmsg L vd k obj) (\<lambda>m. if warns vd then run_validators L vds v k obj else Inl (PlainError m)))"

section \<open>Schemas\<close>

datatype xschema =
    Account | Agent | Group | Verb | InteractionComponent | ActivityDefinition | Activity | StatementRef
  | Score | Result | ContextActivities | Context | Attachment | SubStatement | Statement

text \<open>
  The specification of one key: when it is required, its validators, the schema of its value (chosen
  by the value), whether a single value is made an array, and the default.
\<close>

record key_spec =
  k_required :: "jsval \<Rightarrow> bool"
  k_validators :: "validator list"
  k_schema :: "jsval \<Rightarrow> xschema option js_result"
  k_array :: bool
  k_default :: "string option"

definition plain :: "validator list \<Rightarrow> key_spec" where
  "plain vds = \<lparr>k_required = (\<lambda>_. False), k_validators = vds, k_schema = (\<lambda>_. Inr None), k_array = False, k_default = None\<rparr>"

definition of_schema :: "xschema \<Rightarrow> validator list \<Rightarrow> key_spec" where
  "of_schema sch vds = (plain vds)\<lparr>k_schema := (\<lambda>_. Inr (Some sch))\<rparr>"

definition needed :: "key_spec \<Rightarrow> key_spec" where
  "needed ks = ks\<lparr>k_required := (\<lambda>_. True)\<rparr>"

definition needed_if :: "(jsval \<Rightarrow> bool) \<Rightarrow> key_spec \<Rightarrow> key_spec" where
  "needed_if f ks = ks\<lparr>k_required := f\<rparr>"

definition by_type :: "(jsval \<Rightarrow> xschema option) \<Rightarrow> validator list \<Rightarrow> key_spec" where
  "by_type f vds = (plain vds)\<lparr>k_schema := (\<lambda>v. bind_result (js_get v ''objectType'') (\<lambda>t. Inr (f t)))\<rparr>"

definition with_default :: "string \<Rightarrow> key_spec \<Rightarrow> key_spec" where
  "with_default d ks = ks\<lparr>k_default := Some d\<rparr>"

definition as_array :: "key_spec \<Rightarrow> key_spec" where
  "as_array ks = ks\<lparr>k_array := True\<rparr>"

definition IFISpecFactory :: "bool \<Rightarrow> (string \<times> key_spec) list" where
  "IFISpecFactory req =
     (let ifi = (if req then IfiExactlyOne else IfiAtMostOne);
          none = (\<lambda>ks obj. list_all (\<lambda>k. \<not> truthy (js_prop obj k)) ks)
      in [(''mbox'', needed_if (none [''mbox_sha1sum'', ''openid'', ''account'']) (plain [ifi, IsString, Mbox])),
          (''mbox_sha1sum'', needed_if (none [''mbox'', ''openid'', ''account'']) (plain [ifi, IsString, Sha1])),
          (''openid'', needed_if (none [''mbox'', ''mbox_sha1sum'', ''account'']) (plain [ifi, IsString])),
          (''account'', needed_if (none [''mbox'', ''mbox_sha1sum'', ''openid'']) (of_schema Account [ifi]))])"

definition Actor :: "jsval \<Rightarrow> xschema option" where
  "Actor t = Some (if t = JStr ''Group'' then Group else Agent)"

definition ObjectSchema :: "jsval \<Rightarrow> xschema option" where
  "ObjectSchema t =
     (if \<not> truthy t \<or> t = JStr ''Activity'' then Some Activity else if t = JStr ''Agent'' then Some Agent
      else if t = JStr ''Group'' then Some Group else if t = JStr ''StatementRef'' then Some StatementRef
      else if t = JStr ''SubStatement'' then Some SubStatement else None)"

definition interaction_is :: "string list \<Rightarrow> jsval \<Rightarrow> bool" where
  "interaction_is ts obj \<longleftrightarrow> (\<exists>t \<in> set ts. js_prop obj ''interactionType'' = JStr t)"

definition has_type :: "string \<Rightarrow> jsval \<Rightarrow> bool" where
  "has_type t obj \<longleftrightarrow> js_prop obj ''type'' = JStr t"

definition account_spec :: "(string \<times> key_spec) list" where
  "account_spec = [(''homePage'', needed (plain [IsString])), (''name'', needed (plain [IsString]))]"

definition agent_spec :: "(string \<times> key_spec) list" where
  "agent_spec = [(''objectType'', plain [IsString, EnforceValue ''Agent'']), (''name'', plain [IsString])] @ IFISpecFactory True"

definition group_spec :: "(string \<times> key_spec) list" where
  "group_spec = [(''objectType'', needed (plain [IsString, EnforceValue ''Group''])),
     (''member'', needed_if (\<lambda>obj. numIFI obj = 0) (of_schema Agent [IsArray])), (''name'', plain [IsString])] @ IFISpecFactory False"

definition verb_spec :: "(string \<times> key_spec) list" where
  "verb_spec = [(''id'', needed (plain [IsString, IsIRI])), (''display'', plain [IsObject])]"

definition component_spec :: "(string \<times> key_spec) list" where
  "component_spec = [(''id'', needed (plain [IsString, NoWhiteSpace])), (''description'', plain [IsObject, LanguageMap])]"

definition activity_definition_spec :: "(string \<times> key_spec) list" where
  "activity_definition_spec =
    [(''name'', plain [IsObject, LanguageMap]), (''description'', plain [IsObject, LanguageMap]), (''type'', plain [IsString, IsIRI]),
     (''moreInfo'', plain [IsString, IsIRL]), (''extensions'', plain [IsObject]),
     (''interactionType'', needed_if (has_type CMI_INTERACTION) (plain [IsString, InteractionType])),
     (''choices'', needed_if (interaction_is [''choice'', ''sequencing'']) (of_schema InteractionComponent [NoOptions, IsArray])),
     (''source'', needed_if (interaction_is [''matching'']) (of_schema InteractionComponent [NoOptions, IsArray])),
     (''target'', needed_if (interaction_is [''matching'']) (of_schema InteractionComponent [NoOptions, IsArray])),
     (''steps'', needed_if (interaction_is [''performance'']) (of_schema InteractionComponent [NoOptions, IsArray])),
     (''scale'', needed_if (interaction_is [''likert'']) (of_schema InteractionComponent [NoOptions, IsArray])),
     (''correctResponsesPattern'', plain [IsArray, CorrectResponses])]"

definition activity_spec :: "(string \<times> key_spec) list" where
  "activity_spec = [(''id'', plain [IsString, IsIRI]), (''objectType'', plain [IsString, EnforceValue ''Activity'']),
     (''definition'', of_schema ActivityDefinition [])]"

definition statement_ref_spec :: "(string \<times> key_spec) list" where
  "statement_ref_spec = [(''id'', plain [IsUUID]), (''objectType'', plain [IsString, EnforceValue ''StatementRef''])]"

definition score_spec :: "(string \<times> key_spec) list" where
  "score_spec = [(''scaled'', plain [IsNumber, Scaled]), (''min'', plain [IsNumber, MinScore]), (''max'', plain [IsNumber, MaxScore]),
     (''raw'', plain [IsNumber, RawMin, RawMax])]"

definition result_spec :: "(string \<times> key_spec) list" where
  "result_spec = [(''score'', of_schema Score []), (''success'', plain [IsBoolean]), (''completion'', plain [IsBoolean]),
     (''response'', plain [IsString]), (''duration'', plain [Duration]), (''extensions'', plain [IsObject])]"

definition context_activities_spec :: "(string \<times> key_spec) list" where
  "context_activities_spec = map (\<lambda>k. (k, as_array (of_schema Activity [IsArrayOrObject]))) [''parent'', ''grouping'', ''category'', ''other'']"

text \<open>The entry of the team has a \<open>group\<close> where the others have a schema, so a team is not validated.\<close>

definition context_spec :: "(string \<times> key_spec) list" where
  "context_spec = [(''registration'', plain [IsUUID]), (''instructor'', of_schema Agent []), (''team'', plain []),
     (''contextActivities'', of_schema ContextActivities []), (''revision'', plain [IsString]), (''platform'', plain [IsString]),
     (''language'', plain [IsString, Language]), (''statement'', of_schema StatementRef []), (''extensions'', plain [IsObject])]"

definition attachment_spec :: "(string \<times> key_spec) list" where
  "attachment_spec = [(''usageType'', needed (plain [IsIRI])), (''display'', needed (plain [IsObject, LanguageMap])),
     (''description'', plain [IsObject, LanguageMap]), (''contentType'', needed (plain [IsString, MimeType])),
     (''length'', needed (plain [IsNumber])), (''sha2'', needed (plain [IsString, Sha2])), (''fileUrl'', plain [IsString, IsIRL])]"

definition sub_statement_spec :: "(string \<times> key_spec) list" where
  "sub_statement_spec = [(''id'', plain [NotAllowed]), (''objectType'', needed (plain [EnforceValue ''SubStatement''])),
     (''actor'', needed (by_type Actor [])), (''verb'', needed (of_schema Verb [])),
     (''object'', needed (by_type ObjectSchema [ObjectType, NoSubStatement])), (''result'', of_schema Result []), (''context'', of_schema Context []),
     (''timestamp'', plain [Timestamp]), (''attachments'', of_schema Attachment [IsArray]), (''stored'', plain [NotAllowed]),
     (''version'', plain [NotAllowed]), (''authority'', plain [NotAllowed])]"

definition statement_spec :: "string \<Rightarrow> (string \<times> key_spec) list" where
  "statement_spec new_id = [(''id'', with_default new_id (plain [IsUUID])), (''actor'', needed (by_type Actor [])),
     (''verb'', needed (of_schema Verb [])), (''object'', needed (by_type ObjectSchema [ObjectType, ContextProperty])),
     (''result'', of_schema Result []), (''context'', of_schema Context []), (''timestamp'', plain [Timestamp]),
     (''authority'', by_type Actor [AuthorityType, AuthorityOAuth]), (''version'', with_default ''1.0.0'' (plain [IsString, Version])),
     (''attachments'', of_schema Attachment [IsArray])]"

fun spec :: "xlib \<Rightarrow> xschema \<Rightarrow> (string \<times> key_spec) list" where
  "spec L Account = account_spec"
| "spec L Agent = agent_spec"
| "spec L Group = group_spec"
| "spec L Verb = verb_spec"
| "spec L InteractionComponent = component_spec"
| "spec L ActivityDefinition = activity_definition_spec"
| "spec L Activity = activity_spec"
| "spec L StatementRef = statement_ref_spec"
| "spec L Score = score_spec"
| "spec L Result = result_spec"
| "spec L ContextActivities = context_activities_spec"
| "spec L Context = context_spec"
| "spec L Attachment = attachment_spec"
| "spec L SubStatement = sub_statement_spec"
| "spec L Statement = statement_spec (uuid L)"

lemmas spec_defs = account_spec_def agent_spec_def group_spec_def verb_spec_def component_spec_def activity_definition_spec_def
  activity_spec_def statement_ref_spec_def score_spec_def result_spec_def context_activities_spec_def context_spec_def
  attachment_spec_def sub_statement_spec_def statement_spec_def IFISpecFactory_def Let_def

lemmas key_spec_defs = plain_def of_schema_def needed_def needed_if_def by_type_def with_default_def as_array_def

lemma schema_key:
  "(key, ks) \<in> set (spec L sch) \<Longrightarrow> k_schema ks v = Inr (Some sch') \<Longrightarrow> key \<noteq> ''length'' \<and> \<not> is_index key"
  by (cases sch) (auto simp: spec_defs key_spec_defs is_index_def is_digit_def)

section \<open>Cleaning\<close>

definition error_text :: "js_error \<Rightarrow> string" where
  "error_text e = (case e of TypeError m \<Rightarrow> m | RangeError m \<Rightarrow> m | ReferenceError m \<Rightarrow> m | PlainError m \<Rightarrow> m)"

text \<open>Errors from the cleaning of a value get its key as context.\<close>

definition in_key :: "string \<Rightarrow> 'a js_result \<Rightarrow> 'a js_result" where
  "in_key key r = (case r of Inl e \<Rightarrow> Inl (PlainError (''in '' @ key @ '': '' @ error_text e)) | Inr x \<Rightarrow> Inr x)"

definition coerceToArray :: "jsval \<Rightarrow> jsval" where
  "coerceToArray v = (if is_array v then v else js_array [v])"

function (sequential) clean :: "xlib \<Rightarrow> xschema \<Rightarrow> jsval \<Rightarrow> jsval js_result"
  and clean_nested :: "xlib \<Rightarrow> xschema \<Rightarrow> jsval \<Rightarrow> jsval js_result" where
  "clean L sch obj =
     (if nullish obj then Inl (TypeError ''Cannot read properties'')
      else bind_result (map_result (\<lambda>(key, ks).
        if js_prop obj key = JUndef then
          (if k_required ks obj then Inl (PlainError (key @ '' required but not found''))
           else Inr (case k_default ks of Some d \<Rightarrow> Some (key, JStr d) | None \<Rightarrow> None))
        else bind_result (run_validators L (k_validators ks) (js_prop obj key) key obj) (\<lambda>_.
          bind_result (k_schema ks (js_prop obj key)) (\<lambda>sub.
            bind_result (case sub of None \<Rightarrow> Inr (js_prop obj key) | Some s \<Rightarrow> in_key key (clean_nested L s (js_prop obj key))) (\<lambda>out.
              Inr (Some (key, if k_array ks then coerceToArray out else out)))))) (spec L sch)) (\<lambda>es.
        Inr (JObj (List.map_filter (\<lambda>e. e) es))))"
| "clean_nested L sch v = (case v of
       JArr m \<Rightarrow> bind_result (map_result (clean L sch) (elements (JArr m))) (\<lambda>vs. Inr (js_array vs))
     | _ \<Rightarrow> clean L sch v)"
  by pat_completeness auto
termination
proof (relation "measure (\<lambda>x. case x of Inl (_, _, v) \<Rightarrow> 2 * size v | Inr (_, _, v) \<Rightarrow> 2 * size v + 1)")
qed (auto dest!: size_elements schema_key size_js_prop simp: linorder_not_less)

declare clean.simps [simp del] clean_nested.simps [simp del]

section \<open>What cleaning gives\<close>

definition field :: "xlib \<Rightarrow> jsval \<Rightarrow> string \<Rightarrow> key_spec \<Rightarrow> (string \<times> jsval) option \<Rightarrow> bool" where
  "field L obj key ks e \<longleftrightarrow>
     (if js_prop obj key = JUndef then \<not> k_required ks obj
        \<and> e = (case k_default ks of Some d \<Rightarrow> Some (key, JStr d) | None \<Rightarrow> None)
      else run_validators L (k_validators ks) (js_prop obj key) key obj = Inr ()
        \<and> (\<exists>sub out. k_schema ks (js_prop obj key) = Inr sub
             \<and> (case sub of None \<Rightarrow> out = js_prop obj key | Some s \<Rightarrow> clean_nested L s (js_prop obj key) = Inr out)
             \<and> e = Some (key, if k_array ks then coerceToArray out else out)))"

lemma in_key_Inr [simp]: "in_key k r = Inr x \<longleftrightarrow> r = Inr x"
  by (cases r) (auto simp: in_key_def)

lemma clean_Inr:
  "clean L sch obj = Inr w \<longleftrightarrow> \<not> nullish obj
     \<and> (\<exists>es. list_all2 (\<lambda>(key, ks) e. field L obj key ks e) (spec L sch) es \<and> w = JObj (List.map_filter (\<lambda>e. e) es))"
proof -
  let ?f = "\<lambda>(key, ks).
        if js_prop obj key = JUndef then
          (if k_required ks obj then Inl (PlainError (key @ '' required but not found''))
           else Inr (case k_default ks of Some d \<Rightarrow> Some (key, JStr d) | None \<Rightarrow> None))
        else bind_result (run_validators L (k_validators ks) (js_prop obj key) key obj) (\<lambda>_.
          bind_result (k_schema ks (js_prop obj key)) (\<lambda>sub.
            bind_result (case sub of None \<Rightarrow> Inr (js_prop obj key) | Some s \<Rightarrow> in_key key (clean_nested L s (js_prop obj key))) (\<lambda>out.
              Inr (Some (key, if k_array ks then coerceToArray out else out)))))"
  have sub: "(case sub of None \<Rightarrow> Inr v | Some s \<Rightarrow> in_key key (clean_nested L s v)) = Inr out
      \<longleftrightarrow> (case sub of None \<Rightarrow> out = v | Some s \<Rightarrow> clean_nested L s v = Inr out)" for sub key v out
    by (cases sub) auto
  have f: "?f (key, ks) = Inr e \<longleftrightarrow> field L obj key ks e" for key ks e
  proof (cases "js_prop obj key = JUndef")
    case False
    then show ?thesis unfolding field_def case_prod_conv if_not_P [OF False] bind_result_Inr sub by auto
  qed (auto simp: field_def)
  have g: "(\<lambda>x e. ?f x = Inr e) = (\<lambda>(key, ks) e. field L obj key ks e)"
    by (intro ext) (simp only: split_paired_all case_prod_conv f [unfolded case_prod_conv])
  show ?thesis unfolding clean.simps map_result_Inr g bind_result_Inr
    by (simp add: bind_result_Inr map_result_Inr g) blast
qed

lemma map_filter_id_Cons: "List.map_filter (\<lambda>e. e) (e # es) = (case e of None \<Rightarrow> List.map_filter (\<lambda>e. e) es | Some x \<Rightarrow> x # List.map_filter (\<lambda>e. e) es)"
  by (simp add: List.map_filter_def split: option.split)

lemma fields_get:
  assumes "list_all2 (\<lambda>(key, ks) e. field L obj key ks e) sp es" "distinct (map fst sp)"
  shows "fst ` set (List.map_filter (\<lambda>e. e) es) \<subseteq> fst ` set sp"
    and "(key, ks) \<in> set sp \<Longrightarrow> \<exists>e. field L obj key ks e \<and> obj_get (List.map_filter (\<lambda>e. e) es) key = map_option snd e"
proof -
  have "fst ` set (List.map_filter (\<lambda>e. e) es) \<subseteq> fst ` set sp \<and>
    ((key, ks) \<in> set sp \<longrightarrow> (\<exists>e. field L obj key ks e \<and> obj_get (List.map_filter (\<lambda>e. e) es) key = map_option snd e))"
    using assms
  proof (induction sp es rule: list_all2_induct)
    case (Cons x xs e es)
    obtain k' ks' where x: "x = (k', ks')" by (cases x)
    have f: "field L obj k' ks' e" using Cons.hyps(1) x by simp
    then have e: "e = None \<or> (\<exists>v. e = Some (k', v))" by (auto simp: field_def split: if_splits option.splits)
    have ih: "fst ` set (List.map_filter (\<lambda>e. e) es) \<subseteq> fst ` set xs"
      "(key, ks) \<in> set xs \<Longrightarrow> \<exists>e. field L obj key ks e \<and> obj_get (List.map_filter (\<lambda>e. e) es) key = map_option snd e"
      using Cons.IH Cons.prems by auto
    show ?case
    proof (intro conjI impI)
      show "fst ` set (List.map_filter (\<lambda>e. e) (e # es)) \<subseteq> fst ` set (x # xs)"
        using e ih(1) x unfolding map_filter_id_Cons by (elim disjE exE) (auto simp del: List.map_filter_def)
      assume "(key, ks) \<in> set (x # xs)"
      then consider "key = k'" "ks = ks'" | "(key, ks) \<in> set xs" "key \<noteq> k'" using Cons.prems x by (auto simp: image_iff)
      then show "\<exists>e'. field L obj key ks e' \<and> obj_get (List.map_filter (\<lambda>e. e) (e # es)) key = map_option snd e'"
      proof cases
        case 1
        have "k' \<notin> fst ` set (List.map_filter (\<lambda>e. e) es)" using ih(1) Cons.prems x by auto
        then have "obj_get (List.map_filter (\<lambda>e. e) es) k' = None" by (simp add: obj_get_def map_of_eq_None_iff)
        then show ?thesis using 1 f e unfolding map_filter_id_Cons by (intro exI [of _ e]) (auto simp: obj_get_def)
      next
        case 2
        then show ?thesis using ih(2) e unfolding map_filter_id_Cons by (elim disjE exE) (auto simp: obj_get_def)
      qed
    qed
  qed simp
  then show "fst ` set (List.map_filter (\<lambda>e. e) es) \<subseteq> fst ` set sp"
    "(key, ks) \<in> set sp \<Longrightarrow> \<exists>e. field L obj key ks e \<and> obj_get (List.map_filter (\<lambda>e. e) es) key = map_option snd e" by auto
qed

lemma distinct_spec [simp]: "distinct (map fst (spec L sch))"
  by (cases sch) (auto simp: spec_defs)

text \<open>The keys of a cleaned object, and each of its values.\<close>

lemma clean_keys: "clean L sch obj = Inr w \<Longrightarrow> \<exists>m. w = JObj m \<and> fst ` set m \<subseteq> fst ` set (spec L sch)"
  using fields_get(1) [OF _ distinct_spec] by (fastforce simp: clean_Inr)

lemma clean_field:
  assumes "clean L sch obj = Inr w" "(key, ks) \<in> set (spec L sch)"
  shows "\<exists>e. field L obj key ks e \<and> js_prop w key = (case e of Some x \<Rightarrow> snd x | None \<Rightarrow> JUndef)"
proof -
  obtain es where es: "list_all2 (\<lambda>(key, ks) e. field L obj key ks e) (spec L sch) es" "w = JObj (List.map_filter (\<lambda>e. e) es)"
    using assms(1) by (auto simp: clean_Inr)
  from fields_get(2) [OF es(1) distinct_spec assms(2)]
  obtain e where "field L obj key ks e" "obj_get (List.map_filter (\<lambda>e. e) es) key = map_option snd e" by blast
  then show ?thesis by (intro exI [of _ e]) (simp add: es(2) js_prop_JObj split: option.split)
qed

text \<open>A key without schema and default: the value is the old one and passes its validators.\<close>

lemma clean_plain:
  assumes "clean L sch obj = Inr w" "(key, ks) \<in> set (spec L sch)" "k_schema ks = (\<lambda>_. Inr None)" "\<not> k_array ks" "k_default ks = None"
  shows "js_prop w key = js_prop obj key"
    and "js_prop w key \<noteq> JUndef \<Longrightarrow> run_validators L (k_validators ks) (js_prop w key) key obj = Inr ()"
    and "k_required ks obj \<Longrightarrow> js_prop w key \<noteq> JUndef"
proof -
  obtain e where e: "field L obj key ks e" "js_prop w key = (case e of Some x \<Rightarrow> snd x | None \<Rightarrow> JUndef)"
    using clean_field [OF assms(1,2)] by blast
  show "js_prop w key = js_prop obj key" "js_prop w key \<noteq> JUndef \<Longrightarrow> run_validators L (k_validators ks) (js_prop w key) key obj = Inr ()"
    "k_required ks obj \<Longrightarrow> js_prop w key \<noteq> JUndef"
    using e assms(3-5) by (cases "js_prop obj key = JUndef"; simp add: field_def)+
qed

lemma clean_sub:
  assumes "clean L sch obj = Inr w" "(key, ks) \<in> set (spec L sch)" "\<not> k_array ks" "k_default ks = None" "js_prop obj key \<noteq> JUndef"
    and "k_schema ks (js_prop obj key) = Inr (Some s)"
  shows "clean_nested L s (js_prop obj key) = Inr (js_prop w key)"
  using clean_field [OF assms(1,2)] assms(3-6) by (auto simp: field_def split: if_splits)

lemma clean_required:
  "clean L sch obj = Inr w \<Longrightarrow> (key, ks) \<in> set (spec L sch) \<Longrightarrow> k_required ks obj \<Longrightarrow> js_prop obj key \<noteq> JUndef"
  by (drule (1) clean_field) (auto simp: field_def split: if_splits)

lemma run_validators_Cons: "run_validators L (vd # vds) v k obj = Inr () \<longleftrightarrow>
   (\<exists>b. vtest L vd v k obj = Inr b \<and> (b \<or> warns vd \<and> (\<exists>m. vmsg L vd k obj = Inr m))) \<and> run_validators L vds v k obj = Inr ()"
proof (cases "vtest L vd v k obj")
  case (Inr b)
  then show ?thesis by (cases b; cases "vmsg L vd k obj") (simp_all add: ex_bool_eq)
qed simp

lemma run_validators_Inr: "run_validators L vds v k obj = Inr () \<longleftrightarrow>
   (\<forall>vd \<in> set vds. \<exists>b. vtest L vd v k obj = Inr b \<and> (b \<or> warns vd \<and> (\<exists>m. vmsg L vd k obj = Inr m)))"
  by (induction vds) (simp_all add: run_validators_Cons del: run_validators.simps(2))

declare run_validators.simps [simp del]

lemma plain_simps [simp]:
  "k_schema (plain vds) = (\<lambda>_. Inr None)" "\<not> k_array (plain vds)" "k_default (plain vds) = None" "k_validators (plain vds) = vds"
  by (simp_all add: plain_def)

lemma score_keys:
  "(''scaled'', plain [IsNumber, Scaled]) \<in> set (spec L Score)" "(''min'', plain [IsNumber, MinScore]) \<in> set (spec L Score)"
  "(''max'', plain [IsNumber, MaxScore]) \<in> set (spec L Score)" "(''raw'', plain [IsNumber, RawMin, RawMax]) \<in> set (spec L Score)"
  by (simp_all add: score_spec_def)

section \<open>Every error says something\<close>

named_theorems says "errors have a message"

definition says_why :: "'a js_result \<Rightarrow> bool" where
  "says_why r \<longleftrightarrow> (\<forall>e. r = Inl e \<longrightarrow> error_text e \<noteq> [])"

lemma says_basic [says]: "says_why (Inr x)" "s \<noteq> [] \<Longrightarrow> says_why (Inl (TypeError s))" "s \<noteq> [] \<Longrightarrow> says_why (Inl (PlainError s))"
  by (simp_all add: says_why_def error_text_def)

lemma says_bind [says]: "says_why r \<Longrightarrow> (\<And>x. r = Inr x \<Longrightarrow> says_why (f x)) \<Longrightarrow> says_why (bind_result r f)"
  by (cases r) (auto simp: says_why_def)

lemma says_map [says]: "(\<And>x. x \<in> set xs \<Longrightarrow> says_why (f x)) \<Longrightarrow> says_why (map_result f xs)"
  by (induction xs) (auto intro!: says)

lemma says_if [says]: "says_why a \<Longrightarrow> says_why b \<Longrightarrow> says_why (if c then a else b)"
  by simp

lemma says_every [says]: "(\<And>x. x \<in> set xs \<Longrightarrow> says_why (f x)) \<Longrightarrow> says_why (every_result f xs)"
  by (induction xs) (auto intro!: says)

lemma says_get [says]: "says_why (js_get v k)" by (auto simp: js_get_def intro!: says)

lemma says_put [says]: "says_why (js_put v k w)" by (cases v) (auto simp: js_put_def intro!: says)

lemma says_in_key [says]: "says_why (in_key k r)" by (cases r) (auto simp: in_key_def intro!: says)

lemma says_item_ids [says]: "says_why (item_ids v)"
  by (cases v) (auto simp: item_ids_def not_a_function_def nullish_def intro!: says)

lemma says_split [says]: "says_why (split_value r sep)"
  by (cases r) (auto simp: split_value_def not_a_function_def nullish_def intro!: says)

lemma says_correctResponses [says]: "says_why (correctResponses obj)"
  unfolding correctResponses_def Let_def by (simp only: says simp_thms)

lemma says_vtest [says]: "says_why (vtest L vd v k obj)"
  by (cases vd) (simp_all only: vtest_def validator.case Let_def member_count_two_def says simp_thms)

lemma says_vmsg [says]: "says_why (vmsg L vd k obj)"
  by (cases vd) (simp_all add: vmsg_def says)

lemma response_message_nonempty: "response_message t \<noteq> []"
  by (simp add: response_message_def Let_def)

lemma vmsg_nonempty: "vmsg L vd k obj = Inr m \<Longrightarrow> m \<noteq> []"
  by (cases vd) (auto simp: vmsg_def response_message_nonempty)

lemma says_run [says]: "says_why (run_validators L vds v k obj)"
  by (induction vds) (auto simp: run_validators.simps dest: vmsg_nonempty intro!: says)

lemma says_clean: "says_why (clean L sch obj)"
proof -
  have k: "says_why (k_schema ks v)" if "(key, ks) \<in> set (spec L sch)" for key ks v
    using that by (cases sch) (auto simp: spec_defs key_spec_defs says)
  show ?thesis unfolding clean.simps
    by (auto intro!: says k split: option.splits)
qed

section \<open>Actors\<close>

lemma key_spec_simps [simp]:
  "k_schema (needed ks) = k_schema ks" "k_array (needed ks) = k_array ks" "k_default (needed ks) = k_default ks" "k_validators (needed ks) = k_validators ks"
  "k_schema (needed_if f ks) = k_schema ks" "k_array (needed_if f ks) = k_array ks" "k_default (needed_if f ks) = k_default ks"
  "k_validators (needed_if f ks) = k_validators ks" "k_required (needed ks) obj" "k_required (needed_if f ks) = f"
  "k_schema (of_schema sch vds) = (\<lambda>_. Inr (Some sch))" "\<not> k_array (of_schema sch vds)" "k_default (of_schema sch vds) = None"
  "k_validators (of_schema sch vds) = vds"
  by (simp_all add: needed_def needed_if_def of_schema_def plain_def)

lemma clean_nested_not_array: "\<not> is_array v \<Longrightarrow> clean_nested L sch v = clean L sch v"
  by (cases v) (simp_all add: is_array_def clean_nested.simps)

lemma clean_nested_shape: "clean_nested L sch v = Inr x \<Longrightarrow> is_object x \<or> is_array x"
  by (cases v) (auto simp: clean_nested.simps bind_result_Inr js_array_def is_array_def is_object_def dest!: clean_keys)

lemma falsy_not_account: "clean_nested L Account v = Inr x \<Longrightarrow> truthy v"
proof (rule ccontr)
  assume c: "clean_nested L Account v = Inr x" and f: "\<not> truthy v"
  then have na: "\<not> is_array v" by (cases v) (auto simp: truthy_def is_array_def)
  have "(''homePage'', needed (plain [IsString])) \<in> set (spec L Account)" by (simp add: account_spec_def)
  from clean_required [OF c [unfolded clean_nested_not_array [OF na]] this] have "js_prop v ''homePage'' \<noteq> JUndef" by simp
  with f show False by (cases v) (auto simp: truthy_def js_prop_def js_own_def is_index_def is_digit_def split: if_splits)
qed

lemma numIFI_0: "numIFI a = 0 \<longleftrightarrow> (\<forall>k \<in> {''mbox'', ''mbox_sha1sum'', ''openid'', ''account''}. \<not> truthy (js_prop a k))"
  by (simp add: numIFI_def)

text \<open>The inverse functional identifiers of an actor are those of the cleaned one.\<close>

lemma ifi_same:
  assumes "clean L sch a = Inr w" "set (IFISpecFactory b) \<subseteq> set (spec L sch)"
  shows "numIFI w = numIFI a"
    and "numIFI a \<noteq> 0 \<Longrightarrow> if b then numIFI a = 1 else numIFI a < 2"
    and "numIFI a \<noteq> 0"
proof -
  let ?ifi = "if b then IfiExactlyOne else IfiAtMostOne"
  have sp: "\<exists>f. (''mbox'', needed_if f (plain [?ifi, IsString, Mbox])) \<in> set (spec L sch)"
    "\<exists>f. (''mbox_sha1sum'', needed_if f (plain [?ifi, IsString, Sha1])) \<in> set (spec L sch)"
    "\<exists>f. (''openid'', needed_if f (plain [?ifi, IsString])) \<in> set (spec L sch)"
    "\<exists>f. (''account'', needed_if f (of_schema Account [?ifi])) \<in> set (spec L sch)"
    using assms(2) by (auto simp: IFISpecFactory_def Let_def)
  have plain: "truthy (js_prop w k) = truthy (js_prop a k) \<and> (js_prop a k \<noteq> JUndef \<longrightarrow> run_validators L vds (js_prop a k) k a = Inr ())"
    if h: "\<exists>f. (k, needed_if f (plain vds)) \<in> set (spec L sch)" for k vds
  proof -
    obtain f where f: "(k, needed_if f (plain vds)) \<in> set (spec L sch)" using h by blast
    from clean_plain(1,2) [OF assms(1) f] show ?thesis by simp
  qed
  obtain f where f: "(''account'', needed_if f (of_schema Account [?ifi])) \<in> set (spec L sch)" using sp(4) by blast
  have account: "truthy (js_prop w ''account'') = truthy (js_prop a ''account'')
      \<and> (js_prop a ''account'' \<noteq> JUndef \<longrightarrow> run_validators L [?ifi] (js_prop a ''account'') ''account'' a = Inr ())"
  proof (cases "js_prop a ''account'' = JUndef")
    case True
    then have "js_prop w ''account'' = JUndef" using clean_field [OF assms(1) f] by (auto simp: field_def)
    then show ?thesis using True by simp
  next
    case False
    have c: "clean_nested L Account (js_prop a ''account'') = Inr (js_prop w ''account'')"
      by (rule clean_sub [OF assms(1) f]) (simp_all add: False)
    have "run_validators L [?ifi] (js_prop a ''account'') ''account'' a = Inr ()"
      using clean_field [OF assms(1) f] False by (auto simp: field_def)
    moreover have "truthy (js_prop w ''account'')" using clean_nested_shape [OF c] by (auto simp: truthy_def is_object_def is_array_def split: jsval.splits)
    ultimately show ?thesis using falsy_not_account [OF c] by simp
  qed
  note all = plain [OF sp(1)] plain [OF sp(2)] plain [OF sp(3)] account
  show "numIFI w = numIFI a" using all by (simp add: numIFI_def)
  have one: "if b then numIFI a = 1 else numIFI a < 2" if "k \<in> {''mbox'', ''mbox_sha1sum'', ''openid'', ''account''}" "js_prop a k \<noteq> JUndef" for k
  proof -
    have "\<exists>vds. run_validators L (?ifi # vds) (js_prop a k) k a = Inr ()"
      using that(1) all [THEN conjunct2, THEN mp] that(2) by (elim insertE) blast+
    then have "\<exists>t. vtest L ?ifi (js_prop a k) k a = Inr t \<and> t" by (auto simp: run_validators_Inr warns_def)
    then show ?thesis by (auto simp: vtest_def split: if_splits)
  qed
  show "if b then numIFI a = 1 else numIFI a < 2" if "numIFI a \<noteq> 0"
  proof -
    have "\<exists>k \<in> {''mbox'', ''mbox_sha1sum'', ''openid'', ''account''}. truthy (js_prop a k)" using that unfolding numIFI_0 by blast
    then obtain k where "k \<in> {''mbox'', ''mbox_sha1sum'', ''openid'', ''account''}" "truthy (js_prop a k)" ..
    then show ?thesis using one [of k] by (simp add: truthy_def split: jsval.splits)
  qed
  show "numIFI a \<noteq> 0"
  proof
    assume z: "numIFI a = 0"
    have "(''mbox'', needed_if (\<lambda>obj. list_all (\<lambda>k. \<not> truthy (js_prop obj k)) [''mbox_sha1sum'', ''openid'', ''account'']) (plain [?ifi, IsString, Mbox]))
        \<in> set (spec L sch)" using assms(2) by (auto simp: IFISpecFactory_def Let_def)
    from clean_required [OF assms(1) this] have u: "js_prop a ''mbox'' \<noteq> JUndef" using z unfolding numIFI_0 by simp
    then have "run_validators L [?ifi, IsString, Mbox] (js_prop a ''mbox'') ''mbox'' a = Inr ()" using plain [OF sp(1)] by blast
    then have "is_string (js_prop a ''mbox'') \<and> mbox_match (str_of (js_prop a ''mbox''))"
      by (simp add: run_validators_Inr vtest_def warns_def)
    then have "truthy (js_prop a ''mbox'')" by (auto simp: is_cases truthy_simps str_of_def mbox_match_def)
    then show False using z unfolding numIFI_0 by simp
  qed
qed

lemma cleaned_agent: "clean L Agent a = Inr w \<Longrightarrow> numIFI w = 1"
proof -
  assume c: "clean L Agent a = Inr w"
  have sub: "set (IFISpecFactory True) \<subseteq> set (spec L Agent)" by (auto simp: agent_spec_def)
  show "numIFI w = 1" using ifi_same [OF c sub] by simp
qed

text \<open>
  A group has to be identified like an agent, because the keys are required whatever kind of actor it is: a
  group of members alone, which the validator of \<open>member\<close> provides for, is refused.
\<close>

lemma cleaned_group: "clean L Group a = Inr w \<Longrightarrow> numIFI w = 1"
proof -
  assume c: "clean L Group a = Inr w"
  have sub: "set (IFISpecFactory False) \<subseteq> set (spec L Group)" by (auto simp: group_spec_def)
  show "numIFI w = 1" using ifi_same [OF c sub] by simp
qed

end
