(* ===== verification/Xapi.thy ===== *)
theory Xapi
  imports Xapi_Schema Scorm_Api
begin

text \<open>
  \<open>packages/hashi/src/xAPI/xAPIInterface.js\<close>: the store of xAPI statements, state and profiles that
  sandboxed content uses, and \<open>getProgress\<close> of \<open>mainClient.js\<close>, which asks it first.  A promise of the
  interface is an outcome; \<open>Pending\<close> is a promise that nothing settles.  The clock is a sequence of
  time stamps in the form \<open>toISOString\<close> gives.
\<close>

section \<open>State\<close>

record xapi =
  xa_data :: jsval
  xa_user :: jsval
  xa_sent :: "(string \<times> jsval) list"
  xa_clock :: "nat \<Rightarrow> string"
  xa_ticks :: nat

datatype 'a outcome = Resolved 'a | Rejected string | Pending | Raises js_error

definition new_xapi :: "(nat \<Rightarrow> string) \<Rightarrow> xapi" where
  "new_xapi clock = \<lparr>xa_data = JObj [], xa_user = JObj [], xa_sent = [], xa_clock = clock, xa_ticks = 0\<rparr>"

definition xa_stateUpdated :: "xapi \<Rightarrow> xapi" where
  "xa_stateUpdated s = s\<lparr>xa_sent := xa_sent s @ [(''stateupdate'', xa_data s)]\<rparr>"

definition xa_setData :: "jsval \<Rightarrow> xapi \<Rightarrow> xapi" where
  "xa_setData d s = s\<lparr>xa_data := default_obj d\<rparr>"

definition xa_setUserData :: "jsval \<Rightarrow> xapi \<Rightarrow> xapi" where
  "xa_setUserData d s = s\<lparr>xa_user := default_obj d\<rparr>"

text \<open>\<open>this.__now().toISOString()\<close>: every reading takes the next time stamp.\<close>

definition read_clock :: "xapi \<Rightarrow> xapi \<times> jsval" where
  "read_clock s = (s\<lparr>xa_ticks := Suc (xa_ticks s)\<rparr>, JStr (xa_clock s (xa_ticks s)))"

text \<open>\<open>a > b\<close>: on two strings by code units, otherwise on numbers.\<close>

definition js_greater :: "jsval \<Rightarrow> jsval \<Rightarrow> bool" where
  "js_greater a b = (case (a, b) of (JStr s, JStr t) \<Rightarrow> t < s | _ \<Rightarrow> num_lt (js_number b) (js_number a))"

text \<open>\<open>Object.keys(v)\<close> and the values lodash visits in \<open>v\<close>.\<close>

definition js_keys :: "jsval \<Rightarrow> string list" where
  "js_keys v = (case v of JObj m \<Rightarrow> obj_keys m | JArr m \<Rightarrow> obj_keys m
     | JStr s \<Rightarrow> map nat_digits [0..<length s] | _ \<Rightarrow> [])"

definition collection :: "jsval \<Rightarrow> jsval list" where
  "collection v = (case v of JArr _ \<Rightarrow> elements v | JObj m \<Rightarrow> obj_values m | JStr s \<Rightarrow> map (\<lambda>c. JStr [c]) s | _ \<Rightarrow> [])"

fun find_result :: "('a \<Rightarrow> bool js_result) \<Rightarrow> 'a list \<Rightarrow> 'a option js_result" where
  "find_result f [] = Inr None"
| "find_result f (x # xs) = bind_result (f x) (\<lambda>b. if b then Inr (Some x) else find_result f xs)"

section \<open>Progress\<close>

definition xapi_verb :: "string \<Rightarrow> jsval" where
  "xapi_verb name = JStr (''http://adlnet.gov/expapi/verbs/'' @ name)"

definition success_statement :: "jsval \<Rightarrow> bool js_result" where
  "success_statement s = bind_result (js_get s ''error'') (\<lambda>e. if truthy e then Inr False
     else bind_result (js_get (js_prop s ''verb'') ''id'') (\<lambda>i.
       Inr (i \<in> {xapi_verb ''mastered'', xapi_verb ''passed'', xapi_verb ''completed''})))"

definition xapi_progress :: "xapi \<Rightarrow> jsval js_result" where
  "xapi_progress s =
     bind_result (js_get (xa_data s) ''statement'') (\<lambda>sts.
       bind_result (find_result success_statement (collection sts)) (\<lambda>found.
         if found \<noteq> None then Inr (jint 1)
         else Inr (if js_keys (js_or sts (JObj [])) \<noteq> [] then JNum (Fin (fl64 (1 / 100))) else JNull)))"

text \<open>\<open>MainClient.getProgress\<close>.\<close>

definition getProgress :: "xapi \<Rightarrow> scorm_shim \<Rightarrow> scorm_exn + jsval" where
  "getProgress x sc = (case xapi_progress x of
       Inl e \<Rightarrow> Inl (Thrown e)
     | Inr p \<Rightarrow> if p \<noteq> JNull then Inr p else calculateProgress (scorm_data sc))"

section \<open>Statements\<close>

text \<open>\<open>actorsEqual\<close>, up to the truth of its result.\<close>

definition both :: "string \<Rightarrow> jsval \<Rightarrow> jsval \<Rightarrow> bool" where
  "both k a b \<longleftrightarrow> truthy (js_prop a k) \<and> truthy (js_prop b k)"

definition actorsEqual :: "jsval \<Rightarrow> jsval \<Rightarrow> bool" where
  "actorsEqual a b =
     (if both ''mbox'' a b then strict_eq (js_prop a ''mbox'') (js_prop b ''mbox'')
      else if both ''mbox_sha1sum'' a b then strict_eq (js_prop a ''mbox_sha1sum'') (js_prop b ''mbox_sha1sum'')
      else if both ''openid'' a b then True
      else if both ''account'' a b then strict_eq (js_prop a ''homePage'') (js_prop b ''homePage'') \<and> both ''name'' a b
      else False)"

definition createAgent :: "xapi \<Rightarrow> jsval js_result" where
  "createAgent s = bind_result (js_get (xa_user s) ''userId'') (\<lambda>u.
     Inr (JObj [(''mbox'', JStr (''mailto:'' @ js_string u @ ''@kolibri.to''))]))"

definition find_by_id :: "jsval \<Rightarrow> jsval \<Rightarrow> jsval js_result" where
  "find_by_id i sts = (if is_array sts
     then bind_result (find_result (\<lambda>s. bind_result (js_get s ''id'') (\<lambda>j. Inr (strict_eq j i))) (elements sts))
       (\<lambda>r. Inr (case r of Some s \<Rightarrow> s | None \<Rightarrow> JUndef))
     else Inl (TypeError ''find is not a function''))"

definition getStatement :: "jsval \<Rightarrow> xapi \<Rightarrow> jsval js_result" where
  "getStatement i s = bind_result (js_get (xa_data s) ''statement'') (\<lambda>sts. find_by_id i (js_or sts (js_array [])))"

text \<open>
  \<open>getStatements\<close>: without an id, the statements that match are filtered with the list itself as the
  callback, which raises before any other condition is looked at.
\<close>

definition getStatements :: "jsval \<Rightarrow> xapi \<Rightarrow> jsval js_result" where
  "getStatements params s =
     bind_result (js_get params ''statementId'') (\<lambda>statementId.
     bind_result (js_get (xa_data s) ''statement'') (\<lambda>sts0.
     let sts = js_or sts0 (js_array []); agent = js_prop params ''agent''; voided = js_prop params ''voidedStatementId'' in
     bind_result (if truthy agent \<and> \<not> truthy (js_prop params ''related_agents'')
         then bind_result (createAgent s) (\<lambda>me. Inr (if actorsEqual agent me then sts else js_array [])) else Inr sts) (\<lambda>sts.
       if truthy statementId \<and> truthy voided then Inr JNull
       else if truthy statementId then find_by_id statementId sts
       else if truthy voided then find_by_id voided sts
       else Inl (TypeError ''[object Array] is not a function''))))"

definition xa_getStatements :: "jsval \<Rightarrow> xapi \<Rightarrow> jsval outcome" where
  "xa_getStatements params s = (case getStatements params s of Inr v \<Rightarrow> Resolved v | Inl e \<Rightarrow> Raises e)"

text \<open>The time stamps of one statement to be stored; attachments are dropped.\<close>

definition stamp :: "jsval \<Rightarrow> xapi \<Rightarrow> xapi \<times> jsval js_result" where
  "stamp st s =
     (let (s1, now) = read_clock s
      in case js_put st ''stored'' now of
           Inl e \<Rightarrow> (s1, Inl e)
         | Inr st1 \<Rightarrow>
             (if truthy (js_prop st1 ''timestamp'') then (s1, Inr (js_delete ''attachments'' st1))
              else let (s2, now2) = read_clock s1
                in (s2, bind_result (js_put st1 ''timestamp'' now2) (\<lambda>st2. Inr (js_delete ''attachments'' st2)))))"

fun stamp_all :: "jsval list \<Rightarrow> xapi \<Rightarrow> xapi \<times> jsval list js_result" where
  "stamp_all [] s = (s, Inr [])"
| "stamp_all (st # sts) s =
     (case stamp st s of
        (s1, Inl e) \<Rightarrow> (s1, Inl e)
      | (s1, Inr st') \<Rightarrow> (case stamp_all sts s1 of
            (s2, Inl e) \<Rightarrow> (s2, Inl e)
          | (s2, Inr sts') \<Rightarrow> (s2, Inr (st' # sts'))))"

definition storeStatements :: "jsval list \<Rightarrow> xapi \<Rightarrow> xapi \<times> unit js_result" where
  "storeStatements sts s =
     (case stamp_all sts s of
        (s1, Inl e) \<Rightarrow> (s1, Inl e)
      | (s1, Inr new) \<Rightarrow>
          (case js_get (xa_data s1) ''statement'' of
             Inl e \<Rightarrow> (s1, Inl e)
           | Inr old0 \<Rightarrow>
               (let old = js_or old0 (js_array [])
                in case js_put (xa_data s1) ''statement'' old of
                     Inl e \<Rightarrow> (s1, Inl e)
                   | Inr d \<Rightarrow>
                       (if is_array old then
                          (case js_put d ''statement'' (js_array (rev new @ elements old)) of
                             Inl e \<Rightarrow> (s1, Inl e)
                           | Inr d' \<Rightarrow> (xa_stateUpdated (s1\<lparr>xa_data := d'\<rparr>), Inr ()))
                        else (s1\<lparr>xa_data := d\<rparr>, Inl (TypeError ''unshift is not a function''))))))"

definition prepareStatement :: "jsval \<Rightarrow> xapi \<Rightarrow> xapi \<times> jsval js_result" where
  "prepareStatement st s =
     (case bind_result (js_get st ''actor'') (\<lambda>a. if truthy a then Inr st
             else bind_result (createAgent s) (js_put st ''actor'')) of
        Inl e \<Rightarrow> (s, Inl e)
      | Inr st1 \<Rightarrow> (if truthy (js_prop st1 ''timestamp'') then (s, Inr st1)
                   else let (s1, now) = read_clock s in (s1, js_put st1 ''timestamp'' now)))"

text \<open>The cleaned statement, or the statement itself marked with the error.\<close>

definition clean_or_mark :: "xlib \<Rightarrow> jsval \<Rightarrow> jsval js_result" where
  "clean_or_mark L st = (case clean L Statement st of
       Inr w \<Rightarrow> Inr w
     | Inl e \<Rightarrow> js_put st ''error'' (JStr (error_text e)))"

definition compress_statement :: "jsval \<Rightarrow> jsval js_result" where
  "compress_statement st =
     (let st1 = js_delete ''authority'' (js_delete ''actor'' st)
      in bind_result (js_get (js_prop st1 ''object'') ''objectType'') (\<lambda>t.
           Inr (if \<not> truthy t \<or> t = JStr ''Activity'' then js_delete ''object'' st1 else st1)))"

text \<open>An exception anywhere in the sending leaves the promise pending: only \<open>resolve\<close> is handed on.\<close>

definition sendStatement :: "xlib \<Rightarrow> jsval \<Rightarrow> bool \<Rightarrow> xapi \<Rightarrow> xapi \<times> unit outcome" where
  "sendStatement L st compress s =
     (case prepareStatement st s of
        (s1, Inl e) \<Rightarrow> (s1, Pending)
      | (s1, Inr st1) \<Rightarrow>
          (case bind_result (clean_or_mark L st1) (\<lambda>st2. if compress then compress_statement st2 else Inr st2) of
             Inl e \<Rightarrow> (s1, Pending)
           | Inr st3 \<Rightarrow> (case storeStatements [st3] s1 of
                 (s2, Inl e) \<Rightarrow> (s2, Pending)
               | (s2, Inr _) \<Rightarrow> (xa_stateUpdated s2, Resolved ()))))"

section \<open>State and profiles\<close>

datatype area = State | ActivityProfile | AgentProfile

fun area_key :: "area \<Rightarrow> string" where
  "area_key State = ''state''"
| "area_key ActivityProfile = ''activityProfile''"
| "area_key AgentProfile = ''agentProfile''"

text \<open>\<open>get(data, [ns, id, 'value'])\<close>, and \<open>get(data, ns, {})\<close> for an empty id.\<close>

definition safe_prop :: "jsval \<Rightarrow> string \<Rightarrow> jsval" where
  "safe_prop v k = (if nullish v then JUndef else js_prop v k)"

definition xa_getValue :: "area \<Rightarrow> string \<Rightarrow> xapi \<Rightarrow> jsval" where
  "xa_getValue a i s = (if i \<noteq> [] then safe_prop (safe_prop (safe_prop (xa_data s) (area_key a)) i) ''value''
     else default_obj (safe_prop (xa_data s) (area_key a)))"

text \<open>\<open>this.data[ns] || {}\<close>; its members are then read again from \<open>this.data[ns]\<close>.\<close>

definition xa_getIds :: "area \<Rightarrow> string \<Rightarrow> xapi \<Rightarrow> string list js_result" where
  "xa_getIds a since s =
     bind_result (js_get (xa_data s) (area_key a)) (\<lambda>vals.
       bind_result (map_result (\<lambda>i. bind_result (js_get (js_prop vals i) ''stored'') (\<lambda>t. Inr (i, js_greater t (JStr since))))
           (js_keys (js_or vals (JObj [])))) (\<lambda>ps.
         Inr (map fst (filter snd ps))))"

text \<open>
  \<open>set(data, [ns, id], entry)\<close>: a member that is missing or not an object is created, as an array
  when the next key is an index.  The keys in \<open>refused_keys\<close> end the assignment, after the member
  was created and without an error.
\<close>

definition refused_keys :: "string list" where
  "refused_keys = [''__proto__'', ''constructor'', ''prototype'']"

definition lodash_index :: "string \<Rightarrow> bool" where
  "lodash_index k \<longleftrightarrow> k \<noteq> [] \<and> list_all is_digit k \<and> (hd k = CHR ''0'' \<longrightarrow> k = ''0'') \<and> digits_int k < 9007199254740991"

definition set_entry :: "string \<Rightarrow> string \<Rightarrow> jsval \<Rightarrow> jsval \<Rightarrow> jsval" where
  "set_entry ns i e d =
     (let inner = js_prop d ns;
          inner = (if is_object inner \<or> is_array inner then inner else if lodash_index i then JArr [] else JObj [])
      in case bind_result (if i \<in> set refused_keys then Inr inner else js_put inner i e) (js_put d ns) of
           Inr d' \<Rightarrow> d' | Inl _ \<Rightarrow> d)"

definition xa_setValue :: "area \<Rightarrow> string \<Rightarrow> jsval \<Rightarrow> xapi \<Rightarrow> xapi" where
  "xa_setValue a i v s =
     (let (s1, now) = read_clock s
      in xa_stateUpdated (s1\<lparr>xa_data := set_entry (area_key a) i (JObj [(''stored'', now), (''value'', v)]) (xa_data s1)\<rparr>))"

text \<open>Rejecting does not end the function: the value is stored all the same.\<close>

definition sendValue :: "area \<Rightarrow> string \<Rightarrow> jsval \<Rightarrow> xapi \<Rightarrow> xapi \<times> unit outcome" where
  "sendValue a i v s = (xa_setValue a i v s, if i = [] then Rejected ''Must specify an id'' else Resolved ())"

definition deleteValue :: "area \<Rightarrow> string \<Rightarrow> xapi \<Rightarrow> xapi" where
  "deleteValue a i s = xa_stateUpdated (s\<lparr>xa_data :=
     (if i = [] then js_delete (area_key a) (xa_data s)
      else case js_put (xa_data s) (area_key a) (js_delete i (js_prop (xa_data s) (area_key a))) of
             Inr d \<Rightarrow> if nullish (js_prop (xa_data s) (area_key a)) then xa_data s else d
           | Inl _ \<Rightarrow> xa_data s)\<rparr>)"

text \<open>The promise of \<open>getState\<close> and the profiles: a falsy value becomes \<open>null\<close>.\<close>

definition get_area :: "area \<Rightarrow> string \<Rightarrow> xapi \<Rightarrow> jsval" where
  "get_area a i s = js_or (xa_getValue a i s) JNull"

definition getActivities :: "jsval \<Rightarrow> jsval" where
  "getActivities i = JObj [(''id'', i)]"

text \<open>\<open>MainClient.updateData\<close> for this shim: its part of the content state, when there is one, replaces the data.\<close>

definition xa_restore :: "jsval \<Rightarrow> xapi \<Rightarrow> xapi" where
  "xa_restore d s = (case json_copy d of
       Some d' \<Rightarrow> if truthy d' then xa_stateUpdated (xa_setData d' s) else s
     | None \<Rightarrow> s)"

section \<open>The interface as a whole\<close>

datatype xapi_call =
    SendStatement jsval bool
  | SendValue area string jsval
  | DeleteValue area string

definition xapi_step :: "xlib \<Rightarrow> xapi \<Rightarrow> xapi_call \<Rightarrow> xapi" where
  "xapi_step L s c = (case c of
       SendStatement st compress \<Rightarrow> fst (sendStatement L st compress s)
     | SendValue a i v \<Rightarrow> fst (sendValue a i v s)
     | DeleteValue a i \<Rightarrow> deleteValue a i s)"

end
