(* ===== verification/Xapi_Properties.thy ===== *)
theory Xapi_Properties
  imports Xapi
begin

text \<open>
  What holds of the xAPI store: entries read back as stored, statements only found by id, a progress
  that never drops, and the shape of what the schemas let through.
\<close>

section \<open>Values for the examples\<close>

text \<open>Libraries that accept everything.\<close>

definition agreeable :: xlib where
  "agreeable = \<lparr>lang_ok = (\<lambda>_. True), lang_message = (\<lambda>_. ''not a language''), iri_ok = (\<lambda>_. True), irl_ok = (\<lambda>_. True),
     duration_ok = (\<lambda>_. True), timestamp_ok = (\<lambda>_. True), uuid_ok = (\<lambda>_. True), uuid = ''0f4c''\<rparr>"

definition small_statement :: jsval where
  "small_statement = JObj [(''actor'', JObj [(''mbox'', JStr ''mailto:a@b'')]), (''verb'', JObj [(''id'', JStr ''http://v'')]),
     (''object'', JObj [(''id'', JStr ''http://o'')])]"

definition small_cleaned :: jsval where
  "small_cleaned = JObj [(''id'', JStr ''0f4c''), (''actor'', JObj [(''mbox'', JStr ''mailto:a@b'')]), (''verb'', JObj [(''id'', JStr ''http://v'')]),
     (''object'', JObj [(''id'', JStr ''http://o'')]), (''version'', JStr ''1.0.0'')]"

lemma small_cleans: "clean agreeable Statement small_statement = Inr small_cleaned"
  by code_simp

lemma score_cleans: "clean agreeable Score (JObj [(''raw'', jint 7), (''max'', jint 9)]) = Inr (JObj [(''max'', jint 9), (''raw'', jint 7)])"
  by code_simp

section \<open>State and profiles\<close>

lemma safe_prop_js_prop [simp]: "safe_prop = js_prop"
  by (intro ext) (auto simp: safe_prop_def nullish_def)

lemma area_key_simps [simp]:
  "area_key a = area_key b \<longleftrightarrow> a = b" "area_key a \<noteq> ''statement''" "''statement'' \<noteq> area_key a" "area_key a \<noteq> ''length''"
  by (cases a; cases b; simp)+

lemma stateUpdated_simps [simp]: "xa_data (xa_stateUpdated s) = xa_data s" "xa_user (xa_stateUpdated s) = xa_user s"
  by (simp_all add: xa_stateUpdated_def)

lemma lodash_index_length [simp]: "\<not> lodash_index ''length''"
  by (simp add: lodash_index_def is_digit_def)

lemma js_prop_one [simp]: "js_prop (JArr [(k, w)]) j = (if j = ''length'' then JNum (Fin (of_nat (arr_length [(k, w)]))) else if j = k then w else JUndef)"
  by (simp add: js_prop_def js_own_def obj_get_def)

lemma no_value_inside: "\<not> is_object v \<Longrightarrow> \<not> is_array v \<Longrightarrow> js_prop (js_prop v j) ''value'' = JUndef"
  by (cases v) (auto simp: is_object_def is_array_def js_prop_def js_own_def is_index_def is_digit_def split: if_splits option.splits)

lemma set_entry_get:
  assumes "is_object d" "\<not> is_array (js_prop d ns)" "i \<notin> set refused_keys"
  shows "is_object (set_entry ns i e d)"
    and "js_prop (js_prop (js_prop (set_entry ns i e d) ns) i) ''value'' = js_prop e ''value''"
    and "j \<noteq> i \<Longrightarrow> js_prop (js_prop (js_prop (set_entry ns i e d) ns) j) ''value'' = js_prop (js_prop (js_prop d ns) j) ''value''"
    and "ns' \<noteq> ns \<Longrightarrow> js_prop (set_entry ns i e d) ns' = js_prop d ns'"
proof -
  obtain m where d: "d = JObj m" using assms(1) by (auto simp: is_cases)
  let ?X = "if is_object (js_prop d ns) then js_put (js_prop d ns) i e else Inr (if lodash_index i then JArr [(i, e)] else JObj [(i, e)])"
  obtain x where x: "?X = Inr x" by (cases "js_prop d ns") (simp_all add: is_object_def js_put_def)
  have e: "set_entry ns i e d = JObj (obj_set ns x m)"
    using x assms(2,3) by (auto simp: set_entry_def d js_put_def obj_set_def split: if_splits)
  have one: "obj_get [(i, e)] i = Some e" by (simp add: obj_get_def)
  have "js_prop x i = e" using x one by (auto simp: is_cases js_put_def js_prop_JObj split: if_splits)
  moreover have "js_prop (js_prop x j) ''value'' = js_prop (js_prop (js_prop d ns) j) ''value''" if "j \<noteq> i"
  proof (cases "is_object (js_prop d ns)")
    case True
    then show ?thesis using x that by (auto simp: is_cases js_put_def js_prop_JObj)
  next
    case False
    have "js_prop (js_prop x j) ''value'' = JUndef" using x that False by (auto simp: js_prop_JObj obj_get_def split: if_splits)
    then show ?thesis using no_value_inside [OF False assms(2)] by simp
  qed
  ultimately have "is_object (set_entry ns i e d)
    \<and> js_prop (js_prop (js_prop (set_entry ns i e d) ns) i) ''value'' = js_prop e ''value''
    \<and> (j \<noteq> i \<longrightarrow> js_prop (js_prop (js_prop (set_entry ns i e d) ns) j) ''value'' = js_prop (js_prop (js_prop d ns) j) ''value'')
    \<and> (ns' \<noteq> ns \<longrightarrow> js_prop (set_entry ns i e d) ns' = js_prop d ns')"
    by (simp add: e) (simp add: d is_object_def)
  then show "is_object (set_entry ns i e d)"
    "js_prop (js_prop (js_prop (set_entry ns i e d) ns) i) ''value'' = js_prop e ''value''"
    "j \<noteq> i \<Longrightarrow> js_prop (js_prop (js_prop (set_entry ns i e d) ns) j) ''value'' = js_prop (js_prop (js_prop d ns) j) ''value''"
    "ns' \<noteq> ns \<Longrightarrow> js_prop (set_entry ns i e d) ns' = js_prop d ns'" by blast+
qed

lemma setValue_data: "xa_data (xa_setValue a i v s) = set_entry (area_key a) i
    (JObj [(''stored'', JStr (xa_clock s (xa_ticks s))), (''value'', v)]) (xa_data s)"
  by (simp add: xa_setValue_def read_clock_def)

lemma deleteValue_get: "is_object (xa_data s) \<Longrightarrow> i \<noteq> [] \<Longrightarrow> i \<noteq> ''length'' \<Longrightarrow> xa_getValue a i (deleteValue a i s) = JUndef"
  by (cases "js_prop (xa_data s) (area_key a)")
    (auto simp: is_cases deleteValue_def xa_getValue_def js_put_def js_delete_def nullish_def is_object_def js_prop_def js_own_def
      is_index_def is_digit_def split: if_splits option.splits)

text \<open>
  C18. As long as the area of the data is not an array (it becomes one when the first id stored in it
  is a number), what content stores under an id of its state or of a profile is what it reads back,
  \<open>null\<close> in place of a falsy value, no other entry changes, the statements stay, the new data is
  announced once, and deleting the entry removes it.  This is for every id but the empty one,
  \<open>length\<close>, and the three that \<open>set\<close> refuses (\<open>__proto__\<close>, \<open>constructor\<close>, \<open>prototype\<close>); the lemmas
  \<open>refused_ids_are_not_stored\<close>, \<open>numeric_state_id_breaks_listing\<close> and \<open>rejected_value_is_stored\<close> show
  what happens outside these conditions.
\<close>

theorem state_roundtrip:
  assumes "is_object (xa_data s)" "\<not> is_array (js_prop (xa_data s) (area_key a))" "i \<noteq> []" "i \<noteq> ''length''" "i \<notin> set refused_keys"
  shows "\<exists>s'. sendValue a i v s = (s', Resolved ())
    \<and> xa_getValue a i s' = v \<and> get_area a i s' = (if truthy v then v else JNull)
    \<and> (\<forall>b j. (b, j) \<noteq> (a, i) \<longrightarrow> j \<noteq> [] \<longrightarrow> xa_getValue b j s' = xa_getValue b j s)
    \<and> js_prop (xa_data s') ''statement'' = js_prop (xa_data s) ''statement''
    \<and> xa_sent s' = xa_sent s @ [(''stateupdate'', xa_data s')]
    \<and> xa_getValue a i (deleteValue a i s') = JUndef"
proof (intro exI [of _ "xa_setValue a i v s"] conjI allI impI)
  note get = set_entry_get [OF assms(1,2,5), where e = "JObj [(''stored'', JStr (xa_clock s (xa_ticks s))), (''value'', v)]", folded setValue_data]
  show "sendValue a i v s = (xa_setValue a i v s, Resolved ())" using assms by (simp add: sendValue_def)
  show got: "xa_getValue a i (xa_setValue a i v s) = v" using get(2) assms by (simp add: xa_getValue_def js_prop_JObj obj_get_def)
  show "get_area a i (xa_setValue a i v s) = (if truthy v then v else JNull)" using got by (simp add: get_area_def js_or_def)
  fix b j assume "(b, j) \<noteq> (a, i)" "j \<noteq> []"
  then show "xa_getValue b j (xa_setValue a i v s) = xa_getValue b j s"
    using get(3) [where j = j] get(4) [where ns' = "area_key b"] by (cases "b = a") (auto simp: xa_getValue_def)
next
  note get = set_entry_get [OF assms(1,2,5), where e = "JObj [(''stored'', JStr (xa_clock s (xa_ticks s))), (''value'', v)]", folded setValue_data]
  show "js_prop (xa_data (xa_setValue a i v s)) ''statement'' = js_prop (xa_data s) ''statement''" using get(4) [where ns' = "''statement''"] by simp
  show "xa_sent (xa_setValue a i v s) = xa_sent s @ [(''stateupdate'', xa_data (xa_setValue a i v s))]"
    by (simp add: xa_setValue_def read_clock_def xa_stateUpdated_def)
  show "xa_getValue a i (deleteValue a i (xa_setValue a i v s)) = JUndef" using get(1) assms by (simp add: deleteValue_get)
qed

lemma state_roundtrip_witness:
  "\<exists>s'. sendValue State ''level'' (JBool False) (new_xapi (\<lambda>n. ''2024-01-01'')) = (s', Resolved ()) \<and> get_area State ''level'' s' = JNull"
proof -
  have "is_object (xa_data (new_xapi (\<lambda>n. ''2024-01-01'')))" "\<not> is_array (js_prop (xa_data (new_xapi (\<lambda>n. ''2024-01-01''))) (area_key State))"
    by code_simp+
  from state_roundtrip [OF this, of "''level''" "JBool False"] show ?thesis by (auto simp: truthy_simps refused_keys_def)
qed

text \<open>
  An id that \<open>set\<close> refuses: the promise is resolved and the data is announced, but nothing was stored.
\<close>

lemma refused_ids_are_not_stored:
  "list_all (\<lambda>i. let (s', r) = sendValue State i (JStr ''x'') (new_xapi (\<lambda>n. ''2024-01-01''))
     in r = Resolved () \<and> xa_getValue State i s' = JUndef
       \<and> xa_sent s' = [(''stateupdate'', JObj [(''state'', JObj [])])]) refused_keys"
  by code_simp

text \<open>
  A stored state whose id is a number makes the area an array; in the copy the next session starts
  from, the ids before it are \<open>null\<close>, and listing the ids raises.
\<close>

lemma numeric_state_id_breaks_listing:
  "xa_getIds State [] (fst (sendValue State ''1'' (JStr ''x'') (new_xapi (\<lambda>n. ''2024-01-01'')))) = Inr [''1'']
    \<and> xa_getIds State [] (xa_restore (xa_data (fst (sendValue State ''1'' (JStr ''x'') (new_xapi (\<lambda>n. ''2024-01-01'')))))
        (new_xapi (\<lambda>n. ''2024-01-02''))) = Inl (TypeError ''Cannot read properties'')"
  by code_simp

text \<open>Without an id the promise is rejected, but the value is stored and announced.\<close>

lemma rejected_value_is_stored:
  "\<exists>s'. sendValue a [] v s = (s', Rejected ''Must specify an id'') \<and> xa_sent s' = xa_sent s @ [(''stateupdate'', xa_data s')]
    \<and> xa_data s' = set_entry (area_key a) [] (JObj [(''stored'', JStr (xa_clock s (xa_ticks s))), (''value'', v)]) (xa_data s)"
  by (simp add: sendValue_def xa_setValue_def read_clock_def xa_stateUpdated_def)

text \<open>
  Statements can only be looked up by their id: whatever else the parameters ask for, and even
  when they ask for nothing, \<open>getStatements\<close> raises a \<open>TypeError\<close>.
\<close>

theorem getStatements_raises:
  assumes "\<not> nullish params" "\<not> truthy (js_prop params ''statementId'')" "\<not> truthy (js_prop params ''voidedStatementId'')"
    and "\<not> nullish (xa_data s)" "\<not> nullish (xa_user s)"
  shows "xa_getStatements params s = Raises (TypeError ''[object Array] is not a function'')"
  using assms by (auto simp: xa_getStatements_def getStatements_def js_get_def createAgent_def Let_def)

lemma getStatements_raises_witness:
  "xa_getStatements (JObj []) (new_xapi (\<lambda>n. ''2024-01-01'')) = Raises (TypeError ''[object Array] is not a function'')"
  by (rule getStatements_raises) code_simp+

section \<open>Progress\<close>

definition stored_ok :: "jsval \<Rightarrow> bool" where
  "stored_ok x \<longleftrightarrow> \<not> nullish x \<and> (truthy (js_prop x ''error'') \<or> \<not> nullish (js_prop x ''verb''))"

definition successful :: "jsval \<Rightarrow> bool" where
  "successful x \<longleftrightarrow> \<not> truthy (js_prop x ''error'')
     \<and> js_prop (js_prop x ''verb'') ''id'' \<in> {xapi_verb ''mastered'', xapi_verb ''passed'', xapi_verb ''completed''}"

text \<open>The stored statements are the list \<open>xs\<close>, newest first.\<close>

definition statements_are :: "xapi \<Rightarrow> jsval list \<Rightarrow> bool" where
  "statements_are s xs \<longleftrightarrow> is_object (xa_data s) \<and> (\<forall>x \<in> set xs. stored_ok x)
     \<and> (js_prop (xa_data s) ''statement'' = js_array xs \<or> xs = [] \<and> js_prop (xa_data s) ''statement'' = JUndef)"

lemma find_successful: "(\<forall>x \<in> set xs. stored_ok x) \<Longrightarrow> find_result success_statement xs = Inr (find successful xs)"
proof (induction xs)
  case (Cons x xs)
  then have "success_statement x = Inr (successful x)"
    by (auto simp: success_statement_def stored_ok_def successful_def js_get_def)
  with Cons show ?case by simp
qed simp

lemma js_array_keys: "length xs \<le> 4294967295 \<Longrightarrow> js_keys (js_array xs) = [] \<longleftrightarrow> xs = []"
  by (cases xs) (auto simp: js_keys_def js_array_def obj_keys_empty_iff upt_conv_Cons simp del: upt_Suc)

lemma progress_eq:
  assumes "statements_are s xs" "length xs \<le> 4294967295"
  shows "xapi_progress s = Inr (if \<exists>x \<in> set xs. successful x then jint 1 else if xs \<noteq> [] then JNum (Fin (fl64 (1 / 100))) else JNull)"
proof -
  obtain m where d: "xa_data s = JObj m" using assms(1) by (auto simp: statements_are_def is_cases)
  let ?st = "js_prop (xa_data s) ''statement''"
  have "collection ?st = xs \<and> (js_keys (js_or ?st (JObj [])) \<noteq> [] \<longleftrightarrow> xs \<noteq> [])"
  proof (cases "?st = JUndef")
    case True
    then have "xs = []" using assms(1) by (auto simp: statements_are_def js_array_def)
    then show ?thesis unfolding True by (simp add: collection_def js_or_def js_keys_def obj_keys_def truthy_simps)
  next
    case False
    then have st: "?st = js_array xs" using assms(1) by (auto simp: statements_are_def)
    have "js_or (js_array xs) (JObj []) = js_array xs" by (simp add: js_or_def js_array_def truthy_simps)
    moreover have "collection (js_array xs) = elements (js_array xs)" by (simp add: collection_def js_array_def)
    ultimately show ?thesis unfolding st using assms(2) by (simp add: js_array_keys)
  qed
  moreover have "\<forall>x \<in> set xs. stored_ok x" using assms(1) by (simp add: statements_are_def)
  moreover have "find successful xs \<noteq> None \<longleftrightarrow> (\<exists>x \<in> set xs. successful x)" by (auto simp: find_None_iff)
  ultimately show ?thesis unfolding xapi_progress_def js_get_def d [symmetric]
    by (simp add: find_successful) (simp add: d nullish_def)
qed

lemma js_prop_delete: "j \<noteq> k \<Longrightarrow> j \<noteq> ''length'' \<Longrightarrow> js_prop (js_delete k v) j = js_prop v j"
  by (cases v) (auto simp: js_delete_def js_prop_def js_own_def)

lemma nullish_delete [simp]: "nullish (js_delete k v) = nullish v"
  by (cases v) (auto simp: js_delete_def nullish_def)

lemma js_put_not_nullish: "js_put v k w = Inr v' \<Longrightarrow> \<not> nullish v \<and> \<not> nullish v'"
  by (auto simp: js_put_cases nullish_def)

text \<open>Two statements agree on what progress looks at.\<close>

definition agrees :: "jsval \<Rightarrow> jsval \<Rightarrow> bool" where
  "agrees x y \<longleftrightarrow> nullish x = nullish y \<and> js_prop x ''error'' = js_prop y ''error'' \<and> js_prop x ''verb'' = js_prop y ''verb''"

lemma agrees: "agrees x x" "agrees x y \<Longrightarrow> agrees y z \<Longrightarrow> agrees x z"
  "k \<noteq> ''error'' \<Longrightarrow> k \<noteq> ''verb'' \<Longrightarrow> agrees (js_delete k x) x"
  "js_put x k w = Inr y \<Longrightarrow> k \<noteq> ''error'' \<Longrightarrow> k \<noteq> ''verb'' \<Longrightarrow> agrees y x"
proof -
  show "agrees x x" "agrees x y \<Longrightarrow> agrees y z \<Longrightarrow> agrees x z" by (simp_all add: agrees_def)
  show "k \<noteq> ''error'' \<Longrightarrow> k \<noteq> ''verb'' \<Longrightarrow> agrees (js_delete k x) x" by (auto simp: agrees_def js_prop_delete)
  show "js_put x k w = Inr y \<Longrightarrow> k \<noteq> ''error'' \<Longrightarrow> k \<noteq> ''verb'' \<Longrightarrow> agrees y x"
    by (auto simp: agrees_def js_prop_put dest: js_put_not_nullish)
qed

lemma agrees_ok: "agrees x y \<Longrightarrow> stored_ok x = stored_ok y" "agrees x y \<Longrightarrow> successful x = successful y"
  by (simp_all add: agrees_def stored_ok_def successful_def)

lemma stamp_agrees:
  assumes "stamp st s = (s', r)"
  shows "xa_data s' = xa_data s \<and> xa_user s' = xa_user s \<and> xa_sent s' = xa_sent s
    \<and> (\<forall>st'. r = Inr st' \<longrightarrow> agrees st' st \<and> js_prop st' ''stored'' = JStr (xa_clock s (xa_ticks s)) \<and> js_prop st' ''attachments'' = JUndef)"
proof (cases "js_put st ''stored'' (JStr (xa_clock s (xa_ticks s)))")
  case (Inl e)
  then show ?thesis using assms by (auto simp: stamp_def read_clock_def)
next
  case (Inr st1)
  note a1 = agrees(4) [OF Inr] and p1 = js_prop_put [OF Inr]
  have del: "js_prop (js_delete ''attachments'' y) ''attachments'' = JUndef" if "js_put x k w = Inr y" for x k w y
    using that by (auto simp: js_put_cases js_delete_def js_prop_def js_own_def)
  show ?thesis
  proof (cases "truthy (js_prop st1 ''timestamp'')")
    case True
    then show ?thesis using assms Inr a1 p1 del [OF Inr] agrees(2) [OF agrees(3) a1, of "''attachments''"]
      by (auto simp: stamp_def read_clock_def js_prop_delete)
  next
    case False
    show ?thesis
    proof (cases "js_put st1 ''timestamp'' (JStr (xa_clock s (Suc (xa_ticks s))))")
      case (Inl e)
      then show ?thesis using assms Inr False by (auto simp: stamp_def read_clock_def)
    next
      case r2: (Inr st2)
      note a2 = agrees(2) [OF agrees(4) [OF r2] a1] and p2 = js_prop_put [OF r2]
      show ?thesis using assms Inr False r2 a2 p1 p2 del [OF r2] agrees(2) [OF agrees(3) a2, of "''attachments''"]
        by (auto simp: stamp_def read_clock_def js_prop_delete)
    qed
  qed
qed

lemma put_statement:
  "is_object d \<Longrightarrow> \<exists>d'. js_put d ''statement'' v = Inr d' \<and> is_object d' \<and> js_prop d' ''statement'' = v
     \<and> (\<forall>k. k \<noteq> ''statement'' \<longrightarrow> js_prop d' k = js_prop d k)"
  by (auto simp: is_cases js_put_def)

lemma store_one:
  assumes s: "statements_are s xs" "length xs \<le> 4294967295" and st: "stamp st s = (s1, Inr st')"
  shows "\<exists>d s2. storeStatements [st] s = (s2, Inr ()) \<and> s2 = xa_stateUpdated (s1\<lparr>xa_data := d\<rparr>)
    \<and> is_object d \<and> js_prop d ''statement'' = js_array (st' # xs) \<and> (\<forall>k. k \<noteq> ''statement'' \<longrightarrow> js_prop d k = js_prop (xa_data s) k)"
proof -
  have d: "is_object (xa_data s)" "xa_data s1 = xa_data s" using s stamp_agrees [OF st] by (simp_all add: statements_are_def)
  have nn: "\<not> nullish (xa_data s)" using d(1) by (auto simp: is_object_def nullish_def)
  have old: "js_or (js_prop (xa_data s) ''statement'') (js_array []) = js_array xs"
    using s(1) by (auto simp: statements_are_def js_or_def truthy_simps js_array_def)
  have arr: "is_array (js_array xs)" by (simp add: is_array_def js_array_def)
  obtain d1 where d1: "js_put (xa_data s) ''statement'' (js_array xs) = Inr d1" "is_object d1"
    "\<forall>k. k \<noteq> ''statement'' \<longrightarrow> js_prop d1 k = js_prop (xa_data s) k" using put_statement [OF d(1)] by blast
  obtain d2 where d2: "js_put d1 ''statement'' (js_array (st' # xs)) = Inr d2" "is_object d2"
    "js_prop d2 ''statement'' = js_array (st' # xs)" "\<forall>k. k \<noteq> ''statement'' \<longrightarrow> js_prop d2 k = js_prop d1 k"
    using put_statement [OF d1(2)] by blast
  have all: "stamp_all [st] s = (s1, Inr [st'])" by (simp add: st)
  have get: "js_get (xa_data s) ''statement'' = Inr (js_prop (xa_data s) ''statement'')" using nn by (simp add: js_get_def)
  have els: "js_array (rev [st'] @ elements (js_array xs)) = js_array (st' # xs)" using s(2) by simp
  have "storeStatements [st] s = (xa_stateUpdated (s1\<lparr>xa_data := d2\<rparr>), Inr ())"
    unfolding storeStatements_def all prod.case sum.case d(2) get Let_def old d1(1) if_P [OF arr] els d2(1) ..
  moreover have "\<forall>k. k \<noteq> ''statement'' \<longrightarrow> js_prop d2 k = js_prop (xa_data s) k" using d1(3) d2(4) by simp
  ultimately show ?thesis using d2(2,3) by (intro exI [of _ d2] exI [of _ "xa_stateUpdated (s1\<lparr>xa_data := d2\<rparr>)"] conjI refl)
qed

lemma clean_or_mark_ok: "clean_or_mark L st = Inr st' \<Longrightarrow> stored_ok st' \<and> (\<forall>w. clean L Statement st = Inr w \<longrightarrow> st' = w)"
proof (cases "clean L Statement st")
  case (Inl e)
  assume m: "clean_or_mark L st = Inr st'"
  then have p: "js_put st ''error'' (JStr (error_text e)) = Inr st'" by (simp add: clean_or_mark_def Inl)
  have "error_text e \<noteq> []" using says_clean [of L Statement st] Inl by (simp add: says_why_def)
  then show ?thesis using js_prop_put [OF p] js_put_not_nullish [OF p] Inl by (simp add: stored_ok_def truthy_simps)
next
  case (Inr w)
  assume m: "clean_or_mark L st = Inr st'"
  have v: "(''verb'', needed (of_schema Verb [])) \<in> set (spec L Statement)" by (simp add: statement_spec_def)
  have "js_prop st ''verb'' \<noteq> JUndef" by (rule clean_required [OF Inr v]) (simp add: needed_def)
  then have "clean_nested L Verb (js_prop st ''verb'') = Inr (js_prop w ''verb'')"
    by (rule clean_sub [OF Inr v, rotated -2]) (simp_all add: needed_def of_schema_def plain_def)
  then have "\<not> nullish (js_prop w ''verb'')" by (auto dest!: clean_nested_shape simp: is_object_def is_array_def nullish_def)
  moreover obtain m where "w = JObj m" using clean_keys [OF Inr] by blast
  ultimately show ?thesis using m by (auto simp: clean_or_mark_def Inr stored_ok_def nullish_def)
qed

lemma compress_agrees: "compress_statement st = Inr st' \<Longrightarrow> agrees st' st"
  by (auto simp: compress_statement_def bind_result_Inr Let_def intro!: agrees(1) agrees(2) [OF agrees(3) agrees(2) [OF agrees(3) agrees(3)]]
      agrees(2) [OF agrees(3) agrees(3)])

lemma prepare_keeps: "prepareStatement st s = (s', r) \<Longrightarrow> xa_data s' = xa_data s \<and> xa_sent s' = xa_sent s"
  by (auto simp: prepareStatement_def read_clock_def Let_def split: sum.splits if_splits)

text \<open>Sending a statement either changes no data or puts one acceptable statement first.\<close>

lemma send_cases:
  assumes s: "statements_are s xs" "length xs < 4294967295" and send: "sendStatement L st b s = (s', r)"
  shows "r = Pending \<and> xa_data s' = xa_data s
    \<or> r = Resolved () \<and> (\<exists>x st1 st2. statements_are s' (x # xs) \<and> snd (prepareStatement st s) = Inr st1
         \<and> clean_or_mark L st1 = Inr st2 \<and> agrees x st2)"
proof -
  obtain s1 p where p: "prepareStatement st s = (s1, p)" by fastforce
  note k = prepare_keeps [OF p]
  show ?thesis
  proof (cases p)
    case (Inl e)
    then show ?thesis using send p k by (auto simp: sendStatement_def)
  next
    case st1: (Inr st1)
    let ?q = "bind_result (clean_or_mark L st1) (\<lambda>st2. if b then compress_statement st2 else Inr st2)"
    show ?thesis
    proof (cases ?q)
      case (Inl e)
      then show ?thesis using send p k st1 by (auto simp: sendStatement_def)
    next
      case (Inr st3)
      then obtain st2 where st2: "clean_or_mark L st1 = Inr st2" "agrees st3 st2"
        using compress_agrees by (auto simp: bind_result_Inr agrees(1) split: if_splits)
      have ok: "stored_ok st3" using clean_or_mark_ok [OF st2(1)] agrees_ok(1) [OF st2(2)] by simp
      have s1: "statements_are s1 xs" using s(1) k by (simp add: statements_are_def)
      obtain s2 t where t: "stamp st3 s1 = (s2, t)" by fastforce
      show ?thesis
      proof (cases t)
        case (Inl e)
        then have "storeStatements [st3] s1 = (s2, Inl e)" by (simp add: storeStatements_def t)
        then show ?thesis using send p k st1 Inr stamp_agrees [OF t] by (auto simp: sendStatement_def)
      next
        case x: (Inr x)
        have a: "agrees x st3" using stamp_agrees [OF t] x by simp
        obtain d s3 where d: "storeStatements [st3] s1 = (s3, Inr ())" "s3 = xa_stateUpdated (s2\<lparr>xa_data := d\<rparr>)" "is_object d"
          "js_prop d ''statement'' = js_array (x # xs)"
          using store_one [OF s1 _ t [unfolded x]] s(2) by auto
        have s': "s' = xa_stateUpdated s3" "r = Resolved ()" using send p st1 Inr d(1) by (auto simp: sendStatement_def)
        have "statements_are s' (x # xs)"
          using d s1 ok agrees_ok(1) [OF a] by (simp add: s' statements_are_def)
        then show ?thesis using s'(2) p st1 st2(1) agrees(2) [OF a st2(2)] by auto
      qed
    qed
  qed
qed

text \<open>Every call keeps the statements or puts one in front; the number of calls bounds their number.\<close>

definition xapi_inv :: "nat \<times> xapi \<Rightarrow> bool" where
  "xapi_inv p \<longleftrightarrow> fst p \<le> 4294967295 \<longrightarrow> (\<exists>xs. statements_are (snd p) xs \<and> length xs \<le> fst p)"

lemma put_member: "is_object d \<Longrightarrow> is_object (case bind_result r (js_put d ns) of Inr d' \<Rightarrow> d' | Inl _ \<Rightarrow> d)
    \<and> (ns' \<noteq> ns \<longrightarrow> js_prop (case bind_result r (js_put d ns) of Inr d' \<Rightarrow> d' | Inl _ \<Rightarrow> d) ns' = js_prop d ns')"
  by (cases r) (auto simp: is_cases js_put_def)

lemma set_entry_object: "is_object d \<Longrightarrow> is_object (set_entry ns i e d) \<and> (ns' \<noteq> ns \<longrightarrow> js_prop (set_entry ns i e d) ns' = js_prop d ns')"
  unfolding set_entry_def Let_def by (rule put_member)

lemma deleteValue_object: "is_object (xa_data s) \<Longrightarrow> is_object (xa_data (deleteValue a i s))
    \<and> js_prop (xa_data (deleteValue a i s)) ''statement'' = js_prop (xa_data s) ''statement''"
  by (auto simp: deleteValue_def is_cases js_delete_def js_put_def)

lemma value_calls_keep_statements:
  "statements_are s xs \<Longrightarrow> statements_are (fst (sendValue a i v s)) xs"
  "statements_are s xs \<Longrightarrow> statements_are (deleteValue a i s) xs"
  using set_entry_object [of "xa_data s" "area_key a" i "JObj [(''stored'', JStr (xa_clock s (xa_ticks s))), (''value'', v)]" "''statement''"]
    deleteValue_object [of s a i] by (auto simp: statements_are_def sendValue_def setValue_data)

lemma step_statements:
  assumes "statements_are s xs" "length xs < 4294967295"
  shows "\<exists>ys. statements_are (xapi_step L s c) (ys @ xs) \<and> length ys \<le> 1"
proof (cases c)
  case (SendStatement st b)
  obtain s' r where p: "sendStatement L st b s = (s', r)" by fastforce
  from send_cases [OF assms p] show ?thesis
  proof (elim disjE conjE exE)
    assume "xa_data s' = xa_data s"
    then have "statements_are s' ([] @ xs)" using assms(1) by (simp add: statements_are_def)
    then show ?thesis using p SendStatement by (intro exI [of _ "[]"]) (simp add: xapi_step_def)
  next
    fix x assume "statements_are s' (x # xs)"
    then show ?thesis using p SendStatement by (intro exI [of _ "[x]"]) (simp add: xapi_step_def)
  qed
qed (use value_calls_keep_statements [OF assms(1)] in \<open>auto simp: xapi_step_def intro!: exI [of _ "[]"]\<close>)

interpretation xapi_run: stepper "\<lambda>p c. (Suc (fst p), xapi_step L (snd p) c)" xapi_inv for L
proof
  fix p c assume inv: "xapi_inv p"
  show "xapi_inv (Suc (fst p), xapi_step L (snd p) c)"
    unfolding xapi_inv_def fst_conv snd_conv
  proof
    assume b: "Suc (fst p) \<le> 4294967295"
    then obtain xs where xs: "statements_are (snd p) xs" "length xs \<le> fst p" using inv by (auto simp: xapi_inv_def)
    then show "\<exists>xs. statements_are (xapi_step L (snd p) c) xs \<and> length xs \<le> Suc (fst p)"
      using step_statements [OF xs(1), of L c] b by fastforce
  qed
qed

lemma reached_statements:
  assumes "length cs \<le> 4294967295"
  shows "\<exists>xs. statements_are (foldl (xapi_step L) (new_xapi clock) cs) xs \<and> length xs \<le> length cs"
proof -
  have f: "foldl (\<lambda>p c. (Suc (fst p), xapi_step L (snd p) c)) (n, s) cs = (n + length cs, foldl (xapi_step L) s cs)" for n s
    by (induction cs arbitrary: n s) auto
  have "xapi_inv (0, new_xapi clock)" by (auto simp: xapi_inv_def statements_are_def new_xapi_def is_object_def js_prop_JObj)
  from xapi_run.run_inv [OF this, of L cs] show ?thesis using assms by (simp add: f xapi_inv_def)
qed

text \<open>
  C19. Whatever calls content has made, the progress is computed without an error and is \<open>null\<close>, one
  hundredth or 1.  It is 1 once a statement with a successful verb is stored, and it is never reduced
  by a later call: a state with progress 1 stays there, and after a statement was accepted the
  progress is no longer \<open>null\<close>.
\<close>

theorem xapi_progress_grows:
  assumes "s = foldl (xapi_step L) (new_xapi clock) cs" "length cs < 4294967295"
  shows "(\<exists>p \<in> {JNull, JNum (Fin (fl64 (1 / 100))), jint 1}. xapi_progress s = Inr p)
    \<and> (\<forall>c. xapi_progress s = Inr (jint 1) \<longrightarrow> xapi_progress (xapi_step L s c) = Inr (jint 1))
    \<and> (\<forall>c. xapi_progress s \<noteq> Inr JNull \<longrightarrow> xapi_progress (xapi_step L s c) \<noteq> Inr JNull)
    \<and> (\<forall>st b s'. sendStatement L st b s = (s', Resolved ()) \<longrightarrow> xapi_progress s' \<noteq> Inr JNull)
    \<and> (\<forall>st b s' w verb. sendStatement L st b s = (s', Resolved ()) \<longrightarrow> snd (prepareStatement st s) = Inr st
        \<longrightarrow> clean L Statement st = Inr w \<longrightarrow> verb \<in> {''mastered'', ''passed'', ''completed''}
        \<longrightarrow> js_prop (js_prop w ''verb'') ''id'' = xapi_verb verb \<longrightarrow> xapi_progress s' = Inr (jint 1))"
proof -
  obtain xs where xs: "statements_are s xs" "length xs < 4294967295"
    using reached_statements [of cs L clock] assms by fastforce
  note p = progress_eq [OF xs(1) less_imp_le [OF xs(2)]]
  have one: "jint 1 \<noteq> JNull" "jint 1 \<noteq> JNum (Fin (fl64 (1 / 100)))" by (simp add: jint_def, code_simp)
  have step: "(xapi_progress s = Inr (jint 1) \<longrightarrow> xapi_progress (xapi_step L s c) = Inr (jint 1))
      \<and> (xapi_progress s \<noteq> Inr JNull \<longrightarrow> xapi_progress (xapi_step L s c) \<noteq> Inr JNull)" for c
  proof -
    obtain ys where ys: "statements_are (xapi_step L s c) (ys @ xs)" "length ys \<le> 1" using step_statements [OF xs] by blast
    have "length (ys @ xs) \<le> 4294967295" using ys(2) xs(2) by simp
    from progress_eq [OF ys(1) this] p one show ?thesis by (auto split: if_splits)
  qed
  have sent: "xapi_progress s' \<noteq> Inr JNull \<and> (snd (prepareStatement st s) = Inr st \<longrightarrow> clean L Statement st = Inr w
      \<longrightarrow> js_prop (js_prop w ''verb'') ''id'' \<in> {xapi_verb ''mastered'', xapi_verb ''passed'', xapi_verb ''completed''} \<longrightarrow> xapi_progress s' = Inr (jint 1))"
    if r: "sendStatement L st b s = (s', Resolved ())" for st b s' w
  proof -
    from send_cases [OF xs r] obtain x st1 st2 where x: "statements_are s' (x # xs)" "snd (prepareStatement st s) = Inr st1"
      "clean_or_mark L st1 = Inr st2" "agrees x st2" by auto
    have l: "length (x # xs) \<le> 4294967295" using xs(2) by simp
    have "successful x" if "st1 = st" "clean L Statement st = Inr w"
      "js_prop (js_prop w ''verb'') ''id'' \<in> {xapi_verb ''mastered'', xapi_verb ''passed'', xapi_verb ''completed''}"
    proof -
      note t = that
      have "st2 = w" using clean_or_mark_ok [OF x(3)] t by simp
      moreover have "js_prop w ''error'' = JUndef"
      proof -
        obtain m where m: "w = JObj m" "fst ` set m \<subseteq> fst ` set (spec L Statement)" using clean_keys [OF t(2)] by blast
        then have "''error'' \<notin> fst ` set m" by (auto simp: statement_spec_def)
        then show ?thesis by (simp add: m(1) js_prop_JObj obj_get_def map_of_eq_None_iff [THEN iffD2])
      qed
      ultimately show ?thesis using t(3) agrees_ok(2) [OF x(4)] by (simp add: successful_def truthy_simps)
    qed
    then show ?thesis using progress_eq [OF x(1) l] one x(2) by auto
  qed
  show ?thesis using p step sent by (intro conjI allI impI) (auto simp: one)
qed

lemma xapi_progress_grows_witness:
  "\<exists>p \<in> {JNull, JNum (Fin (fl64 (1 / 100))), jint 1}.
     xapi_progress (foldl (xapi_step agreeable) (new_xapi (\<lambda>n. ''2024-01-01'')) [SendStatement (JObj []) False]) = Inr p"
  using xapi_progress_grows [OF refl, of "[SendStatement (JObj []) False]" agreeable "\<lambda>n. ''2024-01-01''"] by simp

section \<open>What the schemas let through\<close>

text \<open>
  A score that passes has numbers only, under the four known keys: the scaled score between -1 and
  1, the minimum below the maximum, and the raw score between the two.
\<close>

theorem cleaned_score_in_range:
  assumes "clean L Score obj = Inr w"
  shows "(\<forall>k v. js_prop w k = v \<longrightarrow> v = JUndef \<or> k \<in> {''scaled'', ''min'', ''max'', ''raw''} \<and> is_number v)
    \<and> (\<forall>x. js_prop w ''scaled'' = JNum x \<longrightarrow> num_le (Fin (-1)) x \<and> num_le x (Fin 1))
    \<and> (\<forall>x y. js_prop w ''min'' = JNum x \<longrightarrow> js_prop w ''max'' = JNum y \<longrightarrow> num_lt x y)
    \<and> (\<forall>x y. js_prop w ''raw'' = JNum x \<longrightarrow> js_prop w ''min'' = JNum y \<longrightarrow> num_le y x)
    \<and> (\<forall>x y. js_prop w ''raw'' = JNum x \<longrightarrow> js_prop w ''max'' = JNum y \<longrightarrow> num_le x y)"
proof -
  note p = score_keys [THEN clean_plain(1) [OF assms]] and q = score_keys [THEN clean_plain(2) [OF assms]]
  have eq: "js_prop w ''scaled'' = js_prop obj ''scaled''" "js_prop w ''min'' = js_prop obj ''min''"
    "js_prop w ''max'' = js_prop obj ''max''" "js_prop w ''raw'' = js_prop obj ''raw''" using p by simp_all
  have num: "js_prop w k = JUndef \<or> is_number (js_prop w k)" if "k \<in> {''scaled'', ''min'', ''max'', ''raw''}" for k
    using that q by (auto simp: run_validators_Inr vtest_def warns_def)
  obtain m where m: "w = JObj m" "fst ` set m \<subseteq> fst ` set (spec L Score)" using clean_keys [OF assms] by blast
  have keys: "js_prop w k = JUndef" if "k \<notin> {''scaled'', ''min'', ''max'', ''raw''}" for k
  proof -
    have "k \<notin> fst ` set m" using m(2) that by (auto simp: score_spec_def)
    then show ?thesis by (simp add: m(1) js_prop_JObj obj_get_def map_of_eq_None_iff [THEN iffD2])
  qed
  show ?thesis
  proof (intro conjI allI impI)
    fix k v assume "js_prop w k = v"
    then show "v = JUndef \<or> k \<in> {''scaled'', ''min'', ''max'', ''raw''} \<and> is_number v" using num [of k] keys [of k] by blast
  qed (use q eq in \<open>auto simp: run_validators_Inr vtest_def warns_def js_number_def\<close>)
qed

lemma cleaned_score_in_range_witness:
  "num_le (Fin 7) (Fin 9)"
proof -
  have "js_prop (JObj [(''max'', jint 9), (''raw'', jint 7)]) ''raw'' = JNum (Fin 7)"
    "js_prop (JObj [(''max'', jint 9), (''raw'', jint 7)]) ''max'' = JNum (Fin 9)" by code_simp+
  with cleaned_score_in_range [OF score_cleans] show ?thesis by blast
qed

lemma cleaned_version:
  assumes "clean L Statement obj = Inr w"
  shows "\<exists>v x y z. js_prop w ''version'' = JStr v \<and> map xtoNumber (js_split_text v ''.'') = [x, y, z] \<and> x = Fin 1 \<and> y = Fin 0 \<and> z \<noteq> NaN"
proof -
  have mem: "(''version'', with_default ''1.0.0'' (plain [IsString, Version])) \<in> set (spec L Statement)" by (simp add: statement_spec_def)
  have "\<exists>v. js_prop w ''version'' = JStr v \<and> vtest L Version (JStr v) ''version'' obj = Inr True"
  proof (cases "js_prop obj ''version'' = JUndef")
    case True
    have "vtest L Version (JStr ''1.0.0'') ''version'' obj = Inr True" unfolding vtest_def validator.case by code_simp
    then show ?thesis using clean_field [OF assms mem] True by (auto simp: field_def with_default_def plain_def)
  next
    case False
    then show ?thesis using clean_field [OF assms mem]
      by (auto simp: field_def with_default_def plain_def run_validators_Inr warns_def vtest_def [of L IsString] is_cases)
  qed
  then obtain v where v: "js_prop w ''version'' = JStr v" "vtest L Version (JStr v) ''version'' obj = Inr True" by blast
  obtain ns where ns: "ns = map xtoNumber (js_split_text v ''.'')" by simp
  have "length ns = 3 \<and> NaN \<notin> set ns \<and> ns ! 0 = Fin 1 \<and> ns ! 1 = Fin 0"
    using v(2) by (simp add: vtest_def str_of_def ns Let_def)
  then obtain x y z where "ns = [x, y, z]" "x = Fin 1" "y = Fin 0" "z \<noteq> NaN" by (auto simp: length_Suc_conv numeral_3_eq_3)
  then show ?thesis using v(1) ns by (intro exI [of _ v] exI [of _ x] exI [of _ y] exI [of _ z]) simp
qed

lemma cleaned_verb:
  assumes "clean_nested L Verb v = Inr x" "\<not> is_array v"
  shows "\<exists>s. js_prop x ''id'' = JStr s \<and> iri_ok L (JStr s)"
proof -
  have c: "clean L Verb v = Inr x" using assms clean_nested_not_array [OF assms(2)] by simp
  have m: "(''id'', needed (plain [IsString, IsIRI])) \<in> set (spec L Verb)" by (simp add: verb_spec_def)
  from clean_plain [OF c m] show ?thesis by (auto simp: run_validators_Inr vtest_def warns_def is_cases)
qed

text \<open>
  C20. A statement that passes is an object with only the keys of the specification.  Its actor, verb
  and object are present; the actor and the verb are objects or arrays, and so is the object unless it
  is passed on unchanged.  Its id is the given one, which the uuid check accepts, or the new one, and
  its version has three numeric parts and begins with 1.0.  Only for a verb that is not an array is
  there an id that is an IRI, and only for an actor that is not an array, agent or group, exactly one
  identification: arrays pass unchecked (lemma \<open>xapi_schema_gaps\<close>).
\<close>

theorem cleaned_statement_shape:
  assumes "clean L Statement obj = Inr w"
  shows "(\<exists>m. w = JObj m \<and> fst ` set m \<subseteq> {''id'', ''actor'', ''verb'', ''object'', ''result'', ''context'', ''timestamp'',
         ''authority'', ''version'', ''attachments''})
    \<and> (\<forall>k \<in> {''actor'', ''verb'', ''object''}. js_prop w k \<noteq> JUndef)
    \<and> (\<forall>k \<in> {''actor'', ''verb'', ''object''}. is_object (js_prop w k) \<or> is_array (js_prop w k) \<or> k = ''object'' \<and> js_prop w k = js_prop obj k)
    \<and> (if js_prop obj ''id'' = JUndef then js_prop w ''id'' = JStr (uuid L)
       else js_prop w ''id'' = js_prop obj ''id'' \<and> uuid_ok L (js_prop w ''id''))
    \<and> (\<exists>v x y z. js_prop w ''version'' = JStr v \<and> map xtoNumber (js_split_text v ''.'') = [x, y, z] \<and> x = Fin 1 \<and> y = Fin 0 \<and> z \<noteq> NaN)
    \<and> (\<not> is_array (js_prop obj ''verb'') \<longrightarrow> (\<exists>s. js_prop (js_prop w ''verb'') ''id'' = JStr s \<and> iri_ok L (JStr s)))
    \<and> (\<not> is_array (js_prop obj ''actor'') \<longrightarrow> numIFI (js_prop w ''actor'') = 1)"
proof -
  have mem: "(''id'', with_default (uuid L) (plain [IsUUID])) \<in> set (spec L Statement)"
    "(''actor'', needed (by_type Actor [])) \<in> set (spec L Statement)" "(''verb'', needed (of_schema Verb [])) \<in> set (spec L Statement)"
    "(''object'', needed (by_type ObjectSchema [ObjectType, ContextProperty])) \<in> set (spec L Statement)"
    by (simp_all add: statement_spec_def)
  have keys: "\<exists>m. w = JObj m \<and> fst ` set m \<subseteq> {''id'', ''actor'', ''verb'', ''object'', ''result'', ''context'', ''timestamp'',
         ''authority'', ''version'', ''attachments''}"
    using clean_keys [OF assms] by (simp add: statement_spec_def)
  have req: "js_prop obj ''actor'' \<noteq> JUndef" "js_prop obj ''verb'' \<noteq> JUndef" "js_prop obj ''object'' \<noteq> JUndef"
    using mem(2-4) [THEN clean_required [OF assms]] by simp_all
  have actor: "clean_nested L (if js_prop (js_prop obj ''actor'') ''objectType'' = JStr ''Group'' then Group else Agent) (js_prop obj ''actor'')
      = Inr (js_prop w ''actor'')"
    using clean_field [OF assms mem(2)] req(1) by (auto simp: field_def by_type_def plain_def needed_def bind_result_Inr js_get_def Actor_def split: if_splits)
  have verb: "clean_nested L Verb (js_prop obj ''verb'') = Inr (js_prop w ''verb'')"
    by (rule clean_sub [OF assms mem(3)]) (simp_all add: req)
  have object: "is_object (js_prop w ''object'') \<or> is_array (js_prop w ''object'') \<or> js_prop w ''object'' = js_prop obj ''object''"
    using clean_field [OF assms mem(4)] req(3)
    by (auto simp: field_def by_type_def plain_def needed_def split: option.splits dest: clean_nested_shape)
  have present: "\<forall>k \<in> {''actor'', ''verb'', ''object''}. js_prop w k \<noteq> JUndef"
    using object req clean_nested_shape [OF actor] clean_nested_shape [OF verb] by (auto simp: is_object_def is_array_def)
  have id': "if js_prop obj ''id'' = JUndef then js_prop w ''id'' = JStr (uuid L)
       else js_prop w ''id'' = js_prop obj ''id'' \<and> uuid_ok L (js_prop w ''id'')"
    using clean_field [OF assms mem(1)]
    by (auto simp: field_def with_default_def plain_def run_validators_Inr vtest_def warns_def)
  show ?thesis
    using keys present object id' cleaned_version [OF assms] cleaned_verb [OF verb] clean_nested_shape [OF actor] clean_nested_shape [OF verb] actor
      clean_nested_not_array [of "js_prop obj ''actor''" L] cleaned_agent cleaned_group
    by (intro conjI) (auto split: if_splits)
qed

lemma cleaned_statement_shape_witness:
  "numIFI (js_prop small_cleaned ''actor'') = 1 \<and> js_prop small_cleaned ''id'' = JStr ''0f4c''"
proof -
  have "\<not> is_array (js_prop small_statement ''actor'')"
    "js_prop small_statement ''id'' = JUndef" "uuid agreeable = ''0f4c''" by code_simp+
  with cleaned_statement_shape [OF small_cleans] show ?thesis by simp
qed

text \<open>
  What passes although the specification forbids it, and what is refused although it is allowed: empty
  arrays stand for any nested part, the team of a context is not looked at, a statement about something
  other than an activity whose context names a platform ends in a \<open>TypeError\<close>, and a group of members
  without an identifier is refused.
\<close>

lemma xapi_schema_gaps:
  "clean agreeable Statement (JObj [(''actor'', JArr []), (''verb'', JArr []), (''object'', JArr [])])
     = Inr (JObj [(''id'', JStr ''0f4c''), (''actor'', JArr []), (''verb'', JArr []), (''object'', JArr []), (''version'', JStr ''1.0.0'')])"
  "clean agreeable Context (JObj [(''team'', jint 5)]) = Inr (JObj [(''team'', jint 5)])"
  "clean agreeable Statement (JObj [(''actor'', JObj [(''mbox'', JStr ''mailto:a@b'')]), (''verb'', JObj [(''id'', JStr ''http://v'')]),
     (''object'', JObj [(''objectType'', JStr ''Agent''), (''mbox'', JStr ''mailto:c@d'')]), (''context'', JObj [(''platform'', JStr ''p'')])])
     = Inl (TypeError ''v.msg is not a function'')"
  "clean agreeable Group (JObj [(''objectType'', JStr ''Group''), (''member'', JArr [(''0'', JObj [(''mbox'', JStr ''mailto:a@b'')])])])
     = Inl (PlainError ''mbox required but not found'')"
  by code_simp+

end
