(* ===== verification/Progress_Tracking.thy ===== *)
theory Progress_Tracking
  imports Js_Value
begin

text \<open>
  \<open>kolibri/plugins/learn/assets/src/composables/useProgressTracking.js\<close>: the learner's progress through a
  resource or a quiz.  Attempts are shared between the list of past attempts and the map by id, so they
  live in a heap.  Everything asynchronous is an event of \<open>tracking_step\<close>: calls, time-outs, ticks of the
  interval, answers to requests; the time of a call is an argument.  \<open>differs\<close> is whether the third-party
  \<open>diff\<close> finds a difference between two states.
\<close>

section \<open>Numbers\<close>

definition math_ceil :: "jsnum \<Rightarrow> jsnum" where
  "math_ceil n = (case n of Fin a \<Rightarrow> Fin (of_int \<lceil>a\<rceil>) | _ \<Rightarrow> n)"

definition num_truthy :: "jsnum \<Rightarrow> bool" where
  "num_truthy n \<longleftrightarrow> n \<noteq> Fin 0 \<and> n \<noteq> NaN"

definition num_ge :: "jsnum \<Rightarrow> jsnum \<Rightarrow> bool" where
  "num_ge a b \<longleftrightarrow> a \<noteq> NaN \<and> b \<noteq> NaN \<and> \<not> num_lt a b"

definition zeroToOne :: "jsnum \<Rightarrow> jsnum" where
  "zeroToOne n = math_min (Fin 1) (math_max (if num_truthy n then n else Fin 0) (Fin 0))"

definition threeDecimalPlaceRoundup :: "jsnum \<Rightarrow> jsnum" where
  "threeDecimalPlaceRoundup n = (if num_truthy n then num_div (math_ceil (num_mul n (Fin 1000))) (Fin 1000) else n)"

definition progressThreshold :: jsnum where
  "progressThreshold = Fin (fl64 (4 / 10))"

definition timeThreshold :: jsnum where
  "timeThreshold = Fin 120"

definition intervalTime :: int where
  "intervalTime = 5000"

definition maxRetries :: nat where
  "maxRetries = 5"

section \<open>State\<close>

text \<open>
  A request is sent up to five times.  \<open>InFlight n\<close>: the answer to the \<open>n\<close>-th sending is awaited;
  \<open>Delaying n\<close>: it was refused with status 503 and the delay runs.
\<close>

datatype failure = HttpFailure "nat option" | Thrown js_error

datatype phase = Queued | InFlight nat | Delaying nat jsnum | Done jsval | Failed failure

record save =
  sv_payload :: "jsval jsobj"
  sv_phase :: phase
  sv_session :: jsval
  sv_was_complete :: bool

record tracking =
  tr_context :: jsval
  complete :: jsval
  progress_state :: jsval
  progress_delta :: jsnum
  time_spent :: jsval
  time_spent_delta :: jsval
  session_id :: jsval
  extra_fields :: "jsval jsobj"
  extra_fields_dirty :: bool
  mastery_criterion :: jsval
  totalattempts :: jsval
  attempt_heap :: "jsval jsobj list"
  pastattempts :: "nat list"
  pastattemptMap :: "nat jsobj"
  unsaved_interactions :: "jsval list"
  last_check :: "int option"
  intervals :: nat
  interval_timer :: bool
  saves :: "save list"
  inits :: "save list"
  promises :: "nat option list"
  update_timeout :: bool
  force_update :: bool
  page_visible :: bool
  logged_in :: bool
  total_progress :: nat

definition new_tracking :: tracking where
  "new_tracking = \<lparr>tr_context = JNull, complete = JNull, progress_state = JNull, progress_delta = Fin 0, time_spent = JNull,
     time_spent_delta = JNull, session_id = JNull, extra_fields = [], extra_fields_dirty = False, mastery_criterion = JNull,
     totalattempts = JNull, attempt_heap = [], pastattempts = [], pastattemptMap = [], unsaved_interactions = [],
     last_check = None, intervals = 0, interval_timer = False, saves = [], inits = [], promises = [], update_timeout = False,
     force_update = False, page_visible = True, logged_in = True, total_progress = 0\<rparr>"

definition valOrNull :: "jsval \<Rightarrow> jsval" where
  "valOrNull v = (if v = JUndef then JNull else v)"

section \<open>Time\<close>

definition getNewTimeElapsed :: "int \<Rightarrow> tracking \<Rightarrow> tracking \<times> jsnum" where
  "getNewTimeElapsed now s = (case last_check s of
       None \<Rightarrow> (s, Fin 0)
     | Some t \<Rightarrow> (s\<lparr>last_check := Some now\<rparr>,
         if now - t > intervalTime * 10 then Fin 0 else Fin (fl64 (of_int (now - t) / 1000))))"

definition clearTrackingInterval :: "tracking \<Rightarrow> tracking" where
  "clearTrackingInterval s = s\<lparr>intervals := (if interval_timer s then intervals s - 1 else intervals s),
     interval_timer := False, last_check := None\<rparr>"

definition startTrackingProgress :: "int \<Rightarrow> tracking \<Rightarrow> tracking" where
  "startTrackingProgress now s = s\<lparr>intervals := Suc (intervals s), interval_timer := True, last_check := Some now\<rparr>"

section \<open>Attempts\<close>

definition attempt :: "tracking \<Rightarrow> nat \<Rightarrow> jsval" where
  "attempt s a = JObj (attempt_heap s ! a)"

definition attempt_matches :: "jsval \<Rightarrow> jsval \<Rightarrow> bool" where
  "attempt_matches interaction a \<longleftrightarrow> \<not> truthy (js_prop a ''id'') \<and> strict_eq (js_prop a ''item'') (js_prop interaction ''item'')"

definition own_entries :: "jsval \<Rightarrow> (string \<times> jsval) list" where
  "own_entries v = (case v of JObj m \<Rightarrow> obj_entries m | JArr m \<Rightarrow> obj_entries m | _ \<Rightarrow> [])"

definition write_attempt :: "(string \<times> jsval) list \<Rightarrow> nat \<Rightarrow> tracking \<Rightarrow> tracking" where
  "write_attempt es a s = s\<lparr>attempt_heap := (attempt_heap s)[a := fold (\<lambda>(k, v). obj_set k v) es (attempt_heap s ! a)]\<rparr>"

definition replaceBlocklist :: "string list" where
  "replaceBlocklist = [''correct'', ''answer'', ''simple_answer'', ''replace'']"

definition updateAttempt :: "jsval \<Rightarrow> tracking \<Rightarrow> tracking \<times> unit js_result" where
  "updateAttempt interaction s =
     (if nullish interaction then (s, Inl (TypeError ''Cannot read properties''))
      else let blocklist = (if truthy (js_prop interaction ''replace'') then [''replace''] else replaceBlocklist);
               key = js_prop interaction ''id'' in
        if \<not> truthy key then (s, Inr ())
        else (case obj_get (pastattemptMap s) (js_string key) of
            None \<Rightarrow>
              (case find (\<lambda>a. attempt_matches interaction (attempt s a)) (pastattempts s) of
                 None \<Rightarrow> (s, Inl (TypeError ''Cannot convert undefined or null to object''))
               | Some a \<Rightarrow>
                   (let s1 = write_attempt (own_entries interaction) a s
                    in (s1\<lparr>pastattemptMap := obj_set (js_string (js_prop (attempt s1 a) ''id'')) a (pastattemptMap s1)\<rparr>, Inr ())))
          | Some a \<Rightarrow> (write_attempt (filter (\<lambda>(k, v). k \<notin> set blocklist) (own_entries interaction)) a s, Inr ())))"

text \<open>The attempt an interaction without id belongs to: one without id for the same item, or a new first one.\<close>

definition record_attempt :: "jsval \<Rightarrow> tracking \<Rightarrow> tracking" where
  "record_attempt interaction s =
     (case find (\<lambda>a. attempt_matches interaction (attempt s a)) (pastattempts s) of
        Some a \<Rightarrow> write_attempt (own_entries interaction) a s
      | None \<Rightarrow> s\<lparr>attempt_heap := attempt_heap s @ [case interaction of JObj m \<Rightarrow> m | _ \<Rightarrow> []],
          pastattempts := length (attempt_heap s) # pastattempts s,
          totalattempts := JNum (num_add (js_number (totalattempts s)) (Fin 1))\<rparr>)"

section \<open>Starting a session\<close>

text \<open>\<open>quiz\<close> is the constant \<open>Modalities.QUIZ\<close> of the package of constants.\<close>

definition needs :: "jsval \<Rightarrow> string \<Rightarrow> string \<Rightarrow> unit js_result" where
  "needs v k msg = (if truthy (js_prop v k) then Inr () else Inl (TypeError msg))"

definition mastery_model_of :: "jsval \<Rightarrow> jsval \<Rightarrow> (string \<times> jsval) list js_result" where
  "mastery_model_of quiz node =
     (if js_prop node ''kind'' \<noteq> JStr ''exercise'' then Inr []
      else bind_result (needs node ''assessmentmetadata'' ''node must have assessmentmetadata property'') (\<lambda>_.
        let meta = js_prop node ''assessmentmetadata''; model = js_prop meta ''mastery_model'' in
        bind_result (needs meta ''mastery_model'' ''node must have assessmentmetadata property with mastery_model property'') (\<lambda>_.
          if \<not> is_object model then Inl (TypeError ''node must have assessmentmetadata property with plain object mastery_model property'')
          else bind_result (needs model ''type'' ''node must have assessmentmetadata property with mastery_model property with type property'') (\<lambda>_.
            Inr [(''mastery_model'',
              if truthy (js_prop node ''options'') \<and> js_prop (js_prop node ''options'') ''modality'' = quiz
              then JObj [(''type'', JStr ''quiz'')] else model)]))))"

definition session_is :: "jsval \<Rightarrow> string \<Rightarrow> jsval \<Rightarrow> bool" where
  "session_is ctxt k v \<longleftrightarrow> truthy ctxt \<and> strict_eq (js_prop ctxt k) v"

text \<open>The data of the request, or \<open>None\<close> when the session is under way already.\<close>

definition init_request :: "jsval \<Rightarrow> jsval \<Rightarrow> jsval \<Rightarrow> jsval \<Rightarrow> jsval \<Rightarrow> jsval \<Rightarrow> jsval jsobj option js_result" where
  "init_request quiz ctxt node lessonId quizId repeat =
     (let n = truthy node; l = truthy lessonId; q = truthy quizId in
      if \<not> n \<and> \<not> q then Inl (TypeError ''Must define either node or quizId'')
      else if (n \<or> l) \<and> q then Inl (TypeError ''quizId must be the only defined parameter if defined'')
      else
        bind_result (if n then
           bind_result (needs node ''id'' ''node must have id property'') (\<lambda>_.
           bind_result (needs node ''content_id'' ''node must have content_id property'') (\<lambda>_.
           bind_result (needs node ''channel_id'' ''node must have channel_id property'') (\<lambda>_.
           bind_result (needs node ''kind'' ''node must have kind property'') (\<lambda>_.
           bind_result (mastery_model_of quiz node) (\<lambda>model.
             Inr (session_is ctxt ''node_id'' (js_prop node ''id'') \<and> (l \<longrightarrow> session_is ctxt ''lesson_id'' lessonId),
               [(''node_id'', js_prop node ''id''), (''content_id'', js_prop node ''content_id''), (''channel_id'', js_prop node ''channel_id''),
                (''kind'', js_prop node ''kind'')] @ (if l then [(''lesson_id'', lessonId)] else []) @ model))))))
         else Inr (session_is ctxt ''quiz_id'' quizId, [(''quiz_id'', quizId)])) (\<lambda>(started, data).
          Inr (if started \<and> \<not> truthy repeat then None
               else Some (data @ (if truthy repeat then [(''repeat'', repeat)] else [])))))"

definition object_of :: "jsval \<Rightarrow> jsval jsobj" where
  "object_of v = (case v of JObj m \<Rightarrow> m | _ \<Rightarrow> [])"

definition initContentSession :: "jsval \<Rightarrow> jsval \<Rightarrow> jsval \<Rightarrow> jsval \<Rightarrow> jsval \<Rightarrow> tracking \<Rightarrow> tracking \<times> unit js_result" where
  "initContentSession quiz node lessonId quizId repeat s =
     (case init_request quiz (tr_context s) node lessonId quizId repeat of
        Inl e \<Rightarrow> (s, Inl e)
      | Inr None \<Rightarrow> (s, Inr ())
      | Inr (Some data) \<Rightarrow>
          (s\<lparr>inits := inits s @ [\<lparr>sv_payload = data, sv_phase = InFlight 1, sv_session = JNull, sv_was_complete = False\<rparr>]\<rparr>, Inr ()))"

text \<open>The handler of the answer.  Past attempts and the map by id share their objects.\<close>

definition session_started :: "jsval \<Rightarrow> tracking \<Rightarrow> tracking \<times> unit js_result" where
  "session_started data s =
     (if nullish data then (s, Inl (TypeError ''Cannot read properties''))
      else let past = elements (js_or (js_prop data ''pastattempts'') (js_array [])); first = length (attempt_heap s);
               addresses = [first..<first + length past] in
        (s\<lparr>tr_context := valOrNull (js_prop data ''context''), complete := valOrNull (js_prop data ''complete''),
           progress_state := valOrNull (js_prop data ''progress''), progress_delta := Fin 0,
           time_spent := valOrNull (js_prop data ''time_spent''), time_spent_delta := jint 0,
           session_id := valOrNull (js_prop data ''session_id''),
           extra_fields := obj_assign [] (object_of (js_prop data ''extra_fields'')),
           mastery_criterion := valOrNull (js_prop data ''mastery_criterion''),
           attempt_heap := attempt_heap s @ map object_of past,
           pastattempts := addresses,
           pastattemptMap := fold (\<lambda>(a, v). obj_set (js_string (js_prop v ''id'')) a) (zip addresses past) [],
           totalattempts := valOrNull (js_prop data ''totalattempts''),
           unsaved_interactions := []\<rparr>, Inr ()))"

section \<open>Saving\<close>

text \<open>The handler of the answer to a save: attempts get what the server knows of them.\<close>

fun update_attempts :: "jsval list \<Rightarrow> tracking \<Rightarrow> tracking \<times> unit js_result" where
  "update_attempts [] s = (s, Inr ())"
| "update_attempts (a # as) s = (case updateAttempt a s of
       (s1, Inl e) \<Rightarrow> (s1, Inl e)
     | (s1, Inr _) \<Rightarrow> update_attempts as s1)"

definition session_saved :: "bool \<Rightarrow> jsval \<Rightarrow> tracking \<Rightarrow> tracking \<times> unit js_result" where
  "session_saved was_complete data s =
     (if nullish data then (s, Inl (TypeError ''Cannot read properties''))
      else (case (if truthy (js_prop data ''attempts'') then update_attempts (elements (js_prop data ''attempts'')) s else (s, Inr ())) of
          (s1, Inl e) \<Rightarrow> (s1, Inl e)
        | (s1, Inr _) \<Rightarrow>
            (if truthy (js_prop data ''complete'')
             then (s1\<lparr>complete := JBool True, progress_state := jint 1,
                     total_progress := (if logged_in s1 \<and> \<not> was_complete then Suc (total_progress s1) else total_progress s1)\<rparr>, Inr ())
             else (s1, Inr ()))))"

definition loggingSaving :: "tracking \<Rightarrow> tracking" where
  "loggingSaving s = s\<lparr>progress_delta := Fin 0, time_spent_delta := jint 0, extra_fields_dirty := False,
     unsaved_interactions := [], force_update := False\<rparr>"

text \<open>The interactions as they are sent: \<open>JSON.parse(JSON.stringify(unsaved_interactions))\<close>.\<close>

definition sent_interactions :: "tracking \<Rightarrow> jsval list" where
  "sent_interactions s = map (\<lambda>v. case json_copy v of Some w \<Rightarrow> w | None \<Rightarrow> JNull) (unsaved_interactions s)"

definition should_save :: "tracking \<Rightarrow> bool" where
  "should_save s \<longleftrightarrow>
     sent_interactions s \<noteq> [] \<and> (list_ex (\<lambda>r. \<not> truthy (js_prop r ''id'')) (sent_interactions s) \<or> length (sent_interactions s) > 2)
     \<or> num_ge (progress_delta s) progressThreshold
     \<or> num_truthy (progress_delta s) \<and> num_ge (js_number (progress_state s)) (Fin 1)
     \<or> num_ge (js_number (time_spent_delta s)) timeThreshold
     \<or> extra_fields_dirty s \<or> force_update s"

definition payload :: "tracking \<Rightarrow> jsval jsobj" where
  "payload s = (if num_truthy (progress_delta s) then [(''progress_delta'', JNum (progress_delta s))] else [])
     @ (if truthy (time_spent_delta s) then [(''time_spent_delta'', time_spent_delta s)] else [])
     @ (if sent_interactions s \<noteq> [] then [(''interactions'', js_array (sent_interactions s))] else [])
     @ (if extra_fields_dirty s then [(''extra_fields'', case json_copy (JObj (extra_fields s)) of Some v \<Rightarrow> v | None \<Rightarrow> JUndef)] else [])"

definition queue_save :: "jsval jsobj \<Rightarrow> tracking \<Rightarrow> tracking" where
  "queue_save data s = (if data = [] then s
     else s\<lparr>saves := saves s @ [\<lparr>sv_payload = data, sv_phase = Queued, sv_session = JNull, sv_was_complete = False\<rparr>]\<rparr>)"

text \<open>Promises that wait are tied to the saving promise as it is now: the last save, or none.\<close>

definition bind_promises :: "tracking \<Rightarrow> tracking" where
  "bind_promises s = s\<lparr>promises := map (\<lambda>p. case p of None \<Rightarrow> Some (length (saves s)) | Some k \<Rightarrow> Some k) (promises s)\<rparr>"

definition immediatelyUpdateContentSession :: "tracking \<Rightarrow> tracking" where
  "immediatelyUpdateContentSession s =
     (let s1 = s\<lparr>update_timeout := False\<rparr>
      in bind_promises (if should_save s1 then queue_save (payload s1) (loggingSaving s1) else s1))"

section \<open>Updating\<close>

record update_args =
  u_progressDelta :: jsval
  u_progress :: jsval
  u_contentState :: jsval
  u_interaction :: jsval
  u_immediate :: bool
  u_force :: bool

definition no_args :: update_args where
  "no_args = \<lparr>u_progressDelta = JUndef, u_progress = JUndef, u_contentState = JUndef, u_interaction = JUndef, u_immediate = False, u_force = False\<rparr>"

abbreviation "state_number s \<equiv> js_number (progress_state s)"

definition set_progress :: "jsval \<Rightarrow> tracking \<Rightarrow> tracking js_result" where
  "set_progress v s =
     (if v = JUndef then Inr s
      else if \<not> is_number v then Inl (TypeError ''progress must be a number'')
      else let p = threeDecimalPlaceRoundup (zeroToOne (js_number v)) in
        Inr (if num_lt (state_number s) p
             then s\<lparr>progress_delta := zeroToOne (threeDecimalPlaceRoundup (num_sub (num_add (progress_delta s) p) (state_number s))),
                    progress_state := JNum p\<rparr>
             else s))"

definition add_progress :: "jsval \<Rightarrow> tracking \<Rightarrow> tracking js_result" where
  "add_progress v s =
     (if v = JUndef then Inr s
      else if \<not> is_number v then Inl (TypeError ''progressDelta must be a number'')
      else let d = threeDecimalPlaceRoundup (zeroToOne (js_number v)) in
        Inr (s\<lparr>progress_delta := zeroToOne (threeDecimalPlaceRoundup (num_add (progress_delta s) d)),
               progress_state := JNum (math_min (threeDecimalPlaceRoundup (num_add (state_number s) d)) (Fin 1))\<rparr>))"

definition set_content_state :: "(jsval \<Rightarrow> jsval \<Rightarrow> bool) \<Rightarrow> jsval \<Rightarrow> tracking \<Rightarrow> tracking js_result" where
  "set_content_state differs v s =
     (if v = JUndef then Inr s
      else if \<not> is_object v then Inl (TypeError ''contentState must be an object'')
      else let new = obj_set ''contentState'' v (extra_fields s) in
        Inr (if differs (JObj (extra_fields s)) (JObj new) then s\<lparr>extra_fields := new, extra_fields_dirty := True\<rparr> else s))"

definition add_interaction :: "jsval \<Rightarrow> tracking \<Rightarrow> tracking \<times> unit js_result" where
  "add_interaction v s =
     (if v = JUndef then (s, Inr ())
      else if \<not> is_object v then (s, Inl (TypeError ''interaction must be an object''))
      else let s1 = s\<lparr>unsaved_interactions := unsaved_interactions s @ [v]\<rparr>;
               s2 = (if truthy (js_prop v ''id'') then s1 else record_attempt v s1)
        in updateAttempt v s2)"

definition add_time :: "int \<Rightarrow> tracking \<Rightarrow> tracking" where
  "add_time now s = (let (s1, elapsed) = getNewTimeElapsed now s in
     if page_visible s1 \<and> num_truthy elapsed
     then s1\<lparr>time_spent := JNum (num_add (js_number (time_spent s1)) (threeDecimalPlaceRoundup elapsed)),
             time_spent_delta := JNum (threeDecimalPlaceRoundup (num_add (js_number (time_spent_delta s1)) elapsed))\<rparr>
     else s1)"

text \<open>The end of the function: a new promise, and the handler at once or after the time-out.\<close>

definition schedule :: "bool \<Rightarrow> tracking \<Rightarrow> tracking" where
  "schedule immediate s =
     (let s1 = s\<lparr>update_timeout := False, promises := promises s @ [None]\<rparr>
      in if immediate then immediatelyUpdateContentSession s1 else s1\<lparr>update_timeout := True\<rparr>)"

text \<open>The checks and the changes before the time is taken: the first error ends it, what was done stays.\<close>

definition apply_update :: "(jsval \<Rightarrow> jsval \<Rightarrow> bool) \<Rightarrow> update_args \<Rightarrow> tracking \<Rightarrow> tracking \<times> unit js_result" where
  "apply_update differs u s =
     (if session_id s = JNull then (s, Inl (ReferenceError ''Cannot update a content session before one has been initialized''))
      else if u_progressDelta u \<noteq> JUndef \<and> u_progress u \<noteq> JUndef
        then (s, Inl (TypeError ''Must only specify either progressDelta or progress''))
      else (case bind_result (set_progress (u_progress u) s) (add_progress (u_progressDelta u)) of
          Inl e \<Rightarrow> (s, Inl e)
        | Inr s1 \<Rightarrow> (case set_content_state differs (u_contentState u) s1 of
            Inl e \<Rightarrow> (s1, Inl e)
          | Inr s2 \<Rightarrow> add_interaction (u_interaction u) s2)))"

definition updateContentSession :: "(jsval \<Rightarrow> jsval \<Rightarrow> bool) \<Rightarrow> update_args \<Rightarrow> int \<Rightarrow> tracking \<Rightarrow> tracking \<times> unit js_result" where
  "updateContentSession differs u now s =
     (case apply_update differs u s of
        (s1, Inl e) \<Rightarrow> (s1, Inl e)
      | (s1, Inr _) \<Rightarrow>
          (let s2 = add_time now s1;
               completed = (\<not> num_ge (state_number s) (Fin 1) \<and> num_ge (state_number s2) (Fin 1));
               immediate = (u_interaction u \<noteq> JUndef \<and> \<not> truthy (js_prop (u_interaction u) ''id'') \<or> completed \<or> u_immediate u)
           in (schedule immediate (s2\<lparr>force_update := force_update s2 \<or> u_force u\<rparr>), Inr ())))"

text \<open>A missing session is not an error here.\<close>

definition stopTrackingProgress :: "(jsval \<Rightarrow> jsval \<Rightarrow> bool) \<Rightarrow> int \<Rightarrow> tracking \<Rightarrow> tracking" where
  "stopTrackingProgress differs now s =
     fst (updateContentSession differs (no_args\<lparr>u_immediate := True, u_force := True\<rparr>) now (clearTrackingInterval s))"

section \<open>Requests and events\<close>

datatype answer = Success jsval | Failure "nat option" jsval

text \<open>The delay before the next sending: the header \<open>Retry-After\<close> in seconds, or five seconds without it.\<close>

definition retry_delay :: "jsval \<Rightarrow> jsnum" where
  "retry_delay after = (if truthy after then num_mul (js_number after) (Fin 1000)
     else if after = JUndef then Fin 5000 else js_number after)"

definition refused :: "nat \<Rightarrow> nat option \<Rightarrow> jsval \<Rightarrow> phase" where
  "refused n st after = (if st = Some 503 then Delaying n (retry_delay after) else Failed (HttpFailure st))"

definition delayed :: "nat \<Rightarrow> phase" where
  "delayed n = (if n < maxRetries then InFlight (Suc n) else Failed (HttpFailure (Some 503)))"

definition upd_save :: "nat \<Rightarrow> (save \<Rightarrow> save) \<Rightarrow> tracking \<Rightarrow> tracking" where
  "upd_save i f s = s\<lparr>saves := (saves s)[i := f (saves s ! i)]\<rparr>"

definition upd_init :: "nat \<Rightarrow> (save \<Rightarrow> save) \<Rightarrow> tracking \<Rightarrow> tracking" where
  "upd_init i f s = s\<lparr>inits := (inits s)[i := f (inits s ! i)]\<rparr>"

text \<open>Sending a save takes the session and whether it is complete as they are then.\<close>

definition send_save :: "nat \<Rightarrow> phase \<Rightarrow> tracking \<Rightarrow> tracking" where
  "send_save i ph s = upd_save i (\<lambda>v. v\<lparr>sv_phase := ph, sv_session := session_id s, sv_was_complete := truthy (complete s)\<rparr>) s"

definition is_done :: "save \<Rightarrow> bool" where
  "is_done v \<longleftrightarrow> (case sv_phase v of Done _ \<Rightarrow> True | _ \<Rightarrow> False)"

text \<open>The saving promise is a chain: a save starts when all before it are done.\<close>

definition startable :: "nat \<Rightarrow> tracking \<Rightarrow> bool" where
  "startable i s \<longleftrightarrow> i < length (saves s) \<and> sv_phase (saves s ! i) = Queued \<and> list_all is_done (take i (saves s))"

definition outcome_of :: "(tracking \<times> unit js_result) \<Rightarrow> jsval \<Rightarrow> phase" where
  "outcome_of r data = (case snd r of Inl e \<Rightarrow> Failed (Thrown e) | Inr _ \<Rightarrow> Done data)"

definition answer_save :: "nat \<Rightarrow> answer \<Rightarrow> tracking \<Rightarrow> tracking" where
  "answer_save i a s = (case sv_phase (saves s ! i) of
       InFlight n \<Rightarrow> (case a of
           Failure st after \<Rightarrow> upd_save i (\<lambda>v. v\<lparr>sv_phase := refused n st after\<rparr>) s
         | Success data \<Rightarrow> (let r = session_saved (sv_was_complete (saves s ! i)) data s
             in upd_save i (\<lambda>v. v\<lparr>sv_phase := outcome_of r data\<rparr>) (fst r)))
     | _ \<Rightarrow> s)"

definition answer_init :: "nat \<Rightarrow> answer \<Rightarrow> tracking \<Rightarrow> tracking" where
  "answer_init i a s = (case sv_phase (inits s ! i) of
       InFlight n \<Rightarrow> (case a of
           Failure st after \<Rightarrow> upd_init i (\<lambda>v. v\<lparr>sv_phase := refused n st after\<rparr>) s
         | Success data \<Rightarrow> (let r = session_started data s
             in upd_init i (\<lambda>v. v\<lparr>sv_phase := outcome_of r data\<rparr>) (fst r)))
     | _ \<Rightarrow> s)"

datatype event =
    Init jsval jsval jsval jsval
  | AnswerInit nat answer
  | DelayedInit nat
  | Update update_args int
  | Debounced
  | Start int
  | Stop int
  | Tick int
  | StartSave nat
  | AnswerSave nat answer
  | DelayedSave nat
  | SetVisible bool
  | SetLoggedIn bool

definition tracking_step :: "jsval \<Rightarrow> (jsval \<Rightarrow> jsval \<Rightarrow> bool) \<Rightarrow> tracking \<Rightarrow> event \<Rightarrow> tracking" where
  "tracking_step quiz differs s e = (case e of
       Init node lesson quizId repeat \<Rightarrow> fst (initContentSession quiz node lesson quizId repeat s)
     | AnswerInit i a \<Rightarrow> if i < length (inits s) then answer_init i a s else s
     | DelayedInit i \<Rightarrow> if i < length (inits s) then (case sv_phase (inits s ! i) of
           Delaying n _ \<Rightarrow> upd_init i (\<lambda>v. v\<lparr>sv_phase := delayed n\<rparr>) s | _ \<Rightarrow> s) else s
     | Update u now \<Rightarrow> fst (updateContentSession differs u now s)
     | Debounced \<Rightarrow> if update_timeout s then immediatelyUpdateContentSession s else s
     | Start now \<Rightarrow> startTrackingProgress now s
     | Stop now \<Rightarrow> stopTrackingProgress differs now s
     | Tick now \<Rightarrow> if 0 < intervals s then fst (updateContentSession differs no_args now s) else s
     | StartSave i \<Rightarrow> if startable i s then send_save i (InFlight 1) s else s
     | AnswerSave i a \<Rightarrow> if i < length (saves s) then answer_save i a s else s
     | DelayedSave i \<Rightarrow> if i < length (saves s) then (case sv_phase (saves s ! i) of
           Delaying n _ \<Rightarrow> if n < maxRetries then send_save i (delayed n) s else upd_save i (\<lambda>v. v\<lparr>sv_phase := delayed n\<rparr>) s
         | _ \<Rightarrow> s) else s
     | SetVisible b \<Rightarrow> s\<lparr>page_visible := b\<rparr>
     | SetLoggedIn b \<Rightarrow> s\<lparr>logged_in := b\<rparr>)"

text \<open>
  What became of the promise \<open>p\<close> of an update: the promise is settled with the save it is tied to, and
  rejected with the first save up to that one that failed.
\<close>

datatype outcome = Pending | Resolved jsval | Rejected failure

fun chain_outcome :: "save list \<Rightarrow> jsval \<Rightarrow> outcome" where
  "chain_outcome [] v = Resolved v"
| "chain_outcome (sv # svs) v = (case sv_phase sv of
       Done w \<Rightarrow> chain_outcome svs w | Failed f \<Rightarrow> Rejected f | _ \<Rightarrow> Pending)"

definition promise_outcome :: "tracking \<Rightarrow> nat \<Rightarrow> outcome" where
  "promise_outcome s p = (case promises s ! p of
       None \<Rightarrow> Pending | Some k \<Rightarrow> chain_outcome (take k (saves s)) JUndef)"

end
