(* ===== verification/Progress_Properties.thy ===== *)
theory Progress_Properties
  imports Progress_Tracking Js_Collections
begin

text \<open>
  Properties of progress tracking: the order of the saves and what a failed one does, the interactions
  that are sent, and the range of the progress.
\<close>

section \<open>What the operations leave alone\<close>

lemma updateAttempt_form: "\<exists>h m. fst (updateAttempt v s) = s\<lparr>attempt_heap := h, pastattemptMap := m\<rparr>"
proof -
  have w: "\<exists>h m. write_attempt es a s = s\<lparr>attempt_heap := h, pastattemptMap := m\<rparr>" for es a
    by (rule exI [of _ "attempt_heap (write_attempt es a s)"], rule exI [of _ "pastattemptMap s"]) (simp add: write_attempt_def)
  have w2: "\<exists>h m. (write_attempt es a s)\<lparr>pastattemptMap := m'\<rparr> = s\<lparr>attempt_heap := h, pastattemptMap := m\<rparr>" for es a m'
    by (rule exI [of _ "attempt_heap (write_attempt es a s)"], rule exI [of _ m']) (simp add: write_attempt_def)
  have r: "\<exists>h m. s = s\<lparr>attempt_heap := h, pastattemptMap := m\<rparr>"
    by (rule exI [of _ "attempt_heap s"], rule exI [of _ "pastattemptMap s"]) simp
  show ?thesis unfolding updateAttempt_def Let_def using w w2 r
    by (simp split: option.split)
qed

lemma record_attempt_form: "\<exists>h p t. record_attempt v s = s\<lparr>attempt_heap := h, pastattempts := p, totalattempts := t\<rparr>"
proof (cases "find (\<lambda>a. attempt_matches v (attempt s a)) (pastattempts s)")
  case None
  then show ?thesis unfolding record_attempt_def None option.case by blast
next
  case (Some a)
  show ?thesis unfolding record_attempt_def Some option.case
    by (rule exI [of _ "attempt_heap (write_attempt (own_entries v) a s)"], rule exI [of _ "pastattempts s"], rule exI [of _ "totalattempts s"])
      (simp add: write_attempt_def)
qed

text \<open>\<open>same_books s t\<close>: the attempts apart, nothing the saving looks at has changed.\<close>

definition same_books :: "tracking \<Rightarrow> tracking \<Rightarrow> bool" where
  "same_books s t \<longleftrightarrow> saves t = saves s \<and> inits t = inits s \<and> promises t = promises s \<and> session_id t = session_id s
     \<and> unsaved_interactions t = unsaved_interactions s \<and> progress_delta t = progress_delta s \<and> complete t = complete s
     \<and> progress_state t = progress_state s \<and> time_spent t = time_spent s \<and> time_spent_delta t = time_spent_delta s
     \<and> extra_fields t = extra_fields s \<and> extra_fields_dirty t = extra_fields_dirty s \<and> force_update t = force_update s
     \<and> update_timeout t = update_timeout s \<and> total_progress t = total_progress s \<and> intervals t = intervals s"

lemma same_books_refl [simp]: "same_books s s"
  by (simp add: same_books_def)

lemma same_books_trans: "same_books s t \<Longrightarrow> same_books t u \<Longrightarrow> same_books s u"
  by (simp add: same_books_def)

lemma updateAttempt_books: "same_books s (fst (updateAttempt v s))"
  using updateAttempt_form [of v s] by (auto simp: same_books_def)

lemma record_attempt_books: "same_books s (record_attempt v s)"
  using record_attempt_form [of v s] by (auto simp: same_books_def)

lemma update_attempts_books: "same_books s (fst (update_attempts vs s))"
proof (induction vs arbitrary: s)
  case (Cons v vs)
  obtain s1 r where r: "updateAttempt v s = (s1, r)" by fastforce
  have "same_books s s1" using updateAttempt_books [of s v] r by simp
  with Cons [of s1] r show ?case by (cases r) (auto intro: same_books_trans)
qed simp

section \<open>How the saves change\<close>

text \<open>The saves and the promises tied to them.\<close>

definition queue :: "tracking \<Rightarrow> save list \<times> nat option list" where
  "queue s = (saves s, promises s)"

definition moves :: "tracking \<Rightarrow> nat \<Rightarrow> phase \<Rightarrow> bool" where
  "moves s i q \<longleftrightarrow> i < length (saves s) \<and>
     (startable i s \<and> q = InFlight 1
      \<or> (\<exists>n. sv_phase (saves s ! i) = InFlight n \<and> ((\<exists>d. q = Delaying n d) \<or> (\<exists>f. q = Failed f) \<or> (\<exists>v. q = Done v)))
      \<or> (\<exists>n d. sv_phase (saves s ! i) = Delaying n d \<and> (n < maxRetries \<and> q = InFlight (Suc n) \<or> (\<exists>f. q = Failed f))))"

definition save_change :: "tracking \<Rightarrow> tracking \<Rightarrow> bool" where
  "save_change s t \<longleftrightarrow> saves t = saves s
     \<or> (\<exists>v. saves t = saves s @ [v] \<and> sv_phase v = Queued)
     \<or> (\<exists>i v. saves t = (saves s)[i := v] \<and> sv_payload v = sv_payload (saves s ! i) \<and> moves s i (sv_phase v))"

lemma same_books_queue: "same_books s t \<Longrightarrow> queue t = queue s"
  by (simp add: same_books_def queue_def)

lemma queue_saves: "queue t = queue s \<Longrightarrow> saves t = saves s" "queue t = queue s \<Longrightarrow> promises t = promises s"
  by (simp_all add: queue_def)

lemma session_saved_queue: "queue (fst (session_saved wc d s)) = queue s"
proof -
  obtain s1 r where r: "(if truthy (js_prop d ''attempts'') then update_attempts (elements (js_prop d ''attempts'')) s else (s, Inr ())) = (s1, r)"
    by fastforce
  have s1: "queue s1 = queue s"
    using same_books_queue [OF update_attempts_books [of s "elements (js_prop d ''attempts'')"]] r by (cases "truthy (js_prop d ''attempts'')") simp_all
  show ?thesis unfolding session_saved_def r using s1 by (cases r) (simp_all add: queue_def)
qed

lemma bind_promises_saves [simp]: "saves (bind_promises s) = saves s"
  by (simp add: bind_promises_def)

lemma loggingSaving_saves [simp]: "saves (loggingSaving s) = saves s"
  by (simp add: loggingSaving_def)

definition one_more :: "tracking \<Rightarrow> tracking \<Rightarrow> bool" where
  "one_more s t \<longleftrightarrow> saves t = saves s \<or> (\<exists>v. saves t = saves s @ [v] \<and> sv_phase v = Queued)"

lemma one_more_change: "one_more s t \<Longrightarrow> save_change s t"
  by (auto simp: one_more_def save_change_def)

lemma queue_one_more: "one_more s (queue_save data (loggingSaving s))"
  by (simp add: one_more_def queue_save_def)

lemma one_more_same: "saves s' = saves s \<Longrightarrow> saves t' = saves t \<Longrightarrow> one_more s t \<Longrightarrow> one_more s' t'"
  by (simp add: one_more_def)

lemma immediately_one_more: "one_more s (immediatelyUpdateContentSession s)"
proof -
  obtain t where t: "t = s\<lparr>update_timeout := False\<rparr>" by simp
  have "saves t = saves s" by (simp add: t)
  then show ?thesis unfolding immediatelyUpdateContentSession_def Let_def t [symmetric]
    using one_more_same [OF _ bind_promises_saves queue_one_more [of t "payload t"]]
    by (simp add: one_more_def)
qed

lemma schedule_one_more: "one_more s (schedule b s)"
proof -
  obtain t where t: "t = s\<lparr>update_timeout := False, promises := promises s @ [None]\<rparr>" by simp
  have "saves t = saves s" by (simp add: t)
  then show ?thesis unfolding schedule_def Let_def t [symmetric] using immediately_one_more [of t]
    by (simp add: one_more_def)
qed

lemma apply_update_queue: "queue (fst (apply_update d u s)) = queue s"
proof -
  have a: "set_progress v s = Inr t \<Longrightarrow> queue t = queue s" "add_progress v s = Inr t \<Longrightarrow> queue t = queue s"
    "set_content_state d v s = Inr t \<Longrightarrow> queue t = queue s" for v s t
    by (auto simp: set_progress_def add_progress_def set_content_state_def queue_def Let_def split: if_splits)
  have i: "queue (fst (add_interaction v s)) = queue s" for v s
    unfolding add_interaction_def Let_def
    by (simp add: same_books_queue [OF updateAttempt_books] same_books_queue [OF record_attempt_books]) (simp add: queue_def)
  show ?thesis
  proof (cases "bind_result (set_progress (u_progress u) s) (add_progress (u_progressDelta u))")
    case (Inl e)
    then show ?thesis by (simp add: apply_update_def)
  next
    case s1: (Inr s1)
    then have 1: "queue s1 = queue s" using a(1,2) by (fastforce simp: bind_result_Inr)
    show ?thesis
    proof (cases "set_content_state d (u_contentState u) s1")
      case (Inl e)
      then show ?thesis using s1 1 by (simp add: apply_update_def)
    next
      case (Inr s2)
      then show ?thesis using s1 1 a(3) [OF Inr] i by (simp add: apply_update_def)
    qed
  qed
qed

lemma add_time_queue [simp]: "queue (add_time now s) = queue s"
  by (simp add: queue_def add_time_def getNewTimeElapsed_def split: option.split)

lemma update_one_more: "one_more s (fst (updateContentSession d u now s))"
proof -
  obtain s1 r where p: "apply_update d u s = (s1, r)" by fastforce
  have s1: "saves (add_time now s1) = saves s" "saves s1 = saves s"
    using queue_saves(1) [OF apply_update_queue [of d u s]] queue_saves(1) [OF add_time_queue [of now s1]] p by simp_all
  show ?thesis
  proof (cases r)
    case (Inl e)
    then show ?thesis using s1 by (simp add: updateContentSession_def p one_more_def)
  next
    case (Inr x)
    obtain t b where t: "fst (updateContentSession d u now s) = schedule b t" "saves t = saves s"
      using s1 by (simp add: updateContentSession_def p Inr Let_def)
    then show ?thesis using schedule_one_more [of t b] by (simp add: one_more_def)
  qed
qed

lemma upd_save_change:
  "moves s i (sv_phase (f (saves s ! i))) \<Longrightarrow> sv_payload (f (saves s ! i)) = sv_payload (saves s ! i) \<Longrightarrow> saves t = saves s
     \<Longrightarrow> save_change s (upd_save i f t)"
  unfolding save_change_def by (intro disjI2 exI [of _ i] exI [of _ "f (saves s ! i)"]) (simp add: upd_save_def)

lemma send_save_change: "moves s i q \<Longrightarrow> save_change s (send_save i q s)"
  unfolding send_save_def by (rule upd_save_change) simp_all

lemma save_change_step: "save_change s (tracking_step q d s e)"
proof -
  have none: "saves t = saves s \<Longrightarrow> save_change s t" for t by (simp add: save_change_def)
  show ?thesis
  proof (cases e)
    case (AnswerSave i a)
    show ?thesis
    proof (cases "i < length (saves s) \<and> (\<exists>n. sv_phase (saves s ! i) = InFlight n)")
      case True
      then obtain n where n: "i < length (saves s)" "sv_phase (saves s ! i) = InFlight n" by blast
      have "save_change s (answer_save i a s)"
      proof (cases a)
        case (Success data)
        have "saves (fst (session_saved wc data s)) = saves s" for wc by (rule queue_saves(1) [OF session_saved_queue])
        then show ?thesis using n unfolding answer_save_def Success Let_def
          by (simp, intro upd_save_change) (auto simp: moves_def outcome_of_def split: sum.split)
      next
        case (Failure st after)
        then show ?thesis using n unfolding answer_save_def Failure
          by (simp, intro upd_save_change) (auto simp: moves_def refused_def)
      qed
      then show ?thesis using AnswerSave n by (simp add: tracking_step_def)
    next
      case False
      then show ?thesis using AnswerSave by (intro none) (auto simp: tracking_step_def answer_save_def split: phase.split)
    qed
  next
    case (DelayedSave i)
    show ?thesis
    proof (cases "i < length (saves s) \<and> (\<exists>n x. sv_phase (saves s ! i) = Delaying n x)")
      case True
      then obtain n x where n: "i < length (saves s)" "sv_phase (saves s ! i) = Delaying n x" by blast
      then have m: "moves s i (delayed n)" by (simp add: moves_def delayed_def)
      have "save_change s (upd_save i (\<lambda>v. v\<lparr>sv_phase := delayed n\<rparr>) s)" by (rule upd_save_change) (simp_all add: m)
      then show ?thesis using DelayedSave n send_save_change [OF m] by (simp add: tracking_step_def)
    next
      case False
      then show ?thesis using DelayedSave by (intro none) (auto simp: tracking_step_def split: phase.split)
    qed
  next
    case (StartSave i)
    have "startable i s \<Longrightarrow> moves s i (InFlight 1)" by (simp add: moves_def startable_def)
    then show ?thesis using StartSave send_save_change [of s i "InFlight 1"] none by (simp add: tracking_step_def)
  next
    case (AnswerInit i a)
    then show ?thesis
      by (intro none) (auto simp: tracking_step_def answer_init_def upd_init_def session_started_def Let_def split: phase.split answer.split)
  next
    case (Init n l z r)
    then show ?thesis by (intro none) (auto simp: tracking_step_def initContentSession_def split: sum.split option.split)
  next
    case (Stop now)
    have "saves (clearTrackingInterval s) = saves s" by (simp add: clearTrackingInterval_def)
    then have "one_more s (stopTrackingProgress d now s)"
      unfolding stopTrackingProgress_def by (intro one_more_same [OF _ refl update_one_more]) simp
    then show ?thesis using Stop by (simp add: tracking_step_def one_more_change)
  next
    case (Update u now)
    then show ?thesis using update_one_more by (simp add: tracking_step_def one_more_change)
  next
    case (Tick now)
    then show ?thesis using update_one_more none by (simp add: tracking_step_def one_more_change)
  next
    case Debounced
    then show ?thesis using immediately_one_more none by (simp add: tracking_step_def one_more_change)
  qed (auto simp: tracking_step_def upd_init_def startTrackingProgress_def split: phase.split intro!: none)
qed

section \<open>Saves are sequential\<close>

definition saves_inv :: "tracking \<Rightarrow> bool" where
  "saves_inv s \<longleftrightarrow> (\<forall>i < length (saves s).
     (sv_phase (saves s ! i) \<noteq> Queued \<longrightarrow> list_all is_done (take i (saves s)))
     \<and> (\<forall>n d. sv_phase (saves s ! i) = InFlight n \<or> sv_phase (saves s ! i) = Delaying n d \<longrightarrow> 1 \<le> n \<and> n \<le> maxRetries))"

lemma saves_inv_change:
  assumes inv: "saves_inv s" and c: "save_change s t"
  shows "saves_inv t"
  using c unfolding save_change_def
proof (elim disjE exE conjE)
  assume "saves t = saves s" then show ?thesis using inv by (simp add: saves_inv_def)
next
  fix v assume v: "saves t = saves s @ [v]" "sv_phase v = Queued"
  show ?thesis unfolding saves_inv_def
  proof (intro allI impI)
    fix i assume "i < length (saves t)"
    then show "(sv_phase (saves t ! i) \<noteq> Queued \<longrightarrow> list_all is_done (take i (saves t)))
     \<and> (\<forall>n d. sv_phase (saves t ! i) = InFlight n \<or> sv_phase (saves t ! i) = Delaying n d \<longrightarrow> 1 \<le> n \<and> n \<le> maxRetries)"
      using v inv by (cases "i < length (saves s)") (auto simp: saves_inv_def nth_append)
  qed
next
  fix i v assume v: "saves t = (saves s)[i := v]" "sv_payload v = sv_payload (saves s ! i)" "moves s i (sv_phase v)"
  have i: "i < length (saves s)" using v(3) by (simp add: moves_def)
  have notdone: "\<not> is_done (saves s ! i)"
    using v(3) by (auto simp: moves_def is_done_def startable_def)
  have before: "list_all is_done (take i (saves s))"
    using v(3) inv i by (auto simp: moves_def saves_inv_def startable_def)
  have later: "sv_phase (saves s ! j) = Queued" if "i < j" "j < length (saves s)" for j
  proof (rule ccontr)
    assume "sv_phase (saves s ! j) \<noteq> Queued"
    then have "list_all is_done (take j (saves s))" using inv that by (simp add: saves_inv_def)
    then have "is_done (take j (saves s) ! i)" using that by (auto simp: list_all_length)
    then show False using notdone that by simp
  qed
  show ?thesis unfolding saves_inv_def
  proof (intro allI impI)
    fix j assume j: "j < length (saves t)"
    consider "j < i" | "j = i" | "i < j" by linarith
    then show "(sv_phase (saves t ! j) \<noteq> Queued \<longrightarrow> list_all is_done (take j (saves t)))
     \<and> (\<forall>n d. sv_phase (saves t ! j) = InFlight n \<or> sv_phase (saves t ! j) = Delaying n d \<longrightarrow> 1 \<le> n \<and> n \<le> maxRetries)"
    proof cases
      case 1
      then show ?thesis using inv [unfolded saves_inv_def, rule_format, of j] i by (simp add: v(1))
    next
      case 2
      have "\<forall>n d. sv_phase v = InFlight n \<or> sv_phase v = Delaying n d \<longrightarrow> 1 \<le> n \<and> n \<le> maxRetries"
        using v(3) inv i by (auto simp: moves_def saves_inv_def maxRetries_def)
      then show ?thesis using before i 2 by (simp add: v(1))
    next
      case 3
      then show ?thesis using later j by (simp add: v(1))
    qed
  qed
qed

interpretation tracking_run: stepper "tracking_step q d" saves_inv for q d
  by unfold_locales (rule saves_inv_change [OF _ save_change_step])

section \<open>Promises\<close>

text \<open>A promise without save may get one, which is then not older than the saves there were.\<close>

definition promise_change :: "tracking \<Rightarrow> tracking \<Rightarrow> bool" where
  "promise_change s t \<longleftrightarrow> length (promises s) \<le> length (promises t) \<and> (\<forall>p k. p < length (promises t) \<longrightarrow> promises t ! p = Some k \<longrightarrow>
     p < length (promises s) \<and> promises s ! p = Some k \<or> length (saves s) \<le> k)"

lemma promise_change_same: "promises t = promises s \<Longrightarrow> promise_change s t"
  by (simp add: promise_change_def)

lemma bind_promise_change:
  assumes "promises t = promises s \<or> promises t = promises s @ [None]" "length (saves s) \<le> length (saves t)"
  shows "promise_change s (bind_promises t)"
  using assms by (auto simp: promise_change_def bind_promises_def nth_append less_Suc_eq split: option.splits if_splits)

lemma immediately_promises:
  assumes "promises t = promises s \<or> promises t = promises s @ [None]" "saves t = saves s"
  shows "promise_change s (immediatelyUpdateContentSession t)"
proof -
  obtain t' where t': "t' = t\<lparr>update_timeout := False\<rparr>" by simp
  have q: "promises t' = promises t" "saves t' = saves t" "promises (queue_save x (loggingSaving t')) = promises t"
    "length (saves t) \<le> length (saves (queue_save x (loggingSaving t')))" for x
    by (simp_all add: t' queue_save_def loggingSaving_def)
  show ?thesis unfolding immediatelyUpdateContentSession_def Let_def t' [symmetric]
    by (rule bind_promise_change) (use assms q in auto)
qed

lemma schedule_promises: "saves t = saves s \<Longrightarrow> promises t = promises s \<Longrightarrow> promise_change s (schedule b t)"
  using immediately_promises [of "t\<lparr>update_timeout := False, promises := promises t @ [None]\<rparr>" s]
  by (auto simp: schedule_def promise_change_def nth_append less_Suc_eq Let_def)

lemma update_promises: "promise_change s (fst (updateContentSession d u now s))"
proof -
  obtain s1 r where p: "apply_update d u s = (s1, r)" by fastforce
  have q: "queue s1 = queue s" "queue (add_time now s1) = queue s"
    using apply_update_queue [of d u s] p by simp_all
  show ?thesis
  proof (cases r)
    case (Inl e)
    then show ?thesis using q by (simp add: updateContentSession_def p promise_change_same queue_def)
  next
    case (Inr x)
    show ?thesis using q(2) unfolding updateContentSession_def p Inr Let_def
      by (simp add: queue_def) (rule schedule_promises; simp)
  qed
qed

lemma promise_change_step: "promise_change s (tracking_step q d s e)"
proof (cases e)
  case (Stop now)
  have "promises (clearTrackingInterval s) = promises s" "saves (clearTrackingInterval s) = saves s"
    by (simp_all add: clearTrackingInterval_def)
  then show ?thesis using Stop update_promises [of "clearTrackingInterval s"]
    by (simp add: tracking_step_def stopTrackingProgress_def promise_change_def)
next
  case (AnswerSave i a)
  have "promises (fst (session_saved wc data s)) = promises s" for wc data by (rule queue_saves(2) [OF session_saved_queue])
  then show ?thesis using AnswerSave
    by (intro promise_change_same) (simp add: tracking_step_def answer_save_def upd_save_def Let_def split: phase.split answer.split)
next
  case (AnswerInit i a)
  then show ?thesis
    by (intro promise_change_same) (auto simp: tracking_step_def answer_init_def upd_init_def session_started_def Let_def split: phase.split answer.split)
next
  case (Init n l z r)
  then show ?thesis by (intro promise_change_same) (auto simp: tracking_step_def initContentSession_def split: sum.split option.split)
next
  case (Update u now)
  then show ?thesis using update_promises by (simp add: tracking_step_def)
next
  case (Tick now)
  then show ?thesis using update_promises promise_change_same by (simp add: tracking_step_def)
next
  case Debounced
  then show ?thesis using immediately_promises [of s s] promise_change_same by (simp add: tracking_step_def)
qed (auto simp: tracking_step_def upd_init_def upd_save_def send_save_def startTrackingProgress_def split: phase.split intro!: promise_change_same)

section \<open>After a failed save\<close>

definition stuck :: "nat \<Rightarrow> failure \<Rightarrow> nat \<Rightarrow> tracking \<Rightarrow> bool" where
  "stuck i f n s \<longleftrightarrow> saves_inv s \<and> i < length (saves s) \<and> sv_phase (saves s ! i) = Failed f
     \<and> n \<le> length (promises s) \<and> (\<forall>p k. n \<le> p \<longrightarrow> p < length (promises s) \<longrightarrow> promises s ! p = Some k \<longrightarrow> i < k)"

lemma stuck_step:
  assumes "stuck i f n s"
  shows "stuck i f n (tracking_step q d s e)"
proof -
  let ?t = "tracking_step q d s e"
  have inv: "saves_inv s" and i: "i < length (saves s)" "sv_phase (saves s ! i) = Failed f" using assms by (simp_all add: stuck_def)
  have phase: "i < length (saves ?t) \<and> sv_phase (saves ?t ! i) = Failed f"
    using save_change_step [of s q d e] i unfolding save_change_def
  proof (elim disjE exE conjE)
    fix j v assume v: "saves ?t = (saves s)[j := v]" "moves s j (sv_phase v)"
    have "j \<noteq> i" using v(2) i by (auto simp: moves_def startable_def)
    then show ?thesis using v(1) i by simp
  qed (simp_all add: nth_append)
  have c: "promise_change s ?t" by (rule promise_change_step)
  have "\<forall>p k. n \<le> p \<longrightarrow> p < length (promises ?t) \<longrightarrow> promises ?t ! p = Some k \<longrightarrow> i < k"
  proof (intro allI impI)
    fix p k assume p: "n \<le> p" "p < length (promises ?t)" "promises ?t ! p = Some k"
    then have "p < length (promises s) \<and> promises s ! p = Some k \<or> length (saves s) \<le> k" using c by (simp add: promise_change_def)
    then show "i < k" using assms p(1) i(1) by (auto simp: stuck_def)
  qed
  moreover have "n \<le> length (promises ?t)" using c assms by (auto simp: promise_change_def stuck_def)
  ultimately show ?thesis using phase saves_inv_change [OF inv save_change_step] by (simp add: stuck_def)
qed

lemma stuck_run: "stuck i f n s \<Longrightarrow> stuck i f n (foldl (tracking_step q d) s es)"
  by (induction es arbitrary: s) (auto intro: stuck_step)

lemma chain_rejected:
  "i < length svs \<Longrightarrow> list_all is_done (take i svs) \<Longrightarrow> sv_phase (svs ! i) = Failed f \<Longrightarrow> chain_outcome svs v = Rejected f"
proof (induction svs arbitrary: i v)
  case (Cons sv svs)
  then show ?case by (cases i) (auto simp: is_done_def split: phase.splits)
qed simp

lemma stuck_later: "stuck i f n s \<Longrightarrow> i < j \<Longrightarrow> j < length (saves s) \<Longrightarrow> sv_phase (saves s ! j) = Queued"
proof (rule ccontr)
  assume s: "stuck i f n s" "i < j" "j < length (saves s)" "sv_phase (saves s ! j) \<noteq> Queued"
  then have "list_all is_done (take j (saves s))" by (simp add: stuck_def saves_inv_def)
  then have "is_done (take j (saves s) ! i)" using s by (auto simp: list_all_length)
  then show False using s by (simp add: stuck_def is_done_def)
qed

lemma stuck_rejected:
  assumes s: "stuck i f n s" and p: "promises s ! p = Some k" "i < k"
  shows "promise_outcome s p = Rejected f"
proof -
  have i: "i < length (take k (saves s))" "sv_phase (take k (saves s) ! i) = Failed f" using s p(2) by (simp_all add: stuck_def)
  moreover have "list_all is_done (take i (take k (saves s)))" using s p(2) by (simp add: stuck_def saves_inv_def min_absorb1)
  ultimately show ?thesis using p(1) chain_rejected by (simp add: promise_outcome_def)
qed

lemma tracking_reachable: "saves_inv (foldl (tracking_step q d) new_tracking es)"
  by (rule tracking_run.run_inv) (simp add: saves_inv_def new_tracking_def)

text \<open>
  C21. Saves are sent one at a time and in order: when a save has been sent, all before it are done;
  and a save is sent at most five times.
\<close>

theorem saves_are_sequential:
  assumes "s = foldl (tracking_step quiz differs) new_tracking es" "i < length (saves s)" "sv_phase (saves s ! i) \<noteq> Queued"
  shows "(\<forall>j < i. is_done (saves s ! j)) \<and> (\<forall>n. sv_phase (saves s ! i) = InFlight n \<longrightarrow> 1 \<le> n \<and> n \<le> maxRetries)
    \<and> (\<not> is_done (saves s ! i) \<longrightarrow> (\<forall>j. i < j \<longrightarrow> j < length (saves s) \<longrightarrow> sv_phase (saves s ! j) = Queued))"
proof -
  have inv: "saves_inv s" using tracking_reachable assms(1) by simp
  have before: "is_done (saves s ! j)" if "k < length (saves s)" "sv_phase (saves s ! k) \<noteq> Queued" "j < k" for j k
  proof -
    have "list_all is_done (take k (saves s))" using inv that by (simp add: saves_inv_def)
    then have "is_done (take k (saves s) ! j)" using that by (auto simp: list_all_length)
    then show ?thesis using that by simp
  qed
  have n: "1 \<le> n \<and> n \<le> maxRetries" if "sv_phase (saves s ! i) = InFlight n" for n
    using inv [unfolded saves_inv_def, rule_format, OF assms(2)] that by blast
  show ?thesis using before assms(2,3) n by blast
qed

text \<open>
  A save that fails is the end of saving: whatever happens afterwards, no later save is ever sent,
  and every promise of a later update is rejected with the same failure or stays pending, although the
  interactions and the progress of those updates have been taken off the unsaved state.
\<close>

theorem failed_save_ends_saving:
  assumes "s = foldl (tracking_step quiz differs) new_tracking es" "i < length (saves s)" "sv_phase (saves s ! i) = Failed f"
    and "t = foldl (tracking_step quiz differs) s es'"
  shows "sv_phase (saves t ! i) = Failed f \<and> (\<forall>j. i < j \<longrightarrow> j < length (saves t) \<longrightarrow> sv_phase (saves t ! j) = Queued)
    \<and> (\<forall>p. length (promises s) \<le> p \<longrightarrow> p < length (promises t) \<longrightarrow>
        promise_outcome t p = (if promises t ! p = None then Pending else Rejected f))"
proof -
  have "stuck i f (length (promises s)) s" using tracking_reachable assms by (auto simp: stuck_def)
  then have t: "stuck i f (length (promises s)) t" unfolding assms(4) by (rule stuck_run)
  have "promise_outcome t p = (if promises t ! p = None then Pending else Rejected f)"
    if "length (promises s) \<le> p" "p < length (promises t)" for p
  proof (cases "promises t ! p")
    case (Some k)
    then have "i < k" using t that by (simp add: stuck_def)
    then show ?thesis using stuck_rejected [OF t Some] Some by simp
  qed (simp add: promise_outcome_def)
  then show ?thesis using t stuck_later [OF t] by (simp add: stuck_def)
qed

section \<open>What is sent\<close>

definition takes :: "update_args \<Rightarrow> tracking \<Rightarrow> bool" where
  "takes u s \<longleftrightarrow> session_id s \<noteq> JNull \<and> (u_progressDelta u = JUndef \<or> u_progress u = JUndef)
     \<and> (u_progress u = JUndef \<or> is_number (u_progress u)) \<and> (u_progressDelta u = JUndef \<or> is_number (u_progressDelta u))
     \<and> (u_contentState u = JUndef \<or> is_object (u_contentState u)) \<and> is_object (u_interaction u)"

definition json_of :: "jsval \<Rightarrow> jsval" where
  "json_of v = (case json_copy v of Some w \<Rightarrow> w | None \<Rightarrow> JNull)"

text \<open>The interaction an event adds, as it is sent.\<close>

definition accepted :: "event \<Rightarrow> tracking \<Rightarrow> jsval list" where
  "accepted e s = (case e of Update u now \<Rightarrow> if takes u s then [json_of (u_interaction u)] else [] | _ \<Rightarrow> [])"

fun accepted_run :: "jsval \<Rightarrow> (jsval \<Rightarrow> jsval \<Rightarrow> bool) \<Rightarrow> tracking \<Rightarrow> event list \<Rightarrow> jsval list" where
  "accepted_run q d s [] = []"
| "accepted_run q d s (e # es) = accepted e s @ accepted_run q d (tracking_step q d s e) es"

definition carries :: "jsval jsobj \<Rightarrow> jsval list \<Rightarrow> bool" where
  "carries data xs \<longleftrightarrow> obj_get data ''interactions'' = (if xs = [] then None else Some (js_array xs))"

definition payloads :: "tracking \<Rightarrow> jsval jsobj list" where
  "payloads s = map sv_payload (saves s)"

text \<open>One step of the flow: the new interactions stay unsaved, or all unsaved ones go into one save.\<close>

definition flow :: "tracking \<Rightarrow> jsval list \<Rightarrow> tracking \<Rightarrow> bool" where
  "flow s xs t \<longleftrightarrow> payloads t = payloads s \<and> sent_interactions t = sent_interactions s @ xs
     \<or> (\<exists>data. payloads t = payloads s @ [data] \<and> carries data (sent_interactions s @ xs) \<and> sent_interactions t = [])"

lemma sent_of: "unsaved_interactions t = unsaved_interactions s @ vs \<Longrightarrow> sent_interactions t = sent_interactions s @ map json_of vs"
  by (simp add: sent_interactions_def json_of_def)

lemma carries_payload: "carries (payload s) (sent_interactions s)"
  by (simp add: carries_def payload_def obj_get_def)

lemma immediately_flow:
  assumes "payloads t = payloads s" "sent_interactions t = sent_interactions s @ xs"
  shows "flow s xs (immediatelyUpdateContentSession t)"
proof -
  obtain t' where t': "t' = t\<lparr>update_timeout := False\<rparr>" by simp
  have p: "payloads t' = payloads s" "sent_interactions t' = sent_interactions s @ xs"
    using assms by (simp_all add: t' payloads_def sent_interactions_def)
  have b: "payloads (bind_promises x) = payloads x" "sent_interactions (bind_promises x) = sent_interactions x" for x
    by (simp_all add: bind_promises_def payloads_def sent_interactions_def)
  have l: "payloads (loggingSaving t') = payloads t'" "sent_interactions (loggingSaving t') = []"
    by (simp_all add: loggingSaving_def payloads_def sent_interactions_def)
  have c: "carries (payload t') (sent_interactions s @ xs)" using carries_payload [of t'] p by simp
  have saved: "flow s xs (bind_promises (queue_save (payload t') (loggingSaving t')))"
  proof (cases "payload t' = []")
    case True
    then have "sent_interactions s @ xs = []" using c by (auto simp: carries_def split: if_splits)
    then show ?thesis using True p l by (simp add: flow_def b queue_save_def)
  next
    case False
    have q: "payloads (queue_save (payload t') (loggingSaving t')) = payloads (loggingSaving t') @ [payload t']"
      "sent_interactions (queue_save (payload t') (loggingSaving t')) = sent_interactions (loggingSaving t')"
      using False by (simp_all add: queue_save_def payloads_def sent_interactions_def)
    show ?thesis unfolding flow_def b q l p by (intro disjI2 exI [of _ "payload t'"]) (simp add: c)
  qed
  show ?thesis unfolding immediatelyUpdateContentSession_def Let_def t' [symmetric] if_distrib [of bind_promises] if_distrib [of "flow s xs"]
    using saved p b by (simp add: flow_def)
qed

lemma schedule_flow:
  assumes "payloads t = payloads s" "sent_interactions t = sent_interactions s @ xs"
  shows "flow s xs (schedule b t)"
proof -
  obtain t' where t': "t' = t\<lparr>update_timeout := False, promises := promises t @ [None]\<rparr>" by simp
  have p: "payloads t' = payloads s" "sent_interactions t' = sent_interactions s @ xs"
    "payloads (t'\<lparr>update_timeout := True\<rparr>) = payloads s" "sent_interactions (t'\<lparr>update_timeout := True\<rparr>) = sent_interactions s @ xs"
    using assms by (simp_all add: t' payloads_def sent_interactions_def)
  show ?thesis unfolding schedule_def Let_def t' [symmetric] using immediately_flow [OF p(1,2)] p(3,4) by (simp add: flow_def)
qed

lemma same_books_unsaved: "same_books s t \<Longrightarrow> unsaved_interactions t = unsaved_interactions s"
  by (simp add: same_books_def)

lemma add_time_unsaved: "unsaved_interactions (add_time now s) = unsaved_interactions s"
  by (simp add: add_time_def getNewTimeElapsed_def split: option.split)

lemma progress_calls_unsaved:
  "set_progress v s = Inr t \<Longrightarrow> unsaved_interactions t = unsaved_interactions s"
  "add_progress v s = Inr t \<Longrightarrow> unsaved_interactions t = unsaved_interactions s"
  "set_content_state d v s = Inr t \<Longrightarrow> unsaved_interactions t = unsaved_interactions s"
  by (auto simp: set_progress_def add_progress_def set_content_state_def Let_def split: if_splits)

lemma set_progress_number: "set_progress v s = Inr t \<Longrightarrow> v = JUndef \<or> is_number v"
  by (rule ccontr) (simp add: set_progress_def)

lemma add_progress_number: "add_progress v s = Inr t \<Longrightarrow> v = JUndef \<or> is_number v"
  by (rule ccontr) (simp add: add_progress_def)

lemma add_interaction_unsaved:
  "unsaved_interactions (fst (add_interaction v s)) = unsaved_interactions s @ (if is_object v then [v] else [])"
proof (cases "is_object v")
  case True
  then have "v \<noteq> JUndef" by (auto simp: is_object_def)
  then show ?thesis using True unfolding add_interaction_def Let_def
    by (simp add: same_books_unsaved [OF updateAttempt_books] same_books_unsaved [OF record_attempt_books])
qed (simp add: add_interaction_def)

lemma apply_update_unsaved:
  "unsaved_interactions (fst (apply_update d u s)) = unsaved_interactions s @ (if takes u s then [u_interaction u] else [])"
proof (cases "session_id s = JNull \<or> u_progressDelta u \<noteq> JUndef \<and> u_progress u \<noteq> JUndef")
  case True
  then show ?thesis by (auto simp: apply_update_def takes_def)
next
  case ok: False
  show ?thesis
  proof (cases "bind_result (set_progress (u_progress u) s) (add_progress (u_progressDelta u))")
    case (Inl e)
    then have "\<not> takes u s"
      using ok by (auto simp: takes_def set_progress_def add_progress_def Let_def split: if_splits)
    then show ?thesis using ok Inl by (simp add: apply_update_def)
  next
    case s1: (Inr s1)
    then obtain s0 where s0: "set_progress (u_progress u) s = Inr s0" "add_progress (u_progressDelta u) s0 = Inr s1"
      by (auto simp: bind_result_Inr)
    have 1: "unsaved_interactions s1 = unsaved_interactions s" "u_progress u = JUndef \<or> is_number (u_progress u)"
      "u_progressDelta u = JUndef \<or> is_number (u_progressDelta u)"
      using progress_calls_unsaved(1) [OF s0(1)] progress_calls_unsaved(2) [OF s0(2)] set_progress_number [OF s0(1)] add_progress_number [OF s0(2)]
      by simp_all
    show ?thesis
    proof (cases "set_content_state d (u_contentState u) s1")
      case (Inl e)
      then have "\<not> takes u s" by (auto simp: takes_def set_content_state_def Let_def split: if_splits)
      then show ?thesis using ok s1 1 Inl by (simp add: apply_update_def)
    next
      case (Inr s2)
      then have "u_contentState u = JUndef \<or> is_object (u_contentState u)" by (auto simp: set_content_state_def Let_def split: if_splits)
      then have "takes u s \<longleftrightarrow> is_object (u_interaction u)" using ok 1 by (auto simp: takes_def)
      then show ?thesis using ok s1 1 Inr progress_calls_unsaved(3) [OF Inr] by (auto simp: apply_update_def add_interaction_unsaved)
    qed
  qed
qed

lemma update_flow: "flow s (if takes u s then [json_of (u_interaction u)] else []) (fst (updateContentSession d u now s))"
proof -
  obtain s1 r where p: "apply_update d u s = (s1, r)" by fastforce
  have u: "unsaved_interactions s1 = unsaved_interactions s @ (if takes u s then [u_interaction u] else [])"
    using apply_update_unsaved [of d u s] p by simp
  have q: "saves s1 = saves s" "saves (add_time now s1) = saves s"
    using queue_saves(1) [OF apply_update_queue [of d u s]] queue_saves(1) [OF add_time_queue [of now s1]] p by simp_all
  show ?thesis
  proof (cases r)
    case (Inl e)
    then show ?thesis using q(1) sent_of [OF u] by (simp add: updateContentSession_def p flow_def payloads_def)
  next
    case (Inr x)
    have "unsaved_interactions (add_time now s1) = unsaved_interactions s @ (if takes u s then [u_interaction u] else [])"
      using u by (simp add: add_time_unsaved)
    from sent_of [OF this] have s: "sent_interactions (add_time now s1) = sent_interactions s @ (if takes u s then [json_of (u_interaction u)] else [])"
      by simp
    show ?thesis unfolding updateContentSession_def p Inr Let_def prod.case sum.case fst_conv
      by (rule schedule_flow) (use s q(2) in \<open>simp_all add: payloads_def sent_interactions_def\<close>)
  qed
qed

lemma step_flow:
  assumes "\<forall>i a. e \<noteq> AnswerInit i a"
  shows "flow s (accepted e s) (tracking_step q d s e)"
proof -
  have same: "payloads t = payloads s \<Longrightarrow> sent_interactions t = sent_interactions s \<Longrightarrow> accepted e s = [] \<Longrightarrow> flow s (accepted e s) t" for t
    by (simp add: flow_def)
  have upd: "payloads (upd_save i f t) = payloads t" if "\<And>v. sv_payload (f v) = sv_payload v" for i f t
    using that by (simp add: payloads_def upd_save_def map_update list_update_same_conv) (metis list_update_id map_update)
  have unsaved: "sent_interactions (upd_save i f t) = sent_interactions t" for i f t
    by (simp add: upd_save_def sent_interactions_def)
  show ?thesis
  proof (cases e)
    case (Update u now)
    then show ?thesis using update_flow by (simp add: tracking_step_def accepted_def)
  next
    case (Tick now)
    have "\<not> takes no_args s" by (simp add: takes_def no_args_def is_object_def)
    then show ?thesis using Tick update_flow [of s no_args d now] by (simp add: tracking_step_def accepted_def flow_def)
  next
    case (Stop now)
    have t: "\<not> takes (no_args\<lparr>u_immediate := True, u_force := True\<rparr>) (clearTrackingInterval s)" by (simp add: takes_def no_args_def is_object_def)
    have c: "payloads (clearTrackingInterval s) = payloads s" "sent_interactions (clearTrackingInterval s) = sent_interactions s"
      by (simp_all add: clearTrackingInterval_def payloads_def sent_interactions_def)
    show ?thesis using Stop update_flow [of "clearTrackingInterval s" "no_args\<lparr>u_immediate := True, u_force := True\<rparr>" d now] t c
      by (simp add: tracking_step_def accepted_def flow_def stopTrackingProgress_def)
  next
    case Debounced
    then show ?thesis using immediately_flow [of s s "[]"] by (simp add: tracking_step_def accepted_def flow_def)
  next
    case (AnswerSave i a)
    have "sent_interactions (fst (session_saved wc data s)) = sent_interactions s \<and> payloads (fst (session_saved wc data s)) = payloads s" for wc data
    proof -
      obtain s1 r where r: "(if truthy (js_prop data ''attempts'') then update_attempts (elements (js_prop data ''attempts'')) s else (s, Inr ())) = (s1, r)"
        by fastforce
      have "unsaved_interactions s1 = unsaved_interactions s"
        using same_books_unsaved [OF update_attempts_books [of s "elements (js_prop data ''attempts'')"]] r by (cases "truthy (js_prop data ''attempts'')") simp_all
      moreover have "saves (fst (session_saved wc data s)) = saves s" by (rule queue_saves(1) [OF session_saved_queue])
      ultimately show ?thesis unfolding session_saved_def r
        by (cases r) (simp_all add: payloads_def sent_interactions_def)
    qed
    then show ?thesis using AnswerSave
      by (intro same) (auto simp: tracking_step_def answer_save_def accepted_def upd unsaved Let_def split: phase.split answer.split)
  next
    case (Init n l z r)
    then show ?thesis
      by (intro same) (auto simp: tracking_step_def initContentSession_def accepted_def payloads_def sent_interactions_def split: sum.split option.split)
  next
    case (AnswerInit i a)
    then show ?thesis using assms by simp
  next
    case (StartSave i)
    then show ?thesis by (intro same) (simp_all add: tracking_step_def send_save_def upd unsaved accepted_def)
  next
    case (DelayedSave i)
    then show ?thesis
      by (intro same) (auto simp: tracking_step_def send_save_def upd unsaved accepted_def split: phase.split)
  next
    case (DelayedInit i)
    then show ?thesis
      by (intro same) (auto simp: tracking_step_def upd_init_def payloads_def sent_interactions_def accepted_def split: phase.split)
  qed (simp_all add: tracking_step_def startTrackingProgress_def accepted_def flow_def payloads_def sent_interactions_def)
qed

lemma flow_run:
  "\<forall>e \<in> set es. \<forall>i a. e \<noteq> AnswerInit i a \<Longrightarrow>
     \<exists>ds xss. payloads (foldl (tracking_step q d) s es) = payloads s @ ds \<and> list_all2 carries ds xss
       \<and> concat xss @ sent_interactions (foldl (tracking_step q d) s es) = sent_interactions s @ accepted_run q d s es"
proof (induction es arbitrary: s)
  case Nil
  show ?case by (intro exI [of _ "[]"]) simp
next
  case (Cons e es)
  let ?s = "tracking_step q d s e"
  obtain ds xss where ds: "payloads (foldl (tracking_step q d) ?s es) = payloads ?s @ ds" "list_all2 carries ds xss"
    "concat xss @ sent_interactions (foldl (tracking_step q d) ?s es) = sent_interactions ?s @ accepted_run q d ?s es"
    using Cons.IH [of ?s] Cons.prems by auto
  have "flow s (accepted e s) ?s" using Cons.prems by (intro step_flow) simp
  then show ?case unfolding flow_def
  proof (elim disjE conjE exE)
    assume "payloads ?s = payloads s" "sent_interactions ?s = sent_interactions s @ accepted e s"
    then show ?thesis using ds by (intro exI [of _ ds] exI [of _ xss]) simp
  next
    fix data assume "payloads ?s = payloads s @ [data]" "carries data (sent_interactions s @ accepted e s)" "sent_interactions ?s = []"
    then show ?thesis using ds by (intro exI [of _ "data # ds"] exI [of _ "(sent_interactions s @ accepted e s) # xss"]) simp
  qed
qed

text \<open>
  C22. No interaction is lost, sent twice or reordered: until another session starts, the interactions
  in the saves made since, followed by those still unsaved, are exactly the accepted ones in the order
  they were given.
\<close>

theorem interactions_are_conserved:
  assumes "\<forall>e \<in> set es. \<forall>i a. e \<noteq> AnswerInit i a" "t = foldl (tracking_step quiz differs) s es"
  shows "\<exists>ds xss. map sv_payload (saves t) = map sv_payload (saves s) @ ds \<and> list_all2 carries ds xss
    \<and> concat xss @ sent_interactions t = sent_interactions s @ accepted_run quiz differs s es"
  using flow_run [OF assms(1), of quiz differs s] by (simp add: assms(2) payloads_def)

section \<open>The range of the progress\<close>

text \<open>A number of thousandths, as a double.\<close>

definition thousandth :: "jsnum \<Rightarrow> bool" where
  "thousandth n \<longleftrightarrow> (\<exists>j :: nat. j \<le> 1000 \<and> n = Fin (fl64 (of_nat j / 1000)))"

lemma thousandth_0_1: "thousandth (Fin 0)" "thousandth (Fin 1)"
  by (auto simp: thousandth_def intro: exI [of _ 0] exI [of _ 1000])

lemma thousandth_range: "thousandth n \<Longrightarrow> \<exists>r. n = Fin r \<and> 0 \<le> r \<and> r \<le> 1"
  by (auto simp: thousandth_def fl64_le_1)

lemma roundup_Fin: "threeDecimalPlaceRoundup (Fin r) = Fin (if r = 0 then 0 else fl64 (of_int \<lceil>fl64 (r * 1000)\<rceil> / 1000))"
  by (simp add: threeDecimalPlaceRoundup_def num_truthy_def math_ceil_def)

lemma ceil_range: "0 \<le> r \<Longrightarrow> r \<le> 1 \<Longrightarrow> 0 \<le> \<lceil>fl64 (r * 1000)\<rceil> \<and> \<lceil>fl64 (r * 1000)\<rceil> \<le> 1000"
proof -
  assume r: "0 \<le> r" "r \<le> 1"
  have "fl64 (r * 1000) \<le> fl64 (of_int 1000)" by (rule fl64_mono) (use r in simp)
  also have "fl64 (of_int 1000) = 1000" by (subst fl64_int) simp_all
  finally have "\<lceil>fl64 (r * 1000)\<rceil> \<le> 1000" by (simp add: ceiling_le_iff)
  moreover have "0 \<le> fl64 (r * 1000)" using r by simp
  ultimately show ?thesis using ceiling_mono [of 0 "fl64 (r * 1000)"] by (simp only: ceiling_zero simp_thms)
qed

lemma thousandth_ceil: "0 \<le> c \<Longrightarrow> c \<le> 1000 \<Longrightarrow> thousandth (Fin (fl64 (of_int c / 1000)))"
  unfolding thousandth_def by (intro exI [of _ "nat c"]) simp

lemma thousandth_roundup: "0 \<le> r \<Longrightarrow> r \<le> 1 \<Longrightarrow> thousandth (threeDecimalPlaceRoundup (Fin r))"
  using ceil_range [of r] thousandth_ceil thousandth_0_1 by (simp add: roundup_Fin)

lemma zeroToOne_range: "\<exists>r. zeroToOne n = Fin r \<and> 0 \<le> r \<and> r \<le> 1"
  by (cases n) (auto simp: zeroToOne_def num_truthy_def math_min_def math_max_def is_nan_def)

lemma given_progress: "thousandth (threeDecimalPlaceRoundup (zeroToOne n))"
  using zeroToOne_range [of n] thousandth_roundup by auto

lemma clamped_ceil:
  "thousandth (zeroToOne (Fin (fl64 (of_int c / 1000))))"
proof -
  have m: "fl64 x \<le> 0" if "x \<le> 0" for x using fl64_mono [OF that] by simp
  have p: "1 \<le> fl64 x" if "1 \<le> x" for x using fl64_mono [OF that] by simp
  consider "c \<le> 0" | "1000 \<le> c" | "0 \<le> c" "c \<le> 1000" by linarith
  then show ?thesis
  proof cases
    case 1
    then have "fl64 (of_int c / 1000) \<le> 0" by (intro m) simp
    then show ?thesis using thousandth_0_1 by (auto simp: zeroToOne_def num_truthy_def math_min_def math_max_def is_nan_def)
  next
    case 2
    have "1 \<le> fl64 (of_int c / 1000)" by (rule p) (use 2 in simp)
    then show ?thesis using thousandth_0_1 by (auto simp: zeroToOne_def num_truthy_def math_min_def math_max_def is_nan_def)
  next
    case 3
    from thousandth_ceil [OF this] have t: "thousandth (Fin (fl64 (of_int c / 1000)))" .
    then have "0 \<le> fl64 (of_int c / 1000)" "fl64 (of_int c / 1000) \<le> 1" using thousandth_range by fastforce+
    then have "zeroToOne (Fin (fl64 (of_int c / 1000))) = Fin (fl64 (of_int c / 1000))"
      by (auto simp: zeroToOne_def num_truthy_def math_min_def math_max_def is_nan_def)
    then show ?thesis using t by simp
  qed
qed

lemma clamped_roundup: "thousandth (zeroToOne (threeDecimalPlaceRoundup n))"
proof (cases n)
  case (Fin r)
  then show ?thesis using clamped_ceil thousandth_0_1
    by (auto simp: roundup_Fin) (simp add: zeroToOne_def num_truthy_def math_min_def math_max_def is_nan_def)
qed (use thousandth_0_1 in \<open>simp_all add: threeDecimalPlaceRoundup_def num_truthy_def math_ceil_def zeroToOne_def math_min_def math_max_def
       is_nan_def num_sign_def\<close>)

text \<open>Rounding a number of thousandths up does not take anything away.\<close>

lemma ceil_thousandth: "j \<le> 1000 \<Longrightarrow> int j \<le> \<lceil>fl64 (fl64 (of_nat j / 1000) * 1000)\<rceil>"
proof (cases "j = 0")
  case False
  assume j: "j \<le> 1000"
  let ?x = "of_nat j / 1000 :: rat" and ?e = "1 / 2 ^ 53 :: rat"
  have low: "x * (1 - ?e) \<le> fl64 x" if "0 \<le> x" for x using fl64_error [of x] that by (simp add: abs_if algebra_simps split: if_splits)
  have "?x * (1 - ?e) * 1000 \<le> fl64 ?x * 1000" using low [of ?x] by (intro mult_right_mono) simp_all
  then have a: "of_nat j * (1 - ?e) \<le> fl64 ?x * 1000" by simp
  have "(of_nat j * (1 - ?e)) * (1 - ?e) \<le> (fl64 ?x * 1000) * (1 - ?e)" using a by (intro mult_right_mono) simp_all
  also have "\<dots> \<le> fl64 (fl64 ?x * 1000)" by (rule low) simp
  finally have b: "of_nat j * ((1 - ?e) * (1 - ?e)) \<le> fl64 (fl64 ?x * 1000)" by (simp add: mult.assoc)
  have "of_nat j * (1 - (1 - ?e) * (1 - ?e)) \<le> 1000 * (1 - (1 - ?e) * (1 - ?e))" using j by (intro mult_right_mono) simp_all
  also have "\<dots> < 1" by simp
  finally have "of_nat j - 1 < of_nat j * ((1 - ?e) * (1 - ?e))" by (simp add: algebra_simps)
  with b have "of_int (int j - 1) < fl64 (fl64 ?x * 1000)" by simp
  then have "int j - 1 < \<lceil>fl64 (fl64 ?x * 1000)\<rceil>" by (simp add: less_ceiling_iff)
  then show ?thesis by simp
qed simp

lemma added_progress:
  assumes a: "thousandth (Fin a)" and b: "0 \<le> b" "b \<le> 1"
  shows "thousandth (math_min (threeDecimalPlaceRoundup (num_add (Fin a) (Fin b))) (Fin 1))
    \<and> num_ge (math_min (threeDecimalPlaceRoundup (num_add (Fin a) (Fin b))) (Fin 1)) (Fin a)"
proof -
  obtain j :: nat where j: "j \<le> 1000" "a = fl64 (of_nat j / 1000)" using a by (auto simp: thousandth_def)
  have a01: "0 \<le> a" "a \<le> 1" using thousandth_range [OF a] by auto
  let ?s = "fl64 (a + b)"
  have "fl64 a \<le> ?s" by (rule fl64_mono) (use b in simp)
  then have as: "a \<le> ?s" by (simp add: j(2))
  show ?thesis
  proof (cases "?s = 0")
    case True
    then have "a = 0" using as a01 by simp
    then show ?thesis using True thousandth_0_1 by (simp add: roundup_Fin math_min_def is_nan_def num_ge_def)
  next
    case False
    let ?c = "\<lceil>fl64 (?s * 1000)\<rceil>"
    have "int j \<le> \<lceil>fl64 (a * 1000)\<rceil>" using ceil_thousandth [OF j(1)] j(2) by simp
    also have "\<dots> \<le> ?c" by (intro ceiling_mono fl64_mono mult_right_mono as) simp
    finally have jc: "int j \<le> ?c" .
    have ge: "a \<le> fl64 (of_int ?c / 1000)"
    proof -
      have "(of_nat j :: rat) = of_int (int j)" by simp
      also have "\<dots> \<le> of_int ?c" using jc by (simp only: of_int_le_iff)
      finally have "fl64 (of_nat j / 1000) \<le> fl64 (of_int ?c / 1000)" by (intro fl64_mono divide_right_mono) simp_all
      then show ?thesis by (simp add: j(2))
    qed
    have r: "math_min (threeDecimalPlaceRoundup (num_add (Fin a) (Fin b))) (Fin 1) = Fin (min (fl64 (of_int ?c / 1000)) 1)"
      using False by (simp add: roundup_Fin math_min_def is_nan_def min_def)
    have "thousandth (Fin (min (fl64 (of_int ?c / 1000)) 1))"
    proof (cases "?c \<le> 1000")
      case True
      have "0 \<le> ?c" using jc by linarith
      from thousandth_ceil [OF this True] show ?thesis using thousandth_range by (fastforce simp: min_def)
    next
      case c: False
      have "fl64 1 \<le> fl64 (of_int ?c / 1000)" by (rule fl64_mono) (use c in simp)
      then show ?thesis using thousandth_0_1 by (simp add: min_def)
    qed
    then show ?thesis unfolding r using ge a01 by (simp add: num_ge_def)
  qed
qed

definition progress_ok :: "tracking \<Rightarrow> bool" where
  "progress_ok s \<longleftrightarrow> (progress_state s = JNull \<or> (\<exists>n. progress_state s = JNum n \<and> thousandth n)) \<and> thousandth (progress_delta s)"

text \<open>The progress the server reports at the start of a session.\<close>

definition reports_progress :: "event \<Rightarrow> bool" where
  "reports_progress e \<longleftrightarrow> (case e of AnswerInit i (Success data) \<Rightarrow>
       nullish (js_prop data ''progress'') \<or> (\<exists>n. js_prop data ''progress'' = JNum n \<and> thousandth n) | _ \<Rightarrow> True)"

text \<open>\<open>raises s t\<close>: from \<open>s\<close> to \<open>t\<close> the progress stays a number of thousandths and does not go down.\<close>

definition raises :: "tracking \<Rightarrow> tracking \<Rightarrow> bool" where
  "raises s t \<longleftrightarrow> (progress_ok s \<longrightarrow> progress_ok t \<and> num_ge (state_number t) (state_number s))"

lemma state_number_thousandth: "progress_ok s \<Longrightarrow> \<exists>r. state_number s = Fin r \<and> thousandth (Fin r)"
  using thousandth_0_1 thousandth_range by (fastforce simp: progress_ok_def js_number_def)

lemma num_ge_refl: "n \<noteq> NaN \<Longrightarrow> num_ge n n"
  by (cases n) (simp_all add: num_ge_def)

lemma num_ge_trans: "num_ge a b \<Longrightarrow> num_ge b c \<Longrightarrow> num_ge a c"
  by (cases a; cases b; cases c) (auto simp: num_ge_def)

lemma raises_same: "progress_state t = progress_state s \<Longrightarrow> progress_delta t = progress_delta s \<or> progress_delta t = Fin 0 \<Longrightarrow> raises s t"
  using thousandth_0_1(1) state_number_thousandth [of s] by (auto simp: raises_def progress_ok_def intro!: num_ge_refl)

lemma raises_trans: "raises s t \<Longrightarrow> raises t u \<Longrightarrow> raises s u"
  by (auto simp: raises_def intro: num_ge_trans)

lemma set_progress_raises: "set_progress v s = Inr t \<Longrightarrow> raises s t"
proof (cases "num_lt (state_number s) (threeDecimalPlaceRoundup (zeroToOne (js_number v))) \<and> v \<noteq> JUndef")
  case True
  assume t: "set_progress v s = Inr t"
  let ?p = "threeDecimalPlaceRoundup (zeroToOne (js_number v))"
  have tt: "t = s\<lparr>progress_delta := zeroToOne (threeDecimalPlaceRoundup (num_sub (num_add (progress_delta s) ?p) (state_number s))), progress_state := JNum ?p\<rparr>"
    using t True by (auto simp: set_progress_def Let_def split: if_splits)
  have "num_ge ?p (state_number s)" using True by (cases ?p; cases "state_number s") (auto simp: num_ge_def)
  then show ?thesis using given_progress [of "js_number v"] clamped_roundup
    by (simp add: raises_def progress_ok_def tt js_number_def)
next
  case False
  assume "set_progress v s = Inr t"
  then have "t = s" using False by (auto simp: set_progress_def Let_def split: if_splits)
  then show ?thesis by (simp add: raises_same)
qed

lemma add_progress_raises: "add_progress v s = Inr t \<Longrightarrow> raises s t"
proof (cases "v = JUndef")
  case False
  assume t: "add_progress v s = Inr t"
  let ?d = "threeDecimalPlaceRoundup (zeroToOne (js_number v))"
  obtain b where b: "?d = Fin b" "0 \<le> b" "b \<le> 1" using thousandth_range [OF given_progress [of "js_number v"]] by auto
  have tt: "t = s\<lparr>progress_delta := zeroToOne (threeDecimalPlaceRoundup (num_add (progress_delta s) ?d)),
      progress_state := JNum (math_min (threeDecimalPlaceRoundup (num_add (state_number s) ?d)) (Fin 1))\<rparr>"
    using t False by (auto simp: add_progress_def Let_def split: if_splits)
  show ?thesis unfolding raises_def
  proof
    assume "progress_ok s"
    then obtain r where r: "state_number s = Fin r" "thousandth (Fin r)" using state_number_thousandth by blast
    from added_progress [OF r(2) b(2,3)] show "progress_ok t \<and> num_ge (state_number t) (state_number s)"
      using clamped_roundup unfolding tt r(1) b(1) by (simp add: progress_ok_def js_number_def)
  qed
qed (auto simp: add_progress_def raises_same)

lemma same_books_raises: "same_books s t \<Longrightarrow> raises s t"
  by (rule raises_same) (simp_all add: same_books_def)

lemma add_interaction_raises: "raises s (fst (add_interaction v s))"
proof -
  have "raises s (s\<lparr>unsaved_interactions := x\<rparr>)" for x by (rule raises_same) simp_all
  then show ?thesis unfolding add_interaction_def Let_def
    using raises_same [of s s] same_books_raises [OF updateAttempt_books] same_books_raises [OF record_attempt_books]
    by (simp split: if_split) (metis raises_trans)
qed

lemma apply_update_raises: "raises s (fst (apply_update d u s))"
proof (cases "bind_result (set_progress (u_progress u) s) (add_progress (u_progressDelta u))")
  case (Inl e)
  then show ?thesis by (simp add: apply_update_def raises_same)
next
  case (Inr s1)
  then have 1: "raises s s1" using set_progress_raises add_progress_raises raises_trans by (fastforce simp: bind_result_Inr)
  show ?thesis
  proof (cases "set_content_state d (u_contentState u) s1")
    case (Inl e)
    then show ?thesis using Inr 1 by (simp add: apply_update_def raises_same)
  next
    case s2: (Inr s2)
    then have "raises s1 s2" by (intro raises_same) (auto simp: set_content_state_def Let_def split: if_splits)
    then have "raises s (fst (add_interaction (u_interaction u) s2))" using 1 add_interaction_raises raises_trans by blast
    then show ?thesis using Inr s2 by (simp add: apply_update_def raises_same)
  qed
qed

lemma immediately_raises: "raises s (immediatelyUpdateContentSession s)"
  by (rule raises_same) (auto simp: immediatelyUpdateContentSession_def bind_promises_def queue_save_def loggingSaving_def Let_def)

lemma update_raises: "raises s (fst (updateContentSession d u now s))"
proof -
  obtain s1 r where p: "apply_update d u s = (s1, r)" by fastforce
  have 1: "raises s s1" using apply_update_raises [of s d u] p by simp
  show ?thesis
  proof (cases r)
    case (Inl e)
    then show ?thesis using 1 by (simp add: updateContentSession_def p)
  next
    case (Inr x)
    have sched: "raises t (schedule b t)" for b t
      using raises_trans [OF _ immediately_raises, of t "t\<lparr>update_timeout := False, promises := promises t @ [None]\<rparr>"]
      by (simp add: schedule_def Let_def raises_same)
    have "raises s1 ((add_time now s1)\<lparr>force_update := f\<rparr>)" for f
      by (rule raises_same) (simp_all add: add_time_def getNewTimeElapsed_def split: option.split)
    then show ?thesis unfolding updateContentSession_def p Inr Let_def prod.case sum.case fst_conv
      using 1 sched raises_trans by blast
  qed
qed

lemma session_saved_raises: "raises s (fst (session_saved wc data s))"
proof -
  obtain s1 r where r: "(if truthy (js_prop data ''attempts'') then update_attempts (elements (js_prop data ''attempts'')) s else (s, Inr ())) = (s1, r)"
    by fastforce
  have 1: "raises s s1"
    using same_books_raises [OF update_attempts_books [of s "elements (js_prop data ''attempts'')"]] r raises_same [of s s]
    by (cases "truthy (js_prop data ''attempts'')") auto
  have top: "raises t (t\<lparr>complete := c, progress_state := jint 1, total_progress := n\<rparr>)" for t c n
    using thousandth_0_1(2) thousandth_range by (fastforce simp: raises_def progress_ok_def jint_def js_number_def num_ge_def)
  show ?thesis unfolding session_saved_def r using 1 raises_trans [OF 1 top] raises_same [of s s] by (cases r) simp_all
qed

lemma step_raises: "(\<forall>i a. e \<noteq> AnswerInit i a) \<Longrightarrow> raises s (tracking_step q d s e)"
proof (cases e)
  case (Stop now)
  have "raises s (clearTrackingInterval s)" by (rule raises_same) (simp_all add: clearTrackingInterval_def)
  then show ?thesis using Stop raises_trans [OF _ update_raises] by (simp add: tracking_step_def stopTrackingProgress_def)
next
  case (AnswerSave i a)
  have u: "raises t (upd_save i f t)" for f t by (rule raises_same) (simp_all add: upd_save_def)
  have "raises s (upd_save i f (fst (session_saved wc data s)))" for f wc data using raises_trans [OF session_saved_raises u] .
  then show ?thesis using AnswerSave u raises_same [of s s]
    by (simp add: tracking_step_def answer_save_def Let_def split: phase.split answer.split)
next
  case (Init n l z r)
  then show ?thesis
    by (intro raises_same) (auto simp: tracking_step_def initContentSession_def split: sum.split option.split)
next
  case (Update u now)
  then show ?thesis using update_raises by (simp add: tracking_step_def)
next
  case (Tick now)
  then show ?thesis using update_raises raises_same by (simp add: tracking_step_def)
next
  case Debounced
  then show ?thesis using immediately_raises raises_same by (simp add: tracking_step_def)
qed (auto simp: tracking_step_def upd_init_def upd_save_def send_save_def startTrackingProgress_def split: phase.split intro!: raises_same)

lemma answer_init_ok:
  assumes "reports_progress (AnswerInit i a)" "progress_ok s"
  shows "progress_ok (tracking_step q d s (AnswerInit i a))"
proof (cases a)
  case (Success data)
  have "progress_ok (fst (session_started data s))"
    using assms thousandth_0_1(1) unfolding Success
    by (auto simp: session_started_def reports_progress_def progress_ok_def valOrNull_def nullish_def Let_def)
  then have "progress_ok (upd_init i f (fst (session_started data s)))" for f by (simp add: progress_ok_def upd_init_def)
  then show ?thesis using assms(2) by (simp add: Success tracking_step_def answer_init_def Let_def split: phase.split)
next
  case (Failure st after)
  then show ?thesis using assms(2) by (simp add: tracking_step_def answer_init_def progress_ok_def upd_init_def split: phase.split)
qed

lemma progress_ok_step: "reports_progress e \<Longrightarrow> progress_ok s \<Longrightarrow> progress_ok (tracking_step q d s e)"
proof (cases "\<forall>i a. e \<noteq> AnswerInit i a")
  case True
  assume "progress_ok s"
  then show ?thesis using step_raises [OF True] by (simp add: raises_def)
next
  case False
  assume "reports_progress e" "progress_ok s"
  then show ?thesis using False answer_init_ok by blast
qed

text \<open>
  C23. The progress is \<open>null\<close> or a number of thousandths between 0 and 1, and so is the progress not yet
  saved, provided the server reports such numbers; and apart from the start of a session no event, with
  whatever arguments, ever lowers it.
\<close>

theorem progress_in_thousandths:
  assumes "\<forall>e \<in> set es. reports_progress e" "s = foldl (tracking_step quiz differs) new_tracking es"
  shows "(progress_state s = JNull \<or> (\<exists>j \<le> 1000. progress_state s = JNum (Fin (fl64 (of_nat j / 1000)))))
    \<and> (\<exists>j \<le> 1000. progress_delta s = Fin (fl64 (of_nat j / 1000)))
    \<and> (\<forall>e. (\<forall>i a. e \<noteq> AnswerInit i a) \<longrightarrow>
        num_ge (js_number (progress_state (tracking_step quiz differs s e))) (js_number (progress_state s)))"
proof -
  have "progress_ok s0 \<Longrightarrow> progress_ok (foldl (tracking_step quiz differs) s0 es)" for s0
    using assms(1) by (induction es arbitrary: s0) (auto intro: progress_ok_step)
  moreover have "progress_ok new_tracking" using thousandth_0_1(1) by (simp add: progress_ok_def new_tracking_def)
  ultimately have ok: "progress_ok s" using assms(2) by simp
  then show ?thesis using step_raises [of _ s quiz differs] by (auto simp: progress_ok_def thousandth_def raises_def)
qed

end
