(* ===== verification/Progress_Attempts.thy ===== *)
theory Progress_Attempts
  imports Progress_Properties
begin

text \<open>
  The attempts of progress tracking: the list of past attempts and the map by id show the same objects.
  At the end, one run on concrete data and what it shows of the code.
\<close>

section \<open>Attempts\<close>

definition attempt_id :: "jsval jsobj \<Rightarrow> string option" where
  "attempt_id m = (let v = js_prop (JObj m) ''id'' in if truthy v then Some (js_string v) else None)"

text \<open>The attempts with an id are exactly those of the map, each under its id.\<close>

definition attempts_ok :: "tracking \<Rightarrow> bool" where
  "attempts_ok s \<longleftrightarrow> distinct (pastattempts s) \<and> (\<forall>a \<in> set (pastattempts s). a < length (attempt_heap s))
     \<and> (\<forall>k a. obj_get (pastattemptMap s) k = Some a \<longleftrightarrow> a \<in> set (pastattempts s) \<and> attempt_id (attempt_heap s ! a) = Some k)"

lemma find_in: "find P xs = Some x \<Longrightarrow> x \<in> set xs \<and> P x"
  by (induction xs) (auto split: if_splits)

lemma obj_get_write: "obj_get (fold (\<lambda>(k, v). obj_set k v) (filter (\<lambda>(k, v). P k) (obj_entries m)) h) k
    = (if P k then (case obj_get m k of Some v \<Rightarrow> Some v | None \<Rightarrow> obj_get h k) else obj_get h k)"
proof -
  let ?es = "filter (\<lambda>(k, v). P k) (obj_entries m)"
  have f: "fold (\<lambda>(k, v). obj_set k v) ?es h = fold (\<lambda>x. obj_set (fst x) (snd x)) ?es h" by (simp add: case_prod_unfold)
  show ?thesis
  proof (cases "P k \<and> obj_get m k \<noteq> None")
    case True
    then obtain v where v: "obj_get m k = Some v" by auto
    have "(k, v) \<in> set ?es" using True v by (simp add: set_obj_entries)
    then have "find (\<lambda>x. fst x = k) (rev ?es) \<noteq> None" unfolding find_None_iff set_rev by force
    then obtain x where x: "find (\<lambda>x. fst x = k) (rev ?es) = Some x" by blast
    then have "x \<in> set ?es" "fst x = k" using find_in [OF x] by simp_all
    then have "snd x = v" using v by (auto simp: set_obj_entries)
    then show ?thesis using True v x unfolding f by (simp add: jobj.get_fold_set)
  next
    case False
    then have "find (\<lambda>x. fst x = k) (rev ?es) = None" by (auto simp: find_None_iff set_obj_entries)
    then show ?thesis using False unfolding f by (auto simp: jobj.get_fold_set split: option.split)
  qed
qed

lemma attempt_id_write:
  "attempt_id (fold (\<lambda>(k, v). obj_set k v) (filter (\<lambda>(k, v). P k) (obj_entries m)) h)
     = (if P ''id'' \<and> obj_get m ''id'' \<noteq> None then attempt_id m else attempt_id h)"
  by (auto simp: attempt_id_def js_prop_JObj obj_get_write split: option.split)

lemma attempt_id_write_all:
  "attempt_id (fold (\<lambda>(k, v). obj_set k v) (obj_entries m) h) = (if obj_get m ''id'' \<noteq> None then attempt_id m else attempt_id h)"
  using attempt_id_write [of "\<lambda>_. True"] by simp

text \<open>What an interaction says its id is.\<close>

lemma interaction_id:
  assumes "truthy (js_prop v ''id'')"
  shows "\<exists>m. own_entries v = obj_entries m \<and> obj_get m ''id'' \<noteq> None \<and> attempt_id m = Some (js_string (js_prop v ''id''))"
proof (cases v)
  case (JObj m)
  then show ?thesis using assms by (intro exI [of _ m]) (auto simp: own_entries_def attempt_id_def js_prop_JObj truthy_simps split: option.splits)
next
  case (JArr m)
  then have "js_prop v ''id'' = js_prop (JObj m) ''id''" by (simp add: js_prop_def js_own_def)
  then show ?thesis using assms JArr
    by (intro exI [of _ m]) (auto simp: own_entries_def attempt_id_def js_prop_JObj truthy_simps split: option.splits)
qed (use assms in \<open>auto simp: js_prop_def js_own_def truthy_simps is_index_def is_digit_def split: if_splits\<close>)

lemma found_attempt:
  "find (\<lambda>a. attempt_matches v (attempt s a)) (pastattempts s) = Some a \<Longrightarrow> a \<in> set (pastattempts s) \<and> attempt_id (attempt_heap s ! a) = None"
  by (auto simp: find_Some_iff attempt_matches_def attempt_def attempt_id_def Let_def)

lemma write_same_id:
  assumes ok: "attempts_ok s" and a: "a \<in> set (pastattempts s)"
    and id': "attempt_id (fold (\<lambda>(k, v). obj_set k v) es (attempt_heap s ! a)) = attempt_id (attempt_heap s ! a)"
  shows "attempts_ok (write_attempt es a s)"
proof -
  have "a < length (attempt_heap s)" using ok a by (simp add: attempts_ok_def)
  then have "attempt_id (attempt_heap (write_attempt es a s) ! b) = attempt_id (attempt_heap s ! b)" for b
    using id' by (cases "b = a") (simp_all add: write_attempt_def)
  then show ?thesis using ok by (simp add: attempts_ok_def) (simp add: write_attempt_def)
qed

lemma updateAttempt_ok: "attempts_ok s \<Longrightarrow> attempts_ok (fst (updateAttempt v s))"
proof (cases "truthy (js_prop v ''id'')")
  case True
  assume ok: "attempts_ok s"
  let ?id = "js_string (js_prop v ''id'')"
  obtain m where m: "own_entries v = obj_entries m" "obj_get m ''id'' \<noteq> None" "attempt_id m = Some ?id" using interaction_id [OF True] by blast
  have nn: "\<not> nullish v" using True by (auto simp: nullish_def truthy_simps)
  show ?thesis
  proof (cases "obj_get (pastattemptMap s) ?id")
    case None
    show ?thesis
    proof (cases "find (\<lambda>a. attempt_matches v (attempt s a)) (pastattempts s)")
      case f: None
      then show ?thesis using ok True None nn by (simp add: updateAttempt_def Let_def)
    next
      case (Some a)
      then have a: "a \<in> set (pastattempts s)" "attempt_id (attempt_heap s ! a) = None" using found_attempt by auto
      then have l: "a < length (attempt_heap s)" using ok by (simp add: attempts_ok_def)
      let ?s = "write_attempt (own_entries v) a s"
      have id_a: "attempt_id (attempt_heap ?s ! a) = Some ?id" using l m by (simp add: write_attempt_def attempt_id_write_all)
      have other: "attempt_id (attempt_heap ?s ! b) = attempt_id (attempt_heap s ! b)" if "b \<noteq> a" for b using that by (simp add: write_attempt_def)
      have "truthy (js_prop (attempt ?s a) ''id'') \<and> js_string (js_prop (attempt ?s a) ''id'') = ?id"
        using id_a by (auto simp: attempt_def attempt_id_def Let_def split: if_splits)
      then have t: "fst (updateAttempt v s) = ?s\<lparr>pastattemptMap := obj_set ?id a (pastattemptMap ?s)\<rparr>"
        using True None Some nn by (simp add: updateAttempt_def Let_def)
      have none: "\<not> (b \<in> set (pastattempts s) \<and> attempt_id (attempt_heap s ! b) = Some ?id)" for b
      proof
        assume "b \<in> set (pastattempts s) \<and> attempt_id (attempt_heap s ! b) = Some ?id"
        then have "obj_get (pastattemptMap s) ?id = Some b" using ok by (simp add: attempts_ok_def)
        then show False using None by simp
      qed
      have get: "obj_get (obj_set ?id a (pastattemptMap s)) k = Some b
          \<longleftrightarrow> b \<in> set (pastattempts s) \<and> attempt_id (attempt_heap ?s ! b) = Some k" for k b
        using ok a id_a other [of b] none [of b] by (cases "b = a") (auto simp: attempts_ok_def)
      show ?thesis unfolding t attempts_ok_def
      proof (intro conjI allI)
        fix k b
        show "obj_get (pastattemptMap (?s\<lparr>pastattemptMap := obj_set ?id a (pastattemptMap ?s)\<rparr>)) k = Some b
            \<longleftrightarrow> b \<in> set (pastattempts (?s\<lparr>pastattemptMap := obj_set ?id a (pastattemptMap ?s)\<rparr>))
              \<and> attempt_id (attempt_heap (?s\<lparr>pastattemptMap := obj_set ?id a (pastattemptMap ?s)\<rparr>) ! b) = Some k"
          using get [of k b] by (simp add: write_attempt_def)
      qed (use ok in \<open>simp_all add: attempts_ok_def write_attempt_def\<close>)
    qed
  next
    case (Some a)
    let ?bl = "if truthy (js_prop v ''replace'') then [''replace''] else replaceBlocklist"
    have a: "a \<in> set (pastattempts s)" "attempt_id (attempt_heap s ! a) = Some ?id" using ok Some by (simp_all add: attempts_ok_def)
    have "attempts_ok (write_attempt (filter (\<lambda>(k, v). k \<notin> set ?bl) (own_entries v)) a s)"
      by (rule write_same_id [OF ok a(1)]) (simp add: m(1) attempt_id_write a(2) m(3))
    then show ?thesis using True Some nn by (simp add: updateAttempt_def Let_def)
  qed
qed (simp add: updateAttempt_def Let_def)

lemma record_attempt_ok:
  assumes ok: "attempts_ok s" and v: "is_object v" "\<not> truthy (js_prop v ''id'')"
  shows "attempts_ok (record_attempt v s)"
proof -
  obtain m where m: "v = JObj m" using v(1) by (auto simp: is_cases)
  then have no: "attempt_id m = None" using v(2) by (simp add: attempt_id_def Let_def)
  show ?thesis
  proof (cases "find (\<lambda>a. attempt_matches v (attempt s a)) (pastattempts s)")
    case None
    have l: "\<forall>a \<in> set (pastattempts s). a < length (attempt_heap s)" using ok by (simp add: attempts_ok_def)
    have "attempt_id ((attempt_heap s @ [m]) ! a) = attempt_id (attempt_heap s ! a)" if "a \<in> set (pastattempts s)" for a
      using l that by (simp add: nth_append)
    then show ?thesis using ok None l no by (auto simp: attempts_ok_def record_attempt_def m nth_append less_Suc_eq)
  next
    case (Some a)
    have "attempts_ok (write_attempt (own_entries v) a s)"
      by (rule write_same_id [OF ok]) (use found_attempt [OF Some] no in \<open>simp_all add: m own_entries_def attempt_id_write_all\<close>)
    then show ?thesis using Some by (simp add: record_attempt_def)
  qed
qed

text \<open>The fields the attempts are kept in.\<close>

definition attempt_fields :: "tracking \<Rightarrow> jsval jsobj list \<times> nat list \<times> nat jsobj" where
  "attempt_fields s = (attempt_heap s, pastattempts s, pastattemptMap s)"

lemma same_attempts: "attempt_fields t = attempt_fields s \<Longrightarrow> attempts_ok s \<Longrightarrow> attempts_ok t"
  by (simp add: attempt_fields_def attempts_ok_def)

lemma add_interaction_ok: "attempts_ok s \<Longrightarrow> attempts_ok (fst (add_interaction v s))"
proof -
  assume ok: "attempts_ok s"
  have "attempts_ok (s\<lparr>unsaved_interactions := x\<rparr>)" for x by (rule same_attempts [OF _ ok]) (simp add: attempt_fields_def)
  then show ?thesis using ok by (auto simp: add_interaction_def Let_def intro!: updateAttempt_ok record_attempt_ok)
qed

lemma apply_update_ok: "attempts_ok s \<Longrightarrow> attempts_ok (fst (apply_update d u s))"
proof -
  assume ok: "attempts_ok s"
  have k: "set_progress v s = Inr t \<Longrightarrow> attempt_fields t = attempt_fields s" "add_progress v s = Inr t \<Longrightarrow> attempt_fields t = attempt_fields s"
    "set_content_state d v s = Inr t \<Longrightarrow> attempt_fields t = attempt_fields s" for v s t
    by (auto simp: set_progress_def add_progress_def set_content_state_def attempt_fields_def Let_def split: if_splits)
  show ?thesis
  proof (cases "bind_result (set_progress (u_progress u) s) (add_progress (u_progressDelta u))")
    case (Inl e)
    then show ?thesis using ok by (simp add: apply_update_def)
  next
    case s1: (Inr s1)
    then have 1: "attempts_ok s1" using k(1,2) same_attempts ok by (fastforce simp: bind_result_Inr)
    show ?thesis
    proof (cases "set_content_state d (u_contentState u) s1")
      case (Inl e)
      then show ?thesis using s1 1 ok by (simp add: apply_update_def)
    next
      case (Inr s2)
      then show ?thesis using s1 same_attempts [OF k(3) 1, of "u_contentState u" s2] ok by (simp add: apply_update_def add_interaction_ok)
    qed
  qed
qed

lemma immediately_attempts: "attempt_fields (immediatelyUpdateContentSession s) = attempt_fields s"
  by (auto simp: attempt_fields_def immediatelyUpdateContentSession_def bind_promises_def queue_save_def loggingSaving_def Let_def)

lemma update_ok: "attempts_ok s \<Longrightarrow> attempts_ok (fst (updateContentSession d u now s))"
proof -
  assume ok: "attempts_ok s"
  obtain s1 r where p: "apply_update d u s = (s1, r)" by fastforce
  have 1: "attempts_ok s1" using apply_update_ok [OF ok, of d u] p by simp
  have sched: "attempt_fields (schedule b t) = attempt_fields t" for b t
    using immediately_attempts by (simp add: schedule_def Let_def) (simp add: attempt_fields_def)
  have "attempt_fields ((add_time now s1)\<lparr>force_update := f\<rparr>) = attempt_fields s1" for f
    by (simp add: attempt_fields_def add_time_def getNewTimeElapsed_def split: option.split)
  then show ?thesis using same_attempts [OF _ 1] 1
    by (cases r) (simp_all add: updateContentSession_def p Let_def sched)
qed

text \<open>The attempts the server reports have ids, no two the same.\<close>

definition reports_attempts :: "event \<Rightarrow> bool" where
  "reports_attempts e \<longleftrightarrow> (case e of AnswerInit i (Success data) \<Rightarrow>
       (let past = elements (js_or (js_prop data ''pastattempts'') (js_array []))
        in list_all (\<lambda>v. is_object v \<and> truthy (js_prop v ''id'')) past \<and> distinct (map (\<lambda>v. js_string (js_prop v ''id'')) past))
     | _ \<Rightarrow> True)"

lemma session_started_ok:
  assumes "reports_attempts (AnswerInit i (Success data))" "attempts_ok s"
  shows "attempts_ok (fst (session_started data s))"
proof (cases "nullish data")
  case False
  let ?past = "elements (js_or (js_prop data ''pastattempts'') (js_array []))" and ?n = "length (attempt_heap s)"
  let ?key = "\<lambda>v. js_string (js_prop v ''id'')" and ?as = "[?n..<?n + length ?past]"
  have p: "\<forall>v \<in> set ?past. is_object v \<and> truthy (js_prop v ''id'')" "distinct (map ?key ?past)"
    using assms(1) by (simp_all add: reports_attempts_def list_all_iff Let_def)
  have id': "attempt_id (object_of v) = Some (?key v)" if "v \<in> set ?past" for v
    using p(1) that by (auto simp: attempt_id_def object_of_def is_cases Let_def)
  let ?z = "zip ?as ?past"
  have nth: "?z ! j = (?n + j, ?past ! j)" if "j < length ?past" for j using that by simp
  have z: "x \<in> set ?z \<longleftrightarrow> (\<exists>j < length ?past. x = (?n + j, ?past ! j))" for x
  proof -
    have "?z = map (\<lambda>j. (?n + j, ?past ! j)) [0..<length ?past]" by (intro nth_equalityI) simp_all
    then show ?thesis by auto
  qed
  have "map (\<lambda>x. ?key (snd x)) ?z = map ?key (map snd ?z)" by (simp only: map_map comp_def)
  also have "map snd ?z = ?past" by simp
  finally have d: "distinct (map (\<lambda>x. ?key (snd x)) ?z)" using p(2) by simp
  have get: "obj_get (fold (\<lambda>(a, v). obj_set (?key v) a) ?z []) k = Some a
      \<longleftrightarrow> (\<exists>j < length ?past. a = ?n + j \<and> ?key (?past ! j) = k)" for k a
  proof -
    have f: "fold (\<lambda>(a, v). obj_set (?key v) a) ?z [] = fold (\<lambda>x. obj_set (?key (snd x)) (fst x)) ?z []" by (simp add: case_prod_unfold)
    show ?thesis
    proof
      assume "obj_get (fold (\<lambda>(a, v). obj_set (?key v) a) ?z []) k = Some a"
      then obtain x where "find (\<lambda>x. ?key (snd x) = k) (rev ?z) = Some x" "fst x = a"
        unfolding f by (auto simp: jobj.get_fold_set split: option.splits)
      then have "x \<in> set ?z" "?key (snd x) = k" using find_in by fastforce+
      then show "\<exists>j < length ?past. a = ?n + j \<and> ?key (?past ! j) = k" using \<open>fst x = a\<close> z by auto
    next
      assume "\<exists>j < length ?past. a = ?n + j \<and> ?key (?past ! j) = k"
      then obtain j where j: "j < length ?past" "a = ?n + j" "?key (?past ! j) = k" by blast
      then have "(a, ?past ! j) \<in> set ?z" using z by auto
      from jobj.get_fold_set_distinct [OF d this, of "\<lambda>x. fst x" "[]"] show "obj_get (fold (\<lambda>(a, v). obj_set (?key v) a) ?z []) k = Some a"
        using j(3) unfolding f by simp
    qed
  qed
  have heap: "attempt_id ((attempt_heap s @ map object_of ?past) ! (?n + j)) = Some (?key (?past ! j))" if "j < length ?past" for j
    using that id' by (simp add: nth_append)
  have "(\<exists>j < length ?past. a = ?n + j \<and> ?key (?past ! j) = k)
      \<longleftrightarrow> a \<in> set ?as \<and> attempt_id ((attempt_heap s @ map object_of ?past) ! a) = Some k" for k a
    using heap by (auto simp: le_iff_add)
  then show ?thesis using False get by (simp add: session_started_def Let_def attempts_ok_def)
qed (use assms in \<open>simp add: session_started_def\<close>)

lemma session_saved_ok: "attempts_ok s \<Longrightarrow> attempts_ok (fst (session_saved wc data s))"
proof -
  assume ok: "attempts_ok s"
  have us: "attempts_ok t \<Longrightarrow> attempts_ok (fst (update_attempts vs t))" for vs t
  proof (induction vs arbitrary: t)
    case (Cons v vs)
    obtain t1 r where r: "updateAttempt v t = (t1, r)" by fastforce
    have "attempts_ok t1" using updateAttempt_ok [OF Cons.prems, of v] r by simp
    then show ?case using r Cons.IH by (cases r) simp_all
  qed simp
  obtain s1 r where r: "(if truthy (js_prop data ''attempts'') then update_attempts (elements (js_prop data ''attempts'')) s else (s, Inr ())) = (s1, r)"
    by fastforce
  have 1: "attempts_ok s1" using us [OF ok, of "elements (js_prop data ''attempts'')"] r ok by (cases "truthy (js_prop data ''attempts'')") auto
  have "attempts_ok (s1\<lparr>complete := c, progress_state := p, total_progress := n\<rparr>)" for c p n
    by (rule same_attempts [OF _ 1]) (simp add: attempt_fields_def)
  then show ?thesis unfolding session_saved_def r using 1 ok by (cases r) simp_all
qed

lemma attempts_ok_step:
  assumes "attempts_ok s" "reports_attempts e"
  shows "attempts_ok (tracking_step q d s e)"
proof (cases e)
  case (Stop now)
  have "attempts_ok (clearTrackingInterval s)" by (rule same_attempts [OF _ assms(1)]) (simp add: attempt_fields_def clearTrackingInterval_def)
  then show ?thesis using Stop update_ok by (simp add: tracking_step_def stopTrackingProgress_def)
next
  case (AnswerSave i a)
  have u: "attempts_ok t \<Longrightarrow> attempts_ok (upd_save i f t)" for f t by (rule same_attempts) (simp_all add: attempt_fields_def upd_save_def)
  show ?thesis using AnswerSave u assms(1) session_saved_ok
    by (simp add: tracking_step_def answer_save_def Let_def split: phase.split answer.split)
next
  case (AnswerInit i a)
  have u: "attempts_ok t \<Longrightarrow> attempts_ok (upd_init i f t)" for f t by (rule same_attempts) (simp_all add: attempt_fields_def upd_init_def)
  have "\<And>data. a = Success data \<Longrightarrow> attempts_ok (fst (session_started data s))"
    using session_started_ok [OF _ assms(1)] assms(2) AnswerInit by blast
  then show ?thesis using AnswerInit u assms(1)
    by (simp add: tracking_step_def answer_init_def Let_def split: phase.split answer.split)
next
  case (Init n l z r)
  have "attempts_ok (s\<lparr>inits := x\<rparr>)" for x by (rule same_attempts [OF _ assms(1)]) (simp add: attempt_fields_def)
  then show ?thesis using Init assms(1) by (simp add: tracking_step_def initContentSession_def split: sum.split option.split)
next
  case (Update u now)
  then show ?thesis using update_ok [OF assms(1)] by (simp add: tracking_step_def)
next
  case (Tick now)
  then show ?thesis using update_ok [OF assms(1)] assms(1) by (simp add: tracking_step_def)
next
  case Debounced
  then show ?thesis using same_attempts [OF immediately_attempts assms(1)] assms(1) by (simp add: tracking_step_def)
qed (use assms(1) in \<open>auto simp: tracking_step_def upd_init_def upd_save_def send_save_def startTrackingProgress_def attempts_ok_def split: phase.split\<close>)

text \<open>
  The attempts by id are the attempts of the list: whatever content and server send, the list has
  no attempt twice, and looking up an id gives exactly the attempt of the list that has this id now,
  provided the server reports past attempts with ids, no two the same.
\<close>

theorem attempts_by_id:
  assumes "\<forall>e \<in> set es. reports_attempts e" "s = foldl (tracking_step quiz differs) new_tracking es"
  shows "distinct (pastattempts s) \<and> (\<forall>a \<in> set (pastattempts s). a < length (attempt_heap s))
    \<and> (\<forall>k a. obj_get (pastattemptMap s) k = Some a \<longleftrightarrow>
        a \<in> set (pastattempts s) \<and> truthy (js_prop (attempt s a) ''id'') \<and> js_string (js_prop (attempt s a) ''id'') = k)"
proof -
  have "attempts_ok s0 \<Longrightarrow> attempts_ok (foldl (tracking_step quiz differs) s0 es)" for s0
    using assms(1) by (induction es arbitrary: s0) (auto intro: attempts_ok_step)
  moreover have "attempts_ok new_tracking" by (simp add: attempts_ok_def new_tracking_def)
  ultimately have "attempts_ok s" using assms(2) by simp
  then show ?thesis by (auto simp: attempts_ok_def attempt_id_def attempt_def Let_def split: if_splits)
qed

section \<open>A run\<close>

text \<open>A session with one past attempt is started; \<open>play\<close> runs events after that.\<close>

definition started :: jsval where
  "started = JObj [(''session_id'', JStr ''s''), (''progress'', JNum (Fin (fl64 (of_nat 500 / 1000)))), (''context'', JObj [(''node_id'', JStr ''n'')]),
     (''pastattempts'', JArr [(''0'', JObj [(''id'', JStr ''a''), (''item'', JStr ''q'')])])]"

definition video_node :: jsval where
  "video_node = JObj [(''id'', JStr ''n''), (''content_id'', JStr ''c''), (''channel_id'', JStr ''h''), (''kind'', JStr ''video'')]"

definition one_session :: "event list" where
  "one_session = [Init video_node JUndef JUndef JUndef, AnswerInit 0 (Success started)]"

definition play :: "event list \<Rightarrow> tracking" where
  "play es = foldl (tracking_step (JStr ''QUIZ'') (\<lambda>a b. a \<noteq> b)) new_tracking (one_session @ es)"

definition interacting :: "string \<Rightarrow> event" where
  "interacting i = Update (no_args\<lparr>u_interaction := JObj [(''item'', JStr i)]\<rparr>) 0"

lemma play_more: "play (es @ fs) = foldl (tracking_step (JStr ''QUIZ'') (\<lambda>a b. a \<noteq> b)) (play es) fs"
  by (simp add: play_def)

lemma saves_are_sequential_witness: "sv_phase (saves (play [interacting ''r'', interacting ''t'', StartSave 0]) ! 1) = Queued"
proof -
  have "0 < length (saves (play [interacting ''r'', interacting ''t'', StartSave 0]))"
    "1 < length (saves (play [interacting ''r'', interacting ''t'', StartSave 0]))"
    "sv_phase (saves (play [interacting ''r'', interacting ''t'', StartSave 0]) ! 0) \<noteq> Queued"
    "\<not> is_done (saves (play [interacting ''r'', interacting ''t'', StartSave 0]) ! 0)" by code_simp+
  with saves_are_sequential [OF play_def this(1,3)] show ?thesis by simp
qed

definition failing :: "event list" where
  "failing = [interacting ''r'', StartSave 0, AnswerSave 0 (Failure (Some 500) JUndef)]"

lemma failed_save_ends_saving_witness:
  "promise_outcome (play (failing @ [interacting ''t'', StartSave 1])) 1 = Rejected (HttpFailure (Some 500))"
proof -
  obtain s t where s: "s = play failing" and t: "t = play (failing @ [interacting ''t'', StartSave 1])" by simp
  have f: "0 < length (saves s)" "sv_phase (saves s ! 0) = Failed (HttpFailure (Some 500))" unfolding s by code_simp+
  have l: "length (promises s) = 1" unfolding s by code_simp
  have m: "1 < length (promises t)" unfolding t by code_simp
  have p: "promises t ! 1 \<noteq> None" unfolding t by code_simp
  from failed_save_ends_saving [OF s [unfolded play_def] f(1,2) t [unfolded play_more, folded s]]
  have "\<forall>p. length (promises s) \<le> p \<longrightarrow> p < length (promises t) \<longrightarrow>
      promise_outcome t p = (if promises t ! p = None then Pending else Rejected (HttpFailure (Some 500)))" by blast
  from this [rule_format, of 1] have "promise_outcome t 1 = Rejected (HttpFailure (Some 500))" using l m p by simp
  then show ?thesis unfolding t .
qed

lemma interactions_are_conserved_witness:
  "\<exists>ds xss. map sv_payload (saves (play [interacting ''r''])) = map sv_payload (saves (play [])) @ ds \<and> list_all2 carries ds xss
     \<and> concat xss = [JObj [(''item'', JStr ''r'')]]"
proof -
  obtain s t where s: "s = play []" and t: "t = play [interacting ''r'']" by simp
  have f: "sent_interactions t = []" "sent_interactions s = []"
    "accepted_run (JStr ''QUIZ'') (\<lambda>a b. a \<noteq> b) s [interacting ''r''] = [JObj [(''item'', JStr ''r'')]]"
    unfolding s t by code_simp+
  have e: "\<forall>e \<in> set [interacting ''r'']. \<forall>i a. e \<noteq> AnswerInit i a" by (simp add: interacting_def)
  have "t = foldl (tracking_step (JStr ''QUIZ'') (\<lambda>a b. a \<noteq> b)) s [interacting ''r'']"
    unfolding s t by (rule play_more [of "[]" "[interacting ''r'']", unfolded append_Nil])
  from interactions_are_conserved [OF e this] show ?thesis unfolding f s [symmetric] t [symmetric] by (simp only: append_Nil append_Nil2)
qed

lemma progress_in_thousandths_witness: "\<exists>j \<le> (1000 :: nat). progress_delta (play []) = Fin (fl64 (of_nat j / 1000))"
proof -
  have "reports_progress (AnswerInit 0 (Success started))"
    unfolding reports_progress_def event.case answer.case thousandth_def
    by (intro disjI2 exI [of _ "Fin (fl64 (of_nat 500 / 1000))"] conjI exI [of _ 500]) (simp_all add: started_def js_prop_JObj obj_get_def)
  then have "\<forall>e \<in> set (one_session @ []). reports_progress e" by (simp add: one_session_def reports_progress_def)
  from progress_in_thousandths [OF this play_def] show ?thesis by blast
qed

lemma attempts_by_id_witness: "js_string (js_prop (attempt (play []) 0) ''id'') = ''a''"
proof -
  have "\<forall>e \<in> set (one_session @ []). reports_attempts e" unfolding list_all_iff [symmetric] by code_simp
  from attempts_by_id [OF this play_def] have "obj_get (pastattemptMap (play [])) ''a'' = Some 0 \<longrightarrow> js_string (js_prop (attempt (play []) 0) ''id'') = ''a''" by blast
  moreover have "obj_get (pastattemptMap (play [])) ''a'' = Some 0" by code_simp
  ultimately show ?thesis by blast
qed

text \<open>
  The data of a save belongs to the session it was collected in, but it is sent to the session there is
  when it is sent: here an interaction of the first session goes to the second.
\<close>

lemma save_goes_to_later_session:
  "sv_session (saves (play [interacting ''r'', Init video_node JUndef JUndef (JBool True),
     AnswerInit 1 (Success (JObj [(''session_id'', JStr ''next'')])), StartSave 0]) ! 0) = JStr ''next''"
  by code_simp

text \<open>Stopping forgets the time since the last check, because the check is reset first.\<close>

lemma stop_counts_no_time: "time_spent (stopTrackingProgress differs now s) = time_spent s"
proof -
  have n: "apply_update differs (no_args\<lparr>u_immediate := True, u_force := True\<rparr>) t = (t, Inr ()) \<or> (\<exists>e. apply_update differs (no_args\<lparr>u_immediate := True, u_force := True\<rparr>) t = (t, Inl e))" for t
    by (simp add: apply_update_def no_args_def set_progress_def add_progress_def set_content_state_def add_interaction_def)
  have i: "time_spent (schedule b t) = time_spent t" for b t
    by (simp add: schedule_def immediatelyUpdateContentSession_def bind_promises_def queue_save_def loggingSaving_def Let_def)
  have z: "add_time now (clearTrackingInterval s) = clearTrackingInterval s"
    by (simp add: add_time_def getNewTimeElapsed_def clearTrackingInterval_def num_truthy_def)
  show ?thesis using n [of "clearTrackingInterval s"]
    by (auto simp: stopTrackingProgress_def updateContentSession_def z i Let_def) (simp_all add: clearTrackingInterval_def)
qed

text \<open>Starting twice leaves an interval that nothing stops.\<close>

lemma started_twice_never_stops:
  "intervals (stopTrackingProgress differs now (startTrackingProgress t (startTrackingProgress t' new_tracking))) = 1"
  by (simp add: stopTrackingProgress_def startTrackingProgress_def clearTrackingInterval_def updateContentSession_def apply_update_def new_tracking_def)

text \<open>An attempt of the server that is not known ends the handling of the answer and fails the save.\<close>

lemma unknown_attempt_fails_save:
  "sv_phase (saves (play [interacting ''r'', StartSave 0,
     AnswerSave 0 (Success (JObj [(''attempts'', js_array [JObj [(''id'', JStr ''z''), (''item'', JStr ''y'')]])]))]) ! 0)
   = Failed (Thrown (TypeError ''Cannot convert undefined or null to object''))"
  by code_simp

end
