(* ===== verification/Content_Tree.thy ===== *)
theory Content_Tree
  imports Js_Collections Js_Value
begin

text \<open>
  The selection of content to import, export or delete on the device pages: the annotation of the nodes
  of a channel (\<open>SelectContentPage/treeViewUtils.js\<close>), the store of the wizard
  (\<open>modules/wizard/index.js\<close>, \<open>getters.js\<close>), the actions that change the selection
  (\<open>actions/contentTreeViewerActions.js\<close>) and the viewer that calls them (\<open>ContentTreeViewer.vue\<close>).
  The lists of included and omitted nodes live in a heap of arrays: some mutations push to an array,
  others replace it, and the handler of an answer uses the arrays there were when the request was sent.
\<close>

section \<open>Nodes and their annotation\<close>

text \<open>A path is the list of the ids of its entries; the viewer builds it from the root down to the node.\<close>

record node =
  n_id :: string
  n_title :: jsval
  n_topic :: bool
  n_leaf :: bool
  n_path :: "string list"
  n_total :: int
  n_on_device :: int
  n_importable :: bool
  n_available :: bool
  n_updated :: bool

datatype message = NoMessage | AlreadyOnYourDevice | ResourceSelected | AllResourcesSelected | SomeResourcesSelected
  | FractionOfResourcesOnDevice int int

datatype checkbox = Checked | Unchecked | Indeterminate

record annotated = node +
  a_message :: message
  a_disabled :: bool
  a_checkbox :: checkbox

definition annotated_node :: "node \<Rightarrow> message \<Rightarrow> bool \<Rightarrow> checkbox \<Rightarrow> annotated" where
  "annotated_node n m d c = node.extend n (annotated.fields m d c)"

definition isAncestorOf :: "node \<Rightarrow> node \<Rightarrow> bool" where
  "isAncestorOf a b \<longleftrightarrow> n_id a \<in> set (n_path b)"

definition isDescendantOf :: "node \<Rightarrow> node \<Rightarrow> bool" where
  "isDescendantOf a b \<longleftrightarrow> isAncestorOf b a"

definition partiallySelectedNode :: "node \<Rightarrow> annotated" where
  "partiallySelectedNode n = annotated_node n SomeResourcesSelected False Indeterminate"

definition fullySelectedNode :: "node \<Rightarrow> annotated" where
  "fullySelectedNode n = annotated_node n (if n_leaf n then ResourceSelected else AllResourcesSelected) False Checked"

definition unselectedNode :: "node \<Rightarrow> annotated" where
  "unselectedNode n = annotated_node n NoMessage False Unchecked"

definition annotateNode :: "node \<Rightarrow> node list \<Rightarrow> node list \<Rightarrow> bool \<Rightarrow> annotated" where
  "annotateNode node included omitted forImport =
     (let isIncluded = list_ex (\<lambda>i. n_id i = n_id node) included;
          isOmitted = list_ex (\<lambda>i. n_id i = n_id node) omitted;
          ancestorIsIncluded = list_ex (\<lambda>i. isAncestorOf i node) included;
          ancestorIsOmitted = list_ex (\<lambda>i. isAncestorOf i node) omitted;
          nodeIsIncluded = (isIncluded \<or> ancestorIsIncluded);
          omittedDescendants = filter (\<lambda>i. isDescendantOf i node) omitted;
          fullyIncludedDescendants = filter (\<lambda>i. \<not> list_ex (\<lambda>j. isDescendantOf j i) omitted)
            (filter (\<lambda>i. isDescendantOf i node) included)
      in
      if forImport \<and> n_on_device node = n_total node
      then (fullySelectedNode node)\<lparr>a_disabled := True, a_message := AlreadyOnYourDevice\<rparr>
      else if \<not> nodeIsIncluded \<and> omittedDescendants \<noteq> [] then partiallySelectedNode node
      else if \<not> (isOmitted \<or> ancestorIsOmitted) \<and> nodeIsIncluded then
        (if omittedDescendants \<noteq> []
         then (if (if forImport
                   then sum_by n_total omittedDescendants - sum_by n_on_device omittedDescendants = n_total node - n_on_device node
                   else sum_by n_on_device omittedDescendants = n_on_device node)
               then unselectedNode node else partiallySelectedNode node)
         else fullySelectedNode node)
      else if fullyIncludedDescendants \<noteq> [] then
        (if (if forImport
             then sum_by n_total fullyIncludedDescendants - sum_by n_on_device fullyIncludedDescendants = n_total node - n_on_device node
             else sum_by n_on_device fullyIncludedDescendants = n_on_device node)
         then fullySelectedNode node else partiallySelectedNode node)
      else if forImport \<and> n_on_device node > 0
      then (unselectedNode node)\<lparr>a_message := FractionOfResourcesOnDevice (n_on_device node) (n_total node)\<rparr>
      else unselectedNode node)"

section \<open>The store\<close>

text \<open>
  A request for the size of the selection: what is sent and what is done after its answer.  \<open>Cleanup\<close> has the
  addresses of the two lists, the included ancestors and the kind of transfer as they were when the node
  was removed.
\<close>

datatype cleanup = Cleanup nat nat "node list" bool

datatype settled = Waiting | Resolved | Rejected

record request =
  rq_args :: "jsval jsobj option"
  rq_after :: "cleanup option"
  rq_state :: settled

record wizard =
  wz_status :: jsval
  wz_pageName :: jsval
  wz_driveList :: jsval
  wz_transferType :: string
  wz_availableChannels :: jsval
  wz_selectedDrive :: jsval
  wz_selectedPeer :: jsval
  wz_availableSpace :: jsval
  wz_fileSize :: jsval
  wz_resourceCount :: jsval
  wz_channel :: "jsval jsobj"
  wz_topic :: jsval
  wz_path :: "(string \<times> jsval) list"
  wz_pathCache :: "(string \<times> jsval) list jsobj"
  wz_arrays :: "node list list"
  wz_included :: nat
  wz_omitted :: nat
  wz_requests :: "request list"

text \<open>\<open>defaultState\<close> makes two new arrays; arrays and requests there were before stay.\<close>

definition reset_state :: "wizard \<Rightarrow> wizard" where
  "reset_state s = s\<lparr>wz_status := JStr [], wz_pageName := JStr [], wz_driveList := js_array [], wz_transferType := [],
     wz_availableChannels := js_array [], wz_selectedDrive := JObj [], wz_selectedPeer := JObj [], wz_availableSpace := JNull,
     wz_fileSize := jint 0, wz_resourceCount := jint 0, wz_channel := [], wz_topic := JObj [], wz_path := [], wz_pathCache := [],
     wz_arrays := wz_arrays s @ [[], []], wz_included := length (wz_arrays s), wz_omitted := Suc (length (wz_arrays s))\<rparr>"

definition default_state :: wizard where
  "default_state = \<lparr>wz_status = JStr [], wz_pageName = JStr [], wz_driveList = js_array [], wz_transferType = [],
     wz_availableChannels = js_array [], wz_selectedDrive = JObj [], wz_selectedPeer = JObj [], wz_availableSpace = JNull,
     wz_fileSize = jint 0, wz_resourceCount = jint 0, wz_channel = [], wz_topic = JObj [], wz_path = [], wz_pathCache = [],
     wz_arrays = [[], []], wz_included = 0, wz_omitted = 1, wz_requests = []\<rparr>"

definition included :: "wizard \<Rightarrow> node list" where
  "included s = wz_arrays s ! wz_included s"

definition omitted :: "wizard \<Rightarrow> node list" where
  "omitted s = wz_arrays s ! wz_omitted s"

subsection \<open>Mutations\<close>

definition add_to_include :: "node \<Rightarrow> wizard \<Rightarrow> wizard" where
  "add_to_include n s = s\<lparr>wz_arrays := (wz_arrays s)[wz_included s := included s @ [n]]\<rparr>"

definition add_to_omit :: "node \<Rightarrow> wizard \<Rightarrow> wizard" where
  "add_to_omit n s = s\<lparr>wz_arrays := (wz_arrays s)[wz_omitted s := omitted s @ [n]]\<rparr>"

definition replace_include :: "node list \<Rightarrow> wizard \<Rightarrow> wizard" where
  "replace_include ns s = s\<lparr>wz_arrays := wz_arrays s @ [ns], wz_included := length (wz_arrays s)\<rparr>"

definition replace_omit :: "node list \<Rightarrow> wizard \<Rightarrow> wizard" where
  "replace_omit ns s = s\<lparr>wz_arrays := wz_arrays s @ [ns], wz_omitted := length (wz_arrays s)\<rparr>"

definition remove_from_include :: "node \<Rightarrow> wizard \<Rightarrow> wizard" where
  "remove_from_include n s = replace_include (filter (\<lambda>i. n_id i \<noteq> n_id n) (included s)) s"

definition remove_from_omit :: "node \<Rightarrow> wizard \<Rightarrow> wizard" where
  "remove_from_omit n s = replace_omit (filter (\<lambda>i. n_id i \<noteq> n_id n) (omitted s)) s"

definition reset_node_lists :: "wizard \<Rightarrow> wizard" where
  "reset_node_lists s = replace_omit [] (replace_include [] s)"

definition set_transfer_size :: "jsval \<Rightarrow> jsval \<Rightarrow> wizard \<Rightarrow> wizard" where
  "set_transfer_size bytes resources s = s\<lparr>wz_fileSize := bytes, wz_resourceCount := resources\<rparr>"

definition set_wizard_status :: "jsval \<Rightarrow> wizard \<Rightarrow> wizard" where
  "set_wizard_status v s = s\<lparr>wz_status := js_or v (JStr [])\<rparr>"

definition update_transferred_channel :: "jsval jsobj \<Rightarrow> wizard \<Rightarrow> wizard" where
  "update_transferred_channel u s = s\<lparr>wz_channel := obj_assign (obj_assign [] (wz_channel s)) u\<rparr>"

definition hydrate_available_channels :: "jsval \<Rightarrow> jsval \<Rightarrow> string \<Rightarrow> wizard \<Rightarrow> wizard" where
  "hydrate_available_channels cs d t s = s\<lparr>wz_availableChannels := cs, wz_selectedDrive := d, wz_transferType := t\<rparr>"

definition hydrate_select_content :: "jsval \<Rightarrow> jsval \<Rightarrow> jsval jsobj \<Rightarrow> string \<Rightarrow> wizard \<Rightarrow> wizard" where
  "hydrate_select_content space d c t s =
     s\<lparr>wz_availableSpace := space, wz_selectedDrive := d, wz_channel := c, wz_transferType := t\<rparr>"

text \<open>The mutations that only set a field.\<close>

datatype field_mutation = SetSelectedPeer jsval | SetCurrentTopicNode jsval | SetAvailableSpace jsval | SetPageName jsval
  | SetDriveList jsval | SetAvailableChannels jsval | SetTransferredChannel "jsval jsobj" | SetTransferType string

fun set_field :: "field_mutation \<Rightarrow> wizard \<Rightarrow> wizard" where
  "set_field (SetSelectedPeer v) s = s\<lparr>wz_selectedPeer := v\<rparr>"
| "set_field (SetCurrentTopicNode v) s = s\<lparr>wz_topic := v\<rparr>"
| "set_field (SetAvailableSpace v) s = s\<lparr>wz_availableSpace := v\<rparr>"
| "set_field (SetPageName v) s = s\<lparr>wz_pageName := v\<rparr>"
| "set_field (SetDriveList v) s = s\<lparr>wz_driveList := v\<rparr>"
| "set_field (SetAvailableChannels v) s = s\<lparr>wz_availableChannels := v\<rparr>"
| "set_field (SetTransferredChannel c) s = s\<lparr>wz_channel := c\<rparr>"
| "set_field (SetTransferType t) s = s\<lparr>wz_transferType := t\<rparr>"

text \<open>A topic of the breadcrumbs: id and title, with the path when the viewer has annotated one.\<close>

definition updatePathBreadcrumbs :: "string \<Rightarrow> jsval \<Rightarrow> (string \<times> jsval) list option \<Rightarrow> wizard \<Rightarrow> wizard" where
  "updatePathBreadcrumbs i title path s = (case obj_get (wz_pathCache s) i of
       Some p \<Rightarrow> s\<lparr>wz_path := p\<rparr>
     | None \<Rightarrow> (let p = (case path of None \<Rightarrow> [(i, title)] | Some es \<Rightarrow> es)
                in s\<lparr>wz_pathCache := obj_set i p (wz_pathCache s), wz_path := p\<rparr>))"

subsection \<open>Getters\<close>

definition inExportMode :: "wizard \<Rightarrow> bool" where
  "inExportMode s \<longleftrightarrow> wz_transferType s = ''localexport''"

definition inLocalImportMode :: "wizard \<Rightarrow> bool" where
  "inLocalImportMode s \<longleftrightarrow> wz_transferType s = ''localimport''"

definition inPeerImportMode :: "wizard \<Rightarrow> bool" where
  "inPeerImportMode s \<longleftrightarrow> wz_transferType s = ''peerimport''"

definition isImportingMore :: "wizard \<Rightarrow> bool" where
  "isImportingMore s \<longleftrightarrow> \<not> inExportMode s \<and> wz_channel s \<noteq> []"

section \<open>Changing the selection\<close>

definition isDescendantOrSelf :: "node \<Rightarrow> node \<Rightarrow> bool" where
  "isDescendantOrSelf testNode selfNode \<longleftrightarrow> n_id testNode = n_id selfNode \<or> n_id selfNode \<in> set (n_path testNode)"

definition ids :: "node list \<Rightarrow> jsval" where
  "ids ns = js_array (map (\<lambda>n. JStr (n_id n)) ns)"

definition size_args :: "wizard \<Rightarrow> jsval jsobj" where
  "size_args s = [(''channel_id'', js_prop (JObj (wz_channel s)) ''id''), (''node_ids'', ids (included s)), (''exclude_node_ids'', ids (omitted s))]
     @ (if inLocalImportMode s then [(''drive_id'', js_prop (wz_selectedDrive s) ''id'')] else [])
     @ (if inPeerImportMode s then [(''peer_id'', js_prop (wz_selectedPeer s) ''id'')] else [])
     @ (if inExportMode s then [(''export'', JBool True)] else [])"

definition setImportExportFileSizeAndResourceCount :: "cleanup option \<Rightarrow> wizard \<Rightarrow> wizard" where
  "setImportExportFileSizeAndResourceCount after s =
     (if included s = [] \<and> omitted s = []
      then (set_transfer_size (jint 0) (jint 0) s)\<lparr>wz_requests := wz_requests s @ [\<lparr>rq_args = None, rq_after = after, rq_state = Waiting\<rparr>]\<rparr>
      else s\<lparr>wz_requests := wz_requests s @ [\<lparr>rq_args = Some (size_args s), rq_after = after, rq_state = Waiting\<rparr>]\<rparr>)"

definition drop_under :: "node \<Rightarrow> (node list \<Rightarrow> wizard \<Rightarrow> wizard) \<Rightarrow> node list \<Rightarrow> wizard \<Rightarrow> wizard" where
  "drop_under n replace ns s = (if list_ex (\<lambda>i. isDescendantOrSelf i n) ns
     then replace (filter (\<lambda>i. \<not> isDescendantOrSelf i n) ns) s else s)"

definition addNodeForTransfer :: "node \<Rightarrow> wizard \<Rightarrow> wizard" where
  "addNodeForTransfer n s =
     setImportExportFileSizeAndResourceCount None
       (add_to_include n (drop_under n replace_include (included s) (drop_under n replace_omit (omitted s) s)))"

definition includedAncestors :: "node \<Rightarrow> node list \<Rightarrow> node list" where
  "includedAncestors n inc = filter (\<lambda>i. n_id i \<in> set (n_path n) \<and> n_id n \<noteq> n_id i) inc"

definition removeNodeForTransfer :: "node \<Rightarrow> wizard \<Rightarrow> wizard" where
  "removeNodeForTransfer n s =
     (let s1 = drop_under n replace_include (included s) s; ancestors = includedAncestors n (included s)
      in if ancestors \<noteq> []
         then setImportExportFileSizeAndResourceCount (Some (Cleanup (wz_included s) (wz_omitted s) ancestors (\<not> inExportMode s)))
                (add_to_omit n (drop_under n replace_omit (omitted s) s1))
         else setImportExportFileSizeAndResourceCount None s1)"

text \<open>After the answer: an ancestor whose resources are all omitted is not included any more.\<close>

definition fully_omitted :: "bool \<Rightarrow> node \<Rightarrow> node list \<Rightarrow> bool" where
  "fully_omitted forImport a om =
     (let below = filter (\<lambda>n. n_id a \<in> set (n_path n)) om in
      if forImport then n_total a - n_on_device a = sum_by n_total below - sum_by n_on_device below
      else n_on_device a = sum_by n_on_device below)"

definition clean_ancestor :: "nat \<Rightarrow> nat \<Rightarrow> bool \<Rightarrow> node \<Rightarrow> wizard \<Rightarrow> wizard" where
  "clean_ancestor inc om forImport a s =
     (if fully_omitted forImport a (wz_arrays s ! om)
      then replace_omit (filter (\<lambda>n. n_id a \<notin> set (n_path n)) (wz_arrays s ! om))
             (replace_include (filter (\<lambda>n. n_id n \<noteq> n_id a) (wz_arrays s ! inc)) s)
      else s)"

definition run_cleanup :: "cleanup \<Rightarrow> wizard \<Rightarrow> wizard" where
  "run_cleanup c s = (case c of Cleanup inc om ancestors forImport \<Rightarrow> fold (clean_ancestor inc om forImport) ancestors s)"

definition settle_request :: "nat \<Rightarrow> settled \<Rightarrow> wizard \<Rightarrow> wizard" where
  "settle_request i v s = s\<lparr>wz_requests := (wz_requests s)[i := (wz_requests s ! i)\<lparr>rq_state := v\<rparr>]\<rparr>"

text \<open>The answer with the sizes, or an error.  Without a request there is nothing to wait for but the next turn.\<close>

definition size_answered :: "nat \<Rightarrow> (jsval \<times> jsval) option \<Rightarrow> wizard \<Rightarrow> wizard" where
  "size_answered i answer s =
     (if i < length (wz_requests s) \<and> rq_state (wz_requests s ! i) = Waiting
      then let r = wz_requests s ! i;
               after = (\<lambda>t. settle_request i Resolved (case rq_after r of None \<Rightarrow> t | Some c \<Rightarrow> run_cleanup c t)) in
        (case (rq_args r, answer) of
           (None, _) \<Rightarrow> after s
         | (Some _, Some (bytes, resources)) \<Rightarrow> after (set_transfer_size bytes resources s)
         | (Some _, None) \<Rightarrow> settle_request i Rejected s)
      else s)"

section \<open>The viewer\<close>

record viewer =
  vw_wizard :: wizard
  vw_topic :: node
  vw_children :: "node list"
  vw_manage :: bool
  vw_disabled :: bool
  vw_disableAll :: bool
  vw_waiting :: "nat list"

definition transferType :: "viewer \<Rightarrow> string" where
  "transferType v = (if vw_manage v then ''localexport'' else wz_transferType (vw_wizard v))"

text \<open>The path of the topic is that of the breadcrumbs; a child's path has the child itself at its end.\<close>

definition childNodesWithPath :: "viewer \<Rightarrow> node list" where
  "childNodesWithPath v = map (\<lambda>n. n\<lparr>n_path := n_path (vw_topic v) @ [n_id n]\<rparr>) (vw_children v)"

definition annotatedChildNodes :: "viewer \<Rightarrow> annotated list" where
  "annotatedChildNodes v = map (\<lambda>n. annotateNode n (included (vw_wizard v)) (omitted (vw_wizard v)) (\<not> vw_manage v)) (childNodesWithPath v)"

definition sanitizeNode :: "annotated \<Rightarrow> node" where
  "sanitizeNode a = node.truncate a"

definition annotatedTopicNode :: "viewer \<Rightarrow> annotated" where
  "annotatedTopicNode v = annotateNode (vw_topic v)
     (included (vw_wizard v) @ map sanitizeNode (filter a_disabled (annotatedChildNodes v)))
     (omitted (vw_wizard v)) (\<not> vw_manage v)"

definition nodeIsChecked :: "annotated \<Rightarrow> bool" where
  "nodeIsChecked a \<longleftrightarrow> a_checkbox a = Checked"

definition noSelectableNodes :: "viewer \<Rightarrow> bool" where
  "noSelectableNodes v \<longleftrightarrow> transferType v = ''localimport''
     \<and> list_all (\<lambda>a. \<not> n_topic a \<and> (\<not> n_importable a \<or> n_on_device a > 0)) (annotatedChildNodes v)"

definition disableSelectAll :: "viewer \<Rightarrow> bool" where
  "disableSelectAll v \<longleftrightarrow> vw_disabled v \<or> vw_disableAll v \<or> a_disabled (annotatedTopicNode v) \<or> noSelectableNodes v"

definition showNode :: "viewer \<Rightarrow> annotated \<Rightarrow> bool" where
  "showNode v a \<longleftrightarrow> (if transferType v = ''localexport'' then n_available a else n_importable a \<and> n_total a \<noteq> 0)"

definition row_disabled :: "viewer \<Rightarrow> annotated \<Rightarrow> bool" where
  "row_disabled v a \<longleftrightarrow> vw_disabled v \<or> vw_disableAll v \<or> a_disabled a \<or> n_updated a \<and> \<not> n_available a"

definition nodeCompletesParent :: "viewer \<Rightarrow> annotated \<Rightarrow> bool" where
  "nodeCompletesParent v a \<longleftrightarrow>
     list_all (\<lambda>b. nodeIsChecked b \<or> a_disabled b) (filter (\<lambda>b. n_id b \<noteq> n_id a) (annotatedChildNodes v))"

definition toggleSelection :: "annotated \<Rightarrow> viewer \<Rightarrow> viewer" where
  "toggleSelection a v =
     (let s = vw_wizard v;
          s' = (if nodeIsChecked a then removeNodeForTransfer (sanitizeNode a) s
                else if nodeCompletesParent v a then addNodeForTransfer (sanitizeNode (annotatedTopicNode v)) s
                else addNodeForTransfer (sanitizeNode a) s)
      in v\<lparr>vw_wizard := s', vw_disableAll := True, vw_waiting := vw_waiting v @ [length (wz_requests s)]\<rparr>)"

datatype viewer_event =
    ToggleRow nat
  | ToggleAll
  | OpenTopic node "node list"
  | SizeAnswer nat "(jsval \<times> jsval) option"
  | ResetLists

text \<open>A row reacts when it is shown and not disabled; the promise of a toggle enables the rows again.\<close>

definition viewer_step :: "viewer \<Rightarrow> viewer_event \<Rightarrow> viewer" where
  "viewer_step v e = (case e of
       ToggleRow i \<Rightarrow>
         (let rows = filter (showNode v) (annotatedChildNodes v) in
          if i < length rows \<and> \<not> row_disabled v (rows ! i) then toggleSelection (rows ! i) v else v)
     | ToggleAll \<Rightarrow> if annotatedChildNodes v \<noteq> [] \<and> \<not> disableSelectAll v then toggleSelection (annotatedTopicNode v) v else v
     | OpenTopic topic children \<Rightarrow> v\<lparr>vw_topic := topic, vw_children := children\<rparr>
     | SizeAnswer i answer \<Rightarrow>
         (let s = vw_wizard v; t = size_answered i answer s;
              done = (i \<in> set (vw_waiting v) \<and> i < length (wz_requests s) \<and> rq_state (wz_requests s ! i) = Waiting \<and> rq_state (wz_requests t ! i) = Resolved)
          in v\<lparr>vw_wizard := t, vw_disableAll := vw_disableAll v \<and> \<not> done\<rparr>)
     | ResetLists \<Rightarrow> v\<lparr>vw_wizard := reset_node_lists (vw_wizard v)\<rparr>)"

end
