(* ===== verification/Content_Tree_Properties.thy ===== *)
theory Content_Tree_Properties
  imports Content_Tree "HOL-Library.Sublist"
begin

text \<open>
  What the selection of content means: the effect of every change on the set of nodes the server takes, the
  tidy selections the code aims at, and the check boxes as a summary of what is selected.
\<close>

section \<open>The tree\<close>

text \<open>The nodes of a channel: every path leads from the root to the node, through the paths of the nodes above it.\<close>

definition under :: "node \<Rightarrow> node \<Rightarrow> bool" where
  "under x y \<longleftrightarrow> n_id y \<in> set (n_path x)"

definition wf_tree :: "node set \<Rightarrow> bool" where
  "wf_tree U \<longleftrightarrow> (\<forall>x \<in> U. n_path x \<noteq> [] \<and> last (n_path x) = n_id x \<and> distinct (n_path x)
     \<and> (\<forall>y \<in> U. under x y \<longrightarrow> prefix (n_path y) (n_path x)))"

lemma under_refl: "wf_tree U \<Longrightarrow> x \<in> U \<Longrightarrow> under x x"
  unfolding wf_tree_def under_def by (metis last_in_set)

lemma under_same_id: "wf_tree U \<Longrightarrow> x \<in> U \<Longrightarrow> n_id x = n_id y \<Longrightarrow> under x y"
  using under_refl [of U x] by (simp add: under_def)

lemma descendant_or_self: "wf_tree U \<Longrightarrow> x \<in> U \<Longrightarrow> isDescendantOrSelf x y \<longleftrightarrow> under x y"
  using under_same_id by (auto simp: isDescendantOrSelf_def under_def)

lemma under_trans:
  assumes "wf_tree U" "x \<in> U" "y \<in> U" "z \<in> U" "under x y" "under y z"
  shows "under x z"
proof -
  have "prefix (n_path y) (n_path x)" using assms unfolding wf_tree_def by blast
  then show ?thesis using assms(6) unfolding under_def by (metis set_mono_prefix subsetD)
qed

lemma under_linear:
  assumes "wf_tree U" "x \<in> U" "y \<in> U" "z \<in> U" "under x y" "under x z"
  shows "under y z \<or> under z y"
proof -
  have p: "prefix (n_path y) (n_path x)" "prefix (n_path z) (n_path x)" using assms unfolding wf_tree_def by blast+
  have l: "n_id y \<in> set (n_path y)" "n_id z \<in> set (n_path z)" using assms under_refl unfolding under_def by blast+
  from p have "prefix (n_path y) (n_path z) \<or> prefix (n_path z) (n_path y)" by (metis prefix_same_cases)
  then show ?thesis using l unfolding under_def by (metis set_mono_prefix subsetD)
qed

lemma under_antisym:
  assumes "wf_tree U" "x \<in> U" "y \<in> U" "under x y" "under y x"
  shows "n_id x = n_id y"
proof -
  have "n_path x = n_path y" using assms unfolding wf_tree_def by (meson prefix_order.antisym)
  then show ?thesis using assms unfolding wf_tree_def by metis
qed

section \<open>What is selected\<close>

text \<open>
  The server takes what is under the nodes of \<open>node_ids\<close> and not under those of \<open>exclude_node_ids\<close>, and these are
  the two lists.
\<close>

definition takes :: "node list \<Rightarrow> node list \<Rightarrow> node \<Rightarrow> bool" where
  "takes inc om l \<longleftrightarrow> (\<exists>i \<in> set inc. under l i) \<and> \<not> (\<exists>j \<in> set om. under l j)"

definition selected :: "wizard \<Rightarrow> node \<Rightarrow> bool" where
  "selected s l = takes (included s) (omitted s) l"

definition lists_ok :: "node set \<Rightarrow> wizard \<Rightarrow> bool" where
  "lists_ok U s \<longleftrightarrow> wz_included s < length (wz_arrays s) \<and> wz_omitted s < length (wz_arrays s) \<and> wz_included s \<noteq> wz_omitted s
     \<and> (\<forall>a \<in> set (wz_arrays s). set a \<subseteq> U)"

lemma lists_in: "lists_ok U s \<Longrightarrow> set (included s) \<subseteq> U" "lists_ok U s \<Longrightarrow> set (omitted s) \<subseteq> U"
  by (auto simp: lists_ok_def included_def omitted_def)

lemma replace_lists:
  assumes "lists_ok U s"
  shows "included (replace_include ns s) = ns" "omitted (replace_include ns s) = omitted s"
    "omitted (replace_omit ns s) = ns" "included (replace_omit ns s) = included s"
  using assms by (simp_all add: replace_include_def replace_omit_def included_def omitted_def lists_ok_def nth_append)

lemma add_lists:
  assumes "lists_ok U s"
  shows "included (add_to_include n s) = included s @ [n]" "omitted (add_to_include n s) = omitted s"
    "omitted (add_to_omit n s) = omitted s @ [n]" "included (add_to_omit n s) = included s"
  using assms by (simp_all add: add_to_include_def add_to_omit_def included_def omitted_def lists_ok_def)

lemma lists_ok_replace: "lists_ok U s \<Longrightarrow> set ns \<subseteq> U \<Longrightarrow> lists_ok U (replace_include ns s)"
    "lists_ok U s \<Longrightarrow> set ns \<subseteq> U \<Longrightarrow> lists_ok U (replace_omit ns s)"
  by (auto simp: lists_ok_def replace_include_def replace_omit_def)

lemma lists_ok_add: "lists_ok U s \<Longrightarrow> n \<in> U \<Longrightarrow> lists_ok U (add_to_include n s)"
    "lists_ok U s \<Longrightarrow> n \<in> U \<Longrightarrow> lists_ok U (add_to_omit n s)"
  using lists_in [of U s] set_update_subset_insert [of "wz_arrays s"]
  by (fastforce simp: lists_ok_def add_to_include_def add_to_omit_def)+

lemma size_request_lists [simp]:
  "included (setImportExportFileSizeAndResourceCount c s) = included s" "omitted (setImportExportFileSizeAndResourceCount c s) = omitted s"
  "wz_included (setImportExportFileSizeAndResourceCount c s) = wz_included s" "wz_omitted (setImportExportFileSizeAndResourceCount c s) = wz_omitted s"
  "wz_arrays (setImportExportFileSizeAndResourceCount c s) = wz_arrays s"
  by (simp_all add: setImportExportFileSizeAndResourceCount_def included_def omitted_def set_transfer_size_def)

lemma lists_ok_size_request: "lists_ok U (setImportExportFileSizeAndResourceCount c s) = lists_ok U s"
  by (simp add: lists_ok_def)

lemma drop_filter:
  assumes "wf_tree U" "set ns \<subseteq> U"
  shows "filter (\<lambda>i. \<not> isDescendantOrSelf i n) ns = filter (\<lambda>i. \<not> under i n) ns"
    "\<not> list_ex (\<lambda>i. isDescendantOrSelf i n) ns \<Longrightarrow> filter (\<lambda>i. \<not> under i n) ns = ns"
proof -
  have e: "isDescendantOrSelf i n \<longleftrightarrow> under i n" if "i \<in> set ns" for i using that assms descendant_or_self by blast
  then show "filter (\<lambda>i. \<not> isDescendantOrSelf i n) ns = filter (\<lambda>i. \<not> under i n) ns" by (intro filter_cong) auto
  show "\<not> list_ex (\<lambda>i. isDescendantOrSelf i n) ns \<Longrightarrow> filter (\<lambda>i. \<not> under i n) ns = ns"
    using e by (auto simp: list_ex_iff intro: filter_True)
qed

lemma drop_under_include:
  assumes "lists_ok U s" "wf_tree U"
  shows "included (drop_under n replace_include (included s) s) = filter (\<lambda>i. \<not> under i n) (included s)"
    "omitted (drop_under n replace_include (included s) s) = omitted s" "lists_ok U (drop_under n replace_include (included s) s)"
proof -
  note f = drop_filter [OF assms(2) lists_in(1) [OF assms(1)], of n]
  show "included (drop_under n replace_include (included s) s) = filter (\<lambda>i. \<not> under i n) (included s)"
    by (simp add: drop_under_def f replace_lists [OF assms(1)])
  show "omitted (drop_under n replace_include (included s) s) = omitted s"
    by (simp add: drop_under_def replace_lists [OF assms(1)])
  show "lists_ok U (drop_under n replace_include (included s) s)"
    using assms(1) lists_ok_replace(1) [OF assms(1)] lists_in [OF assms(1)] by (auto simp: drop_under_def f intro!: lists_ok_replace(1))
qed

lemma drop_under_omit:
  assumes "lists_ok U s" "wf_tree U"
  shows "omitted (drop_under n replace_omit (omitted s) s) = filter (\<lambda>i. \<not> under i n) (omitted s)"
    "included (drop_under n replace_omit (omitted s) s) = included s" "lists_ok U (drop_under n replace_omit (omitted s) s)"
proof -
  note f = drop_filter [OF assms(2) lists_in(2) [OF assms(1)], of n]
  show "omitted (drop_under n replace_omit (omitted s) s) = filter (\<lambda>i. \<not> under i n) (omitted s)"
    by (simp add: drop_under_def f replace_lists [OF assms(1)])
  show "included (drop_under n replace_omit (omitted s) s) = included s"
    by (simp add: drop_under_def replace_lists [OF assms(1)])
  show "lists_ok U (drop_under n replace_omit (omitted s) s)"
    using assms(1) lists_in [OF assms(1)] by (auto simp: drop_under_def f intro!: lists_ok_replace(2))
qed

lemma added:
  assumes "lists_ok U s" "wf_tree U" "n \<in> U"
  shows "included (addNodeForTransfer n s) = filter (\<lambda>i. \<not> under i n) (included s) @ [n]"
    "omitted (addNodeForTransfer n s) = filter (\<lambda>i. \<not> under i n) (omitted s)" "lists_ok U (addNodeForTransfer n s)"
proof -
  let ?t = "drop_under n replace_omit (omitted s) s"
  note t = drop_under_omit [OF assms(1,2), of n]
  let ?u = "drop_under n replace_include (included s) ?t"
  have u: "included ?u = filter (\<lambda>i. \<not> under i n) (included s)" "omitted ?u = filter (\<lambda>i. \<not> under i n) (omitted s)" "lists_ok U ?u"
    using drop_under_include [OF t(3) assms(2), of n] unfolding t by simp_all
  show "included (addNodeForTransfer n s) = filter (\<lambda>i. \<not> under i n) (included s) @ [n]"
    "omitted (addNodeForTransfer n s) = filter (\<lambda>i. \<not> under i n) (omitted s)" "lists_ok U (addNodeForTransfer n s)"
    using add_lists [OF u(3), of n] lists_ok_add(1) [OF u(3) assms(3)] u by (simp_all add: addNodeForTransfer_def lists_ok_size_request)
qed

definition has_ancestors :: "node \<Rightarrow> wizard \<Rightarrow> bool" where
  "has_ancestors n s \<longleftrightarrow> includedAncestors n (included s) \<noteq> []"

lemma removed:
  assumes "lists_ok U s" "wf_tree U" "n \<in> U"
  shows "included (removeNodeForTransfer n s) = filter (\<lambda>i. \<not> under i n) (included s)"
    "omitted (removeNodeForTransfer n s) = (if has_ancestors n s then filter (\<lambda>i. \<not> under i n) (omitted s) @ [n] else omitted s)"
    "lists_ok U (removeNodeForTransfer n s)"
proof -
  let ?t = "drop_under n replace_include (included s) s"
  note t = drop_under_include [OF assms(1,2), of n]
  let ?u = "drop_under n replace_omit (omitted s) ?t"
  have u: "included ?u = filter (\<lambda>i. \<not> under i n) (included s)" "omitted ?u = filter (\<lambda>i. \<not> under i n) (omitted s)" "lists_ok U ?u"
    using drop_under_omit [OF t(3) assms(2), of n] unfolding t by simp_all
  show "included (removeNodeForTransfer n s) = filter (\<lambda>i. \<not> under i n) (included s)"
    "omitted (removeNodeForTransfer n s) = (if has_ancestors n s then filter (\<lambda>i. \<not> under i n) (omitted s) @ [n] else omitted s)"
    "lists_ok U (removeNodeForTransfer n s)"
    using add_lists [OF u(3), of n] lists_ok_add(2) [OF u(3) assms(3)] u t
    by (simp_all add: removeNodeForTransfer_def lists_ok_size_request has_ancestors_def Let_def)
qed

lemma takes_added:
  assumes wf: "wf_tree U" and U: "n \<in> U" "l \<in> U" "set inc \<subseteq> U" "set om \<subseteq> U"
  shows "takes (filter (\<lambda>i. \<not> under i n) inc @ [n]) (filter (\<lambda>i. \<not> under i n) om) l \<longleftrightarrow>
    (if under l n then \<not> (\<exists>j \<in> set om. under n j \<and> n_id j \<noteq> n_id n) else takes inc om l)"
proof (cases "under l n")
  case True
  have "(\<exists>j \<in> set om. \<not> under j n \<and> under l j) \<longleftrightarrow> (\<exists>j \<in> set om. under n j \<and> n_id j \<noteq> n_id n)"
  proof (intro bex_cong refl)
    fix j assume j: "j \<in> set om"
    then have "j \<in> U" using U by blast
    then show "(\<not> under j n \<and> under l j) = (under n j \<and> n_id j \<noteq> n_id n)"
      using True U under_linear [OF wf U(2,1)] under_trans [OF wf U(2,1)] under_antisym [OF wf U(1)] under_same_id [OF wf] by metis
  qed
  then show ?thesis using True by (auto simp: takes_def)
next
  case False
  have "\<not> under j n" if "j \<in> set inc \<union> set om" "under l j" for j
    using that False U under_trans [OF wf U(2) _ U(1)] by blast
  then show ?thesis using False by (auto simp: takes_def)
qed

lemma takes_removed:
  assumes wf: "wf_tree U" and U: "n \<in> U" "l \<in> U" "set inc \<subseteq> U" "set om \<subseteq> U"
  shows "takes (filter (\<lambda>i. \<not> under i n) inc) (if includedAncestors n inc \<noteq> [] then filter (\<lambda>i. \<not> under i n) om @ [n] else om) l \<longleftrightarrow>
    takes inc om l \<and> \<not> under l n"
proof (cases "under l n")
  case True
  have "includedAncestors n inc \<noteq> []" if i: "i \<in> set inc" "under l i" "\<not> under i n" for i
  proof -
    have "under n i" using under_linear [OF wf U(2,1) _ True i(2)] i U by blast
    moreover have "n_id n \<noteq> n_id i" using i U(3) under_same_id [OF wf, of i n] by auto
    ultimately show ?thesis using i(1) by (auto simp: includedAncestors_def under_def filter_empty_conv)
  qed
  then show ?thesis using True by (auto simp: takes_def)
next
  case False
  have "\<not> under j n" if "j \<in> set inc \<union> set om" "under l j" for j
    using that False U under_trans [OF wf U(2) _ U(1)] by blast
  then show ?thesis using False by (auto simp: takes_def)
qed

section \<open>Reachable states\<close>

text \<open>Changes of the lists, in any order, also while requests are under way.\<close>

datatype list_event = Added node | Removed node | SizeAnswered nat "(jsval \<times> jsval) option" | ListsReset | FieldSet field_mutation

definition list_step :: "wizard \<Rightarrow> list_event \<Rightarrow> wizard" where
  "list_step s e = (case e of Added n \<Rightarrow> addNodeForTransfer n s | Removed n \<Rightarrow> removeNodeForTransfer n s
     | SizeAnswered i a \<Rightarrow> size_answered i a s | ListsReset \<Rightarrow> reset_node_lists s
     | FieldSet m \<Rightarrow> set_field m s)"

definition event_in :: "node set \<Rightarrow> list_event \<Rightarrow> bool" where
  "event_in U e \<longleftrightarrow> (case e of Added n \<Rightarrow> n \<in> U | Removed n \<Rightarrow> n \<in> U | _ \<Rightarrow> True)"

definition cleanup_ok :: "node set \<Rightarrow> wizard \<Rightarrow> cleanup option \<Rightarrow> bool" where
  "cleanup_ok U s c \<longleftrightarrow> (case c of None \<Rightarrow> True | Some (Cleanup i j as _) \<Rightarrow>
     i < length (wz_arrays s) \<and> j < length (wz_arrays s) \<and> set as \<subseteq> U)"

definition wizard_ok :: "node set \<Rightarrow> wizard \<Rightarrow> bool" where
  "wizard_ok U s \<longleftrightarrow> lists_ok U s \<and> (\<forall>r \<in> set (wz_requests s). cleanup_ok U s (rq_after r))"


lemma lists_cong:
  assumes "wz_arrays t = wz_arrays s" "wz_included t = wz_included s" "wz_omitted t = wz_omitted s"
  shows "included t = included s" "omitted t = omitted s" "lists_ok U t = lists_ok U s"
  using assms by (simp_all add: included_def omitted_def lists_ok_def)

text \<open>What happens to the arrays: there are only ever more, and they hold nodes of the channel.\<close>

definition arrays_step :: "node set \<Rightarrow> wizard \<Rightarrow> wizard \<Rightarrow> bool" where
  "arrays_step U s t \<longleftrightarrow> (lists_ok U s \<longrightarrow> lists_ok U t) \<and> length (wz_arrays s) \<le> length (wz_arrays t)"

lemma arrays_step_refl: "arrays_step U s s" by (simp add: arrays_step_def)

lemma arrays_step_trans: "arrays_step U s t \<Longrightarrow> arrays_step U t u \<Longrightarrow> arrays_step U s u"
  by (auto simp: arrays_step_def)

lemma cleanup_ok_mono: "arrays_step U s t \<Longrightarrow> cleanup_ok U s c \<Longrightarrow> cleanup_ok U t c"
  by (auto simp: arrays_step_def cleanup_ok_def split: option.splits cleanup.splits)

lemma arrays_step_clean:
  assumes "lists_ok U s" "inc < length (wz_arrays s)" "om < length (wz_arrays s)"
  shows "arrays_step U s (clean_ancestor inc om fi a s)"
proof -
  have "set (wz_arrays s ! inc) \<subseteq> U" "set (wz_arrays s ! om) \<subseteq> U" using assms by (auto simp: lists_ok_def)
  then show ?thesis using assms(1)
    by (auto simp: arrays_step_def clean_ancestor_def intro!: lists_ok_replace) (auto simp: replace_include_def replace_omit_def)
qed

lemma arrays_step_fold:
  "lists_ok U s \<Longrightarrow> inc < length (wz_arrays s) \<Longrightarrow> om < length (wz_arrays s) \<Longrightarrow> arrays_step U s (fold (clean_ancestor inc om fi) as s)"
proof (induction as arbitrary: s)
  case (Cons a as)
  note st = arrays_step_clean [OF Cons.prems, of fi a]
  with Cons.prems have "arrays_step U (clean_ancestor inc om fi a s) (fold (clean_ancestor inc om fi) as (clean_ancestor inc om fi a s))"
    by (intro Cons.IH) (auto simp: arrays_step_def)
  then show ?case using arrays_step_trans [OF st] by simp
qed (simp add: arrays_step_refl)

lemma requests_simps [simp]:
  "wz_requests (replace_include ns s) = wz_requests s" "wz_requests (replace_omit ns s) = wz_requests s"
  "wz_requests (add_to_include n s) = wz_requests s" "wz_requests (add_to_omit n s) = wz_requests s"
  "wz_requests (drop_under n replace_include ns s) = wz_requests s" "wz_requests (drop_under n replace_omit ns s) = wz_requests s"
  "wz_requests (set_transfer_size b r s) = wz_requests s" "wz_requests (clean_ancestor i j f a s) = wz_requests s"
  by (simp_all add: replace_include_def replace_omit_def add_to_include_def add_to_omit_def drop_under_def set_transfer_size_def clean_ancestor_def)

lemma requests_cleanup [simp]: "wz_requests (run_cleanup c s) = wz_requests s"
proof -
  have "wz_requests (fold (clean_ancestor i j f) as t) = wz_requests t" for i j f as t by (induction as arbitrary: t) auto
  then show ?thesis by (simp add: run_cleanup_def split: cleanup.split)
qed

lemma requests_size:
  "\<exists>r. wz_requests (setImportExportFileSizeAndResourceCount c s) = wz_requests s @ [r] \<and> rq_after r = c \<and> rq_state r = Waiting"
  by (simp add: setImportExportFileSizeAndResourceCount_def)

lemma wizard_ok_change:
  assumes "wizard_ok U s" "arrays_step U s t" "\<forall>r \<in> set (wz_requests t). cleanup_ok U t (rq_after r) \<or> rq_after r \<in> rq_after ` set (wz_requests s)"
  shows "wizard_ok U t"
  using assms cleanup_ok_mono [OF assms(2)] unfolding wizard_ok_def arrays_step_def by fastforce

lemma arrays_grow:
  "length (wz_arrays s) \<le> length (wz_arrays (drop_under n replace_include ns s))" "length (wz_arrays s) \<le> length (wz_arrays (drop_under n replace_omit ns s))"
  "length (wz_arrays (add_to_include n s)) = length (wz_arrays s)" "length (wz_arrays (add_to_omit n s)) = length (wz_arrays s)"
  by (simp_all add: drop_under_def replace_include_def replace_omit_def add_to_include_def add_to_omit_def)

lemma wizard_ok_added:
  assumes "wf_tree U" "wizard_ok U s" "n \<in> U"
  shows "wizard_ok U (addNodeForTransfer n s)"
proof (rule wizard_ok_change [OF assms(2)])
  have ok: "lists_ok U s" using assms by (simp add: wizard_ok_def)
  let ?t = "add_to_include n (drop_under n replace_include (included s) (drop_under n replace_omit (omitted s) s))"
  have "length (wz_arrays s) \<le> length (wz_arrays ?t)" unfolding arrays_grow
    by (meson arrays_grow(1) arrays_grow(2) order.trans)
  then show "arrays_step U s (addNodeForTransfer n s)" using added(3) [OF ok assms(1,3)]
    by (simp add: arrays_step_def addNodeForTransfer_def)
  obtain r where r: "wz_requests (addNodeForTransfer n s) = wz_requests s @ [r]" "rq_after r = None"
    using requests_size [of None ?t] by (auto simp: addNodeForTransfer_def)
  then show "\<forall>r \<in> set (wz_requests (addNodeForTransfer n s)). cleanup_ok U (addNodeForTransfer n s) (rq_after r) \<or> rq_after r \<in> rq_after ` set (wz_requests s)"
    by (auto simp: cleanup_ok_def)
qed

lemma wizard_ok_removed:
  assumes "wf_tree U" "wizard_ok U s" "n \<in> U"
  shows "wizard_ok U (removeNodeForTransfer n s)"
proof (rule wizard_ok_change [OF assms(2)])
  have ok: "lists_ok U s" using assms by (simp add: wizard_ok_def)
  let ?s1 = "drop_under n replace_include (included s) s"
  let ?t = "add_to_omit n (drop_under n replace_omit (omitted s) ?s1)"
  have l: "length (wz_arrays s) \<le> length (wz_arrays ?s1)" "length (wz_arrays s) \<le> length (wz_arrays ?t)" unfolding arrays_grow
    by (meson arrays_grow(1) arrays_grow(2) order.trans)+
  then show st: "arrays_step U s (removeNodeForTransfer n s)" using removed(3) [OF ok assms(1,3)]
    by (simp add: arrays_step_def removeNodeForTransfer_def Let_def)
  let ?c = "Cleanup (wz_included s) (wz_omitted s) (includedAncestors n (included s)) (\<not> inExportMode s)"
  have "cleanup_ok U s (Some ?c)" using ok lists_in [OF ok] by (auto simp: cleanup_ok_def lists_ok_def includedAncestors_def)
  then have c: "cleanup_ok U (removeNodeForTransfer n s) (Some ?c)" by (rule cleanup_ok_mono [OF st])
  obtain r where "wz_requests (removeNodeForTransfer n s) = wz_requests s @ [r]" "rq_after r = None \<or> rq_after r = Some ?c"
    using requests_size [of "Some ?c" ?t] requests_size [of None ?s1] by (cases "includedAncestors n (included s) = []") (auto simp: removeNodeForTransfer_def Let_def)
  then show "\<forall>r \<in> set (wz_requests (removeNodeForTransfer n s)). cleanup_ok U (removeNodeForTransfer n s) (rq_after r) \<or> rq_after r \<in> rq_after ` set (wz_requests s)"
    using c by (auto simp: cleanup_ok_def)
qed

lemma settled_fields [simp]:
  "wz_arrays (settle_request i v s) = wz_arrays s" "wz_included (settle_request i v s) = wz_included s" "wz_omitted (settle_request i v s) = wz_omitted s"
  by (simp_all add: settle_request_def)

lemma sized_fields [simp]:
  "wz_arrays (set_transfer_size b r s) = wz_arrays s" "wz_included (set_transfer_size b r s) = wz_included s" "wz_omitted (set_transfer_size b r s) = wz_omitted s"
  by (simp_all add: set_transfer_size_def)

lemma settled_after: "rq_after ` set (wz_requests (settle_request i v s)) \<subseteq> rq_after ` set (wz_requests s)"
proof
  fix c assume "c \<in> rq_after ` set (wz_requests (settle_request i v s))"
  then obtain k where "k < length (wz_requests s)" "c = rq_after (wz_requests (settle_request i v s) ! k)"
    by (auto simp: settle_request_def in_set_conv_nth)
  then have "c = rq_after (wz_requests s ! k)" by (cases "k = i") (simp_all add: settle_request_def)
  then show "c \<in> rq_after ` set (wz_requests s)" using \<open>k < length (wz_requests s)\<close> by auto
qed

lemma wizard_ok_answered:
  assumes "wizard_ok U s" shows "wizard_ok U (size_answered i a s)"
proof -
  have cong: "wizard_ok U (settle_request i v t)" if "wizard_ok U t" for t v
  proof (rule wizard_ok_change [OF that])
    show "arrays_step U t (settle_request i v t)" using lists_cong(3) [of "settle_request i v t" t U] by (simp add: arrays_step_def)
    show "\<forall>r \<in> set (wz_requests (settle_request i v t)). cleanup_ok U (settle_request i v t) (rq_after r) \<or> rq_after r \<in> rq_after ` set (wz_requests t)"
      using settled_after [of i v t] by blast
  qed
  have sized: "wizard_ok U (set_transfer_size b r t)" if "wizard_ok U t" for b r t
    by (rule wizard_ok_change [OF that]) (use lists_cong(3) [of "set_transfer_size b r t" t U] in \<open>auto simp: arrays_step_def\<close>)
  have clean: "wizard_ok U (run_cleanup c t)" if t: "wizard_ok U t" "Some c \<in> rq_after ` set (wz_requests t)" for c t
  proof -
    obtain inc om as f where c: "c = Cleanup inc om as f" by (cases c)
    have "cleanup_ok U t (Some c)" using t by (auto simp: wizard_ok_def)
    then have "arrays_step U t (run_cleanup c t)" using t arrays_step_fold [of U t inc om f as]
      by (simp add: c run_cleanup_def cleanup_ok_def wizard_ok_def)
    then show ?thesis by (rule wizard_ok_change [OF t(1)]) auto
  qed
  have mem: "Some c \<in> rq_after ` set (wz_requests s)" if "i < length (wz_requests s)" "rq_after (wz_requests s ! i) = Some c" for c
    using that by (metis image_eqI nth_mem)
  show ?thesis using assms mem
    by (auto simp: size_answered_def Let_def split: option.split intro!: cong sized clean)
qed

lemma wizard_ok_reset: assumes "wizard_ok U s" shows "wizard_ok U (reset_node_lists s)"
  by (rule wizard_ok_change [OF assms])
    (auto simp: arrays_step_def reset_node_lists_def intro!: lists_ok_replace, auto simp: replace_include_def replace_omit_def)

lemma wizard_ok_field: assumes "wizard_ok U s" shows "wizard_ok U (set_field m s)"
  by (rule wizard_ok_change [OF assms]; cases m) (auto simp: arrays_step_def lists_ok_def)

lemma wizard_ok_step: "wf_tree U \<Longrightarrow> event_in U e \<Longrightarrow> wizard_ok U s \<Longrightarrow> wizard_ok U (list_step s e)"
  by (cases e) (simp_all add: list_step_def event_in_def wizard_ok_added wizard_ok_removed wizard_ok_answered wizard_ok_reset wizard_ok_field)

lemma wizard_ok_default: "wizard_ok U default_state"
  by (simp add: wizard_ok_def lists_ok_def default_state_def)


interpretation list_run: guarded_stepper list_step "event_in U" "\<lambda>s. wf_tree U \<and> wizard_ok U s" for U
  by unfold_locales (auto intro: wizard_ok_step)

lemma list_reachable:
  assumes "wf_tree U" "\<forall>e \<in> set es. event_in U e" "s = foldl list_step default_state es"
  shows "lists_ok U s"
  using list_run.guarded_run_inv [OF assms(2)] assms(1,3) wizard_ok_default by (auto simp: wizard_ok_def)

text \<open>
  C26. What a click does at once, in every state that clicks and answers lead to, with answers still
  outstanding or not: after \<open>addNodeForTransfer\<close> everything under the node is taken, or, if another node
  above it is omitted, nothing under it, as before; after the synchronous part of
  \<open>removeNodeForTransfer\<close> nothing under the node is taken; and nothing else has changed.  The request
  \<open>removeNodeForTransfer\<close> starts is not part of this: what its answer does to a tidy selection is
  \<open>clicks_keep_selection_tidy\<close>, and to an untidy one it can do harm (\<open>last_click_selects_again\<close>).
\<close>

theorem selection_follows_clicks:
  assumes "wf_tree U" "\<forall>e \<in> set es. event_in U e" "s = foldl list_step default_state es" "n \<in> U" "l \<in> U"
  shows "(selected (addNodeForTransfer n s) l \<longleftrightarrow>
      (if under l n then \<not> (\<exists>j \<in> set (omitted s). under n j \<and> n_id j \<noteq> n_id n) else selected s l))
    \<and> (selected (removeNodeForTransfer n s) l \<longleftrightarrow> selected s l \<and> \<not> under l n)"
proof -
  have ok: "lists_ok U s" by (rule list_reachable [OF assms(1-3)])
  show ?thesis unfolding selected_def added [OF ok assms(1,4)] removed [OF ok assms(1,4)] has_ancestors_def
    using takes_added [OF assms(1,4,5) lists_in [OF ok]] takes_removed [OF assms(1,4,5) lists_in [OF ok]] by blast
qed

section \<open>Tidy selections\<close>

text \<open>
  \<open>T\<close> are the resources that can be transferred: those not on the device for an import, those on it otherwise.
  The counts of the server agree with it.
\<close>

definition below :: "node set \<Rightarrow> node \<Rightarrow> node set" where
  "below T x = {l \<in> T. under l x}"

definition weight :: "bool \<Rightarrow> node \<Rightarrow> int" where
  "weight fi x = (if fi then n_total x - n_on_device x else n_on_device x)"

definition counted :: "bool \<Rightarrow> node set \<Rightarrow> node set \<Rightarrow> bool" where
  "counted fi U T \<longleftrightarrow> finite T \<and> T \<subseteq> U \<and> (\<forall>x \<in> U. weight fi x = int (card (below T x)))"

text \<open>No node in a list is under another, what is omitted is under something included, and neither is in vain.\<close>

definition apart :: "node list \<Rightarrow> bool" where
  "apart ns \<longleftrightarrow> distinct (map n_id ns) \<and> (\<forall>x \<in> set ns. \<forall>y \<in> set ns. under x y \<longrightarrow> n_id x = n_id y)"

definition tidy :: "node set \<Rightarrow> node list \<Rightarrow> node list \<Rightarrow> bool" where
  "tidy T inc om \<longleftrightarrow> apart inc \<and> apart om \<and> (\<forall>j \<in> set om. below T j \<noteq> {} \<and> (\<exists>i \<in> set inc. under j i \<and> n_id j \<noteq> n_id i))
     \<and> (\<forall>i \<in> set inc. \<exists>l \<in> below T i. takes inc om l)"

lemma weight_sum: "(if fi then sum_by n_total ns - sum_by n_on_device ns else sum_by n_on_device ns) = sum_by (weight fi) ns"
  by (induction ns) (auto simp: sum_by_def weight_def)

lemma sum_below:
  assumes "wf_tree U" "counted fi U T" "set ns \<subseteq> U" "apart ns"
  shows "sum_by (weight fi) ns = int (card (\<Union>x \<in> set ns. below T x))"
  using assms(3,4)
proof (induction ns)
  case (Cons x ns)
  have fin: "finite (below T y)" for y using assms(2) by (simp add: counted_def below_def)
  have "l \<notin> below T y" if "y \<in> set ns" "l \<in> below T x" for y l
  proof
    assume "l \<in> below T y"
    moreover have "l \<in> U" using that assms(2) by (auto simp: below_def counted_def)
    ultimately have "under x y \<or> under y x" using under_linear [OF assms(1), of l x y] that Cons.prems by (auto simp: below_def)
    then have "n_id x = n_id y" using that Cons.prems unfolding apart_def by (metis list.set_intros(1,2))
    then show False using that Cons.prems by (auto simp: apart_def)
  qed
  then have disj: "below T x \<inter> (\<Union>y \<in> set ns. below T y) = {}" by blast
  have "sum_by (weight fi) (x # ns) = weight fi x + sum_by (weight fi) ns" by (simp add: sum_by_def)
  also have "\<dots> = int (card (below T x)) + int (card (\<Union>y \<in> set ns. below T y))"
    using Cons assms(2) by (simp add: counted_def apart_def)
  also have "\<dots> = int (card (\<Union>y \<in> set (x # ns). below T y))"
    using card_Un_disjoint [OF fin _ disj] fin by simp
  finally show ?case .
qed (simp add: sum_by_def)

lemma sum_is_all:
  assumes "wf_tree U" "counted fi U T" "set ns \<subseteq> U" "apart ns" "x \<in> U" "\<forall>y \<in> set ns. under y x"
  shows "sum_by (weight fi) ns = weight fi x \<longleftrightarrow> (\<forall>l \<in> below T x. \<exists>y \<in> set ns. under l y)"
proof -
  have fin: "finite (below T x)" using assms(2) by (simp add: counted_def below_def)
  have sub: "(\<Union>y \<in> set ns. below T y) \<subseteq> below T x"
  proof
    fix l assume "l \<in> (\<Union>y \<in> set ns. below T y)"
    then obtain y where y: "y \<in> set ns" "l \<in> T" "under l y" by (auto simp: below_def)
    have "T \<subseteq> U" using assms(2) by (simp add: counted_def)
    then have U: "l \<in> U" "y \<in> U" using y assms(3) by blast+
    have "under y x" using y(1) assms(6) by blast
    with under_trans [OF assms(1) U assms(5) y(3)] show "l \<in> below T x" using y(2) by (simp add: below_def)
  qed
  have "sum_by (weight fi) ns = weight fi x \<longleftrightarrow> card (\<Union>y \<in> set ns. below T y) = card (below T x)"
    using sum_below [OF assms(1-4)] assms(2,5) by (simp add: counted_def)
  also have "\<dots> \<longleftrightarrow> (\<Union>y \<in> set ns. below T y) = below T x" using card_subset_eq [OF fin sub] by auto
  also have "\<dots> \<longleftrightarrow> (\<forall>l \<in> below T x. \<exists>y \<in> set ns. under l y)" using sub by (auto simp: below_def)
  finally show ?thesis .
qed

lemma apart_filter: "apart ns \<Longrightarrow> apart (filter P ns)"
  by (auto simp: apart_def intro: distinct_map_filter)


lemma apart_above:
  assumes "wf_tree U" "set ns \<subseteq> U" "apart ns" "l \<in> U" "x \<in> set ns" "y \<in> set ns" "under l x" "under l y"
  shows "x = y"
proof -
  have "under x y \<or> under y x" using under_linear [OF assms(1,4)] assms by blast
  then have "n_id x = n_id y" using assms(3,5,6) unfolding apart_def by metis
  then show ?thesis using assms(3,5,6) unfolding apart_def by (meson distinct_map inj_onD)
qed

lemma annotate_cases:
  assumes "wf_tree U" "n \<in> U" "\<not> (fi \<and> n_on_device n = n_total n)"
  shows "a_checkbox (annotateNode n inc om fi) =
    (let up_inc = (\<exists>i \<in> set inc. under n i); up_om = (\<exists>i \<in> set om. under n i); D = filter (\<lambda>i. under i n) om;
         F = filter (\<lambda>i. \<not> (\<exists>j \<in> set om. under j i)) (filter (\<lambda>i. under i n) inc) in
     if \<not> up_inc \<and> D \<noteq> [] then Indeterminate
     else if \<not> up_om \<and> up_inc then (if D \<noteq> [] then (if sum_by (weight fi) D = weight fi n then Unchecked else Indeterminate) else Checked)
     else if F \<noteq> [] then (if sum_by (weight fi) F = weight fi n then Checked else Indeterminate) else Unchecked)"
proof -
  have desc: "isDescendantOf i j \<longleftrightarrow> under i j" for i j by (simp add: isDescendantOf_def isAncestorOf_def under_def)
  have self: "(list_ex (\<lambda>i. n_id i = n_id n) ns \<or> list_ex (\<lambda>i. isAncestorOf i n) ns) = (\<exists>i \<in> set ns. under n i)" for ns
  proof -
    have "n_id n \<in> set (n_path n)" using under_refl [OF assms(1,2)] by (simp add: under_def)
    then show ?thesis unfolding list_ex_iff isAncestorOf_def under_def by metis
  qed
  have w: "(if fi then sum_by n_total ns - sum_by n_on_device ns = n_total n - n_on_device n else sum_by n_on_device ns = n_on_device n)
      = (sum_by (weight fi) ns = weight fi n)" for ns
    using weight_sum [of fi ns] by (auto simp: weight_def split: if_splits)
  have box: "a_checkbox (annotated_node m ms d c) = c" for m ms d c
    by (cases m) (simp add: annotated_node_def annotated.defs node.defs)
  have om: "list_ex (\<lambda>j. isDescendantOf j i) om \<longleftrightarrow> (\<exists>j \<in> set om. under j i)" for i by (simp add: list_ex_iff desc)
  have boxes: "a_checkbox (partiallySelectedNode n) = Indeterminate" "a_checkbox (fullySelectedNode n) = Checked" "a_checkbox (unselectedNode n) = Unchecked"
    "a_checkbox ((unselectedNode n)\<lparr>a_message := m\<rparr>) = Unchecked" for m
    by (simp_all add: box unselectedNode_def fullySelectedNode_def partiallySelectedNode_def)
  show ?thesis unfolding annotateNode_def Let_def self om w unfolding desc
    by (simp only: if_distrib [of a_checkbox] boxes assms(3) if_False if_cancel)
qed


definition selection_ok :: "bool \<Rightarrow> node set \<Rightarrow> node set \<Rightarrow> node list \<Rightarrow> node list \<Rightarrow> bool" where
  "selection_ok fi U T inc om \<longleftrightarrow> wf_tree U \<and> counted fi U T \<and> set inc \<subseteq> U \<and> set om \<subseteq> U \<and> tidy T inc om"

lemma below_in: "selection_ok fi U T inc om \<Longrightarrow> l \<in> below T x \<Longrightarrow> l \<in> U \<and> l \<in> T \<and> under l x"
  by (auto simp: selection_ok_def counted_def below_def)

lemma below_mono:
  assumes "selection_ok fi U T inc om" "x \<in> U" "y \<in> U" "under x y" "l \<in> below T x"
  shows "l \<in> below T y"
  using below_in [OF assms(1,5)] under_trans [of U l x y] assms by (simp add: selection_ok_def below_def)

lemma omitted_not_taken:
  assumes "selection_ok fi U T inc om" "j \<in> set om" "x \<in> U" "under j x"
  shows "\<exists>l \<in> below T x. \<not> takes inc om l"
proof -
  have "below T j \<noteq> {}" "j \<in> U" using assms(1,2) by (auto simp: selection_ok_def tidy_def)
  then obtain l where l: "l \<in> below T j" by blast
  then have "\<not> takes inc om l" using below_in [OF assms(1) l] assms(2) by (auto simp: takes_def)
  then show ?thesis using below_mono [OF assms(1) \<open>j \<in> U\<close> assms(3,4) l] by blast
qed

lemma box_omitted:
  assumes ok: "selection_ok fi U T inc om" and n: "n \<in> U" "\<exists>j \<in> set om. under n j"
  shows "\<exists>i \<in> set inc. under n i" "filter (\<lambda>i. under i n) inc = []" "l \<in> below T n \<Longrightarrow> \<not> takes inc om l"
proof -
  have wf: "wf_tree U" and U: "set inc \<subseteq> U" "set om \<subseteq> U" and t: "tidy T inc om" using ok by (simp_all add: selection_ok_def)
  obtain j where j: "j \<in> set om" "under n j" using n by blast
  then obtain i where i: "i \<in> set inc" "under j i" "n_id j \<noteq> n_id i" using t by (auto simp: tidy_def)
  have jU: "j \<in> U" "i \<in> U" using i j U by blast+
  show "\<exists>i \<in> set inc. under n i" using under_trans [OF wf n(1) jU j(2) i(2)] i(1) by blast
  show "filter (\<lambda>i. under i n) inc = []"
  proof (rule ccontr)
    assume "filter (\<lambda>i. under i n) inc \<noteq> []"
    then obtain k where k: "k \<in> set inc" "under k n" by (auto simp: filter_empty_conv)
    have kU: "k \<in> U" using k U by blast
    have kj: "under k j" by (rule under_trans [OF wf kU n(1) jU(1) k(2) j(2)])
    have "under k i" by (rule under_trans [OF wf kU jU kj i(2)])
    then have "n_id k = n_id i" using t k(1) i(1) by (simp add: tidy_def apart_def)
    then have "under j k" using i(2) by (simp add: under_def)
    then show False using under_antisym [OF wf jU(1) kU _ kj] i(3) \<open>n_id k = n_id i\<close> by simp
  qed
  show "\<not> takes inc om l" if "l \<in> below T n"
    using below_mono [OF ok n(1) jU(1) j(2) that] j(1) below_in [OF ok] by (auto simp: takes_def)
qed

lemma box_included:
  assumes ok: "selection_ok fi U T inc om" and n: "n \<in> U" "\<exists>i \<in> set inc. under n i" "\<not> (\<exists>j \<in> set om. under n j)" and l: "l \<in> below T n"
  shows "takes inc om l \<longleftrightarrow> \<not> (\<exists>j \<in> set (filter (\<lambda>j. under j n) om). under l j)"
proof -
  have wf: "wf_tree U" and U: "set inc \<subseteq> U" "set om \<subseteq> U" using ok by (simp_all add: selection_ok_def)
  have lU: "l \<in> U" "under l n" using below_in [OF ok l] by simp_all
  obtain i where i: "i \<in> set inc" "under n i" using n by blast
  have "under l i" using under_trans [OF wf lU(1) n(1) _ lU(2) i(2)] i(1) U by blast
  moreover have "under j n" if "j \<in> set om" "under l j" for j
    using under_linear [OF wf lU(1) n(1) _ lU(2) that(2)] that(1) n(3) U by blast
  ultimately show ?thesis using i(1) by (auto simp: takes_def)
qed

lemma box_open:
  assumes ok: "selection_ok fi U T inc om" and n: "n \<in> U" "\<not> (\<exists>i \<in> set inc. under n i)" "filter (\<lambda>i. under i n) om = []"
  shows "l \<in> below T n \<Longrightarrow> takes inc om l \<longleftrightarrow> (\<exists>i \<in> set (filter (\<lambda>i. under i n) inc). under l i)"
    "filter (\<lambda>i. \<not> (\<exists>j \<in> set om. under j i)) (filter (\<lambda>i. under i n) inc) = filter (\<lambda>i. under i n) inc"
proof -
  have wf: "wf_tree U" and U: "set inc \<subseteq> U" "set om \<subseteq> U" using ok by (simp_all add: selection_ok_def)
  have no: "\<not> under j n" if "j \<in> set om" for j using n(3) that by (auto simp: filter_empty_conv)
  have up: "\<not> (\<exists>j \<in> set om. under n j)" using box_omitted(1) [OF ok n(1)] n(2) by blast
  show "filter (\<lambda>i. \<not> (\<exists>j \<in> set om. under j i)) (filter (\<lambda>i. under i n) inc) = filter (\<lambda>i. under i n) inc"
  proof (rule filter_True, rule ballI, rule notI)
    fix i assume i: "i \<in> set (filter (\<lambda>i. under i n) inc)" "\<exists>j \<in> set om. under j i"
    then obtain j where "j \<in> set om" "under j i" by blast
    then have "under j n" using under_trans [OF wf _ _ n(1)] i U by auto
    then show False using no \<open>j \<in> set om\<close> by blast
  qed
  assume l: "l \<in> below T n"
  have lU: "l \<in> U" "under l n" using below_in [OF ok l] by simp_all
  have "\<not> under l j" if j: "j \<in> set om" for j
    using under_linear [OF wf lU(1) n(1) _ lU(2), of j] j no up U by blast
  moreover have "under i n" if "i \<in> set inc" "under l i" for i
    using under_linear [OF wf lU(1) n(1) _ lU(2) that(2)] that(1) n(2) U by blast
  ultimately show "takes inc om l \<longleftrightarrow> (\<exists>i \<in> set (filter (\<lambda>i. under i n) inc). under l i)" by (auto simp: takes_def)
qed

lemma taken_under_included:
  assumes ok: "selection_ok fi U T inc om" and "n \<in> U" "i \<in> set inc" "under i n"
  shows "\<exists>l \<in> below T n. takes inc om l"
proof -
  obtain l where "l \<in> below T i" "takes inc om l" using assms by (auto simp: selection_ok_def tidy_def)
  moreover have "i \<in> U" using assms by (auto simp: selection_ok_def)
  ultimately show ?thesis using below_mono [OF ok _ assms(2,4)] by blast
qed

lemma box_partly:
  assumes ok: "selection_ok fi U T inc om" and n: "n \<in> U" "\<not> (\<exists>i \<in> set inc. under n i)" "filter (\<lambda>i. under i n) om \<noteq> []"
  shows "\<exists>l \<in> below T n. takes inc om l" "\<exists>l \<in> below T n. \<not> takes inc om l"
proof -
  have wf: "wf_tree U" and U: "set inc \<subseteq> U" "set om \<subseteq> U" and t: "tidy T inc om" using ok by (simp_all add: selection_ok_def)
  obtain j where j: "j \<in> set om" "under j n" using n(3) by (auto simp: filter_empty_conv)
  then show "\<exists>l \<in> below T n. \<not> takes inc om l" using omitted_not_taken [OF ok _ n(1)] by blast
  obtain i where i: "i \<in> set inc" "under j i" using j t by (auto simp: tidy_def)
  have "under i n" using under_linear [OF wf _ n(1) _ j(2) i(2)] i j n(2) U by blast
  then show "\<exists>l \<in> below T n. takes inc om l" using taken_under_included [OF ok n(1) i(1)] by blast
qed

text \<open>
  C24. A check box sums up the selection: in a tidy selection a node with resources that can be
  transferred is checked exactly if all of them are selected, unchecked exactly if none is, and
  indeterminate otherwise.
\<close>

theorem checkbox_sums_up_selection:
  assumes "selection_ok fi U T inc om" "n \<in> U" "below T n \<noteq> {}"
  shows "a_checkbox (annotateNode n inc om fi) =
    (if \<forall>l \<in> below T n. takes inc om l then Checked else if \<exists>l \<in> below T n. takes inc om l then Indeterminate else Unchecked)"
proof -
  have wf: "wf_tree U" and cnt: "counted fi U T" and U: "set inc \<subseteq> U" "set om \<subseteq> U" and t: "tidy T inc om"
    using assms(1) by (simp_all add: selection_ok_def)
  have "0 < card (below T n)" using assms(3) cnt by (simp add: counted_def below_def card_gt_0_iff)
  then have nd: "\<not> (fi \<and> n_on_device n = n_total n)" using cnt assms(2) by (auto simp: counted_def weight_def)
  note eq = annotate_cases [OF wf assms(2) nd, of inc om]
  have ap: "apart (filter P inc)" "apart (filter P om)" for P using t apart_filter by (auto simp: tidy_def)
  have sum: "sum_by (weight fi) (filter (\<lambda>i. under i n) ns) = weight fi n \<longleftrightarrow>
      (\<forall>l \<in> below T n. \<exists>y \<in> set (filter (\<lambda>i. under i n) ns). under l y)" if "ns = inc \<or> ns = om" for ns
    by (rule sum_is_all [OF wf cnt _ _ assms(2)]) (use that U ap in auto)
  consider "\<exists>j \<in> set om. under n j" | "\<exists>i \<in> set inc. under n i" "\<not> (\<exists>j \<in> set om. under n j)"
    | "\<not> (\<exists>i \<in> set inc. under n i)" "filter (\<lambda>i. under i n) om \<noteq> []"
    | "\<not> (\<exists>i \<in> set inc. under n i)" "filter (\<lambda>i. under i n) om = []" by blast
  then show ?thesis
  proof cases
    case 1
    then show ?thesis using box_omitted [OF assms(1,2) 1] assms(3) eq by (auto simp: Let_def)
  next
    case 2
    have "\<exists>l \<in> below T n. \<not> takes inc om l" if "filter (\<lambda>i. under i n) om \<noteq> []"
      using that omitted_not_taken [OF assms(1) _ assms(2)] by (auto simp: filter_empty_conv)
    then have "\<exists>l \<in> below T n. \<not> takes inc om l" if "filter (\<lambda>i. under i n) om \<noteq> []" using that .
    moreover have "\<forall>l \<in> below T n. takes inc om l" if "filter (\<lambda>i. under i n) om = []"
      using box_included [OF assms(1,2) 2] that by simp
    moreover have "sum_by (weight fi) (filter (\<lambda>i. under i n) om) = weight fi n \<longleftrightarrow> \<not> (\<exists>l \<in> below T n. takes inc om l)"
      using box_included [OF assms(1,2) 2] sum [of om] by metis
    moreover have "a_checkbox (annotateNode n inc om fi) = (if filter (\<lambda>i. under i n) om \<noteq> []
        then if sum_by (weight fi) (filter (\<lambda>i. under i n) om) = weight fi n then Unchecked else Indeterminate else Checked)"
      using eq 2 by (simp only: Let_def) simp
    ultimately show ?thesis by metis
  next
    case 3
    then show ?thesis using box_partly [OF assms(1,2) 3] eq by (auto simp: Let_def)
  next
    case 4
    have "\<exists>l \<in> below T n. takes inc om l" if "filter (\<lambda>i. under i n) inc \<noteq> []"
      using that taken_under_included [OF assms(1,2)] by (auto simp: filter_empty_conv)
    then have "\<exists>l \<in> below T n. takes inc om l" if "filter (\<lambda>i. under i n) inc \<noteq> []" using that .
    moreover have "\<not> (\<exists>l \<in> below T n. takes inc om l)" if "filter (\<lambda>i. under i n) inc = []"
      using box_open(1) [OF assms(1,2) 4] that by (metis empty_iff empty_set)
    moreover have "sum_by (weight fi) (filter (\<lambda>i. under i n) inc) = weight fi n \<longleftrightarrow> (\<forall>l \<in> below T n. takes inc om l)"
      using box_open(1) [OF assms(1,2) 4] sum [of inc] by metis
    moreover have "a_checkbox (annotateNode n inc om fi) = (if filter (\<lambda>i. under i n) inc \<noteq> []
        then if sum_by (weight fi) (filter (\<lambda>i. under i n) inc) = weight fi n then Checked else Indeterminate else Unchecked)"
      using eq 4 unfolding Let_def box_open(2) [OF assms(1,2) 4] by simp
    ultimately show ?thesis using assms(3) by (metis ex_in_conv)
  qed
qed

section \<open>Clicks keep a selection tidy\<close>

lemma apart_append:
  assumes "apart ns" "n_id n \<notin> n_id ` set ns" "\<forall>x \<in> set ns. \<not> under x n \<and> \<not> under n x"
  shows "apart (ns @ [n])"
  using assms by (auto simp: apart_def)

lemma no_omitted_above:
  assumes ok: "selection_ok fi U T inc om" and n: "n \<in> U" "\<not> (\<exists>i \<in> set inc. under n i \<and> n_id i \<noteq> n_id n)" and j: "j \<in> set om"
  shows "\<not> (under n j \<and> n_id j \<noteq> n_id n)"
proof
  assume h: "under n j \<and> n_id j \<noteq> n_id n"
  have wf: "wf_tree U" and U: "set inc \<subseteq> U" "set om \<subseteq> U" and t: "tidy T inc om" using ok by (simp_all add: selection_ok_def)
  obtain i where i: "i \<in> set inc" "under j i" "n_id j \<noteq> n_id i" using t j by (auto simp: tidy_def)
  have iU: "j \<in> U" "i \<in> U" using i j U by auto
  have "under n i" using under_trans [OF wf n(1) iU] h i by blast
  then have "n_id i = n_id n" using n(2) i(1) by blast
  then have "under j n" using i(2) by (simp add: under_def)
  then show False using under_antisym [OF wf n(1) iU(1)] h by simp
qed

lemma tidy_added:
  assumes ok: "selection_ok fi U T inc om" and n: "n \<in> U" "below T n \<noteq> {}" "\<not> (\<exists>i \<in> set inc. under n i \<and> n_id i \<noteq> n_id n)"
  shows "tidy T (filter (\<lambda>i. \<not> under i n) inc @ [n]) (filter (\<lambda>i. \<not> under i n) om)"
proof -
  have wf: "wf_tree U" and U: "set inc \<subseteq> U" "set om \<subseteq> U" and t: "tidy T inc om" and c: "counted fi U T" using ok by (simp_all add: selection_ok_def)
  let ?I = "filter (\<lambda>i. \<not> under i n) inc @ [n]" and ?J = "filter (\<lambda>i. \<not> under i n) om"
  have ni: "\<not> under n i" if "i \<in> set inc" "\<not> under i n" for i
    using that n(3) under_same_id [OF wf, of i n] U by auto
  have a: "apart ?I"
  proof (rule apart_append)
    show "apart (filter (\<lambda>i. \<not> under i n) inc)" using t apart_filter by (auto simp: tidy_def)
    show "n_id n \<notin> n_id ` set (filter (\<lambda>i. \<not> under i n) inc)" using under_same_id [OF wf, of _ n] U by auto
    show "\<forall>x \<in> set (filter (\<lambda>i. \<not> under i n) inc). \<not> under x n \<and> \<not> under n x" using ni by auto
  qed
  note om_above = no_omitted_above [OF ok n(1,3)]
  have taken: "takes ?I ?J l \<longleftrightarrow> (if under l n then True else takes inc om l)" if "l \<in> T" for l
  proof -
    have "l \<in> U" using that c by (auto simp: counted_def)
    then show ?thesis using takes_added [OF wf n(1) _ U, of l] om_above by auto
  qed
  have "\<exists>i \<in> set ?I. under j i \<and> n_id j \<noteq> n_id i" "below T j \<noteq> {}" if "j \<in> set ?J" for j
  proof -
    have jo: "j \<in> set om" "\<not> under j n" using that by auto
    obtain i where i: "i \<in> set inc" "under j i" "n_id j \<noteq> n_id i" using t jo by (auto simp: tidy_def)
    have "\<not> under i n" using jo under_trans [OF wf, of j i n] i U n(1) by auto
    then show "\<exists>i \<in> set ?I. under j i \<and> n_id j \<noteq> n_id i" using i by auto
    show "below T j \<noteq> {}" using t that by (auto simp: tidy_def)
  qed
  moreover have "\<exists>l \<in> below T i. takes ?I ?J l" if "i \<in> set ?I" for i
  proof (cases "i = n")
    case True
    then show ?thesis using n(2) taken by (auto simp: below_def)
  next
    case False
    then have i: "i \<in> set inc" "\<not> under i n" using that by auto
    then obtain l where l: "l \<in> below T i" "takes inc om l" using t by (auto simp: tidy_def)
    have "l \<in> T" using l(1) by (simp add: below_def)
    with taken [of l] l(2) have "takes ?I ?J l" by simp
    then show ?thesis using l(1) by blast
  qed
  moreover have "apart ?J" using t apart_filter by (auto simp: tidy_def)
  ultimately show ?thesis using a by (simp add: tidy_def)
qed

lemma one_ancestor:
  assumes ok: "selection_ok fi U T inc om" and n: "n \<in> U" "includedAncestors n inc \<noteq> []"
  obtains a where "includedAncestors n inc = [a]" "a \<in> set inc" "under n a" "n_id n \<noteq> n_id a" "\<forall>i \<in> set inc. \<not> under i n"
proof -
  have wf: "wf_tree U" and U: "set inc \<subseteq> U" and t: "apart inc" using ok by (simp_all add: selection_ok_def tidy_def)
  let ?A = "includedAncestors n inc"
  obtain a where a: "a \<in> set ?A" using n(2) by (meson list.set_sel(1))
  then have aa: "a \<in> set inc" "under n a" "n_id n \<noteq> n_id a" by (auto simp: includedAncestors_def under_def)
  have same: "b = a" if "b \<in> set ?A" for b
    using that apart_above [OF wf U t n(1), of b a] aa by (auto simp: includedAncestors_def under_def)
  have "distinct ?A" using t by (simp add: apart_def distinct_map includedAncestors_def)
  then have "?A = [a]" using same a by (metis distinct_length_2_or_more in_set_conv_decomp_first list.exhaust list.set_intros(1,2) list.distinct(1) set_ConsD empty_iff empty_set)
  moreover have "\<not> under i n" if i: "i \<in> set inc" for i
  proof
    assume h: "under i n"
    have U': "i \<in> U" "a \<in> U" using i aa U by auto
    have "under i a" by (rule under_trans [OF wf U'(1) n(1) U'(2) h aa(2)])
    then have "n_id i = n_id a" using t i aa(1) by (simp add: apart_def)
    then have "under a n" using h under_same_id [OF wf U'(1)] apart_above [OF wf U t U'(1) i aa(1)] under_refl [OF wf U'(1)] \<open>under i a\<close> by auto
    then show False using under_antisym [OF wf n(1) U'(2) aa(2)] aa(3) by simp
  qed
  ultimately show ?thesis using that aa by blast
qed


text \<open>The lists after a removal and before its answer are tidy but for the included ancestor, which may be in vain.\<close>

definition tidy_but :: "node set \<Rightarrow> node \<Rightarrow> node list \<Rightarrow> node list \<Rightarrow> bool" where
  "tidy_but T a inc om \<longleftrightarrow> apart inc \<and> apart om \<and> (\<forall>j \<in> set om. below T j \<noteq> {} \<and> (\<exists>i \<in> set inc. under j i \<and> n_id j \<noteq> n_id i))
     \<and> (\<forall>i \<in> set inc. i \<noteq> a \<longrightarrow> (\<exists>l \<in> below T i. takes inc om l))"

lemma tidy_but_removed:
  assumes ok: "selection_ok fi U T inc om" and n: "n \<in> U" "below T n \<noteq> {}" "\<not> (\<exists>j \<in> set om. under n j \<or> under j n)"
    and a: "a \<in> set inc" "under n a" "n_id n \<noteq> n_id a" "\<forall>i \<in> set inc. \<not> under i n"
  shows "tidy_but T a inc (om @ [n])"
proof -
  have wf: "wf_tree U" and U: "set inc \<subseteq> U" "set om \<subseteq> U" and t: "tidy T inc om" using ok by (simp_all add: selection_ok_def)
  have ap: "apart (om @ [n])"
  proof (rule apart_append)
    show "apart om" using t by (simp add: tidy_def)
    show "n_id n \<notin> n_id ` set om" using n(3) under_same_id [OF wf n(1)] by auto
    show "\<forall>x \<in> set om. \<not> under x n \<and> \<not> under n x" using n(3) by blast
  qed
  have "\<exists>l \<in> below T i. takes inc (om @ [n]) l" if i: "i \<in> set inc" "i \<noteq> a" for i
  proof -
    obtain l where l: "l \<in> below T i" "takes inc om l" using t i(1) by (auto simp: tidy_def)
    have lU: "l \<in> U" "under l i" using below_in [OF ok l(1)] by simp_all
    have "\<not> under l n"
    proof
      assume "under l n"
      then have "under l a" using under_trans [OF wf lU(1) n(1) _ _ a(2)] a(1) U by blast
      then show False using apart_above [OF wf U(1) _ lU(1) i(1) a(1) lU(2)] t i(2) by (simp add: tidy_def)
    qed
    then show ?thesis using l by (auto simp: takes_def)
  qed
  moreover have "apart inc" "\<forall>j \<in> set (om @ [n]). below T j \<noteq> {} \<and> (\<exists>i \<in> set inc. under j i \<and> n_id j \<noteq> n_id i)"
    using t n(2) a by (auto simp: tidy_def)
  ultimately show ?thesis using ap unfolding tidy_but_def by blast
qed

lemma fully_omitted_iff:
  assumes "wf_tree U" "counted fi U T" "set om \<subseteq> U" "apart om" "a \<in> U"
  shows "fully_omitted fi a om \<longleftrightarrow> (\<forall>l \<in> below T a. \<exists>j \<in> set (filter (\<lambda>j. under j a) om). under l j)"
proof -
  have "fully_omitted fi a om \<longleftrightarrow> sum_by (weight fi) (filter (\<lambda>j. under j a) om) = weight fi a"
    using weight_sum [of fi "filter (\<lambda>j. under j a) om"]
    by (auto simp: fully_omitted_def Let_def weight_def under_def split: if_splits)
  also have "\<dots> \<longleftrightarrow> (\<forall>l \<in> below T a. \<exists>j \<in> set (filter (\<lambda>j. under j a) om). under l j)"
    by (rule sum_is_all [OF assms(1,2) _ apart_filter [OF assms(4)] assms(5)]) (use assms(3) in auto)
  finally show ?thesis .
qed

lemma tidy_cleaned:
  assumes wf: "wf_tree U" and cnt: "counted fi U T" and U: "set inc \<subseteq> U" "set om \<subseteq> U" and a: "a \<in> set inc" and t: "tidy_but T a inc om"
  defines "full \<equiv> fully_omitted fi a om"
  defines "I \<equiv> (if full then filter (\<lambda>i. n_id i \<noteq> n_id a) inc else inc)" and "J \<equiv> (if full then filter (\<lambda>j. \<not> under j a) om else om)"
  shows "tidy T I J \<and> (\<forall>l \<in> T. takes I J l \<longleftrightarrow> takes inc om l)"
proof -
  have ap: "apart inc" "apart om" and aU: "a \<in> U" and TU: "T \<subseteq> U" using t a U cnt by (auto simp: tidy_but_def counted_def)
  note full = fully_omitted_iff [OF wf cnt U(2) ap(2) aU]
  have bel: "l \<in> U" "under l x" "l \<in> T" if "l \<in> below T x" for l x using that TU by (auto simp: below_def)
  show ?thesis
  proof (cases full)
    case False
    then obtain l where l: "l \<in> below T a" "\<not> (\<exists>j \<in> set (filter (\<lambda>j. under j a) om). under l j)"
      using full full_def by blast
    have "\<not> under l j" if j: "j \<in> set om" for j
    proof
      assume lj: "under l j"
      have "under j a \<or> under a j" using under_linear [OF wf bel(1) [OF l(1)] _ aU lj bel(2) [OF l(1)]] j U by blast
      then have aj: "under a j" using l(2) j lj by auto
      obtain i where i: "i \<in> set inc" "under j i" "n_id j \<noteq> n_id i" using t j by (auto simp: tidy_but_def)
      have jU: "j \<in> U" "i \<in> U" using i j U by auto
      have "under a i" by (rule under_trans [OF wf aU jU aj i(2)])
      then have "n_id a = n_id i" using ap(1) a i(1) by (simp add: apart_def)
      then have "under j a" using i(2) by (simp add: under_def)
      then show False using under_antisym [OF wf aU jU(1) aj] \<open>n_id a = n_id i\<close> i(3) by simp
    qed
    then have "takes inc om l" using a bel(2) [OF l(1)] by (auto simp: takes_def)
    then show ?thesis using t l(1) False unfolding I_def J_def tidy_def tidy_but_def by auto
  next
    case True
    have same: "takes I J l \<longleftrightarrow> takes inc om l" if l: "l \<in> T" for l
    proof (cases "under l a")
      case la: True
      have lU: "l \<in> U" using l TU by blast
      have "\<not> takes inc om l" using full True la l by (auto simp: full_def takes_def below_def)
      moreover have "i = a" if "i \<in> set inc" "under l i" for i using apart_above [OF wf U(1) ap(1) lU that(1) a that(2) la] .
      ultimately show ?thesis using True by (auto simp: takes_def I_def J_def)
    next
      case False
      have "\<not> under j a" if "j \<in> set om" "under l j" for j
        using that False under_trans [OF wf, of l j a] l TU U aU by blast
      moreover have "n_id i \<noteq> n_id a" if "under l i" for i using that False by (auto simp: under_def)
      ultimately show ?thesis using True by (auto simp: takes_def I_def J_def)
    qed
    have "\<exists>i \<in> set I. under j i \<and> n_id j \<noteq> n_id i" "below T j \<noteq> {}" if "j \<in> set J" for j
    proof -
      have j: "j \<in> set om" "\<not> under j a" using that True by (auto simp: J_def)
      then obtain i where i: "i \<in> set inc" "under j i" "n_id j \<noteq> n_id i" using t by (auto simp: tidy_but_def)
      then have "n_id i \<noteq> n_id a" using j(2) by (auto simp: under_def)
      then show "\<exists>i \<in> set I. under j i \<and> n_id j \<noteq> n_id i" using i True by (auto simp: I_def)
      show "below T j \<noteq> {}" using t j(1) by (auto simp: tidy_but_def)
    qed
    moreover have "\<exists>l \<in> below T i. takes I J l" if "i \<in> set I" for i
    proof -
      have "i \<in> set inc" "i \<noteq> a" using that True by (auto simp: I_def)
      then obtain l where "l \<in> below T i" "takes inc om l" using t by (auto simp: tidy_but_def)
      then show ?thesis using same bel(3) by blast
    qed
    moreover have "apart I" "apart J" using ap apart_filter by (simp_all add: I_def J_def)
    ultimately show ?thesis using same unfolding tidy_def by blast
  qed
qed


definition same_lists :: "wizard \<Rightarrow> wizard \<Rightarrow> bool" where
  "same_lists s t \<longleftrightarrow> wz_arrays s = wz_arrays t \<and> wz_included s = wz_included t \<and> wz_omitted s = wz_omitted t"

lemma same_lists_eq: "same_lists s t \<Longrightarrow> included s = included t \<and> omitted s = omitted t"
  by (simp add: same_lists_def included_def omitted_def)

lemma same_lists_trans: "same_lists s t \<Longrightarrow> same_lists t u \<Longrightarrow> same_lists s u"
  by (simp add: same_lists_def)

lemma same_lists_replace: "same_lists s t \<Longrightarrow> same_lists (replace_include ns s) (replace_include ns t)"
  "same_lists s t \<Longrightarrow> same_lists (replace_omit ns s) (replace_omit ns t)"
  by (simp_all add: same_lists_def replace_include_def replace_omit_def)

lemma same_lists_clean:
  assumes "same_lists s t" shows "same_lists (clean_ancestor x y f a s) (clean_ancestor x y f a t)"
proof -
  have e: "wz_arrays s = wz_arrays t" using assms by (simp add: same_lists_def)
  show ?thesis unfolding clean_ancestor_def e
    by (cases "fully_omitted f a (wz_arrays t ! y)") (simp_all only: if_True if_False assms same_lists_replace)
qed

lemma same_lists_cleanup: assumes "same_lists s t" shows "same_lists (run_cleanup c s) (run_cleanup c t)"
proof -
  have "same_lists s t \<Longrightarrow> same_lists (fold (clean_ancestor x y f) as s) (fold (clean_ancestor x y f) as t)" for x y f as s t
    by (induction as arbitrary: s t) (simp_all add: same_lists_clean)
  then show ?thesis using assms by (simp add: run_cleanup_def split: cleanup.split)
qed

lemma size_answer_lists:
  assumes "i < length (wz_requests s)" "rq_state (wz_requests s ! i) = Waiting"
  shows "same_lists (size_answered i (Some z) s) (case rq_after (wz_requests s ! i) of None \<Rightarrow> s | Some d \<Rightarrow> run_cleanup d s)"
proof -
  have st: "same_lists (settle_request i v t) t" for v t by (simp add: same_lists_def)
  have sz: "same_lists (set_transfer_size b r s) s" for b r by (simp add: same_lists_def)
  show ?thesis using assms st sz same_lists_trans [OF st sz] same_lists_trans [OF st same_lists_cleanup [OF sz]]
    by (cases z) (auto simp: size_answered_def Let_def split: option.split)
qed

lemma clean_lists:
  assumes "lists_ok U s"
  shows "included (clean_ancestor (wz_included s) (wz_omitted s) fi a s)
      = (if fully_omitted fi a (omitted s) then filter (\<lambda>n. n_id n \<noteq> n_id a) (included s) else included s)"
    "omitted (clean_ancestor (wz_included s) (wz_omitted s) fi a s)
      = (if fully_omitted fi a (omitted s) then filter (\<lambda>n. \<not> under n a) (omitted s) else omitted s)"
proof -
  have ok: "lists_ok U (replace_include (filter (\<lambda>n. n_id n \<noteq> n_id a) (included s)) s)"
    by (rule lists_ok_replace [OF assms]) (use lists_in [OF assms] in auto)
  show "included (clean_ancestor (wz_included s) (wz_omitted s) fi a s)
      = (if fully_omitted fi a (omitted s) then filter (\<lambda>n. n_id n \<noteq> n_id a) (included s) else included s)"
    "omitted (clean_ancestor (wz_included s) (wz_omitted s) fi a s)
      = (if fully_omitted fi a (omitted s) then filter (\<lambda>n. \<not> under n a) (omitted s) else omitted s)"
    using replace_lists [OF assms] replace_lists [OF ok]
    by (simp_all add: clean_ancestor_def under_def flip: included_def omitted_def)
qed

lemma removed_fresh:
  assumes ok: "lists_ok U s" "wf_tree U" "n \<in> U" and no: "\<forall>i \<in> set (included s) \<union> set (omitted s). \<not> under i n"
    and anc: "includedAncestors n (included s) = [a]"
  shows "wz_included (removeNodeForTransfer n s) = wz_included s" "wz_omitted (removeNodeForTransfer n s) = wz_omitted s"
    "\<exists>r. wz_requests (removeNodeForTransfer n s) = wz_requests s @ [r] \<and> rq_state r = Waiting
      \<and> rq_after r = Some (Cleanup (wz_included s) (wz_omitted s) [a] (\<not> inExportMode s))"
proof -
  have d: "drop_under n replace_include (included s) s = s" "drop_under n replace_omit (omitted s) s = s"
    using no lists_in [OF ok(1)] descendant_or_self [OF ok(2)] by (auto simp: drop_under_def list_ex_iff)
  show "wz_included (removeNodeForTransfer n s) = wz_included s" "wz_omitted (removeNodeForTransfer n s) = wz_omitted s"
    by (simp_all add: removeNodeForTransfer_def Let_def d anc add_to_omit_def)
  show "\<exists>r. wz_requests (removeNodeForTransfer n s) = wz_requests s @ [r] \<and> rq_state r = Waiting
      \<and> rq_after r = Some (Cleanup (wz_included s) (wz_omitted s) [a] (\<not> inExportMode s))"
    using requests_size [of "Some (Cleanup (wz_included s) (wz_omitted s) [a] (\<not> inExportMode s))" "add_to_omit n s"]
    by (auto simp: removeNodeForTransfer_def Let_def d anc)
qed

text \<open>
  C25. From a tidy selection, for a node with a resource to transfer under it: adding the node, if it is
  not under another node that is included, keeps the selection tidy and selects the resources under it
  and no others; removing it, if nothing above or under it is omitted, together with the successful
  answer to the request that follows, keeps the selection tidy and deselects the resources under it and
  no others, whether or not an ancestor lost its last resource.  Clicks outside these two conditions can
  leave an untidy selection (\<open>last_click_selects_again\<close>).
\<close>

theorem clicks_keep_selection_tidy:
  assumes run: "\<forall>e \<in> set es. event_in U e" "s = foldl list_step default_state es"
    and "selection_ok (\<not> inExportMode s) U T (included s) (omitted s)" "n \<in> U" "below T n \<noteq> {}"
    and "t = addNodeForTransfer n s" "u = size_answered (length (wz_requests s)) (Some z) (removeNodeForTransfer n s)"
  shows "(\<not> (\<exists>i \<in> set (included s). under n i \<and> n_id i \<noteq> n_id n) \<longrightarrow>
      tidy T (included t) (omitted t) \<and> (\<forall>l \<in> T. selected t l \<longleftrightarrow> selected s l \<or> under l n))
    \<and> (\<not> (\<exists>j \<in> set (omitted s). under n j \<or> under j n) \<longrightarrow>
      tidy T (included u) (omitted u) \<and> (\<forall>l \<in> T. selected u l \<longleftrightarrow> selected s l \<and> \<not> under l n))"
proof (intro conjI impI)
  have wf: "wf_tree U" using assms(3) by (simp add: selection_ok_def)
  have ok: "lists_ok U s" by (rule list_reachable [OF wf run])
  have U: "set (included s) \<subseteq> U" "set (omitted s) \<subseteq> U" and TU: "T \<subseteq> U" and cnt: "counted (\<not> inExportMode s) U T"
    using assms(3) by (simp_all add: selection_ok_def counted_def)
  note add = added [OF ok wf assms(4), folded assms(6)]
  assume h: "\<not> (\<exists>i \<in> set (included s). under n i \<and> n_id i \<noteq> n_id n)"
  show tt: "tidy T (included t) (omitted t)" unfolding add by (rule tidy_added [OF assms(3-5) h])
  show "\<forall>l \<in> T. selected t l \<longleftrightarrow> selected s l \<or> under l n"
  proof
    fix l assume "l \<in> T"
    then have "l \<in> U" using TU by blast
    from takes_added [OF wf assms(4) this U] show "selected t l \<longleftrightarrow> selected s l \<or> under l n"
      using no_omitted_above [OF assms(3,4) h] unfolding selected_def add by auto
  qed
next
  have wf: "wf_tree U" using assms(3) by (simp add: selection_ok_def)
  have ok: "lists_ok U s" by (rule list_reachable [OF wf run])
  have U: "set (included s) \<subseteq> U" "set (omitted s) \<subseteq> U" and TU: "T \<subseteq> U" and cnt: "counted (\<not> inExportMode s) U T"
    and t: "tidy T (included s) (omitted s)"
    using assms(3) by (simp_all add: selection_ok_def counted_def)
  assume h: "\<not> (\<exists>j \<in> set (omitted s). under n j \<or> under j n)"
  let ?r = "removeNodeForTransfer n s"
  note rem = removed [OF ok wf assms(4)]
  have sel: "selected ?r l \<longleftrightarrow> selected s l \<and> \<not> under l n" if "l \<in> T" for l
    using takes_removed [OF wf assms(4) _ U, of l] that TU unfolding selected_def rem has_ancestors_def by auto
  have "tidy T (included u) (omitted u) \<and> (\<forall>l \<in> T. selected u l \<longleftrightarrow> selected ?r l)"
  proof (cases "includedAncestors n (included s) = []")
    case True
    obtain r where r: "wz_requests ?r = wz_requests s @ [r]" "rq_after r = None" "rq_state r = Waiting"
      using requests_size [of None "drop_under n replace_include (included s) s"] True by (auto simp: removeNodeForTransfer_def Let_def)
    have "same_lists u ?r" using size_answer_lists [of "length (wz_requests s)" ?r z] r assms(7) by simp
    then have same: "included u = included ?r" "omitted u = omitted ?r" using same_lists_eq by blast+
    have "\<exists>i \<in> set (filter (\<lambda>i. \<not> under i n) (included s)). under j i \<and> n_id j \<noteq> n_id i" if j: "j \<in> set (omitted s)" for j
    proof -
      obtain i where i: "i \<in> set (included s)" "under j i" "n_id j \<noteq> n_id i" using t j by (auto simp: tidy_def)
      have "\<not> under i n" using h j i under_trans [OF wf, of j i n] U assms(4) by blast
      then show ?thesis using i by auto
    qed
    moreover have "\<exists>l \<in> below T i. takes (filter (\<lambda>i. \<not> under i n) (included s)) (omitted s) l" if i: "i \<in> set (included s)" "\<not> under i n" for i
      using i t by (fastforce simp: tidy_def takes_def below_def)
    moreover have "apart (filter (\<lambda>i. \<not> under i n) (included s))" "apart (omitted s)" "\<forall>j \<in> set (omitted s). below T j \<noteq> {}"
      using t apart_filter by (auto simp: tidy_def)
    ultimately have "tidy T (included u) (omitted u)" unfolding same rem has_ancestors_def tidy_def using True by auto
    then show ?thesis by (simp add: selected_def same)
  next
    case False
    obtain a where a: "includedAncestors n (included s) = [a]" "a \<in> set (included s)" "under n a" "n_id n \<noteq> n_id a" "\<forall>i \<in> set (included s). \<not> under i n"
      using one_ancestor [OF assms(3,4) False] by blast
    have no: "\<forall>i \<in> set (included s) \<union> set (omitted s). \<not> under i n" using a(5) h by blast
    note fresh = removed_fresh [OF ok wf assms(4) no a(1)]
    obtain r where r: "wz_requests ?r = wz_requests s @ [r]" "rq_state r = Waiting"
      "rq_after r = Some (Cleanup (wz_included s) (wz_omitted s) [a] (\<not> inExportMode s))" using fresh(3) by blast
    have lists: "included ?r = included s" "omitted ?r = omitted s @ [n]"
      using rem False no by (simp_all add: has_ancestors_def filter_True)
    let ?c = "clean_ancestor (wz_included ?r) (wz_omitted ?r) (\<not> inExportMode s) a ?r"
    have "same_lists u ?c" using size_answer_lists [of "length (wz_requests s)" ?r z] r assms(7) fresh(1,2) by (simp add: run_cleanup_def)
    then have same: "included u = included ?c" "omitted u = omitted ?c" using same_lists_eq by blast+
    have but: "tidy_but T a (included s) (omitted s @ [n])" by (rule tidy_but_removed [OF assms(3-5) h a(2-5)])
    have U': "set (omitted s @ [n]) \<subseteq> U" using U assms(4) by simp
    from tidy_cleaned [OF wf cnt U(1) U' a(2) but] show ?thesis
      unfolding selected_def same clean_lists [OF rem(3)] lists by (auto split: if_splits)
  qed
  then show "tidy T (included u) (omitted u)" "\<forall>l \<in> T. selected u l \<longleftrightarrow> selected s l \<and> \<not> under l n" using sel by auto
qed

end
