(* ===== verification/Content_Viewer.thy ===== *)
theory Content_Viewer
  imports Content_Tree_Properties
begin

text \<open>
  The viewer of a channel's content as a component: its requests one at a time, and a channel on which the
  properties of the selection are seen.
\<close>


section \<open>Requests of the viewer\<close>

lemma requests_answered:
  "wz_requests (size_answered i z s) = (if i < length (wz_requests s) \<and> rq_state (wz_requests s ! i) = Waiting
     then (wz_requests s)[i := (wz_requests s ! i)\<lparr>rq_state := (if rq_args (wz_requests s ! i) \<noteq> None \<and> z = None then Rejected else Resolved)\<rparr>]
     else wz_requests s)"
  by (auto simp: size_answered_def Let_def settle_request_def split: option.split)

text \<open>One request of a viewer waits at most; while it waits, and for ever when it failed, the viewer is disabled.\<close>

definition viewer_inv :: "viewer \<Rightarrow> bool" where
  "viewer_inv v \<longleftrightarrow> (let rs = wz_requests (vw_wizard v) in
     (\<forall>i < length rs. rq_state (rs ! i) = Waiting \<longrightarrow> Suc i = length rs \<and> vw_disableAll v \<and> i \<in> set (vw_waiting v))
     \<and> (\<forall>i \<in> set (vw_waiting v). i < length rs \<and> (rq_state (rs ! i) = Rejected \<longrightarrow> Suc i = length rs \<and> vw_disableAll v)))"

lemma toggle_request:
  "\<exists>r. wz_requests (vw_wizard (toggleSelection a v)) = wz_requests (vw_wizard v) @ [r] \<and> rq_state r = Waiting"
proof -
  have "\<exists>r. wz_requests (addNodeForTransfer n s) = wz_requests s @ [r] \<and> rq_state r = Waiting" for n s
    using requests_size [of None "add_to_include n (drop_under n replace_include (included s) (drop_under n replace_omit (omitted s) s))"]
    by (auto simp: addNodeForTransfer_def)
  moreover have "\<exists>r. wz_requests (removeNodeForTransfer n s) = wz_requests s @ [r] \<and> rq_state r = Waiting" for n s
    using requests_size [of None "drop_under n replace_include (included s) s"]
      requests_size [of "Some (Cleanup (wz_included s) (wz_omitted s) (includedAncestors n (included s)) (\<not> inExportMode s))"
        "add_to_omit n (drop_under n replace_omit (omitted s) (drop_under n replace_include (included s) s))"]
    by (cases "includedAncestors n (included s) = []") (auto simp: removeNodeForTransfer_def Let_def)
  ultimately show ?thesis by (auto simp: toggleSelection_def Let_def)
qed

lemma viewer_inv_toggle:
  assumes "viewer_inv v" "\<not> vw_disableAll v" shows "viewer_inv (toggleSelection a v)"
proof -
  obtain r where r: "wz_requests (vw_wizard (toggleSelection a v)) = wz_requests (vw_wizard v) @ [r]" "rq_state r = Waiting"
    using toggle_request by blast
  have "vw_disableAll (toggleSelection a v)" "vw_waiting (toggleSelection a v) = vw_waiting v @ [length (wz_requests (vw_wizard v))]"
    by (simp_all add: toggleSelection_def Let_def)
  with r assms show ?thesis by (auto simp: viewer_inv_def Let_def nth_append less_Suc_eq)
qed

lemma viewer_inv_answer:
  assumes "viewer_inv v" shows "viewer_inv (viewer_step v (SizeAnswer i z))"
proof (cases "i < length (wz_requests (vw_wizard v)) \<and> rq_state (wz_requests (vw_wizard v) ! i) = Waiting")
  case True
  then have l: "Suc i = length (wz_requests (vw_wizard v))" "i \<in> set (vw_waiting v)" "vw_disableAll v" using assms by (auto simp: viewer_inv_def Let_def)
  let ?rs = "wz_requests (vw_wizard v)" and ?w = "viewer_step v (SizeAnswer i z)"
  obtain r where r: "wz_requests (vw_wizard ?w) = ?rs[i := r]" "rq_state r \<noteq> Waiting"
    using True by (simp add: viewer_step_def Let_def requests_answered)
  have w: "vw_waiting ?w = vw_waiting v" "vw_disableAll ?w \<longleftrightarrow> rq_state r \<noteq> Resolved"
    using True l r by (auto simp: viewer_step_def Let_def)
  have other: "rq_state (?rs ! k) \<noteq> Waiting" "k \<in> set (vw_waiting v) \<Longrightarrow> rq_state (?rs ! k) \<noteq> Rejected" if "k < length ?rs" "k \<noteq> i" for k
    using assms l(1) that by (auto simp: viewer_inv_def Let_def)
  have new: "rq_state (?rs[i := r] ! k) = (if k = i then rq_state r else rq_state (?rs ! k))" if "k < length ?rs" for k
    using that by auto
  have "\<forall>k \<in> set (vw_waiting v). k < length ?rs" using assms by (auto simp: viewer_inv_def Let_def)
  with other new r(2) l w show ?thesis unfolding viewer_inv_def Let_def r(1) w(1) by (auto split: if_splits)
next
  case False
  then have "wz_requests (size_answered i z (vw_wizard v)) = wz_requests (vw_wizard v)" by (simp only: requests_answered False if_False)
  with False assms show ?thesis by (auto simp: viewer_inv_def viewer_step_def Let_def)
qed

lemma viewer_inv_step: assumes "viewer_inv v" shows "viewer_inv (viewer_step v e)"
proof (cases e)
  case (ToggleRow i)
  have "\<not> vw_disableAll v" if "\<not> row_disabled v a" for a using that by (simp add: row_disabled_def)
  then show ?thesis using ToggleRow assms viewer_inv_toggle by (auto simp: viewer_step_def Let_def)
next
  case ToggleAll
  have "\<not> vw_disableAll v" if "\<not> disableSelectAll v" using that by (simp add: disableSelectAll_def)
  then show ?thesis using ToggleAll assms viewer_inv_toggle by (auto simp: viewer_step_def)
next
  case (SizeAnswer i z)
  then show ?thesis using viewer_inv_answer [OF assms] by simp
qed (use assms in \<open>auto simp: viewer_inv_def viewer_step_def reset_node_lists_def Let_def\<close>)

interpretation viewer_run: stepper viewer_step viewer_inv
  by unfold_locales (rule viewer_inv_step)

definition new_viewer :: "wizard \<Rightarrow> node \<Rightarrow> node list \<Rightarrow> bool \<Rightarrow> bool \<Rightarrow> viewer" where
  "new_viewer w topic children manage disabled = \<lparr>vw_wizard = w, vw_topic = topic, vw_children = children, vw_manage = manage,
     vw_disabled = disabled, vw_disableAll = False, vw_waiting = []\<rparr>"

lemma viewer_reachable:
  assumes "\<forall>r \<in> set (wz_requests w). rq_state r \<noteq> Waiting" "v = foldl viewer_step (new_viewer w topic children manage disabled) es"
  shows "viewer_inv v"
  using viewer_run.run_inv [of "new_viewer w topic children manage disabled" es] assms by (simp add: viewer_inv_def new_viewer_def)

lemma disabled_stays:
  assumes "viewer_inv v" "i \<in> set (vw_waiting v)" "rq_state (wz_requests (vw_wizard v) ! i) = Rejected"
  shows "i \<in> set (vw_waiting (viewer_step v e))" "rq_state (wz_requests (vw_wizard (viewer_step v e)) ! i) = Rejected"
    "\<forall>t c. e \<noteq> OpenTopic t c \<Longrightarrow> e \<noteq> ResetLists \<Longrightarrow> viewer_step v e = v"
proof -
  have d: "vw_disableAll v" "Suc i = length (wz_requests (vw_wizard v))" using assms by (auto simp: viewer_inv_def Let_def)
  have none: "rq_state (wz_requests (vw_wizard v) ! k) \<noteq> Waiting" if "k < length (wz_requests (vw_wizard v))" for k
    using assms that d(2) by (auto simp: viewer_inv_def Let_def) (metis Suc_inject settled.distinct(3))
  have same: "viewer_step v e = v" if "\<forall>t c. e \<noteq> OpenTopic t c" "e \<noteq> ResetLists"
  proof (cases e)
    case (SizeAnswer k z)
    have "\<not> (k < length (wz_requests (vw_wizard v)) \<and> rq_state (wz_requests (vw_wizard v) ! k) = Waiting)" using none by blast
    then show ?thesis using SizeAnswer by (auto simp: viewer_step_def Let_def size_answered_def)
  qed (use that d in \<open>auto simp: viewer_step_def Let_def row_disabled_def disableSelectAll_def\<close>)
  have "i \<in> set (vw_waiting (viewer_step v e)) \<and> rq_state (wz_requests (vw_wizard (viewer_step v e)) ! i) = Rejected"
    using same assms by (cases e) (auto simp: viewer_step_def reset_node_lists_def)
  then show "i \<in> set (vw_waiting (viewer_step v e))" "rq_state (wz_requests (vw_wizard (viewer_step v e)) ! i) = Rejected" by blast+
  show "\<forall>t c. e \<noteq> OpenTopic t c \<Longrightarrow> e \<noteq> ResetLists \<Longrightarrow> viewer_step v e = v" by (rule same)
qed


text \<open>
  C27. A viewer sends one request at a time: in every reachable state at most one request waits for its answer,
  it is the last, and while it waits no check box reacts.  A request that fails disables the viewer for ever:
  from then on only opening topics and resetting the lists from outside have an effect.
\<close>

theorem viewer_sends_one_request:
  assumes "\<forall>r \<in> set (wz_requests w). rq_state r \<noteq> Waiting" "v = foldl viewer_step (new_viewer w topic children manage disabled) es"
  shows "(\<forall>i < length (wz_requests (vw_wizard v)). rq_state (wz_requests (vw_wizard v) ! i) = Waiting \<longrightarrow>
        Suc i = length (wz_requests (vw_wizard v)) \<and> vw_disableAll v)
    \<and> (\<forall>i \<in> set (vw_waiting v). rq_state (wz_requests (vw_wizard v) ! i) = Rejected \<longrightarrow>
        (\<forall>fs. (\<forall>e \<in> set fs. (\<forall>t c. e \<noteq> OpenTopic t c) \<and> e \<noteq> ResetLists) \<longrightarrow> foldl viewer_step v fs = v))"
proof -
  have inv: "viewer_inv v" by (rule viewer_reachable [OF assms])
  have "foldl viewer_step v fs = v" if "i \<in> set (vw_waiting v)" "rq_state (wz_requests (vw_wizard v) ! i) = Rejected"
    "\<forall>e \<in> set fs. (\<forall>t c. e \<noteq> OpenTopic t c) \<and> e \<noteq> ResetLists" for i fs
    using that(3) disabled_stays(3) [OF inv that(1,2)] by (induction fs) auto
  then show ?thesis using inv by (auto simp: viewer_inv_def Let_def)
qed

section \<open>A channel\<close>

text \<open>A channel with two topics, one with three resources and one with two, all of them still to be imported.\<close>

definition item :: "string \<Rightarrow> string list \<Rightarrow> int \<Rightarrow> node" where
  "item i p resources = \<lparr>n_id = i, n_title = JUndef, n_topic = (resources \<noteq> 1), n_leaf = (resources = 1), n_path = p, n_total = resources,
     n_on_device = 0, n_importable = True, n_available = True, n_updated = False\<rparr>"

definition channel_root :: node where "channel_root = item ''r'' [''r''] 5"
definition topics :: "node list" where "topics = [item ''a'' [''r'', ''a''] 3, item ''b'' [''r'', ''b''] 2]"
definition in_a :: "node list" where "in_a = [item ''1'' [''r'', ''a'', ''1''] 1, item ''2'' [''r'', ''a'', ''2''] 1, item ''3'' [''r'', ''a'', ''3''] 1]"
definition in_b :: "node list" where "in_b = [item ''4'' [''r'', ''b'', ''4''] 1, item ''5'' [''r'', ''b'', ''5''] 1]"

definition channel_nodes :: "node set" where "channel_nodes = set (channel_root # topics @ in_a @ in_b)"

definition browse :: "viewer_event list \<Rightarrow> viewer" where
  "browse es = foldl viewer_step (new_viewer default_state channel_root topics False False) es"

definition sized :: "nat \<Rightarrow> viewer_event" where
  "sized i = SizeAnswer i (Some (jint 0, jint 0))"

lemmas channel_defs = channel_nodes_def channel_root_def topics_def in_a_def in_b_def item_def

text \<open>
  Everything is selected, one resource of the second topic deselected, the first topic deselected and selected again:
  then both the root and the first topic are included.  When now the resources of the first topic are
  deselected one by one, the last click selects all of them again, because the root is still included and the
  omitted resources are dropped with the topic.
\<close>

lemma last_click_selects_again:
  "map a_checkbox (annotatedChildNodes (browse [ToggleAll, sized 0, OpenTopic (hd (tl topics)) in_b, ToggleRow 0, sized 1,
     OpenTopic channel_root topics, ToggleRow 0, sized 2, ToggleRow 0, sized 3, OpenTopic (hd topics) in_a,
     ToggleRow 0, sized 4, ToggleRow 1, sized 5, ToggleRow 2, sized 6])) = [Checked, Checked, Checked]"
  by code_simp

lemma viewer_sends_one_request_witness:
  "foldl viewer_step (browse [ToggleAll, SizeAnswer 0 None]) [ToggleAll, ToggleRow 0] = browse [ToggleAll, SizeAnswer 0 None]"
proof -
  obtain v where v: "v = browse [ToggleAll, SizeAnswer 0 None]" by simp
  have w: "0 \<in> set (vw_waiting v)" "rq_state (wz_requests (vw_wizard v) ! 0) = Rejected" unfolding v by code_simp+
  have d: "\<forall>r \<in> set (wz_requests default_state). rq_state r \<noteq> Waiting" by code_simp
  have e: "\<forall>e \<in> set [ToggleAll, ToggleRow 0]. (\<forall>t c. e \<noteq> OpenTopic t c) \<and> e \<noteq> ResetLists" by simp
  from viewer_sends_one_request [OF d v [unfolded browse_def]] w e have "foldl viewer_step v [ToggleAll, ToggleRow 0] = v" by blast
  then show ?thesis unfolding v .
qed

lemma wf_channel: "wf_tree channel_nodes"
  unfolding wf_tree_def channel_defs under_def by (simp add: list_all_iff [symmetric])

lemma counted_channel: "counted True channel_nodes (set (in_a @ in_b))"
  unfolding counted_def below_def channel_defs under_def weight_def
  by (simp add: Collect_conj_eq Int_def [symmetric] Collect_disj_eq card_insert_if) 


lemma in_channel: "hd topics \<in> channel_nodes" "hd in_a \<in> channel_nodes"
  by (simp_all add: channel_nodes_def topics_def in_a_def)

lemma below_list: "below (set ns) x = set (filter (\<lambda>l. under l x) ns)"
  by (auto simp: below_def)

lemma tidy_nothing: "tidy T [] []" by (simp add: tidy_def apart_def)

lemma selection_follows_clicks_witness:
  "selected (addNodeForTransfer (hd topics) default_state) (hd in_a) \<and> \<not> selected (removeNodeForTransfer (hd topics) default_state) (hd in_a)"
proof -
  have e: "\<forall>e \<in> set []. event_in channel_nodes e" "default_state = foldl list_step default_state []" by simp_all
  have u: "under (hd in_a) (hd topics)" "\<not> (\<exists>j \<in> set (omitted default_state). under (hd topics) j \<and> n_id j \<noteq> n_id (hd topics))" by code_simp+
  from selection_follows_clicks [OF wf_channel e in_channel] u show ?thesis by (simp only: if_True not_True_eq_False simp_thms)
qed

lemma clicks_keep_selection_tidy_witness:
  "tidy (set (in_a @ in_b)) (included (addNodeForTransfer (hd topics) default_state)) (omitted (addNodeForTransfer (hd topics) default_state))"
proof -
  have e: "\<forall>e \<in> set []. event_in channel_nodes e" "default_state = foldl list_step default_state []" by simp_all
  have l: "included default_state = []" "omitted default_state = []" "\<not> inExportMode default_state" by code_simp+
  have ok: "selection_ok (\<not> inExportMode default_state) channel_nodes (set (in_a @ in_b)) (included default_state) (omitted default_state)"
    using wf_channel counted_channel tidy_nothing l by (simp add: selection_ok_def)
  have b: "below (set (in_a @ in_b)) (hd topics) \<noteq> {}" unfolding below_list by code_simp
  have "\<not> (\<exists>i \<in> set (included default_state). under (hd topics) i \<and> n_id i \<noteq> n_id (hd topics))" unfolding l by simp
  with clicks_keep_selection_tidy [OF e ok in_channel(1) b refl refl] show ?thesis by blast
qed

lemma checkbox_sums_up_selection_witness: "a_checkbox (annotateNode channel_root [hd topics] [hd in_a] True) = Indeterminate"
proof -
  have t: "tidy (set (in_a @ in_b)) [hd topics] [hd in_a]" unfolding tidy_def below_list by code_simp
  have ok: "selection_ok True channel_nodes (set (in_a @ in_b)) [hd topics] [hd in_a]"
    using wf_channel counted_channel t in_channel by (simp add: selection_ok_def)
  have b: "below (set (in_a @ in_b)) channel_root \<noteq> {}" "\<not> (\<forall>l \<in> below (set (in_a @ in_b)) channel_root. takes [hd topics] [hd in_a] l)"
    "\<exists>l \<in> below (set (in_a @ in_b)) channel_root. takes [hd topics] [hd in_a] l" unfolding below_list takes_def by code_simp+
  have "channel_root \<in> channel_nodes" by (simp add: channel_nodes_def)
  from checkbox_sums_up_selection [OF ok this b(1)] b(2,3) show ?thesis by (simp only: if_True if_False)
qed

end
