(* ===== verification/Heartbeat.thy ===== *)
theory Heartbeat
  imports Js_Value
begin

text \<open>
  The connection to the server: the polling of the session (\<open>core/assets/src/heartbeat.js\<close>) with its timers and
  activity listeners, the notices about the connection (\<open>disconnection.js\<close>), the interceptors of the client
  (\<open>core-app/client.js\<close>, \<open>core-app/baseClient.js\<close>), the state they use (\<open>state/modules/connection.js\<close>,
  \<open>session.js\<close>) and the clock of the server (\<open>serverClock.js\<close>).  What happens is a step relation: a timer can
  fire while it is pending, an answer arrive while the request is under way.  Times are milliseconds; the
  current time and the parsed time stamp of the server are arguments.
\<close>

section \<open>State\<close>

definition RECONNECT_MULTIPLIER :: int where "RECONNECT_MULTIPLIER = 2"
definition MAX_RECONNECT_TIME :: int where "MAX_RECONNECT_TIME = 600"
definition TIMEOUT_RECONNECT_TIME :: int where "TIMEOUT_RECONNECT_TIME = 60"
definition MIN_RECONNECT_TIME :: int where "MIN_RECONNECT_TIME = 5"
definition ACTIVE_DELAY :: int where "ACTIVE_DELAY = 240"

definition errorCodes :: "nat list" where "errorCodes = [0, 502, 504, 511]"

datatype notice = NoNotice | TryingToReconnect | DisconnectedFor string | SuccessfullyReconnected

record snackbar =
  sn_visible :: bool
  sn_text :: notice
  sn_backdrop :: bool
  sn_tryNow :: bool
  sn_autoDismiss :: bool

record session_request =
  sr_active :: bool
  sr_user :: jsval
  sr_start :: int

record heartbeat =
  hb_enabled :: bool
  hb_active :: bool
  hb_listening :: bool
  hb_timer :: "nat option"
  hb_pending :: "(nat \<times> int) list"
  hb_next :: nat
  hb_request :: "session_request option"
  cn_connected :: bool
  cn_reconnectTime :: "int option"
  cn_reloadOnReconnect :: bool
  ss_session :: "jsval jsobj"
  sc_diff :: int
  dc_snackbar :: snackbar
  dc_dynamicReconnectTime :: int
  dc_counting :: bool
  br_redirects :: nat
  br_reloads :: nat
  br_signedOut :: bool

definition baseSessionState :: "jsval jsobj" where
  "baseSessionState = [(''app_context'', JBool False), (''can_manage_content'', JBool False), (''facility_id'', JUndef), (''full_name'', JStr []),
     (''id'', JUndef), (''kind'', js_array [JStr ''anonymous'']), (''user_id'', JUndef), (''username'', JStr []), (''full_facility_import'', JBool True)]"

definition new_heartbeat :: heartbeat where
  "new_heartbeat = \<lparr>hb_enabled = False, hb_active = False, hb_listening = False, hb_timer = None, hb_pending = [], hb_next = 1, hb_request = None,
     cn_connected = True, cn_reconnectTime = None, cn_reloadOnReconnect = False, ss_session = baseSessionState, sc_diff = 0,
     dc_snackbar = \<lparr>sn_visible = False, sn_text = NoNotice, sn_backdrop = False, sn_tryNow = False, sn_autoDismiss = True\<rparr>,
     dc_dynamicReconnectTime = 0, dc_counting = False, br_redirects = 0, br_reloads = 0, br_signedOut = False\<rparr>"

definition session_field :: "string \<Rightarrow> heartbeat \<Rightarrow> jsval" where
  "session_field k s = js_prop (JObj (ss_session s)) k"

section \<open>Notices\<close>

definition two_digits :: "nat \<Rightarrow> string" where
  "two_digits n = (if n < 10 then ''0'' else []) @ nat_digits n"

text \<open>Minutes and seconds of an ISO time.\<close>

definition remainingTime :: "int \<Rightarrow> string" where
  "remainingTime t = two_digits (nat (t div 60) mod 60) @ '':'' @ two_digits (nat (t mod 60))"

definition setDynamicReconnectTime :: "int \<Rightarrow> heartbeat \<Rightarrow> heartbeat" where
  "setDynamicReconnectTime t s = s\<lparr>dc_dynamicReconnectTime := max t 0\<rparr>"

definition createTryingToReconnectSnackbar :: "heartbeat \<Rightarrow> heartbeat" where
  "createTryingToReconnectSnackbar s = s\<lparr>dc_snackbar :=
     \<lparr>sn_visible = True, sn_text = TryingToReconnect, sn_backdrop = True, sn_tryNow = False, sn_autoDismiss = False\<rparr>\<rparr>"

definition createDisconnectedSnackbar :: "heartbeat \<Rightarrow> heartbeat" where
  "createDisconnectedSnackbar s =
     (let s1 = setDynamicReconnectTime (case cn_reconnectTime s of None \<Rightarrow> 0 | Some t \<Rightarrow> t) (s\<lparr>dc_counting := False\<rparr>)
      in s1\<lparr>dc_snackbar := \<lparr>sn_visible = True, sn_text = DisconnectedFor (remainingTime (dc_dynamicReconnectTime s1)), sn_backdrop = True,
           sn_tryNow = True, sn_autoDismiss = False\<rparr>, dc_counting := True\<rparr>)"

definition createReconnectedSnackbar :: "heartbeat \<Rightarrow> heartbeat" where
  "createReconnectedSnackbar s = s\<lparr>dc_counting := False, dc_snackbar :=
     \<lparr>sn_visible = True, sn_text = SuccessfullyReconnected, sn_backdrop = False, sn_tryNow = False, sn_autoDismiss = True\<rparr>\<rparr>"

definition count_down :: "heartbeat \<Rightarrow> heartbeat" where
  "count_down s = (let s1 = setDynamicReconnectTime (dc_dynamicReconnectTime s - 1) s
     in s1\<lparr>dc_snackbar := (dc_snackbar s1)\<lparr>sn_text := DisconnectedFor (remainingTime (dc_dynamicReconnectTime s1))\<rparr>\<rparr>)"

section \<open>Timers and listeners\<close>

text \<open>The root state has no \<open>pageVisible\<close>: it is part of the core module.\<close>

definition statePageVisible :: "heartbeat \<Rightarrow> jsval" where
  "statePageVisible s = JUndef"

definition hb_delay :: "heartbeat \<Rightarrow> int" where
  "hb_delay s = (case cn_reconnectTime s of
       Some t \<Rightarrow> if \<not> cn_connected s \<and> t \<noteq> 0 then t else if truthy (statePageVisible s) then ACTIVE_DELAY else ACTIVE_DELAY * 2
     | None \<Rightarrow> if truthy (statePageVisible s) then ACTIVE_DELAY else ACTIVE_DELAY * 2)"

definition hb_wait :: "heartbeat \<Rightarrow> heartbeat" where
  "hb_wait s = s\<lparr>hb_timer := Some (hb_next s), hb_pending := hb_pending s @ [(hb_next s, hb_delay s * 1000)], hb_next := Suc (hb_next s)\<rparr>"

definition clear_timer :: "heartbeat \<Rightarrow> heartbeat" where
  "clear_timer s = (case hb_timer s of None \<Rightarrow> s | Some i \<Rightarrow> s\<lparr>hb_pending := filter (\<lambda>p. fst p \<noteq> i) (hb_pending s)\<rparr>)"

definition setUserActive :: "heartbeat \<Rightarrow> heartbeat" where
  "setUserActive s = (if \<not> hb_active s then s\<lparr>hb_active := True, hb_listening := False\<rparr> else s)"

section \<open>Polling\<close>

definition checkSession :: "int \<Rightarrow> heartbeat \<Rightarrow> heartbeat" where
  "checkSession now s = (if cn_connected s then s else createTryingToReconnectSnackbar s)\<lparr>hb_request :=
     Some \<lparr>sr_active = cn_connected s \<and> hb_active s, sr_user = session_field ''user_id'' s, sr_start = now\<rparr>\<rparr>"

definition pollSessionEndPoint :: "int \<Rightarrow> heartbeat \<Rightarrow> heartbeat" where
  "pollSessionEndPoint now s =
     (if \<not> hb_enabled s \<or> hb_request s \<noteq> None then s
      else checkSession now (clear_timer (if hb_active s then s\<lparr>hb_listening := True\<rparr> else s)))"

definition startPolling :: "int \<Rightarrow> heartbeat \<Rightarrow> heartbeat" where
  "startPolling now s = (if hb_enabled s then s else pollSessionEndPoint now (s\<lparr>hb_enabled := True, hb_listening := True\<rparr>))"

definition stopPolling :: "heartbeat \<Rightarrow> heartbeat" where
  "stopPolling s = clear_timer (s\<lparr>hb_enabled := False, hb_listening := False\<rparr>)"

definition setConnected :: "heartbeat \<Rightarrow> heartbeat" where
  "setConnected s =
     (let s1 = createReconnectedSnackbar (s\<lparr>cn_connected := True, cn_reconnectTime := None\<rparr>)
      in hb_wait (if cn_reloadOnReconnect s1 then s1\<lparr>br_reloads := Suc (br_reloads s1)\<rparr> else s1))"

definition monitorDisconnect :: "nat \<Rightarrow> heartbeat \<Rightarrow> heartbeat" where
  "monitorDisconnect code s =
     (if \<not> cn_connected s then s
      else let t = (if truthy (statePageVisible s) then MAX_RECONNECT_TIME else if code = 0 then MIN_RECONNECT_TIME else TIMEOUT_RECONNECT_TIME)
        in hb_wait (createDisconnectedSnackbar (s\<lparr>cn_connected := False, cn_reconnectTime := Some t\<rparr>)))"

definition signOutDueToInactivity :: "heartbeat \<Rightarrow> heartbeat" where
  "signOutDueToInactivity s = s\<lparr>br_signedOut := True, br_redirects := Suc (br_redirects s)\<rparr>"

definition setServerTime :: "int \<Rightarrow> int \<Rightarrow> heartbeat \<Rightarrow> heartbeat" where
  "setServerTime serverNow clientNow s = s\<lparr>sc_diff := serverNow - clientNow\<rparr>"

definition server_now :: "int \<Rightarrow> heartbeat \<Rightarrow> int" where
  "server_now localNow s = localNow + sc_diff s"

definition setSession :: "jsval jsobj \<Rightarrow> int \<Rightarrow> int \<Rightarrow> heartbeat \<Rightarrow> heartbeat" where
  "setSession session serverTime clientNow s = (let s1 = setServerTime serverTime clientNow s
     in s1\<lparr>ss_session := obj_assign (ss_session s1) (filter (\<lambda>(k, v). k \<in> fst ` set baseSessionState) session)\<rparr>)"

text \<open>The answer to a poll: a session with the time stamp of the server, something else, or an error.\<close>

datatype session_answer = Session "jsval jsobj" int int | NoSession | SessionError nat

definition session_received :: "session_request \<Rightarrow> jsval jsobj \<Rightarrow> int \<Rightarrow> int \<Rightarrow> heartbeat \<Rightarrow> heartbeat" where
  "session_received r session serverTime pollEnd s =
     (let user = js_prop (JObj session) ''user_id''; set = setSession session serverTime ((pollEnd + sr_start r) div 2) in
      if truthy (session_field ''id'' s) \<and> \<not> strict_eq user (sr_user r)
      then (if user = JNull then signOutDueToInactivity s else set (s\<lparr>br_redirects := Suc (br_redirects s)\<rparr>))
      else set s)"

definition intercept_response :: "session_answer \<Rightarrow> heartbeat \<Rightarrow> heartbeat" where
  "intercept_response a s =
     (if cn_connected s then s
      else (case a of
          SessionError code \<Rightarrow>
            (if code \<notin> set errorCodes then setConnected s
             else createDisconnectedSnackbar (s\<lparr>cn_reconnectTime :=
               Some (min (RECONNECT_MULTIPLIER * (case cn_reconnectTime s of None \<Rightarrow> 0 | Some t \<Rightarrow> t)) MAX_RECONNECT_TIME)\<rparr>))
        | _ \<Rightarrow> setConnected s))"

definition final :: "heartbeat \<Rightarrow> heartbeat" where
  "final s = (let s1 = s\<lparr>hb_request := None\<rparr> in if hb_enabled s1 then hb_wait (s1\<lparr>hb_active := False\<rparr>) else s1)"

definition session_answered :: "session_request \<Rightarrow> session_answer \<Rightarrow> heartbeat \<Rightarrow> heartbeat" where
  "session_answered r a s =
     (let s1 = intercept_response a s in
      final (case a of
          Session session serverTime pollEnd \<Rightarrow> session_received r session serverTime pollEnd s1
        | NoSession \<Rightarrow> s1
        | SessionError code \<Rightarrow> if code \<in> set errorCodes then monitorDisconnect code s1 else s1))"

section \<open>The client\<close>

text \<open>Requests are cancelled while there is no connection; every error is looked at.\<close>

definition client_sends :: "heartbeat \<Rightarrow> bool" where
  "client_sends s \<longleftrightarrow> cn_connected s"

definition client_error :: "int \<Rightarrow> nat \<Rightarrow> heartbeat \<Rightarrow> heartbeat" where
  "client_error now code s =
     (let s1 = (if code = 403 then (if truthy (session_field ''id'' s) then pollSessionEndPoint now s else signOutDueToInactivity s) else s)
      in if code \<in> set errorCodes then monitorDisconnect code s1 else s1)"

section \<open>Steps\<close>

datatype hb_event = StartPolling int | StopPolling | TimerFires nat int | SessionAnswered session_answer | Activity | TryNow int
  | ClientError int nat | CountDown | ReloadOnReconnect bool

inductive hb_step :: "heartbeat \<Rightarrow> hb_event \<Rightarrow> heartbeat \<Rightarrow> bool" where
  start: "hb_step s (StartPolling now) (startPolling now s)"
| stop: "hb_step s StopPolling (stopPolling s)"
| timer: "i \<in> fst ` set (hb_pending s) \<Longrightarrow>
    hb_step s (TimerFires i now) (pollSessionEndPoint now (s\<lparr>hb_pending := filter (\<lambda>p. fst p \<noteq> i) (hb_pending s)\<rparr>))"
| answered: "hb_request s = Some r \<Longrightarrow> hb_step s (SessionAnswered a) (session_answered r a s)"
| activity: "hb_listening s \<Longrightarrow> hb_step s Activity (setUserActive s)"
| try_now: "sn_tryNow (dc_snackbar s) \<Longrightarrow> hb_step s (TryNow now) (pollSessionEndPoint now s)"
| client: "hb_step s (ClientError now code) (client_error now code s)"
| count: "dc_counting s \<Longrightarrow> hb_step s CountDown (count_down s)"
| reload: "hb_step s (ReloadOnReconnect b) (s\<lparr>cn_reloadOnReconnect := b\<rparr>)"

inductive_cases hb_step_cases: "hb_step s e t"

inductive hb_run :: "heartbeat \<Rightarrow> hb_event list \<Rightarrow> heartbeat \<Rightarrow> bool" where
  hb_nil: "hb_run s [] s"
| hb_cons: "hb_step s e t \<Longrightarrow> hb_run t es u \<Longrightarrow> hb_run s (e # es) u"

end
