(* ===== verification/Heartbeat_Properties.thy ===== *)
theory Heartbeat_Properties
  imports Heartbeat Js_Collections
begin

text \<open>
  That polling never stops, how reconnecting backs off, what an answer does, and when activity is lost: invariants
  of the reachable states by induction on the steps, and a run.
\<close>


section \<open>Polling goes on\<close>

definition backed_off :: "int \<Rightarrow> bool" where
  "backed_off t \<longleftrightarrow> (\<exists>r \<in> {MIN_RECONNECT_TIME, TIMEOUT_RECONNECT_TIME}. \<exists>k :: nat. t = min (r * 2 ^ k) MAX_RECONNECT_TIME)"

lemma backed_off_start: "backed_off MIN_RECONNECT_TIME" "backed_off TIMEOUT_RECONNECT_TIME"
  unfolding backed_off_def MIN_RECONNECT_TIME_def TIMEOUT_RECONNECT_TIME_def MAX_RECONNECT_TIME_def
  by (auto intro!: exI [of _ "0 :: nat"])

lemma backed_off_double: assumes "backed_off t" shows "backed_off (min (RECONNECT_MULTIPLIER * t) MAX_RECONNECT_TIME)"
proof -
  obtain r k where rk: "r \<in> {MIN_RECONNECT_TIME, TIMEOUT_RECONNECT_TIME}" "t = min (r * 2 ^ k) MAX_RECONNECT_TIME" using assms by (auto simp: backed_off_def)
  then have "0 \<le> r * 2 ^ k" by (auto simp: MIN_RECONNECT_TIME_def TIMEOUT_RECONNECT_TIME_def)
  then have "min (RECONNECT_MULTIPLIER * t) MAX_RECONNECT_TIME = min (r * 2 ^ Suc k) MAX_RECONNECT_TIME"
    using rk(2) by (auto simp: RECONNECT_MULTIPLIER_def MAX_RECONNECT_TIME_def min_def)
  then show ?thesis using rk(1) unfolding backed_off_def by blast
qed

lemma backed_off_range: assumes "backed_off t" shows "5 \<le> t \<and> t \<le> 600"
proof -
  obtain r k where rk: "r \<in> {MIN_RECONNECT_TIME, TIMEOUT_RECONNECT_TIME}" "t = min (r * 2 ^ k) MAX_RECONNECT_TIME" using assms by (auto simp: backed_off_def)
  have "1 \<le> (2 :: int) ^ k" by simp
  then have "5 * 1 \<le> r * 2 ^ k" using rk(1) by (intro mult_mono) (auto simp: MIN_RECONNECT_TIME_def TIMEOUT_RECONNECT_TIME_def)
  then show ?thesis using rk(2) by (auto simp: MAX_RECONNECT_TIME_def)
qed

definition backoff_ok :: "heartbeat \<Rightarrow> bool" where
  "backoff_ok s \<longleftrightarrow> (cn_connected s \<longleftrightarrow> cn_reconnectTime s = None) \<and> (\<forall>t. cn_reconnectTime s = Some t \<longrightarrow> backed_off t)"

text \<open>The timer the heartbeat knows of is pending; older ones it has lost sight of may be too.\<close>

definition timers_ok :: "heartbeat \<Rightarrow> bool" where
  "timers_ok s \<longleftrightarrow> (\<forall>(i, d) \<in> set (hb_pending s). i < hb_next s \<and> 5000 \<le> d \<and> d \<le> 600000) \<and> (\<forall>i. hb_timer s = Some i \<longrightarrow> i < hb_next s)"

definition timer_pending :: "heartbeat \<Rightarrow> bool" where
  "timer_pending s \<longleftrightarrow> (\<exists>i. hb_timer s = Some i \<and> i \<in> fst ` set (hb_pending s))"

definition hb_inv :: "heartbeat \<Rightarrow> bool" where
  "hb_inv s \<longleftrightarrow> backoff_ok s \<and> timers_ok s \<and> (hb_enabled s \<longrightarrow> hb_request s = None \<longrightarrow> timer_pending s)"

lemma notices_keep [simp]:
  "hb_enabled (createTryingToReconnectSnackbar s) = hb_enabled s" "hb_request (createTryingToReconnectSnackbar s) = hb_request s"
  "hb_enabled (createDisconnectedSnackbar s) = hb_enabled s" "hb_request (createDisconnectedSnackbar s) = hb_request s"
  "hb_enabled (createReconnectedSnackbar s) = hb_enabled s" "hb_request (createReconnectedSnackbar s) = hb_request s"
  "hb_enabled (count_down s) = hb_enabled s" "hb_request (count_down s) = hb_request s"
  "hb_pending (createTryingToReconnectSnackbar s) = hb_pending s" "hb_timer (createTryingToReconnectSnackbar s) = hb_timer s" "hb_next (createTryingToReconnectSnackbar s) = hb_next s"
  "hb_pending (createDisconnectedSnackbar s) = hb_pending s" "hb_timer (createDisconnectedSnackbar s) = hb_timer s" "hb_next (createDisconnectedSnackbar s) = hb_next s"
  "hb_pending (createReconnectedSnackbar s) = hb_pending s" "hb_timer (createReconnectedSnackbar s) = hb_timer s" "hb_next (createReconnectedSnackbar s) = hb_next s"
  "hb_pending (count_down s) = hb_pending s" "hb_timer (count_down s) = hb_timer s" "hb_next (count_down s) = hb_next s"
  "cn_connected (createTryingToReconnectSnackbar s) = cn_connected s" "cn_reconnectTime (createTryingToReconnectSnackbar s) = cn_reconnectTime s"
  "cn_connected (createDisconnectedSnackbar s) = cn_connected s" "cn_reconnectTime (createDisconnectedSnackbar s) = cn_reconnectTime s"
  "cn_connected (createReconnectedSnackbar s) = cn_connected s" "cn_reconnectTime (createReconnectedSnackbar s) = cn_reconnectTime s"
  "cn_connected (count_down s) = cn_connected s" "cn_reconnectTime (count_down s) = cn_reconnectTime s"
  "hb_active (createTryingToReconnectSnackbar s) = hb_active s" "hb_listening (createTryingToReconnectSnackbar s) = hb_listening s"
  "hb_active (createDisconnectedSnackbar s) = hb_active s" "hb_listening (createDisconnectedSnackbar s) = hb_listening s"
  "hb_active (createReconnectedSnackbar s) = hb_active s" "hb_listening (createReconnectedSnackbar s) = hb_listening s"
  "hb_active (count_down s) = hb_active s" "hb_listening (count_down s) = hb_listening s"
  by (simp_all add: createTryingToReconnectSnackbar_def createDisconnectedSnackbar_def createReconnectedSnackbar_def count_down_def
      setDynamicReconnectTime_def Let_def)

lemma delay_range: "backoff_ok s \<Longrightarrow> 5 \<le> hb_delay s \<and> hb_delay s \<le> 600"
  using backed_off_range by (auto simp: backoff_ok_def hb_delay_def statePageVisible_def truthy_def ACTIVE_DELAY_def split: option.splits)

lemma wait_inv:
  assumes "backoff_ok s" "timers_ok s" shows "hb_inv (hb_wait s)" "timer_pending (hb_wait s)"
proof -
  show p: "timer_pending (hb_wait s)" by (simp add: timer_pending_def hb_wait_def)
  have "timers_ok (hb_wait s)" using assms(2) delay_range [OF assms(1)] by (auto simp: timers_ok_def hb_wait_def less_Suc_eq)
  moreover have "backoff_ok (hb_wait s)" using assms(1) by (simp add: backoff_ok_def hb_wait_def)
  ultimately show "hb_inv (hb_wait s)" using p by (simp add: hb_inv_def)
qed

lemma inv_keep:
  assumes "hb_inv s" "cn_connected t = cn_connected s" "cn_reconnectTime t = cn_reconnectTime s" "hb_pending t = hb_pending s"
    "hb_timer t = hb_timer s" "hb_next t = hb_next s" "hb_enabled t = hb_enabled s" "hb_request t = hb_request s"
  shows "hb_inv t"
  using assms by (simp add: hb_inv_def backoff_ok_def timers_ok_def timer_pending_def)

lemma poll_inv:
  assumes "backoff_ok s" "timers_ok s" "hb_enabled s \<Longrightarrow> hb_request s \<noteq> None \<Longrightarrow> hb_inv s"
  shows "hb_inv (pollSessionEndPoint now s)"
proof (cases "\<not> hb_enabled s \<or> hb_request s \<noteq> None")
  case True
  then show ?thesis using assms by (auto simp: pollSessionEndPoint_def hb_inv_def)
next
  case False
  then show ?thesis using assms(1,2)
    by (auto simp: pollSessionEndPoint_def checkSession_def clear_timer_def hb_inv_def backoff_ok_def timers_ok_def split: option.split)
qed

lemma start_inv: "hb_inv s \<Longrightarrow> hb_inv (startPolling now s)"
  by (auto simp: startPolling_def intro!: poll_inv) (auto simp: hb_inv_def backoff_ok_def timers_ok_def)

lemma stop_inv: "hb_inv s \<Longrightarrow> hb_inv (stopPolling s)"
  by (auto simp: stopPolling_def clear_timer_def hb_inv_def backoff_ok_def timers_ok_def split: option.split)

lemma setConnected_inv: "hb_inv s \<Longrightarrow> hb_inv (setConnected s)"
  by (auto simp: setConnected_def Let_def intro!: wait_inv) (auto simp: hb_inv_def backoff_ok_def timers_ok_def)

lemma monitor_inv: "hb_inv s \<Longrightarrow> hb_inv (monitorDisconnect code s)"
  using backed_off_start by (auto simp: monitorDisconnect_def Let_def statePageVisible_def truthy_def intro!: wait_inv)
    (auto simp: hb_inv_def backoff_ok_def timers_ok_def)

lemma intercept_inv: "hb_inv s \<Longrightarrow> hb_inv (intercept_response a s)"
  using setConnected_inv [of s] backed_off_double
  by (auto simp: intercept_response_def split: session_answer.split) (auto simp: hb_inv_def backoff_ok_def timers_ok_def timer_pending_def split: option.splits)

lemma final_inv: "backoff_ok s \<Longrightarrow> timers_ok s \<Longrightarrow> hb_inv (final s)"
  by (auto simp: final_def Let_def intro!: wait_inv) (auto simp: hb_inv_def backoff_ok_def timers_ok_def)

lemma received_fields [simp]:
  "cn_connected (session_received r ss st pe s) = cn_connected s" "cn_reconnectTime (session_received r ss st pe s) = cn_reconnectTime s"
  "hb_pending (session_received r ss st pe s) = hb_pending s" "hb_timer (session_received r ss st pe s) = hb_timer s" "hb_next (session_received r ss st pe s) = hb_next s"
  "hb_enabled (session_received r ss st pe s) = hb_enabled s" "hb_active (session_received r ss st pe s) = hb_active s" "hb_listening (session_received r ss st pe s) = hb_listening s"
  by (simp_all add: session_received_def setSession_def setServerTime_def signOutDueToInactivity_def Let_def)

lemma answered_inv: assumes "hb_inv s" shows "hb_inv (session_answered r a s)"
proof -
  have i: "hb_inv (intercept_response a s)" by (rule intercept_inv [OF assms])
  show ?thesis unfolding session_answered_def Let_def
    by (rule final_inv; cases a) (use i monitor_inv [OF i] in \<open>auto simp: hb_inv_def backoff_ok_def timers_ok_def\<close>)
qed

lemma client_inv: assumes "hb_inv s" shows "hb_inv (client_error now code s)"
proof -
  have "hb_inv (pollSessionEndPoint now s)" using assms by (intro poll_inv) (auto simp: hb_inv_def)
  moreover have "hb_inv (signOutDueToInactivity s)" by (rule inv_keep [OF assms]) (simp_all add: signOutDueToInactivity_def)
  ultimately show ?thesis using assms monitor_inv by (auto simp: client_error_def Let_def)
qed

lemma hb_inv_step: "hb_step s e t \<Longrightarrow> hb_inv s \<Longrightarrow> hb_inv t"
proof (induction rule: hb_step.induct)
  case (timer i s now)
  have "hb_enabled (s\<lparr>hb_pending := ps\<rparr>) \<Longrightarrow> hb_request (s\<lparr>hb_pending := ps\<rparr>) \<noteq> None \<Longrightarrow> timers_ok (s\<lparr>hb_pending := ps\<rparr>) \<Longrightarrow> hb_inv (s\<lparr>hb_pending := ps\<rparr>)" for ps
    using timer by (auto simp: hb_inv_def backoff_ok_def)
  then show ?case using timer by (intro poll_inv) (auto simp: hb_inv_def backoff_ok_def timers_ok_def)
next
  case (try_now s now)
  then show ?case by (intro poll_inv) (auto simp: hb_inv_def)
next
  case (activity s)
  then show ?case by (auto simp: setUserActive_def intro: inv_keep)
next
  case (count s)
  then show ?case by (auto intro: inv_keep)
next
  case (reload s b)
  then show ?case by (auto intro: inv_keep)
qed (simp_all add: start_inv stop_inv answered_inv client_inv)

lemma hb_reachable: assumes "hb_run s es t" "hb_inv s" shows "hb_inv t"
  using assms by (induction rule: hb_run.induct) (auto intro: hb_inv_step)

lemma new_inv: "hb_inv new_heartbeat"
  by (simp add: hb_inv_def new_heartbeat_def backoff_ok_def timers_ok_def)


text \<open>
  C28. Polling goes on.  In every reachable state in which polling is started, a request is under way or the timer
  the heartbeat knows of is pending, with at most ten minutes to wait; every answer to the request sets that
  timer, and when it fires there is a request again.
\<close>

theorem polling_goes_on:
  assumes "hb_run new_heartbeat es s" "hb_enabled s"
  shows "(hb_request s \<noteq> None \<or> (\<exists>i d. hb_timer s = Some i \<and> (i, d) \<in> set (hb_pending s)))
    \<and> (\<forall>(i, d) \<in> set (hb_pending s). 5000 \<le> d \<and> d \<le> 600000)
    \<and> (\<forall>a t. hb_step s (SessionAnswered a) t \<longrightarrow> hb_enabled t \<and> hb_request t = None \<and> timer_pending t)
    \<and> (\<forall>i now t. hb_step s (TimerFires i now) t \<longrightarrow> hb_request t \<noteq> None)"
proof -
  have inv: "hb_inv s" by (rule hb_reachable [OF assms(1) new_inv])
  have answer: "hb_enabled t \<and> hb_request t = None \<and> timer_pending t" if "hb_step s (SessionAnswered a) t" for a t
  proof -
    from that obtain r where t: "t = session_answered r a s" by (auto elim: hb_step_cases)
    have e: "hb_enabled (intercept_response a s)"
      using assms(2) by (cases a) (auto simp: intercept_response_def setConnected_def hb_wait_def Let_def)
    have "hb_enabled (monitorDisconnect c u) = hb_enabled u" for c u by (simp add: monitorDisconnect_def hb_wait_def Let_def)
    with e have "hb_enabled t \<and> hb_request t = None"
      by (cases a) (auto simp: t session_answered_def Let_def final_def hb_wait_def)
    moreover have "hb_inv t" unfolding t by (rule answered_inv [OF inv])
    ultimately show ?thesis by (auto simp: hb_inv_def)
  qed
  have fires: "hb_request t \<noteq> None" if "hb_step s (TimerFires i now) t" for i now t
    using that assms(2) by (auto elim!: hb_step_cases simp: pollSessionEndPoint_def checkSession_def)
  show ?thesis using inv assms(2) answer fires by (auto simp: hb_inv_def timers_ok_def timer_pending_def)
qed

text \<open>
  C29. Reconnecting.  There is a reconnect time exactly while there is no connection, 5 or 60 seconds doubled some
  times and at most ten minutes; every poll that fails meanwhile doubles it up to that bound, sets the next
  timer to it and shows it.
\<close>

theorem reconnecting_backs_off:
  assumes "hb_run new_heartbeat es s"
  shows "(cn_connected s \<longleftrightarrow> cn_reconnectTime s = None)
    \<and> (\<forall>t. cn_reconnectTime s = Some t \<longrightarrow> (\<exists>r \<in> {5, 60}. \<exists>k :: nat. t = min (r * 2 ^ k) 600))
    \<and> (\<forall>r code u t. hb_request s = Some r \<longrightarrow> cn_reconnectTime s = Some u \<longrightarrow> code \<in> set errorCodes \<longrightarrow> hb_enabled s \<longrightarrow>
        t = session_answered r (SessionError code) s \<longrightarrow>
        \<not> cn_connected t \<and> cn_reconnectTime t = Some (min (2 * u) 600) \<and> snd (last (hb_pending t)) = min (2 * u) 600 * 1000
        \<and> sn_text (dc_snackbar t) = DisconnectedFor (remainingTime (min (2 * u) 600)))"
proof -
  have inv: "hb_inv s" by (rule hb_reachable [OF assms new_inv])
  have b: "backoff_ok s" using inv by (simp add: hb_inv_def)
  have step: "\<not> cn_connected t \<and> cn_reconnectTime t = Some (min (2 * u) 600) \<and> snd (last (hb_pending t)) = min (2 * u) 600 * 1000
        \<and> sn_text (dc_snackbar t) = DisconnectedFor (remainingTime (min (2 * u) 600))"
    if h: "cn_reconnectTime s = Some u" "code \<in> set errorCodes" "hb_enabled s" "t = session_answered r (SessionError code) s" for r code u t
  proof -
    have c: "\<not> cn_connected s" "5 \<le> u" using h(1) b backed_off_range by (auto simp: backoff_ok_def)
    let ?m = "min (2 * u) 600"
    let ?s1 = "createDisconnectedSnackbar (s\<lparr>cn_reconnectTime := Some ?m\<rparr>)"
    have t: "t = final ?s1" using h(2,4) c(1)
      by (simp add: session_answered_def Let_def intercept_response_def h(1) RECONNECT_MULTIPLIER_def MAX_RECONNECT_TIME_def monitorDisconnect_def)
    have "?m \<noteq> 0" "max ?m 0 = ?m" using c(2) by simp_all
    then show ?thesis using c(1) h(3) unfolding t
      by (simp add: final_def Let_def hb_wait_def hb_delay_def) (simp add: createDisconnectedSnackbar_def setDynamicReconnectTime_def Let_def)
  qed
  have "\<exists>r \<in> {5, 60}. \<exists>k :: nat. t = min (r * 2 ^ k) 600" if "cn_reconnectTime s = Some t" for t
    using b that by (auto simp: backoff_ok_def backed_off_def MIN_RECONNECT_TIME_def TIMEOUT_RECONNECT_TIME_def MAX_RECONNECT_TIME_def)
  moreover have "cn_connected s \<longleftrightarrow> cn_reconnectTime s = None" using b by (simp add: backoff_ok_def)
  ultimately show ?thesis using step by blast
qed

section \<open>Answers\<close>

lemma clock_bound:
  fixes p q st d l :: int
  assumes "p \<le> st" "st \<le> q" "st' = st + d"
  shows "\<bar>(l + (st' - (q + p) div 2)) - (l + d)\<bar> \<le> (q - p + 1) div 2"
  using assms by (auto simp: abs_le_iff)

lemma obj_get_pick: "k \<in> K \<Longrightarrow> obj_get (filter (\<lambda>(k, v). k \<in> K) m) k = obj_get m k"
  by (induction m) (auto simp: obj_get_def)

text \<open>
  What a session that arrives does.  When a session was known and the user is another, the browser is sent away
  to another page, and when nobody is signed in any more the session is left alone and the sign-out recorded;
  in all other cases there is no redirect, and the state takes over the user.  The clock of the server
  is then known up to half the time the request took: if the server stamped its answer at some moment of
  the request, by a clock that is \<open>d\<close> ahead, the computed time is that close to it.
\<close>

theorem session_answer_effect:
  assumes "hb_request s = Some r" "t = session_answered r (Session session stamp pollEnd) s" "obj_wf (ss_session s)" "obj_wf session"
    and "obj_get session ''user_id'' = Some user" "sr_start r \<le> moment" "moment \<le> pollEnd" "stamp = moment + d"
  shows "(if truthy (session_field ''id'' s) \<and> \<not> strict_eq user (sr_user r)
      then br_redirects t = Suc (br_redirects s) \<and> (user = JNull \<longrightarrow> br_signedOut t \<and> ss_session t = ss_session s)
      else br_redirects t = br_redirects s \<and> br_signedOut t = br_signedOut s)
    \<and> (\<not> (truthy (session_field ''id'' s) \<and> \<not> strict_eq user (sr_user r) \<and> user = JNull) \<longrightarrow>
        session_field ''user_id'' t = user \<and> \<bar>server_now l t - (l + d)\<bar> \<le> (pollEnd - sr_start r + 1) div 2)"
proof -
  let ?i = "intercept_response (Session session stamp pollEnd) s"
  let ?u = "session_received r session stamp pollEnd ?i"
  have f: "ss_session (final v) = ss_session v" "br_redirects (final v) = br_redirects v" "br_signedOut (final v) = br_signedOut v" "sc_diff (final v) = sc_diff v" for v
    by (simp_all add: final_def hb_wait_def Let_def)
  have i: "ss_session ?i = ss_session s" "br_redirects ?i = br_redirects s" "br_signedOut ?i = br_signedOut s"
    by (simp_all add: intercept_response_def setConnected_def hb_wait_def createReconnectedSnackbar_def Let_def)
  have t: "t = final ?u" by (simp add: assms(2) session_answered_def Let_def)
  have u: "js_prop (JObj session) ''user_id'' = user" using assms(5) by (simp add: js_prop_JObj)
  have w: "obj_wf (filter (\<lambda>(k, v). k \<in> fst ` set baseSessionState) session)" using assms(4) by (simp add: obj_wf_def distinct_map_filter)
  have "''user_id'' \<in> fst ` set baseSessionState" by (simp add: baseSessionState_def)
  then have sess: "js_prop (JObj (obj_assign (ss_session s) (filter (\<lambda>(k, v). k \<in> fst ` set baseSessionState) session))) ''user_id'' = user"
    using assms(5) by (simp add: js_prop_JObj obj_get_assign [OF w] obj_get_pick)
  note clock = clock_bound [OF assms(6-8), of l]
  show ?thesis unfolding t server_now_def session_field_def f
    using sess clock by (auto simp: session_received_def setSession_def setServerTime_def signOutDueToInactivity_def session_field_def i u Let_def)
qed

section \<open>Activity\<close>

text \<open>The heartbeat has stopped listening although it takes the user for inactive.\<close>

definition deaf :: "heartbeat \<Rightarrow> bool" where
  "deaf s \<longleftrightarrow> hb_enabled s \<and> \<not> hb_active s \<and> \<not> hb_listening s \<and> (\<forall>r. hb_request s = Some r \<longrightarrow> \<not> sr_active r)"

lemma deaf_poll: "deaf s \<Longrightarrow> deaf (pollSessionEndPoint now s)"
  by (auto simp: deaf_def pollSessionEndPoint_def checkSession_def clear_timer_def split: option.split)

lemma deaf_keep [simp]:
  "hb_enabled (monitorDisconnect c s) = hb_enabled s" "hb_active (monitorDisconnect c s) = hb_active s" "hb_listening (monitorDisconnect c s) = hb_listening s"
  "hb_request (monitorDisconnect c s) = hb_request s"
  "hb_enabled (intercept_response a s) = hb_enabled s" "hb_active (intercept_response a s) = hb_active s" "hb_listening (intercept_response a s) = hb_listening s"
  by (simp_all add: monitorDisconnect_def hb_wait_def intercept_response_def setConnected_def Let_def split: session_answer.split)

lemma deaf_step: "hb_step s e t \<Longrightarrow> e \<noteq> StopPolling \<Longrightarrow> deaf s \<Longrightarrow> deaf t"
proof (induction rule: hb_step.induct)
  case (timer i s now)
  then show ?case by (intro deaf_poll) (simp add: deaf_def)
next
  case (answered s r a)
  then show ?case by (cases a) (auto simp: deaf_def session_answered_def final_def hb_wait_def Let_def)
next
  case (try_now s now)
  then show ?case by (simp add: deaf_poll)
next
  case (client s now code)
  then have "deaf (pollSessionEndPoint now s)" by (simp add: deaf_poll)
  moreover have "deaf (signOutDueToInactivity s)" using client by (simp add: deaf_def signOutDueToInactivity_def)
  moreover have "deaf (monitorDisconnect c u)" if "deaf u" for c u using that by (simp add: deaf_def)
  ultimately show ?case using client by (auto simp: client_error_def Let_def)
qed (simp_all add: deaf_poll deaf_def startPolling_def setUserActive_def)

text \<open>
  Activity during a poll makes the heartbeat deaf.  When the user was inactive before a poll and
  active while it is under way, the listeners are removed but the activity is forgotten when the answer comes;
  after that no activity is noticed and every request says that the user is inactive, until polling is stopped.
\<close>

theorem activity_during_poll_is_lost:
  assumes "hb_enabled s" "\<not> hb_active s" "hb_request s = Some r"
    and "t = session_answered r a (setUserActive s)" "hb_run t es u" "StopPolling \<notin> set es"
  shows "\<not> hb_listening u \<and> \<not> hb_active u \<and> (\<forall>r. hb_request u = Some r \<longrightarrow> \<not> sr_active r)"
proof -
  have "deaf t" using assms(1-4)
    by (cases a) (auto simp: deaf_def session_answered_def final_def hb_wait_def setUserActive_def Let_def)
  with assms(5,6) have "deaf u" by (induction rule: hb_run.induct) (auto intro: deaf_step)
  then show ?thesis by (simp add: deaf_def)
qed


section \<open>A run\<close>

definition polling :: heartbeat where "polling = startPolling 0 new_heartbeat"

definition first_request :: session_request where "first_request = \<lparr>sr_active = False, sr_user = JUndef, sr_start = 0\<rparr>"

lemma polling_run: "hb_run new_heartbeat [StartPolling 0] polling"
  unfolding polling_def by (rule hb_cons [OF hb_step.start hb_nil])

lemma polling_state: "hb_enabled polling" "\<not> hb_active polling" "hb_request polling = Some first_request"
  by code_simp+

lemma polling_goes_on_witness:
  "timer_pending (session_answered first_request (SessionError 502) polling)"
proof -
  have "hb_step polling (SessionAnswered (SessionError 502)) (session_answered first_request (SessionError 502) polling)"
    by (rule hb_step.answered [OF polling_state(3)])
  with polling_goes_on [OF polling_run polling_state(1)] show ?thesis by blast
qed

lemma activity_during_poll_is_lost_witness:
  "\<not> hb_listening (session_answered first_request (Session [] 0 0) (setUserActive polling))"
  using activity_during_poll_is_lost [OF polling_state refl hb_nil] by simp

definition signed_in :: "jsval jsobj" where "signed_in = [(''id'', JStr ''current''), (''user_id'', JStr ''u'')]"

lemma session_answer_effect_witness:
  "session_field ''user_id'' (session_answered first_request (Session signed_in 70 100) polling) = JStr ''u''"
proof -
  have w: "obj_wf (ss_session polling)" "obj_wf signed_in" "obj_get signed_in ''user_id'' = Some (JStr ''u'')" by code_simp+
  have r: "sr_start first_request \<le> 50" "50 \<le> (100 :: int)" "(70 :: int) = 50 + 20" by (simp_all add: first_request_def)
  have n: "\<not> truthy (session_field ''id'' polling)" by code_simp
  from session_answer_effect [OF polling_state(3) refl w r] n show ?thesis by blast
qed

definition failing_poll :: heartbeat where
  "failing_poll = pollSessionEndPoint 9 (session_answered first_request (SessionError 502) polling)"

lemma reconnecting_backs_off_witness:
  "sn_text (dc_snackbar (session_answered (the (hb_request failing_poll)) (SessionError 0) failing_poll)) = DisconnectedFor ''02:00''"
proof -
  let ?t = "session_answered first_request (SessionError 502) polling"
  have "hb_step polling (SessionAnswered (SessionError 502)) ?t" by (rule hb_step.answered [OF polling_state(3)])
  moreover have "hb_step ?t (TryNow 9) failing_poll" unfolding failing_poll_def by (rule hb_step.try_now) code_simp
  moreover have "hb_step new_heartbeat (StartPolling 0) polling" unfolding polling_def by (rule hb_step.start)
  ultimately have run: "hb_run new_heartbeat [StartPolling 0, SessionAnswered (SessionError 502), TryNow 9] failing_poll"
    by (blast intro: hb_cons hb_nil)
  have f: "hb_request failing_poll = Some (the (hb_request failing_poll))" "cn_reconnectTime failing_poll = Some 60" "(0 :: nat) \<in> set errorCodes" "hb_enabled failing_poll"
    by code_simp+
  have "remainingTime (min (2 * 60) 600) = ''02:00''" by code_simp
  with reconnecting_backs_off [OF run] f show ?thesis by metis
qed

text \<open>The notice of a new attempt is overwritten by the countdown, which goes on.\<close>

lemma trying_notice_is_overwritten:
  "sn_text (dc_snackbar failing_poll) = TryingToReconnect" "dc_counting failing_poll"
  "sn_text (dc_snackbar (count_down failing_poll)) = DisconnectedFor ''00:59''"
  by code_simp+

text \<open>The delay while connected is the one meant for hidden pages.\<close>

lemma delay_is_that_of_hidden_pages: "cn_connected s \<Longrightarrow> hb_delay s = 480"
  by (simp add: hb_delay_def statePageVisible_def truthy_def ACTIVE_DELAY_def split: option.split)

end
