(* ===== verification/Content_Nodes.thy ===== *)
theory Content_Nodes
  imports Api_Requests
begin

text \<open>
  Content nodes on the client: the deep copies and the cache of
  \<open>kolibri/core/assets/src/api-resources/contentNode.js\<close> (a resource with a cache of its own in place of that of
  \<open>api-resource.js\<close>), the grouping of copies of one resource (\<open>plugins/learn/assets/src/utils/contentNode.js\<close>), and
  the learner's progress by content id (\<open>useContentNodeProgress.js\<close>).  What enters and what leaves the cache is copied, so
  its nodes are shared with nobody and are values here; the nodes a page shows are written to and live in a heap.
  Answers are JSON.
\<close>

section \<open>Deep copies\<close>

definition clone_array :: "jsval jsobj \<Rightarrow> jsval" where
  "clone_array m = JArr (filter (\<lambda>(k, v). is_index k) m)"

definition clone_object :: "jsval jsobj \<Rightarrow> jsval" where
  "clone_object m = JObj (obj_assign [] m)"

fun cloneDeep :: "jsval \<Rightarrow> jsval" where
  "cloneDeep (JArr m) = clone_array (map (\<lambda>(k, v). (k, cloneDeep v)) m)"
| "cloneDeep (JObj m) = clone_object (map (\<lambda>(k, v). (k, cloneDeep v)) m)"
| "cloneDeep v = v"

section \<open>The cache\<close>

text \<open>A loop \<open>for (x of xs)\<close> that changes a state and may throw, and the values such a loop runs over.\<close>

fun for_of :: "('a \<Rightarrow> 'c \<Rightarrow> 'c \<times> js_error option) \<Rightarrow> 'a list \<Rightarrow> 'c \<Rightarrow> 'c \<times> js_error option" where
  "for_of f [] c = (c, None)"
| "for_of f (x # xs) c = (case f x c of (c', None) \<Rightarrow> for_of f xs c' | (c', Some e) \<Rightarrow> (c', Some e))"

lemma for_of_cong [fundef_cong]:
  "xs = ys \<Longrightarrow> c = d \<Longrightarrow> (\<And>x c. x \<in> set ys \<Longrightarrow> f x c = g x c) \<Longrightarrow> for_of f xs c = for_of g ys d"
proof (induction ys arbitrary: xs c d)
  case (Cons y ys)
  then show ?case by (cases "g y d") (auto split: option.split)
qed simp

definition iterated :: "jsval \<Rightarrow> jsval list option" where
  "iterated v = (case v of JArr m \<Rightarrow> Some (elements v) | JStr s \<Rightarrow> Some (map (\<lambda>c. JStr [c]) s) | _ \<Rightarrow> None)"

lemma size_iterated: "iterated v = Some vs \<Longrightarrow> w \<in> set vs \<Longrightarrow> size w < size v \<or> size w = 0"
  by (auto simp: iterated_def dest: size_elements split: jsval.splits)

type_synonym node_cache = "attrs jsobj"

definition merge_node :: "string \<Rightarrow> attrs \<Rightarrow> node_cache \<Rightarrow> node_cache" where
  "merge_node idk m c = (let i = js_string (attr m idk) in
     obj_set i (obj_assign (case obj_get c i of Some old \<Rightarrow> old | None \<Rightarrow> [])
       (obj_assign [] (map (\<lambda>(k, v). (k, cloneDeep v)) m))) c)"

lemma size_prop_obj: "truthy (js_prop (JObj m) k) \<Longrightarrow> size (js_prop (JObj m) k) < size (JObj m)"
  using size_own [of m k] by (auto simp: js_prop_JObj truthy_def split: option.splits)

text \<open>\<open>cacheData\<close>: arrays, nodes with their children, and pages of results, to any depth.\<close>

function cacheData :: "string \<Rightarrow> jsval \<Rightarrow> node_cache \<Rightarrow> node_cache \<times> js_error option" where
  "cacheData idk v c = (case v of
       JArr m \<Rightarrow> for_of (cacheData idk) (elements v) c
     | JObj m \<Rightarrow>
         if truthy (js_prop v idk) then
           (let c' = merge_node idk m c in
            if truthy (js_prop v ''children'') then cacheData idk (js_prop v ''children'') c' else (c', None))
         else if truthy (js_prop v ''results'') then
           (case iterated (js_prop v ''results'') of
              Some vs \<Rightarrow> for_of (cacheData idk) vs c
            | None \<Rightarrow> (c, Some (TypeError ''data.results is not iterable'')))
         else (c, None)
     | _ \<Rightarrow> (c, None))"
  by pat_completeness auto

termination
proof (relation "measure (\<lambda>(idk, v, c). size v)")
  show "((idk, x, c'), idk, v, c) \<in> measure (\<lambda>(idk, v, c). size v)" if "v = JArr m" "x \<in> set (elements v)" for idk v c m x c'
    using that size_elements by simp
  show "((idk, js_prop v ''children'', c'), idk, v, c) \<in> measure (\<lambda>(idk, v, c). size v)"
    if "v = JObj m" "truthy (js_prop v ''children'')" for idk v c m c'
    using that size_prop_obj by simp
  show "((idk, x, c'), idk, v, c) \<in> measure (\<lambda>(idk, v, c). size v)"
    if "v = JObj m" "truthy (js_prop v ''results'')" "iterated (js_prop v ''results'') = Some vs" "x \<in> set vs" for idk v c m vs x c'
    using that size_prop_obj [of m "''results''"] size_iterated [OF that(3,4)] by auto
qed auto

declare cacheData.simps [simp del]

text \<open>
  The requests.  \<open>fetchModel\<close> answers from the cache, whatever parameters it is given; every other operation asks the
  server and caches the answer.  Each gives the request it makes, and \<open>answer_cached\<close> is the handler of the answer.
\<close>

datatype fetched = Requested request | Resolved jsval

definition get_request :: "string \<Rightarrow> attrs \<Rightarrow> request" where
  "get_request url params = \<lparr>rq_method = ''get'', rq_url = url, rq_data = JUndef, rq_params = params\<rparr>"

definition fetchModel :: "(string \<Rightarrow> jsval \<Rightarrow> string) \<Rightarrow> jsval \<Rightarrow> attrs \<Rightarrow> node_cache \<Rightarrow> fetched" where
  "fetchModel urls i params c = (case obj_get c (js_string i) of
       Some m \<Rightarrow> Resolved (cloneDeep (JObj m))
     | None \<Rightarrow> Requested (get_request (urls ''detail'' i) params))"

definition answer_cached :: "string \<Rightarrow> jsval \<Rightarrow> node_cache \<Rightarrow> node_cache \<times> jsval js_result" where
  "answer_cached idk v c = (case cacheData idk v c of (c', None) \<Rightarrow> (c', Inr v) | (c', Some e) \<Rightarrow> (c', Inl e))"

definition fetchRandomCollection :: "(string \<Rightarrow> jsval \<Rightarrow> string) \<Rightarrow> attrs \<Rightarrow> (request \<times> bool) js_result" where
  "fetchRandomCollection urls params = getListEndpoint urls ''random'' params"

definition fetchDescendants :: "(string \<Rightarrow> jsval \<Rightarrow> string) \<Rightarrow> jsval \<Rightarrow> attrs \<Rightarrow> (request \<times> bool) js_result" where
  "fetchDescendants urls ids params = getListEndpoint urls ''descendants'' (obj_assign [(''ids'', ids)] params)"

definition fetchDescendantsAssessments :: "(string \<Rightarrow> jsval \<Rightarrow> string) \<Rightarrow> jsval \<Rightarrow> (request \<times> bool) js_result" where
  "fetchDescendantsAssessments urls ids = getListEndpoint urls ''descendants_assessments'' [(''ids'', ids)]"

definition fetchNodeAssessments :: "(string \<Rightarrow> jsval \<Rightarrow> string) \<Rightarrow> jsval \<Rightarrow> (request \<times> bool) js_result" where
  "fetchNodeAssessments urls ids = getListEndpoint urls ''node_assessments'' [(''ids'', ids)]"

text \<open>\<open>fetchResume\<close>, \<open>fetchPopular\<close> and \<open>fetchNextSteps\<close> share a list, and differ in the parameters they default to.\<close>

definition user_nodes :: "(string \<Rightarrow> jsval \<Rightarrow> string) \<Rightarrow> attrs \<Rightarrow> request" where
  "user_nodes urls params = get_request (urls ''kolibri:core:usercontentnode_list'' JUndef) params"

definition fetchResume :: "(string \<Rightarrow> jsval \<Rightarrow> string) \<Rightarrow> attrs option \<Rightarrow> request" where
  "fetchResume urls params = user_nodes urls (case params of Some p \<Rightarrow> p | None \<Rightarrow> [(''resume'', JBool True)])"

definition fetchPopular :: "(string \<Rightarrow> jsval \<Rightarrow> string) \<Rightarrow> attrs option \<Rightarrow> request" where
  "fetchPopular urls params = user_nodes urls (case params of Some p \<Rightarrow> p | None \<Rightarrow> [(''popular'', JBool True)])"

definition fetchNextSteps :: "(string \<Rightarrow> jsval \<Rightarrow> string) \<Rightarrow> attrs option \<Rightarrow> request" where
  "fetchNextSteps urls params = user_nodes urls (case params of Some p \<Rightarrow> p | None \<Rightarrow> [(''next_steps'', JBool True)])"

definition fetchLessonResources :: "(string \<Rightarrow> jsval \<Rightarrow> string) \<Rightarrow> jsval \<Rightarrow> request" where
  "fetchLessonResources urls lesson = user_nodes urls [(''lesson'', lesson)]"

definition fetchCollection :: "(string \<Rightarrow> jsval \<Rightarrow> string) \<Rightarrow> attrs \<Rightarrow> request" where
  "fetchCollection urls params = get_request (urls ''list'' JUndef) params"

definition fetchTree :: "(string \<Rightarrow> jsval \<Rightarrow> string) \<Rightarrow> jsval \<Rightarrow> attrs \<Rightarrow> request" where
  "fetchTree urls i params = get_request (urls ''kolibri:core:contentnode_tree_detail'' i) params"

definition fetchBookmarks :: "(string \<Rightarrow> jsval \<Rightarrow> string) \<Rightarrow> attrs \<Rightarrow> request" where
  "fetchBookmarks urls params = get_request (urls ''kolibri:core:contentnode_bookmarks_list'' JUndef) params"

section \<open>Copies of one resource\<close>

text \<open>\<open>languageIdToCode\<close> and \<open>getContentLangActive\<close> of \<open>utils/i18n.js\<close>; the current language is an argument.\<close>

definition languageIdToCode :: "string \<Rightarrow> string" where
  "languageIdToCode i = map lower_char (hd (js_split CHR ''-'' i))"

definition contentLanguageCodes :: "string list jsobj" where
  "contentLanguageCodes = [(''ff'', [''ful'', ''fuv'']), (''ny'', [''nya'']), (''sw'', [''swa'']), (''yo'', [''yor''])]"

definition getContentLangActive :: "string \<Rightarrow> jsval \<Rightarrow> nat" where
  "getContentLangActive current l =
     (let langCode = languageIdToCode current;
          additionalCodes = (case obj_get contentLanguageCodes langCode of Some cs \<Rightarrow> cs | None \<Rightarrow> [])
      in if map lower_char (js_string (js_prop l ''id'')) = map lower_char current then 2
         else if js_prop l ''lang_code'' = JStr langCode \<or> js_prop l ''lang_code'' \<in> JStr ` set additionalCodes then 1
         else 0)"

text \<open>A node that is shown: the data, and the \<open>copies\<close> written to it.\<close>

record content_node =
  n_data :: jsval
  n_copies :: "nat list option"

definition content_id :: "content_node \<Rightarrow> string" where
  "content_id n = js_string (js_prop (n_data n) ''content_id'')"

definition node_rank :: "string \<Rightarrow> content_node \<Rightarrow> nat" where
  "node_rank current n = (let l = js_prop (n_data n) ''lang'' in
     if truthy l then
       (let langActiveScore = getContentLangActive current l in
        if langActiveScore = 2 then 0 else if langActiveScore = 1 then 1 else 2)
     else 2)"

definition group_primary :: "string \<Rightarrow> nat list \<Rightarrow> content_node list \<Rightarrow> content_node list \<times> nat" where
  "group_primary current groupedNodes h =
     (if length groupedNodes = 1 then (h, hd groupedNodes)
      else let sortedNodes = sort_key (\<lambda>a. node_rank current (h ! a)) groupedNodes; primaryNode = hd sortedNodes
           in (h[primaryNode := (h ! primaryNode)\<lparr>n_copies := Some sortedNodes\<rparr>], primaryNode))"

fun group_primaries :: "string \<Rightarrow> nat list list \<Rightarrow> content_node list \<Rightarrow> content_node list \<times> nat list" where
  "group_primaries current [] h = (h, [])"
| "group_primaries current (g # gs) h =
     (let (h1, p) = group_primary current g h; (h2, ps) = group_primaries current gs h1 in (h2, p # ps))"

definition deduplicateResources :: "string \<Rightarrow> nat list \<Rightarrow> content_node list \<Rightarrow> content_node list \<times> nat list" where
  "deduplicateResources current contentNodes h =
     group_primaries current (obj_values (group_by (\<lambda>a. content_id (h ! a)) contentNodes)) h"

section \<open>Progress by content id\<close>

text \<open>A recorded progress of \<open>undefined\<close>, 0 or NaN is falsy.\<close>

type_synonym progress_map = "jsnum jsobj"

definition setContentNodeProgress :: "string \<Rightarrow> jsnum \<Rightarrow> progress_map \<Rightarrow> progress_map" where
  "setContentNodeProgress i p m =
     (case obj_get m i of
        None \<Rightarrow> obj_set i p m
      | Some q \<Rightarrow> if q = Fin 0 \<or> q = NaN \<or> num_lt q p then obj_set i p m else m)"

definition fetchProgressTree :: "(string \<Rightarrow> jsval \<Rightarrow> string) \<Rightarrow> jsval \<Rightarrow> attrs \<Rightarrow> request" where
  "fetchProgressTree urls i params = get_request (urls ''kolibri:core:contentnodeprogress_tree'' i) params"

definition progress_answered :: "(string \<times> jsnum) list option \<Rightarrow> progress_map \<Rightarrow> progress_map" where
  "progress_answered ps m = fold (\<lambda>(i, p). setContentNodeProgress i p) (case ps of Some l \<Rightarrow> l | None \<Rightarrow> []) m"

end
