(* ===== verification/Learn_Search.thy ===== *)
theory Learn_Search
  imports Content_Nodes
begin

text \<open>
  The search of the learner's library, \<open>kolibri/plugins/learn/assets/src/composables/useSearch.js\<close>.  The search terms are read
  from and written to the query of the route; a change of the route, of the topic searched in, or of the device makes
  requests, whose answers set the results and the labels that can still be chosen.  Navigation is the router's: the queries
  pushed are recorded, and a change of the route is an event.  The constants of \<open>kolibri-constants\<close> are a parameter, and so is the
  language of the page.  The names of the labels in an answer are strings.
\<close>

section \<open>Labels\<close>

record label_constants =
  LearningActivities :: "string jsobj"
  ResourcesNeededTypes :: "string jsobj"
  ContentLevels :: "string jsobj"
  AccessibilityCategories :: "string jsobj"
  Categories :: "string jsobj"

definition invert :: "string jsobj \<Rightarrow> string jsobj" where
  "invert m = fold (\<lambda>(k, v). obj_set v k) (obj_entries m) []"

text \<open>Reading a property that may be missing, as a key: it is then \<open>undefined\<close>.\<close>

definition key_of :: "string jsobj \<Rightarrow> string \<Rightarrow> string" where
  "key_of m k = (case obj_get m k of Some v \<Rightarrow> v | None \<Rightarrow> ''undefined'')"

definition label_names :: "jsval \<Rightarrow> string list" where
  "label_names v = (if truthy v then map js_string (elements v) else [])"

definition generateLearningActivitiesShown :: "label_constants \<Rightarrow> jsval \<Rightarrow> string jsobj" where
  "generateLearningActivitiesShown K v = fold (\<lambda>i. obj_set (key_of (invert (LearningActivities K)) i) i) (label_names v) []"

definition resourcesNeededShown :: "string list" where
  "resourcesNeededShown = [''FOR_BEGINNERS'', ''PEERS'', ''TEACHER'', ''SPECIAL_SOFTWARE'', ''PAPER_PENCIL'', ''INTERNET'', ''OTHER_SUPPLIES'']"

definition generateResourcesNeeded :: "label_constants \<Rightarrow> jsval \<Rightarrow> string jsobj" where
  "generateResourcesNeeded K learnerNeeds = fold (\<lambda>key m. case obj_get (ResourcesNeededTypes K) key of
       Some x \<Rightarrow> if x \<in> set (label_names learnerNeeds) then obj_set key x m else m
     | None \<Rightarrow> m) resourcesNeededShown []"

definition gradeLevelsShown :: "string list" where
  "gradeLevelsShown = [''BASIC_SKILLS'', ''PRESCHOOL'', ''LOWER_PRIMARY'', ''UPPER_PRIMARY'', ''LOWER_SECONDARY'', ''UPPER_SECONDARY'',
     ''TERTIARY'', ''PROFESSIONAL'', ''WORK_SKILLS'']"

definition shown_labels :: "string list \<Rightarrow> string jsobj \<Rightarrow> jsval \<Rightarrow> string list" where
  "shown_labels shown types v = filter (\<lambda>key. case obj_get types key of
     Some x \<Rightarrow> x \<in> set (label_names v) | None \<Rightarrow> False) shown"

definition generateGradeLevelsList :: "label_constants \<Rightarrow> jsval \<Rightarrow> string list" where
  "generateGradeLevelsList K gradeLevels = shown_labels gradeLevelsShown (ContentLevels K) gradeLevels"

definition accessibilityLabelsShown :: "string list" where
  "accessibilityLabelsShown = [''SIGN_LANGUAGE'', ''AUDIO_DESCRIPTION'', ''TAGGED_PDF'', ''ALT_TEXT'', ''HIGH_CONTRAST'', ''CAPTIONS_SUBTITLES'']"

definition generateAccessibilityOptionsList :: "label_constants \<Rightarrow> jsval \<Rightarrow> string list" where
  "generateAccessibilityOptionsList K accessibilityLabels =
     shown_labels accessibilityLabelsShown (AccessibilityCategories K) accessibilityLabels"

section \<open>The tree of categories\<close>

text \<open>A category is its whole path and the categories under it, by name.\<close>

datatype category = Category (cat_value: string) (cat_nested: "(string \<times> category) list")

text \<open>The paths of the segments of a label: each extends the one before.\<close>

fun label_paths :: "string \<Rightarrow> string list \<Rightarrow> string list" where
  "label_paths path [] = []"
| "label_paths path (seg # segs) =
     (let path' = (if path = [] then seg else path @ ''.'' @ seg) in path' # label_paths path' segs)"

definition availablePaths :: "string list \<Rightarrow> bool jsobj" where
  "availablePaths categories = fold (\<lambda>path. obj_set path True) (concat (map (\<lambda>key. label_paths [] (js_split CHR ''.'' key)) categories)) []"

text \<open>One pass of the loop over the fragments of a value, inside the object \<open>nested\<close>.\<close>

fun add_category :: "bool jsobj \<Rightarrow> string jsobj \<Rightarrow> string \<Rightarrow> string list \<Rightarrow> (string \<times> category) list \<Rightarrow> (string \<times> category) list" where
  "add_category available names path [] nested = nested"
| "add_category available names path (fragment # fs) nested =
     (let path' = path @ fragment in
      if obj_get available path' = Some True then
        (let nestedKey = key_of names path';
             c = (case obj_get nested nestedKey of Some c \<Rightarrow> c | None \<Rightarrow> Category path' [])
         in obj_set nestedKey (Category (cat_value c) (add_category available names (path' @ ''.'') fs (cat_nested c))) nested)
      else nested)"

definition generateLibraryCategoriesLookup :: "label_constants \<Rightarrow> jsval \<Rightarrow> (string \<times> category) list" where
  "generateLibraryCategoriesLookup K categories =
     fold (\<lambda>v. add_category (availablePaths (label_names categories)) (invert (Categories K)) [] (js_split CHR ''.'' v))
       (sort_key length (obj_values (Categories K))) []"

section \<open>Search terms in the query of the route\<close>

definition searchKeys :: "string list" where
  "searchKeys = [''learning_activities'', ''categories'', ''learner_needs'', ''channels'', ''accessibility_labels'', ''languages'', ''grade_levels'']"

definition AllCategories :: string where "AllCategories = ''all_categories''"
definition NoCategories :: string where "NoCategories = ''no_categories''"

text \<open>The filters by key, and the keywords, which are \<open>undefined\<close> or not a string in terms that were not read from a route.\<close>

record search_terms =
  t_filters :: "bool jsobj jsobj"
  t_keywords :: jsval

definition filter_of :: "search_terms \<Rightarrow> string \<Rightarrow> bool jsobj" where
  "filter_of t k = (case obj_get (t_filters t) k of Some f \<Rightarrow> f | None \<Rightarrow> [])"

text \<open>A key given twice in the URL is an array, which cannot be split.\<close>

definition read_filter :: "jsval \<Rightarrow> bool jsobj js_result" where
  "read_filter v = (if truthy v then
       (case v of
          JStr s \<Rightarrow> Inr (fold (\<lambda>x. obj_set x True) (js_split CHR '','' s) [])
        | _ \<Rightarrow> Inl (TypeError ''query[key].split is not a function''))
     else Inr [])"

definition get_searchTerms :: "attrs \<Rightarrow> search_terms js_result" where
  "get_searchTerms query =
     bind_result (map_result (\<lambda>k. read_filter (attr query k)) searchKeys) (\<lambda>fs.
       Inr \<lparr>t_filters = zip searchKeys fs, t_keywords = js_or (attr query ''keywords'') (JStr [])\<rparr>)"

definition write_filter :: "search_terms \<Rightarrow> string \<Rightarrow> attrs \<Rightarrow> attrs" where
  "write_filter t k query =
     (let keys = obj_keys (filter_of t k) in
      if js_join '','' (filter (\<lambda>x. x \<noteq> []) keys) \<noteq> [] then obj_set k (JStr (js_join '','' keys)) query
      else obj_del k query)"

definition set_searchTerms :: "search_terms \<Rightarrow> attrs \<Rightarrow> attrs" where
  "set_searchTerms t query =
     (let q = fold (write_filter t) searchKeys (obj_assign [] query) in
      if truthy (t_keywords t) \<and> truthy (js_prop (t_keywords t) ''length'') then obj_set ''keywords'' (t_keywords t) q
      else obj_del ''keywords'' q)"

text \<open>\<open>Object.keys(v).length\<close> of a keyword: of a string, its indexes.\<close>

definition keys_count :: "jsval \<Rightarrow> nat" where
  "keys_count v = (case v of JStr s \<Rightarrow> length s | JArr m \<Rightarrow> length m | JObj m \<Rightarrow> length m | _ \<Rightarrow> 0)"

definition displaying :: "search_terms \<Rightarrow> bool" where
  "displaying t \<longleftrightarrow> list_ex (\<lambda>f. obj_keys f \<noteq> []) (obj_values (t_filters t)) \<or> keys_count (t_keywords t) \<noteq> 0"

section \<open>The state and its requests\<close>

record global_labels =
  gl_learningActivitiesShown :: "string jsobj"
  gl_libraryCategories :: "(string \<times> category) list"
  gl_resourcesNeeded :: "string jsobj"
  gl_gradeLevelsList :: "string list"
  gl_accessibilityOptionsList :: "string list"
  gl_languagesList :: jsval
  gl_channelsList :: jsval

text \<open>What a request is for, one purpose for each call of \<open>fetchCollection\<close>: two in \<open>search\<close>, \<open>searchMore\<close>, \<open>ensureGlobalLabels\<close>.\<close>

datatype search_purpose = For_Results | For_Labels | For_More | For_Globals

record search_request =
  sq_purpose :: search_purpose
  sq_params :: jsval
  sq_open :: bool

record library =
  s_query :: attrs
  s_descendant :: "attrs option"
  s_baseurl :: jsval
  s_coach :: bool
  s_logged_in :: bool
  s_pushed :: "attrs list"
  s_requests :: "search_request list"
  s_progress_calls :: "jsval list"
  s_loading :: bool
  s_moreLoading :: bool
  s_heap :: "content_node list"
  s_results :: "nat list"
  s_more :: jsval
  s_labels :: jsval
  s_globals :: "global_labels option"
  s_globalsLoading :: bool
  s_cache :: node_cache

definition ask :: "search_purpose \<Rightarrow> jsval \<Rightarrow> library \<Rightarrow> library" where
  "ask p params s = s\<lparr>s_requests := s_requests s @ [\<lparr>sq_purpose = p, sq_params = params, sq_open = True\<rparr>]\<rparr>"

definition ask_progress :: "jsval \<Rightarrow> library \<Rightarrow> library" where
  "ask_progress params s = (if s_logged_in s then s\<lparr>s_progress_calls := s_progress_calls s @ [params]\<rparr> else s)"

section \<open>search and searchMore\<close>

definition base_params :: "library \<Rightarrow> attrs" where
  "base_params s =
     (let p = [(''include_coach_content'', JBool (s_coach s)), (''baseurl'', s_baseurl s)] in
      case s_descendant s of
        Some d \<Rightarrow> obj_set ''rght__lt'' (attr d ''rght'') (obj_set ''lft__gt'' (attr d ''lft'') (obj_set ''tree_id'' (attr d ''tree_id'') p))
      | None \<Rightarrow> p)"

definition add_term :: "bool \<Rightarrow> search_terms \<Rightarrow> string \<Rightarrow> attrs \<Rightarrow> attrs" where
  "add_term inTopic terms key p =
     (if key = ''categories'' \<and> obj_get (filter_of terms key) AllCategories = Some True then obj_set ''categories__isnull'' (JBool False) p
      else if key = ''categories'' \<and> obj_get (filter_of terms key) NoCategories = Some True then obj_set ''categories__isnull'' (JBool True) p
      else if key = ''channels'' \<and> inTopic then p
      else (let keys = obj_keys (filter_of terms key) in
            if keys \<noteq> [] then obj_set key (js_array (map JStr keys)) p else p))"

definition search_params :: "search_terms \<Rightarrow> library \<Rightarrow> attrs" where
  "search_params terms s =
     (let p = fold (add_term (s_descendant s \<noteq> None) terms) searchKeys (obj_set ''max_results'' (jint 25) (base_params s))
      in if truthy (t_keywords terms) then obj_set ''keywords'' (t_keywords terms) p else p)"

definition search :: "library \<Rightarrow> library \<times> js_error option" where
  "search s = (case get_searchTerms (s_query s) of
       Inl e \<Rightarrow> (s, Some e)
     | Inr terms \<Rightarrow>
         (if displaying terms then
            (let params = JObj (search_params terms s)
             in ask For_Results params (ask_progress params (s\<lparr>s_loading := True\<rparr>)))
          else if s_descendant s \<noteq> None then ask For_Labels (JObj (obj_set ''max_results'' (jint 1) (base_params s))) s
          else s\<lparr>s_more := JNull, s_labels := JNull\<rparr>, None))"

definition searchMore :: "library \<Rightarrow> library \<times> js_error option" where
  "searchMore s = (case get_searchTerms (s_query s) of
       Inl e \<Rightarrow> (s, Some e)
     | Inr terms \<Rightarrow>
         (if displaying terms \<and> truthy (s_more s) \<and> \<not> s_moreLoading s
          then ask For_More (s_more s) (ask_progress (s_more s) (s\<lparr>s_moreLoading := True\<rparr>)) else s, None))"

definition push_terms :: "search_terms \<Rightarrow> library \<Rightarrow> library" where
  "push_terms t s = s\<lparr>s_pushed := s_pushed s @ [set_searchTerms t (s_query s)]\<rparr>"

definition removeFilterTag :: "string \<Rightarrow> string \<Rightarrow> library \<Rightarrow> library \<times> js_error option" where
  "removeFilterTag val key s = (case get_searchTerms (s_query s) of
       Inl e \<Rightarrow> (s, Some e)
     | Inr terms \<Rightarrow>
         if key = ''keywords'' then (push_terms (terms\<lparr>t_keywords := JStr []\<rparr>) s, None)
         else (case obj_get (t_filters terms) key of
             None \<Rightarrow> (s, Some (TypeError ''Cannot convert undefined or null to object''))
           | Some keyObject \<Rightarrow>
               (push_terms (terms\<lparr>t_filters := obj_set key (obj_del val keyObject) (t_filters terms)\<rparr>) s, None)))"

definition clearSearch :: "library \<Rightarrow> library" where
  "clearSearch = push_terms \<lparr>t_filters = [], t_keywords = JUndef\<rparr>"

section \<open>Answers\<close>

definition ids_of :: "jsval \<Rightarrow> jsval js_result" where
  "ids_of v = (if truthy v then
       (case v of
          JArr m \<Rightarrow> bind_result (map_result (\<lambda>c. js_get c ''id'') (elements v)) (\<lambda>is. Inr (js_array is))
        | _ \<Rightarrow> Inl (TypeError ''map is not a function''))
     else Inr (js_array []))"

definition own_properties :: "jsval \<Rightarrow> attrs" where
  "own_properties v = (case v of JObj m \<Rightarrow> obj_assign [] m | JArr m \<Rightarrow> obj_assign [] m | _ \<Rightarrow> [])"

definition setAvailableLabels :: "jsval \<Rightarrow> library \<Rightarrow> library js_result" where
  "setAvailableLabels searchableLabels s =
     (if truthy searchableLabels then
        bind_result (ids_of (js_prop searchableLabels ''channels'')) (\<lambda>channels.
          bind_result (ids_of (js_prop searchableLabels ''languages'')) (\<lambda>languages.
            Inr (s\<lparr>s_labels := JObj (obj_set ''languages'' languages (obj_set ''channels'' channels (own_properties searchableLabels)))\<rparr>)))
      else Inr s)"

text \<open>The nodes of an answer are new objects.\<close>

definition new_nodes :: "jsval \<Rightarrow> library \<Rightarrow> library \<times> nat list" where
  "new_nodes v s =
     (let ns = map (\<lambda>d. \<lparr>n_data = d, n_copies = None\<rparr>) (if truthy v then elements v else [])
      in (s\<lparr>s_heap := s_heap s @ ns\<rparr>, [length (s_heap s)..<length (s_heap s) + length ns]))"

text \<open>A handler that throws leaves what it did so far, and its loading flag.\<close>

definition results_arrived :: "jsval \<Rightarrow> library \<Rightarrow> library" where
  "results_arrived v s =
     (let (s1, as) = new_nodes (js_prop v ''results'') s;
          s2 = s1\<lparr>s_results := as, s_more := js_prop v ''more''\<rparr>
      in case setAvailableLabels (js_prop v ''labels'') s2 of Inl e \<Rightarrow> s2 | Inr s3 \<Rightarrow> s3\<lparr>s_loading := False\<rparr>)"

definition labels_arrived :: "jsval \<Rightarrow> library \<Rightarrow> library" where
  "labels_arrived v s = (case setAvailableLabels (js_prop v ''labels'') s of Inl e \<Rightarrow> s | Inr s1 \<Rightarrow> s1\<lparr>s_more := JNull\<rparr>)"

definition more_arrived :: "jsval \<Rightarrow> library \<Rightarrow> library" where
  "more_arrived v s =
     (let (s1, as) = new_nodes (js_prop v ''results'') s;
          s2 = s1\<lparr>s_results := s_results s1 @ as, s_more := js_prop v ''more''\<rparr>
      in case setAvailableLabels (js_prop v ''labels'') s2 of Inl e \<Rightarrow> s2 | Inr s3 \<Rightarrow> s3\<lparr>s_moreLoading := False\<rparr>)"

definition list_or_empty :: "jsval \<Rightarrow> jsval" where
  "list_or_empty v = js_or v (js_array [])"

definition globals_arrived :: "label_constants \<Rightarrow> jsval \<Rightarrow> library \<Rightarrow> library" where
  "globals_arrived K v s =
     (let labels = js_prop v ''labels'' in
      if nullish labels then s
      else s\<lparr>s_globals := Some \<lparr>
          gl_learningActivitiesShown = generateLearningActivitiesShown K (js_prop labels ''learning_activities''),
          gl_libraryCategories = generateLibraryCategoriesLookup K (js_prop labels ''categories''),
          gl_resourcesNeeded = generateResourcesNeeded K (js_prop labels ''learner_needs''),
          gl_gradeLevelsList = generateGradeLevelsList K (js_prop labels ''grade_levels''),
          gl_accessibilityOptionsList = generateAccessibilityOptionsList K (js_prop labels ''accessibility_labels''),
          gl_languagesList = list_or_empty (js_prop labels ''languages''),
          gl_channelsList = list_or_empty (js_prop labels ''channels'')\<rparr>\<rparr>)"

definition arrived :: "label_constants \<Rightarrow> search_purpose \<Rightarrow> jsval \<Rightarrow> library \<Rightarrow> library" where
  "arrived K p v s = (if nullish v then s else case p of
       For_Results \<Rightarrow> results_arrived v s
     | For_Labels \<Rightarrow> labels_arrived v s
     | For_More \<Rightarrow> more_arrived v s
     | For_Globals \<Rightarrow> globals_arrived K v s)"

text \<open>
  An answer is cached by \<open>fetchCollection\<close> first, and goes on to the handler if that does not throw.  Only
  \<open>ensureGlobalLabels\<close> catches, and resets its flag in any case.
\<close>

definition handled :: "label_constants \<Rightarrow> search_purpose \<Rightarrow> jsval js_result \<Rightarrow> library \<Rightarrow> library" where
  "handled K p r s = (case r of
       Inl e \<Rightarrow> s
     | Inr v \<Rightarrow> (case answer_cached ''id'' v (s_cache s) of
           (c, Inr w) \<Rightarrow> arrived K p w (s\<lparr>s_cache := c\<rparr>)
         | (c, Inl e) \<Rightarrow> s\<lparr>s_cache := c\<rparr>))"

definition close_request :: "nat \<Rightarrow> library \<Rightarrow> library" where
  "close_request i s = s\<lparr>s_requests := (s_requests s)[i := (s_requests s ! i)\<lparr>sq_open := False\<rparr>]\<rparr>"

definition answered :: "label_constants \<Rightarrow> nat \<Rightarrow> jsval js_result \<Rightarrow> library \<Rightarrow> library" where
  "answered K i r s =
     (if i < length (s_requests s) \<and> sq_open (s_requests s ! i) then
        (let p = sq_purpose (s_requests s ! i); s1 = handled K p r (close_request i s)
         in if p = For_Globals then s1\<lparr>s_globalsLoading := False\<rparr> else s1)
      else s)"

definition ensureGlobalLabels :: "library \<Rightarrow> library" where
  "ensureGlobalLabels s = ask For_Globals (JObj [(''max_results'', jint 1), (''baseurl'', s_baseurl s)]) (s\<lparr>s_globalsLoading := True\<rparr>)"

definition useSearch :: "attrs \<Rightarrow> attrs option \<Rightarrow> jsval \<Rightarrow> bool \<Rightarrow> bool \<Rightarrow> node_cache \<Rightarrow> library" where
  "useSearch query descendant baseurl coach logged_in c = ensureGlobalLabels
     \<lparr>s_query = query, s_descendant = descendant, s_baseurl = baseurl, s_coach = coach, s_logged_in = logged_in, s_pushed = [],
      s_requests = [], s_progress_calls = [], s_loading = False, s_moreLoading = False, s_heap = [], s_results = [],
      s_more = JNull, s_labels = JNull, s_globals = None, s_globalsLoading = False, s_cache = c\<rparr>"

section \<open>Events\<close>

text \<open>
  The three watchers, the operations returned, and the answers.  An operation that throws changes nothing.
\<close>

datatype search_event =
    Navigated attrs
  | Descendant_Changed "attrs option"
  | Base_Url_Changed jsval
  | Search
  | Search_More
  | Remove_Filter_Tag string string
  | Clear_Search
  | Answered nat "jsval js_result"

definition search_step :: "label_constants \<Rightarrow> library \<Rightarrow> search_event \<Rightarrow> library" where
  "search_step K s ev = (case ev of
       Navigated q \<Rightarrow> fst (search (s\<lparr>s_query := q\<rparr>))
     | Descendant_Changed d \<Rightarrow> (case d of None \<Rightarrow> s\<lparr>s_descendant := None\<rparr> | Some _ \<Rightarrow> fst (search (s\<lparr>s_descendant := d\<rparr>)))
     | Base_Url_Changed b \<Rightarrow> ensureGlobalLabels (s\<lparr>s_baseurl := b\<rparr>)
     | Search \<Rightarrow> fst (search s)
     | Search_More \<Rightarrow> fst (searchMore s)
     | Remove_Filter_Tag val key \<Rightarrow> fst (removeFilterTag val key s)
     | Clear_Search \<Rightarrow> clearSearch s
     | Answered i r \<Rightarrow> answered K i r s)"

text \<open>The results shown: one card for each resource; \<open>loading\<close> is either of two flags.\<close>

definition results :: "string \<Rightarrow> library \<Rightarrow> library \<times> nat list" where
  "results current s = (let (h, ps) = deduplicateResources current (s_results s) (s_heap s) in (s\<lparr>s_heap := h\<rparr>, ps))"

definition searchLoading :: "library \<Rightarrow> bool" where
  "searchLoading s \<longleftrightarrow> s_loading s \<or> s_globalsLoading s"

end
