(* ===== verification/Learn_Categories.thy ===== *)
theory Learn_Categories
  imports Learn_Search
begin

text \<open>
  The tree of categories the learner's search offers: which names lead to which categories.
\<close>

text \<open>Following names down the tree.\<close>

fun find_category :: "(string \<times> category) list \<Rightarrow> string list \<Rightarrow> string option" where
  "find_category nested [] = None"
| "find_category nested (k # ks) = (case obj_get nested k of
     None \<Rightarrow> None
   | Some c \<Rightarrow> if ks = [] then Some (cat_value c) else find_category (cat_nested c) ks)"

text \<open>The paths above and at the end of a label, and those of them that are available, up to the first that is not.\<close>

fun chain :: "string \<Rightarrow> string list \<Rightarrow> string list" where
  "chain path [] = []"
| "chain path (f # fs) = (path @ f) # chain ((path @ f) @ ''.'') fs"

definition is_available :: "bool jsobj \<Rightarrow> string \<Rightarrow> bool" where
  "is_available m p \<longleftrightarrow> obj_get m p = Some True"

abbreviation shown_chain :: "bool jsobj \<Rightarrow> string \<Rightarrow> string list \<Rightarrow> string list" where
  "shown_chain m path fs \<equiv> takeWhile (is_available m) (chain path fs)"

lemma find_add_category: "find_category (add_category av nm path fs nested) js =
    (if js \<noteq> [] \<and> (\<exists>n. js = map (key_of nm) (take n (shown_chain av path fs))) then
       (case find_category nested js of Some p \<Rightarrow> Some p | None \<Rightarrow> Some (shown_chain av path fs ! (length js - 1)))
     else find_category nested js)"
proof (induction fs arbitrary: path nested js)
  case (Cons f fs)
  obtain p ps k where p: "p = path @ f" and ps: "ps = shown_chain av (p @ ''.'') fs" and k: "k = key_of nm p" by simp
  show ?case
  proof (cases "is_available av p \<and> js \<noteq> []")
    case True
    obtain j js' where js: "js = j # js'" using True by (cases js) auto
    have jsne: "js \<noteq> []" by (simp add: js)
    obtain c where c: "c = (case obj_get nested k of Some c \<Rightarrow> c | None \<Rightarrow> Category p [])" by simp
    have a: "add_category av nm path (f # fs) nested = obj_set k (Category (cat_value c) (add_category av nm (p @ ''.'') fs (cat_nested c))) nested"
      using True unfolding add_category.simps(2) p [symmetric] Let_def k [symmetric] c [symmetric] is_available_def by simp
    have ch: "shown_chain av path (f # fs) = p # ps" using True by (simp add: p ps)
    have e: "(\<exists>n. js = map (key_of nm) (take n (p # ps))) \<longleftrightarrow> j = k \<and> (\<exists>n. js' = map (key_of nm) (take n ps))"
    proof
      assume "\<exists>n. js = map (key_of nm) (take n (p # ps))"
      then obtain n where "js = map (key_of nm) (take n (p # ps))" by blast
      then show "j = k \<and> (\<exists>n. js' = map (key_of nm) (take n ps))" by (cases n) (auto simp: js k)
    next
      assume "j = k \<and> (\<exists>n. js' = map (key_of nm) (take n ps))"
      then obtain n where "j = k" "js' = map (key_of nm) (take n ps)" by blast
      then show "\<exists>n. js = map (key_of nm) (take n (p # ps))" by (intro exI [of _ "Suc n"]) (simp add: js k)
    qed
    show ?thesis
    proof (cases "j = k")
      case jk: True
      have n: "find_category (cat_nested c) js' = find_category nested js" if "js' \<noteq> []"
        using that by (cases js') (auto simp: c js jk split: option.split)
      show ?thesis
      proof (cases "js' = []")
        case True
        have "\<exists>n. js = map (key_of nm) (take n (p # ps))" using True jk unfolding e by (auto intro: exI [of _ 0])
        then show ?thesis using True jk unfolding a ch by (simp add: js c split: option.split)
      next
        case False
        have "find_category (add_category av nm path (f # fs) nested) js = find_category (add_category av nm (p @ ''.'') fs (cat_nested c)) js'"
          unfolding a using False jk by (simp add: js)
        also have "\<dots> = (if \<exists>n. js' = map (key_of nm) (take n ps) then
            (case find_category nested js of Some q \<Rightarrow> Some q | None \<Rightarrow> Some (ps ! (length js' - 1))) else find_category nested js)"
          unfolding Cons.IH ps [symmetric] n [OF False] using False by simp
        finally have r: "find_category (add_category av nm path (f # fs) nested) js = (if \<exists>n. js' = map (key_of nm) (take n ps) then
            (case find_category nested js of Some q \<Rightarrow> Some q | None \<Rightarrow> Some (ps ! (length js' - 1))) else find_category nested js)" .
        have "(p # ps) ! (length js - 1) = ps ! (length js' - 1)" using False by (cases js') (simp_all add: js)
        then show ?thesis unfolding ch e r \<open>(p # ps) ! (length js - 1) = ps ! (length js' - 1)\<close> using jk jsne by simp
      qed
    next
      case False
      have "\<not> (\<exists>n. js = map (key_of nm) (take n (p # ps)))" using False unfolding e by simp
      then show ?thesis using False unfolding a ch by (simp add: js)
    qed
  next
    case False
    then show ?thesis by (cases js) (auto simp: is_available_def p)
  qed
qed simp


definition shown_paths :: "label_constants \<Rightarrow> jsval \<Rightarrow> string \<Rightarrow> string list" where
  "shown_paths K categories v = shown_chain (availablePaths (label_names categories)) [] (js_split CHR ''.'' v)"

lemma find_library: "find_category (generateLibraryCategoriesLookup K categories) js =
    (case find (\<lambda>v. js \<noteq> [] \<and> (\<exists>n. js = map (key_of (invert (Categories K))) (take n (shown_paths K categories v)))) (sort_key length (obj_values (Categories K))) of
       Some v \<Rightarrow> Some (shown_paths K categories v ! (length js - 1)) | None \<Rightarrow> None)"
proof -
  have "find_category [] js = None" by (cases js) auto
  then have "find_category (fold (\<lambda>v. add_category (availablePaths (label_names categories)) (invert (Categories K)) [] (js_split CHR ''.'' v)) vs []) js =
    (case find (\<lambda>v. js \<noteq> [] \<and> (\<exists>n. js = map (key_of (invert (Categories K))) (take n (shown_paths K categories v)))) vs of
       Some v \<Rightarrow> Some (shown_paths K categories v ! (length js - 1)) | None \<Rightarrow> None)" for vs
  proof (induction vs rule: rev_induct)
    case (snoc v vs)
    have fa: "find P (vs @ [v]) = (case find P vs of Some x \<Rightarrow> Some x | None \<Rightarrow> if P v then Some v else None)" for P
      by (induction vs) auto
    show ?case unfolding fa fold_append comp_apply fold.simps id_apply find_add_category shown_paths_def [of K, symmetric] snoc.IH [OF snoc.prems]
      by (simp split: option.split)
  qed simp
  then show ?thesis by (simp add: generateLibraryCategoriesLookup_def)
qed

lemma is_available_iff: "is_available (availablePaths ls) p \<longleftrightarrow> (\<exists>l \<in> set ls. p \<in> set (label_paths [] (js_split CHR ''.'' l)))"
proof -
  have "obj_get (fold (\<lambda>x. obj_set x True) xs m) p = (if p \<in> set xs then Some True else obj_get m p)" for xs m
    by (induction xs arbitrary: m) auto
  then show ?thesis by (simp add: is_available_def availablePaths_def)
qed

lemma label_paths_chain: "path \<noteq> [] \<Longrightarrow> label_paths path fs = chain (path @ ''.'') fs"
  by (induction fs arbitrary: path) (simp_all add: Let_def)

lemma label_paths_top: "fs \<noteq> [] \<Longrightarrow> hd fs \<noteq> [] \<Longrightarrow> label_paths [] fs = chain [] fs"
  by (cases fs) (simp_all add: label_paths_chain)

lemma last_chain: "fs \<noteq> [] \<Longrightarrow> last (chain path fs) = path @ js_join ''.'' fs"
proof (induction fs arbitrary: path rule: induct_list012)
  case (3 f g fs)
  have "chain q (g # fs) \<noteq> []" for q by simp
  then show ?case using "3.IH"(2) [of "(path @ f) @ ''.''"] by (simp only: chain.simps(2) [of path f] last.simps) simp
qed simp_all

text \<open>A list of names that begins the names of a list: the first such list gives the element at its end.\<close>

lemma names_end: "js \<noteq> [] \<Longrightarrow> js = map nm (take m xs) \<Longrightarrow> \<exists>n < length xs. js = map nm (take (Suc n) xs) \<and> length js - 1 = n"
proof -
  assume a: "js \<noteq> []" "js = map nm (take m xs)"
  have "0 < length js" using a(1) by simp
  moreover have "length js = min (length xs) m" using a(2) by simp
  ultimately have "length js - 1 < length xs" "Suc (length js - 1) = min m (length xs)" by linarith+
  moreover have "take (min m (length xs)) xs = take m xs" by (simp add: min_def)
  ultimately show ?thesis using a(2) by (intro exI [of _ "length js - 1"]) simp
qed

lemma find_by_names:
  assumes inj: "inj_on nm (\<Union>v \<in> set vs. set (sh v))"
  shows "(case find (\<lambda>v. js \<noteq> [] \<and> (\<exists>n. js = map nm (take n (sh v)))) vs of Some v \<Rightarrow> Some (sh v ! (length js - 1)) | None \<Rightarrow> None) = Some p
     \<longleftrightarrow> (\<exists>v \<in> set vs. \<exists>n < length (sh v). js = map nm (take (Suc n) (sh v)) \<and> p = sh v ! n)" (is "?L = Some p \<longleftrightarrow> ?R")
proof
  assume "?L = Some p"
  then obtain v where f: "find (\<lambda>v. js \<noteq> [] \<and> (\<exists>n. js = map nm (take n (sh v)))) vs = Some v" and p: "p = sh v ! (length js - 1)"
    by (auto split: option.splits)
  have "v \<in> set vs" "js \<noteq> []" "\<exists>n. js = map nm (take n (sh v))" using f unfolding find_Some_iff by auto
  then obtain m where m: "js = map nm (take m (sh v))" by blast
  show "\<exists>v \<in> set vs. \<exists>n < length (sh v). js = map nm (take (Suc n) (sh v)) \<and> p = sh v ! n"
    using names_end [OF \<open>js \<noteq> []\<close> m] p \<open>v \<in> set vs\<close> by (intro bexI [of _ v]) auto
next
  assume "\<exists>v \<in> set vs. \<exists>n < length (sh v). js = map nm (take (Suc n) (sh v)) \<and> p = sh v ! n"
  then obtain v n where v: "v \<in> set vs" "n < length (sh v)" "js = map nm (take (Suc n) (sh v))" "p = sh v ! n" by auto
  have ne: "js \<noteq> []" "length js - 1 = n" using v(2,3) by (auto simp: min_def)
  have "find (\<lambda>v. js \<noteq> [] \<and> (\<exists>n. js = map nm (take n (sh v)))) vs \<noteq> None" using v(1,3) ne(1) unfolding find_None_iff by auto
  then obtain w where f: "find (\<lambda>v. js \<noteq> [] \<and> (\<exists>n. js = map nm (take n (sh v)))) vs = Some w" by auto
  have w: "w \<in> set vs" "\<exists>n. js = map nm (take n (sh w))" using f unfolding find_Some_iff by auto
  then obtain m' where m': "js = map nm (take m' (sh w))" by blast
  then obtain m where m: "m < length (sh w)" "js = map nm (take (Suc m) (sh w))" "length js - 1 = m" using names_end [OF ne(1) m'] by blast
  have mn: "m = n" using m(3) ne(2) by simp
  have "js ! n = nm (sh w ! n)" unfolding m(2) using m(1) mn by simp
  moreover have "js ! n = nm (sh v ! n)" unfolding v(3) using v(2) by simp
  ultimately have "nm (sh w ! n) = nm (sh v ! n)" by (rule subst)
  moreover have "sh w ! n \<in> (\<Union>v \<in> set vs. set (sh v))" using w(1) m(1) unfolding mn by (intro UN_I [of w] nth_mem)
  moreover have "sh v ! n \<in> (\<Union>v \<in> set vs. set (sh v))" using v(1,2) by (intro UN_I [of v] nth_mem)
  ultimately have "sh w ! n = sh v ! n" by (rule inj_onD [OF inj])
  then show "?L = Some p" using f v(4) ne(2) by simp
qed

lemma known_label_shown:
  assumes "v \<in> set (label_names categories)" "hd (js_split CHR ''.'' v) \<noteq> []"
  shows "shown_paths K categories v = label_paths [] (js_split CHR ''.'' v) \<and> shown_paths K categories v \<noteq> [] \<and> last (shown_paths K categories v) = v"
proof -
  have lp: "label_paths [] (js_split CHR ''.'' v) = chain [] (js_split CHR ''.'' v)" using assms(2) by (intro label_paths_top) simp_all
  have "is_available (availablePaths (label_names categories)) p" if "p \<in> set (chain [] (js_split CHR ''.'' v))" for p
    using that assms(1) unfolding is_available_iff lp [symmetric] by blast
  then have "shown_paths K categories v = chain [] (js_split CHR ''.'' v)" by (simp add: shown_paths_def)
  moreover have "chain [] (js_split CHR ''.'' v) \<noteq> []" by (cases "js_split CHR ''.'' v") simp_all
  moreover have "last (chain [] (js_split CHR ''.'' v)) = v" using last_chain [of "js_split CHR ''.'' v" "[]"] by (simp add: js_join_split)
  ultimately show ?thesis by (simp add: lp)
qed

text \<open>
  C33. The tree of categories shown has exactly the categories of the constants that are available in the library: following
  names down the tree leads to a category exactly when they are the names of the paths down to it of some constant, all of
  them available, and it is then the last of them.  Available are the labels the server lists and all paths above
  them; so a constant the server lists is found in the tree under the names of all paths above it.
\<close>

theorem library_categories:
  assumes "inj_on (key_of (invert (Categories K))) (\<Union>v \<in> set (obj_values (Categories K)). set (shown_paths K categories v))"
  shows "(\<forall>js p. find_category (generateLibraryCategoriesLookup K categories) js = Some p \<longleftrightarrow>
       (\<exists>v \<in> set (obj_values (Categories K)). \<exists>n < length (shown_paths K categories v).
          js = map (key_of (invert (Categories K))) (take (Suc n) (shown_paths K categories v)) \<and> p = shown_paths K categories v ! n))
    \<and> (\<forall>v \<in> set (obj_values (Categories K)). v \<in> set (label_names categories) \<and> hd (js_split CHR ''.'' v) \<noteq> [] \<longrightarrow>
         find_category (generateLibraryCategoriesLookup K categories)
           (map (key_of (invert (Categories K))) (label_paths [] (js_split CHR ''.'' v))) = Some v)"
proof -
  have inj: "inj_on (key_of (invert (Categories K))) (\<Union>v \<in> set (sort_key length (obj_values (Categories K))). set (shown_paths K categories v))"
    using assms by simp
  have one: "find_category (generateLibraryCategoriesLookup K categories) js = Some p \<longleftrightarrow>
       (\<exists>v \<in> set (obj_values (Categories K)). \<exists>n < length (shown_paths K categories v).
          js = map (key_of (invert (Categories K))) (take (Suc n) (shown_paths K categories v)) \<and> p = shown_paths K categories v ! n)" for js p
    unfolding find_library using find_by_names [OF inj] by simp
  moreover have "find_category (generateLibraryCategoriesLookup K categories)
      (map (key_of (invert (Categories K))) (label_paths [] (js_split CHR ''.'' v))) = Some v"
    if "v \<in> set (obj_values (Categories K))" "v \<in> set (label_names categories)" "hd (js_split CHR ''.'' v) \<noteq> []" for v
  proof -
    obtain ps where ps: "ps = label_paths [] (js_split CHR ''.'' v)" by simp
    then have "shown_paths K categories v = ps" "ps \<noteq> []" "last ps = v" using known_label_shown [OF that(2,3), of K] by auto
    then show ?thesis unfolding one ps [symmetric] using that(1)
      by (intro bexI [of _ v] exI [of _ "length ps - 1"]) (simp_all add: last_conv_nth)
  qed
  ultimately show ?thesis by blast
qed

end
