(* ===== verification/Learn_Properties.thy ===== *)
theory Learn_Properties
  imports Learn_Search
begin

text \<open>
  What the caching, grouping and searching of content nodes guarantee.
\<close>

section \<open>Assigned properties\<close>

text \<open>Reading what an assignment of properties leaves, also when the source lists a property twice.\<close>

lemma obj_get_assign_any: "obj_get (obj_assign target source) k =
     (case obj_get source k of Some v \<Rightarrow> Some v | None \<Rightarrow> obj_get target k)"
proof -
  have "find (\<lambda>x. fst x = k) (rev (obj_entries source)) = map_option (Pair k) (obj_get source k)"
  proof (cases "find (\<lambda>x. fst x = k) (rev (obj_entries source))")
    case None
    then show ?thesis by (auto simp: find_None_iff set_obj_entries split: option.splits)
  next
    case (Some x)
    then have "x \<in> set (rev (obj_entries source))" "fst x = k" by (auto simp: find_Some_iff simp del: set_rev)
    with Some show ?thesis by (auto simp: set_obj_entries)
  qed
  then show ?thesis using jobj.get_fold_set [where key = fst and val = snd and xs = "obj_entries source" and m = target]
    by (simp add: obj_assign_def case_prod_unfold split: option.split)
qed

lemma obj_get_map_values: "obj_get (map (\<lambda>(k, v). (k, f v)) m) k = map_option f (obj_get m k)"
  by (induction m) (auto simp: obj_get_def)

section \<open>What is cached\<close>

text \<open>The nodes of an answer, in the order they are visited.\<close>

function listing :: "string \<Rightarrow> jsval \<Rightarrow> attrs list" where
  "listing idk v = (case v of
       JArr m \<Rightarrow> concat (map (listing idk) (elements v))
     | JObj m \<Rightarrow>
         if truthy (js_prop v idk) then
           m # (if truthy (js_prop v ''children'') then listing idk (js_prop v ''children'') else [])
         else if truthy (js_prop v ''results'') then
           (case iterated (js_prop v ''results'') of Some vs \<Rightarrow> concat (map (listing idk) vs) | None \<Rightarrow> [])
         else []
     | _ \<Rightarrow> [])"
  by pat_completeness auto
termination
proof (relation "measure (\<lambda>(idk, v). size v)")
  show "((idk, x), idk, v) \<in> measure (\<lambda>(idk, v). size v)" if "v = JArr m" "x \<in> set (elements v)" for idk v m x
    using that size_elements by simp
  show "((idk, js_prop v ''children''), idk, v) \<in> measure (\<lambda>(idk, v). size v)"
    if "v = JObj m" "truthy (js_prop v ''children'')" for idk v m
    using that size_prop_obj by simp
  show "((idk, x), idk, v) \<in> measure (\<lambda>(idk, v). size v)"
    if "v = JObj m" "truthy (js_prop v ''results'')" "iterated (js_prop v ''results'') = Some vs" "x \<in> set vs" for idk v m vs x
    using that size_prop_obj [of m "''results''"] size_iterated [OF that(3,4)] by auto
qed auto

declare listing.simps [simp del]

lemma for_of_fold:
  assumes "for_of f xs c = (c', None)" and "\<And>x c c'. x \<in> set xs \<Longrightarrow> f x c = (c', None) \<Longrightarrow> c' = fold g (h x) c"
  shows "c' = fold g (concat (map h xs)) c"
  using assms
proof (induction xs arbitrary: c)
  case (Cons x xs)
  obtain c1 r where fx: "f x c = (c1, r)" by fastforce
  with Cons.prems(1) have "r = None" "for_of f xs c1 = (c', None)" by (auto split: option.splits)
  then have "c1 = fold g (h x) c" "c' = fold g (concat (map h xs)) c1" using Cons fx by auto
  then show ?case by simp
qed simp

lemma cacheData_listing: "cacheData idk v c = (c', None) \<Longrightarrow> c' = fold (merge_node idk) (listing idk v) c"
proof (induction idk v c arbitrary: c' rule: cacheData.induct)
  case (1 idk v c)
  show ?case
  proof (cases v)
    case (JArr m)
    with 1(4) have "for_of (cacheData idk) (elements v) c = (c', None)" by (simp add: cacheData.simps)
    then have "c' = fold (merge_node idk) (concat (map (listing idk) (elements v))) c"
      by (rule for_of_fold) (rule 1(1) [OF JArr])
    then show ?thesis using JArr by (simp add: listing.simps [of idk "JArr m"])
  next
    case (JObj m)
    show ?thesis
    proof (cases "truthy (js_prop v idk)")
      case True
      then show ?thesis using 1(2) [OF JObj True refl] 1(4) JObj
        by (auto simp: cacheData.simps [of idk "JObj m"] listing.simps [of idk "JObj m"] Let_def split: if_splits)
    next
      case False
      note ih = 1(3) [OF JObj False]
      show ?thesis
      proof (cases "truthy (js_prop v ''results'')")
        case True
        then obtain vs where vs: "iterated (js_prop v ''results'') = Some vs" and "for_of (cacheData idk) vs c = (c', None)"
          using 1(4) False JObj by (auto simp: cacheData.simps [of idk "JObj m"] split: option.splits)
        from this(2) have "c' = fold (merge_node idk) (concat (map (listing idk) vs)) c"
          by (rule for_of_fold) (rule ih [OF True vs])
        then show ?thesis using True False vs JObj by (simp add: listing.simps [of idk "JObj m"])
      qed (use 1(4) False JObj in \<open>simp add: cacheData.simps [of idk "JObj m"] listing.simps [of idk "JObj m"]\<close>)
    qed
  qed (use 1(4) in \<open>simp_all add: cacheData.simps listing.simps\<close>)
qed

text \<open>A property of a cached node.\<close>

definition cached :: "node_cache \<Rightarrow> string \<Rightarrow> string \<Rightarrow> jsval option" where
  "cached c i k = (case obj_get c i of Some m \<Rightarrow> obj_get m k | None \<Rightarrow> None)"

definition newest :: "string \<Rightarrow> attrs list \<Rightarrow> string \<Rightarrow> string \<Rightarrow> attrs option" where
  "newest idk ms i k = find (\<lambda>m. js_string (attr m idk) = i \<and> obj_get m k \<noteq> None) (rev ms)"

lemma cached_merge: "cached (merge_node idk m c) i k =
    (if js_string (attr m idk) = i \<and> obj_get m k \<noteq> None then map_option cloneDeep (obj_get m k) else cached c i k)"
  by (auto simp: cached_def merge_node_def Let_def obj_get_assign_any obj_get_map_values split: option.split)

lemma cached_fold: "cached (fold (merge_node idk) ms c) i k =
    (case newest idk ms i k of Some m \<Rightarrow> map_option cloneDeep (obj_get m k) | None \<Rightarrow> cached c i k)"
proof (induction ms rule: rev_induct)
  case (snoc m ms)
  then show ?case by (auto simp: cached_merge newest_def split: option.split)
qed (simp add: newest_def)

lemma cached_ids: "obj_get (fold (merge_node idk) ms c) i \<noteq> None \<longleftrightarrow> obj_get c i \<noteq> None \<or> i \<in> (\<lambda>m. js_string (attr m idk)) ` set ms"
  by (induction ms arbitrary: c) (auto simp: merge_node_def Let_def)

lemma js_prop_clone: "js_prop (cloneDeep (JObj m)) k = cloneDeep (js_prop (JObj m) k)"
  by (simp add: js_prop_JObj clone_object_def obj_get_assign_any obj_get_map_values split: option.split)

lemma obj_get_filter_by_key: "obj_get (filter (\<lambda>(k, v). P k) m) j = (if P j then obj_get m j else None)"
  by (induction m) (auto simp: obj_get_def)

lemma arr_length_clone: "arr_length (filter (\<lambda>(k, v). is_index k) (map (\<lambda>(k, v). (k, f v)) m)) = arr_length m"
  by (induction m) (auto simp: arr_length_def)

lemma elements_clone: "arr_length m \<le> 4294967295 \<Longrightarrow> elements (cloneDeep (JArr m)) = map cloneDeep (elements (JArr m))"
  unfolding cloneDeep.simps clone_array_def elements_def jsval.case arr_length_clone
  by (auto simp: obj_get_filter_by_key obj_get_map_values split: option.split)

section \<open>Copies of one resource\<close>

definition best_copy :: "string \<Rightarrow> nat list \<Rightarrow> content_node list \<Rightarrow> content_node list \<Rightarrow> nat \<Rightarrow> bool" where
  "best_copy current g h h' p \<longleftrightarrow> p \<in> set g \<and> (\<forall>a \<in> set g. node_rank current (h ! p) \<le> node_rank current (h ! a)) \<and>
     (if g = [p] then h' ! p = h ! p
      else \<exists>cs. n_copies (h' ! p) = Some cs \<and> hd cs = p \<and> mset cs = mset g \<and> sorted (map (\<lambda>a. node_rank current (h ! a)) cs))"

lemma best_copy_cong:
  "(\<And>a. a \<in> set g \<Longrightarrow> h1 ! a = h ! a) \<Longrightarrow> h2 ! p = h' ! p \<Longrightarrow> best_copy current g h1 h' p \<longleftrightarrow> best_copy current g h h2 p"
proof -
  assume a: "\<And>a. a \<in> set g \<Longrightarrow> h1 ! a = h ! a" "h2 ! p = h' ! p"
  have "sorted (map (\<lambda>a. node_rank current (h1 ! a)) cs) = sorted (map (\<lambda>a. node_rank current (h ! a)) cs)" if "mset cs = mset g" for cs
  proof -
    have "map (\<lambda>a. node_rank current (h1 ! a)) cs = map (\<lambda>a. node_rank current (h ! a)) cs"
      using a(1) mset_eq_setD [OF that] by simp
    then show ?thesis by (rule arg_cong)
  qed
  then have "(\<exists>cs. n_copies (h' ! p) = Some cs \<and> hd cs = p \<and> mset cs = mset g \<and> sorted (map (\<lambda>a. node_rank current (h1 ! a)) cs))
    \<longleftrightarrow> (\<exists>cs. n_copies (h' ! p) = Some cs \<and> hd cs = p \<and> mset cs = mset g \<and> sorted (map (\<lambda>a. node_rank current (h ! a)) cs))"
    by (intro ex_cong1) (rule conj_cong refl | simp)+
  moreover have "(\<forall>a \<in> set g. node_rank current (h1 ! p) \<le> node_rank current (h1 ! a)) \<longleftrightarrow> (\<forall>a \<in> set g. node_rank current (h ! p) \<le> node_rank current (h ! a))"
    if "p \<in> set g" using a(1) that by simp
  ultimately show ?thesis unfolding best_copy_def a(2) using a(1) by (intro conj_cong refl if_cong) simp_all
qed

lemma group_primary_best:
  assumes "g \<noteq> []" "\<forall>a \<in> set g. a < length h" "group_primary current g h = (h', p)"
  shows "best_copy current g h h' p \<and> length h' = length h \<and> (\<forall>a. a \<noteq> p \<longrightarrow> h' ! a = h ! a) \<and> n_data (h' ! p) = n_data (h ! p)"
proof (cases "length g = 1")
  case True
  then obtain a where "g = [a]" by (auto simp: length_Suc_conv)
  then show ?thesis using assms by (auto simp: group_primary_def best_copy_def)
next
  case False
  obtain cs where cs: "cs = sort_key (\<lambda>a. node_rank current (h ! a)) g" by simp
  have ne: "cs \<noteq> []" "set cs = set g" "mset cs = mset g" using assms(1) cs by (auto dest: arg_cong [where f = length])
  then have p: "p = hd cs" "h' = h[p := (h ! p)\<lparr>n_copies := Some cs\<rparr>]" and "p \<in> set g" "p < length h"
    using assms False cs ne(1,2) hd_in_set [of cs] by (auto simp: group_primary_def Let_def)
  have s: "sorted (map (\<lambda>a. node_rank current (h ! a)) cs)" unfolding cs by simp
  then have "node_rank current (h ! p) \<le> node_rank current (h ! a)" if "a \<in> set g" for a
    using that ne(2) p(1) ne(1) by (cases cs) auto
  moreover have "g \<noteq> [p]" using False by auto
  ultimately show ?thesis using p s ne \<open>p \<in> set g\<close> \<open>p < length h\<close> by (auto simp: best_copy_def)
qed

lemma group_primaries_best:
  assumes "\<forall>g \<in> set gs. g \<noteq> [] \<and> (\<forall>a \<in> set g. a < length h)" "pairwise (\<lambda>g g'. set g \<inter> set g' = {}) (set gs)" "distinct gs"
    and "group_primaries current gs h = (h', ps)"
  shows "list_all2 (\<lambda>g p. best_copy current g h h' p) gs ps \<and> length h' = length h \<and> (\<forall>a. a \<notin> set ps \<longrightarrow> h' ! a = h ! a)
    \<and> (\<forall>a. n_data (h' ! a) = n_data (h ! a))"
  using assms
proof (induction gs arbitrary: h ps)
  case (Cons g gs)
  obtain h1 p where gp: "group_primary current g h = (h1, p)" by fastforce
  obtain qs where r: "group_primaries current gs h1 = (h', qs)" "ps = p # qs"
    using Cons.prems(4) gp by (auto split: prod.splits)
  note b = group_primary_best [OF _ _ gp]
  have b: "best_copy current g h h1 p" "length h1 = length h" "\<And>a. a \<noteq> p \<Longrightarrow> h1 ! a = h ! a" "n_data (h1 ! p) = n_data (h ! p)"
    using b Cons.prems(1) by auto
  have "pairwise (\<lambda>g g'. set g \<inter> set g' = {}) (set gs)" using Cons.prems(2) by (simp add: pairwise_insert)
  then have ih: "list_all2 (\<lambda>g p. best_copy current g h1 h' p) gs qs" "length h' = length h1" "\<And>a. a \<notin> set qs \<Longrightarrow> h' ! a = h1 ! a"
    "\<And>a. n_data (h' ! a) = n_data (h1 ! a)"
    using Cons.IH [OF _ _ _ r(1)] Cons.prems b(2) by auto
  have pg: "p \<in> set g" using b(1) by (simp add: best_copy_def)
  have dis: "set g \<inter> set g' = {}" if "g' \<in> set gs" for g'
    using Cons.prems(2,3) that by (auto simp: pairwise_insert)
  have "p \<notin> set qs"
  proof
    assume "p \<in> set qs"
    then obtain i where "i < length qs" "p = qs ! i" by (auto simp: in_set_conv_nth)
    then have "gs ! i \<in> set gs" "p \<in> set (gs ! i)" using ih(1) by (auto simp: list_all2_conv_all_nth best_copy_def)
    then show False using dis pg by auto
  qed
  then have "best_copy current g h h' p"
    using best_copy_cong [of g h h h' p h1 current] b(1) ih(3) by auto
  moreover have "list_all2 (\<lambda>g p. best_copy current g h h' p) gs qs"
  proof (rule list.rel_mono_strong [OF ih(1)])
    show "best_copy current g' h h' q" if "g' \<in> set gs" "best_copy current g' h1 h' q" for g' q
    proof -
      have "p \<notin> set g'" using dis [OF that(1)] pg by auto
      then show ?thesis using best_copy_cong [of g' h1 h h' q h' current] b(3) that(2) by metis
    qed
  qed
  ultimately show ?case using r(2) b ih by (auto; metis)
qed simp

lemma groups_of_content:
  "obj_values (group_by f as) = map (\<lambda>k. filter (\<lambda>a. f a = k) as) (obj_keys (group_by f as))"
  by (auto simp: obj_values_eq obj_get_group_by Let_def filter_empty_conv split: if_splits)

definition in_language :: "string \<Rightarrow> content_node \<Rightarrow> bool" where
  "in_language current n \<longleftrightarrow> (let l = js_prop (n_data n) ''lang'' in
     truthy l \<and> map lower_char (js_string (js_prop l ''id'')) = map lower_char current)"

lemma node_rank_0: "node_rank current n = 0 \<longleftrightarrow> in_language current n"
  by (simp add: node_rank_def in_language_def getContentLangActive_def Let_def)

text \<open>
  C34. A list of nodes is shown with one card for each resource: the nodes shown are of the given ones, have different
  content ids, and every content id is there.  The node shown is the one in the best language: none of the same resource is
  in a better one, and if one is in the language of the page, so is the one shown.  When there are several, it holds all of them as its copies, itself first, the better languages before
  the others; one without copies is left as it is, as are all nodes that are not shown, and no data of a node change.
\<close>

theorem one_card_per_resource:
  assumes "\<forall>a \<in> set as. a < length h"
    and "deduplicateResources current as h = (h', ps)"
  shows "distinct (map (\<lambda>p. content_id (h ! p)) ps)
    \<and> (\<lambda>p. content_id (h ! p)) ` set ps = (\<lambda>a. content_id (h ! a)) ` set as
    \<and> (\<forall>p \<in> set ps. best_copy current (filter (\<lambda>a. content_id (h ! a) = content_id (h ! p)) as) h h' p)
    \<and> (\<forall>p \<in> set ps. \<forall>a \<in> set as. content_id (h ! a) = content_id (h ! p) \<and> in_language current (h ! a) \<longrightarrow> in_language current (h ! p))
    \<and> (\<forall>a. a \<notin> set ps \<longrightarrow> h' ! a = h ! a) \<and> (\<forall>a. n_data (h' ! a) = n_data (h ! a))"
proof -
  obtain f where f: "f = (\<lambda>a. content_id (h ! a))" by simp
  obtain ks gs where ks: "ks = obj_keys (group_by f as)" and gs: "gs = map (\<lambda>k. filter (\<lambda>a. f a = k) as) ks" by simp
  have k: "set ks = f ` set as" "distinct ks" by (simp_all add: ks group_by_keys)
  have g: "\<forall>g \<in> set gs. g \<noteq> [] \<and> (\<forall>a \<in> set g. a < length h)"
    using k(1) assms(1) by (auto simp: gs filter_empty_conv)
  have "inj_on (\<lambda>k. filter (\<lambda>a. f a = k) as) (set ks)"
  proof (rule inj_onI)
    fix k k' assume "k \<in> set ks" and eq: "filter (\<lambda>a. f a = k) as = filter (\<lambda>a. f a = k') as"
    then obtain a where "a \<in> set as" "f a = k" using k(1) by auto
    moreover from this have "a \<in> set (filter (\<lambda>a. f a = k') as)" unfolding eq [symmetric] by simp
    ultimately show "k = k'" by simp
  qed
  then have "distinct gs" using k(2) by (simp add: gs distinct_map)
  moreover have "pairwise (\<lambda>g g'. set g \<inter> set g' = {}) (set gs)" by (auto simp: pairwise_def gs)
  moreover have "group_primaries current gs h = (h', ps)"
    using assms(2) by (simp add: deduplicateResources_def groups_of_content f ks gs)
  ultimately have r: "list_all2 (\<lambda>g p. best_copy current g h h' p) gs ps" "\<forall>a. a \<notin> set ps \<longrightarrow> h' ! a = h ! a"
    "\<forall>a. n_data (h' ! a) = n_data (h ! a)"
    using group_primaries_best [OF g, of current h' ps] by blast+
  have "list_all2 (\<lambda>k p. f p = k \<and> best_copy current (filter (\<lambda>a. f a = f p) as) h h' p) ks ps"
  proof -
    have "list_all2 (\<lambda>k p. best_copy current (filter (\<lambda>a. f a = k) as) h h' p) ks ps"
      using r(1) by (simp add: gs list_all2_map1)
    then show ?thesis by (rule list_all2_mono) (auto simp: best_copy_def)
  qed
  then have mk: "map f ps = ks" and "\<forall>p \<in> set ps. best_copy current (filter (\<lambda>a. f a = f p) as) h h' p"
    by (auto simp: list_all2_conv_all_nth in_set_conv_nth intro!: nth_equalityI)
  moreover have "in_language current (h ! p)" if "best_copy current (filter (\<lambda>a. f a = f p) as) h h' p" "a \<in> set as" "f a = f p" "in_language current (h ! a)" for p a
  proof -
    have "node_rank current (h ! p) \<le> node_rank current (h ! a)" using that(1-3) by (simp add: best_copy_def)
    then show ?thesis using that(4) node_rank_0 by (metis le_zero_eq)
  qed
  moreover have "distinct (map f ps)" "f ` set ps = f ` set as" using k mk by (simp_all flip: set_map)
  ultimately show ?thesis using r(2,3) unfolding f by (intro conjI ballI impI; (elim conjE)?; blast)
qed

text \<open>
  C35. What an answer of the server leaves in the cache, for a single node, an array, a page, or nodes with pages of
  children to any depth: each property of a cached node is the copy of that of the last node of the answer with its id that
  has the property, and without one the node keeps it.  A model fetched by id is then answered from the cache without a
  request, whatever its parameters, exactly when a node with that id was ever cached.
\<close>

theorem answers_are_cached:
  assumes "cacheData idk v c = (c', None)"
  shows "(\<forall>i k. cached c' i k = (case newest idk (listing idk v) i k of
       Some m \<Rightarrow> map_option cloneDeep (obj_get m k) | None \<Rightarrow> cached c i k))
    \<and> (\<forall>i params. (\<exists>r. fetchModel urls i params c' = Resolved (JObj r) \<and> (\<forall>k. obj_get r k = map_option cloneDeep (cached c' (js_string i) k)))
        \<longleftrightarrow> obj_get c (js_string i) \<noteq> None \<or> js_string i \<in> (\<lambda>m. js_string (attr m idk)) ` set (listing idk v))"
proof (intro conjI allI)
  have c': "c' = fold (merge_node idk) (listing idk v) c" using assms by (rule cacheData_listing)
  show "cached c' i k = (case newest idk (listing idk v) i k of
       Some m \<Rightarrow> map_option cloneDeep (obj_get m k) | None \<Rightarrow> cached c i k)" for i k
    unfolding c' by (rule cached_fold)
  show "(\<exists>r. fetchModel urls i params c' = Resolved (JObj r) \<and> (\<forall>k. obj_get r k = map_option cloneDeep (cached c' (js_string i) k)))
        \<longleftrightarrow> obj_get c (js_string i) \<noteq> None \<or> js_string i \<in> (\<lambda>m. js_string (attr m idk)) ` set (listing idk v)" for i params
    unfolding cached_ids [symmetric] c' [symmetric]
    by (auto simp: fetchModel_def cached_def clone_object_def obj_get_assign_any obj_get_map_values split: option.split)
qed

section \<open>Search terms\<close>

lemma keys_of_set: "set (obj_keys (fold (\<lambda>x. obj_set x True) xs m)) = set xs \<union> set (obj_keys m)"
proof -
  have "obj_get (fold (\<lambda>x. obj_set x True) xs m) k = None \<longleftrightarrow> k \<notin> set xs \<and> obj_get m k = None" for k
    by (induction xs arbitrary: m) auto
  then show ?thesis unfolding set_obj_keys by (auto simp del: not_None_eq)
qed

lemma map_result_total_list: "(\<And>x. x \<in> set xs \<Longrightarrow> \<exists>y. f x = Inr y \<and> P x y) \<Longrightarrow> \<exists>ys. map_result f xs = Inr ys \<and> list_all2 P xs ys"
proof (induction xs)
  case (Cons x xs)
  obtain y where "f x = Inr y" "P x y" using Cons.prems by auto
  moreover obtain ys where "map_result f xs = Inr ys" "list_all2 P xs ys" using Cons by auto
  ultimately show ?case by auto
qed simp

lemma filter_of_zip: "length fs = length ks \<Longrightarrow> distinct ks \<Longrightarrow> i < length ks \<Longrightarrow>
    filter_of \<lparr>t_filters = zip ks fs, t_keywords = w\<rparr> (ks ! i) = fs ! i"
  by (simp add: filter_of_def obj_get_def map_of_zip_nth)

lemma searchKeys_distinct: "distinct searchKeys" "''keywords'' \<notin> set searchKeys" "''categories__isnull'' \<notin> set searchKeys"
  by (simp_all add: searchKeys_def)

lemma obj_get_write_filter: "obj_get (fold (write_filter t) ks q) j = (if j \<in> set ks then
    (if \<exists>x \<in> set (obj_keys (filter_of t j)). x \<noteq> [] then Some (JStr (js_join '','' (obj_keys (filter_of t j)))) else None) else obj_get q j)"
proof -
  have e: "js_join '','' xs = [] \<longleftrightarrow> xs = [] \<or> xs = [[]]" for xs :: "string list"
    by (cases xs rule: list.exhaust [case_product list.exhaust]) (auto simp: neq_Nil_conv split: list.splits elim: js_join.elims)
  have "filter (\<lambda>x. x \<noteq> []) xs \<noteq> [[]]" for xs :: "string list"
    by (metis (mono_tags, lifting) filter_set list.set_intros(1) mem_Collect_eq set_filter)
  then have w: "obj_get (write_filter t k q) j = (if j = k then
    (if \<exists>x \<in> set (obj_keys (filter_of t j)). x \<noteq> [] then Some (JStr (js_join '','' (obj_keys (filter_of t j)))) else None) else obj_get q j)" for k q
    by (auto simp: write_filter_def Let_def e filter_empty_conv)
  show ?thesis by (induction ks arbitrary: q) (auto simp: w simp del: obj_keys_in)
qed

definition all_true :: "bool jsobj \<Rightarrow> bool" where
  "all_true f \<longleftrightarrow> (\<forall>x. obj_get f x \<noteq> Some False)"

lemma all_true_fold: "all_true (fold (\<lambda>x. obj_set x True) xs m) = all_true m" if "all_true m"
  using that by (induction xs arbitrary: m) (auto simp: all_true_def)

text \<open>The terms a route can hold: no key with a comma, and none that has only the empty key.\<close>

definition terms_ok :: "search_terms \<Rightarrow> bool" where
  "terms_ok t \<longleftrightarrow> (\<forall>k \<in> set searchKeys. set (obj_keys (filter_of t k)) \<noteq> {[]} \<and> (\<forall>x \<in> set (obj_keys (filter_of t k)). CHR '','' \<notin> set x))
    \<and> is_string (t_keywords t)"

lemma terms_roundtrip:
  assumes "terms_ok t"
  shows "\<exists>t'. get_searchTerms (set_searchTerms t q) = Inr t' \<and> t_keywords t' = t_keywords t \<and> map fst (t_filters t') = searchKeys
    \<and> (\<forall>k \<in> set searchKeys. set (obj_keys (filter_of t' k)) = set (obj_keys (filter_of t k)) \<and> all_true (filter_of t' k))"
proof -
  obtain q' where q': "q' = set_searchTerms t q" by simp
  obtain w where w: "t_keywords t = JStr w" using assms by (auto simp: terms_ok_def is_cases)
  have "\<exists>f. read_filter (attr q' k) = Inr f \<and> set (obj_keys f) = set (obj_keys (filter_of t k)) \<and> all_true f" if k: "k \<in> set searchKeys" for k
  proof -
    obtain ks where ks: "ks = obj_keys (filter_of t k)" by simp
    have c: "set ks \<noteq> {[]}" "\<And>x. x \<in> set ks \<Longrightarrow> CHR '','' \<notin> set x" using assms k by (auto simp: terms_ok_def ks)
    have "k \<noteq> ''keywords''" using k searchKeys_distinct by metis
    then have a: "attr q' k = (if \<exists>x \<in> set ks. x \<noteq> [] then JStr (js_join '','' ks) else JUndef)"
      using k by (simp add: q' set_searchTerms_def Let_def attr_def obj_get_write_filter ks)
    show ?thesis
    proof (cases "ks = []")
      case True
      then show ?thesis using a by (simp add: read_filter_def truthy_def ks obj_keys_def all_true_def)
    next
      case False
      then have n: "\<exists>x \<in> set ks. x \<noteq> []" using c(1) by (cases ks) auto
      have sp: "js_split CHR '','' (js_join '','' ks) = ks" using False c(2) by (rule js_split_join)
      then have "js_join '','' ks \<noteq> []" using n by (metis js_split.simps(1) empty_iff empty_set insert_iff list.simps(15))
      then show ?thesis using a n sp keys_of_set [of ks "[]"] all_true_fold [of "[]" ks]
        by (simp add: read_filter_def truthy_def ks obj_keys_def [of "[]"] all_true_def)
    qed
  qed
  then obtain fs where fs: "map_result (\<lambda>k. read_filter (attr q' k)) searchKeys = Inr fs"
    "list_all2 (\<lambda>k f. set (obj_keys f) = set (obj_keys (filter_of t k)) \<and> all_true f) searchKeys fs"
    using map_result_total_list [of searchKeys "\<lambda>k. read_filter (attr q' k)" "\<lambda>k f. set (obj_keys f) = set (obj_keys (filter_of t k)) \<and> all_true f"] by blast
  have l: "length fs = length searchKeys" using fs(2) by (simp add: list_all2_lengthD)
  have kw: "js_or (attr q' ''keywords'') (JStr []) = JStr w"
    by (auto simp: q' set_searchTerms_def Let_def attr_def w js_or_def truthy_def js_prop_def js_own_def is_index_def)
  show ?thesis
  proof (intro exI conjI ballI)
    show "get_searchTerms (set_searchTerms t q) = Inr \<lparr>t_filters = zip searchKeys fs, t_keywords = JStr w\<rparr>"
      by (simp add: get_searchTerms_def fs(1) kw flip: q')
    fix k assume "k \<in> set searchKeys"
    then obtain i where i: "i < length searchKeys" "k = searchKeys ! i" by (auto simp: in_set_conv_nth)
    then show "set (obj_keys (filter_of \<lparr>t_filters = zip searchKeys fs, t_keywords = JStr w\<rparr> k)) = set (obj_keys (filter_of t k))"
      "all_true (filter_of \<lparr>t_filters = zip searchKeys fs, t_keywords = JStr w\<rparr> k)"
      using fs(2) filter_of_zip [OF l searchKeys_distinct(1) i(1)] by (auto simp: list_all2_conv_all_nth)
  qed (simp_all add: w l)
qed


definition sent_alone :: "bool \<Rightarrow> search_terms \<Rightarrow> string \<Rightarrow> bool" where
  "sent_alone inTopic t k \<longleftrightarrow> obj_keys (filter_of t k) \<noteq> [] \<and> \<not> (k = ''channels'' \<and> inTopic)
     \<and> \<not> (k = ''categories'' \<and> (obj_get (filter_of t k) AllCategories = Some True \<or> obj_get (filter_of t k) NoCategories = Some True))"

lemma obj_get_add_term:
  "j \<noteq> ''categories__isnull'' \<Longrightarrow> obj_get (add_term b t k p) j =
     (if j = k \<and> sent_alone b t k then Some (js_array (map JStr (obj_keys (filter_of t k)))) else obj_get p j)"
  by (auto simp: add_term_def sent_alone_def Let_def)

lemma obj_get_add_terms:
  "j \<noteq> ''categories__isnull'' \<Longrightarrow> obj_get (fold (add_term b t) ks p) j =
     (if j \<in> set ks \<and> sent_alone b t j then Some (js_array (map JStr (obj_keys (filter_of t j)))) else obj_get p j)"
  by (induction ks arbitrary: p) (auto simp: obj_get_add_term)

lemma obj_get_isnull:
  "''categories__isnull'' \<notin> set ks \<Longrightarrow> obj_get (fold (add_term b t) ks p) ''categories__isnull'' =
     (if ''categories'' \<notin> set ks then obj_get p ''categories__isnull''
      else if obj_get (filter_of t ''categories'') AllCategories = Some True then Some (JBool False)
      else if obj_get (filter_of t ''categories'') NoCategories = Some True then Some (JBool True)
      else obj_get p ''categories__isnull'')"
  by (induction ks arbitrary: p) (auto simp: add_term_def Let_def)

lemma base_params_keys: "k \<in> set searchKeys \<or> k = ''keywords'' \<or> k = ''categories__isnull'' \<or> k = ''max_results'' \<Longrightarrow> obj_get (base_params s) k = None"
  by (auto simp: searchKeys_def base_params_def obj_get_def obj_set_def update_conv' Let_def split: option.split)

text \<open>The parameters of a search, one by one.\<close>

lemma search_params_key:
  "k \<in> set searchKeys \<Longrightarrow> attr (search_params t s) k =
     (if sent_alone (s_descendant s \<noteq> None) t k then js_array (map JStr (obj_keys (filter_of t k))) else JUndef)"
proof -
  assume k: "k \<in> set searchKeys"
  then have "k \<noteq> ''categories__isnull''" "k \<noteq> ''keywords''" "k \<noteq> ''max_results''" by (auto simp: searchKeys_def)
  then show ?thesis using base_params_keys [of k s] k by (simp add: search_params_def Let_def attr_def obj_get_add_terms del: not_None_eq)
qed

lemma search_params_other:
  "t_keywords t = JStr w \<Longrightarrow> j \<notin> set searchKeys \<Longrightarrow> j \<noteq> ''categories__isnull'' \<Longrightarrow> attr (search_params t s) j =
     (if j = ''keywords'' then (if w = [] then JUndef else JStr w) else attr (obj_set ''max_results'' (jint 25) (base_params s)) j)"
  using base_params_keys [of j s] by (auto simp: search_params_def Let_def attr_def obj_get_add_terms truthy_def simp del: not_None_eq)

lemma search_params_isnull:
  "attr (search_params t s) ''categories__isnull'' =
     (if obj_get (filter_of t ''categories'') AllCategories = Some True then JBool False
      else if obj_get (filter_of t ''categories'') NoCategories = Some True then JBool True else JUndef)"
proof -
  have "''categories'' \<in> set searchKeys" by (simp add: searchKeys_def)
  then show ?thesis using base_params_keys [of "''categories__isnull''" s] searchKeys_distinct(3)
    by (simp add: search_params_def Let_def attr_def obj_get_isnull)
qed

text \<open>Terms with the same chosen labels, as the route gives them back.\<close>

definition same_choice :: "search_terms \<Rightarrow> search_terms \<Rightarrow> bool" where
  "same_choice t' t \<longleftrightarrow> (\<forall>k \<in> set searchKeys. set (obj_keys (filter_of t' k)) = set (obj_keys (filter_of t k)) \<and> all_true (filter_of t' k))"

lemma same_choice_get:
  assumes "same_choice t' t" "k \<in> set searchKeys"
  shows "obj_get (filter_of t' k) x = Some True \<longleftrightarrow> x \<in> set (obj_keys (filter_of t k))"
proof -
  have "x \<in> set (obj_keys (filter_of t k)) \<longleftrightarrow> obj_get (filter_of t' k) x \<noteq> None" using assms obj_keys_in unfolding same_choice_def by metis
  moreover have "obj_get (filter_of t' k) x \<noteq> Some False" using assms by (simp add: same_choice_def all_true_def)
  ultimately show ?thesis by (cases "obj_get (filter_of t' k) x") auto
qed

lemma same_choice_sent:
  assumes "same_choice t' t" "k \<in> set searchKeys"
  shows "let ks = set (obj_keys (filter_of t k)) in
     if ks = {} \<or> k = ''channels'' \<and> s_descendant s \<noteq> None \<or> k = ''categories'' \<and> (AllCategories \<in> ks \<or> NoCategories \<in> ks)
     then attr (search_params t' s) k = JUndef else \<exists>vs. attr (search_params t' s) k = js_array (map JStr vs) \<and> set vs = ks"
proof -
  have s: "set (obj_keys (filter_of t' k)) = set (obj_keys (filter_of t k))" using assms by (simp add: same_choice_def)
  then have "obj_keys (filter_of t' k) = [] \<longleftrightarrow> set (obj_keys (filter_of t k)) = {}" by (metis set_empty)
  then show ?thesis
    unfolding Let_def search_params_key [OF assms(2)] sent_alone_def same_choice_get [OF assms] using s by auto
qed

lemma same_choice_displaying:
  assumes "same_choice t' t" "map fst (t_filters t') = searchKeys" "t_keywords t' = JStr w"
    and "w \<noteq> [] \<or> (\<exists>k \<in> set searchKeys. obj_keys (filter_of t k) \<noteq> [])"
  shows "displaying t'"
proof (cases "w = []")
  case True
  then obtain k where k: "k \<in> set searchKeys" "obj_keys (filter_of t k) \<noteq> []" using assms(4) by auto
  then have "obj_keys (filter_of t' k) \<noteq> []" using assms(1) unfolding same_choice_def by (metis set_empty)
  moreover have "obj_get (t_filters t') k \<noteq> None" using k(1) assms(2) by (metis image_set map_of_eq_None_iff obj_get_def)
  then have "filter_of t' k \<in> set (obj_values (t_filters t'))" by (auto simp: filter_of_def set_obj_values)
  ultimately show ?thesis by (auto simp: displaying_def list_ex_iff)
qed (simp add: displaying_def assms(3) keys_count_def)

text \<open>
  C30. Filters that are chosen reach the server: setting the search terms pushes a query in which every other parameter of the
  route is kept, and when the route changes to it one request is sent, under way and shown as loading, that asks for exactly
  the chosen labels under each key, for the keywords, and for the topic searched in.  Channels are left out inside a topic;
  all categories, or none, replace the categories by whether there is one.
\<close>

theorem chosen_filters_reach_server:
  assumes "terms_ok t" "t_keywords t = JStr w"
    and "w \<noteq> [] \<or> (\<exists>k \<in> set searchKeys. obj_keys (filter_of t k) \<noteq> [])"
    and "q = set_searchTerms t (s_query s)"
    and "s' = search_step K (push_terms t s) (Navigated q)"
  shows "s_pushed s' = s_pushed s @ [q] \<and> (\<forall>k. k \<notin> set searchKeys \<and> k \<noteq> ''keywords'' \<longrightarrow> obj_get q k = obj_get (s_query s) k)
    \<and> s_loading s'
    \<and> (\<exists>p. s_requests s' = s_requests s @ [\<lparr>sq_purpose = For_Results, sq_params = JObj p, sq_open = True\<rparr>]
      \<and> (\<forall>k \<in> set searchKeys. let ks = set (obj_keys (filter_of t k)) in
           if ks = {} \<or> k = ''channels'' \<and> s_descendant s \<noteq> None \<or> k = ''categories'' \<and> (AllCategories \<in> ks \<or> NoCategories \<in> ks)
           then attr p k = JUndef
           else \<exists>vs. attr p k = js_array (map JStr vs) \<and> set vs = ks)
      \<and> attr p ''categories__isnull'' = (let ks = set (obj_keys (filter_of t ''categories'')) in
           if AllCategories \<in> ks then JBool False else if NoCategories \<in> ks then JBool True else JUndef)
      \<and> attr p ''keywords'' = (if w = [] then JUndef else JStr w) \<and> attr p ''max_results'' = jint 25
      \<and> (\<forall>d. s_descendant s = Some d \<longrightarrow> attr p ''tree_id'' = attr d ''tree_id'' \<and> attr p ''lft__gt'' = attr d ''lft'' \<and> attr p ''rght__lt'' = attr d ''rght''))"
proof -
  obtain t' where t': "get_searchTerms q = Inr t'" "t_keywords t' = JStr w" "map fst (t_filters t') = searchKeys" and c: "same_choice t' t"
    using terms_roundtrip [OF assms(1)] assms(2,4) unfolding same_choice_def by metis
  obtain r where r: "r = push_terms t s\<lparr>s_query := q\<rparr>" by simp
  obtain p where p: "p = search_params t' s" by simp
  have "search_params t' r = p" by (simp add: p r search_params_def base_params_def push_terms_def)
  then have s': "s' = ask For_Results (JObj p) (ask_progress (JObj p) (r\<lparr>s_loading := True\<rparr>))"
    using t'(1) same_choice_displaying [OF c t'(3,2) assms(3)] by (simp add: assms(5) search_step_def search_def r Let_def push_terms_def)
  note other = search_params_other [OF t'(2), where s = s, folded p]
  show ?thesis
  proof (intro conjI exI allI impI ballI)
    show "s_pushed s' = s_pushed s @ [q]" "s_loading s'" by (simp_all add: s' ask_def ask_progress_def r push_terms_def assms(4))
    show "obj_get q k = obj_get (s_query s) k" if "k \<notin> set searchKeys \<and> k \<noteq> ''keywords''" for k
      using that by (simp add: assms(4) set_searchTerms_def Let_def obj_get_write_filter obj_get_assign_any split: option.split)
    show "s_requests s' = s_requests s @ [\<lparr>sq_purpose = For_Results, sq_params = JObj p, sq_open = True\<rparr>]"
      by (simp add: s' ask_def ask_progress_def r push_terms_def)
    show "let ks = set (obj_keys (filter_of t k)) in
           if ks = {} \<or> k = ''channels'' \<and> s_descendant s \<noteq> None \<or> k = ''categories'' \<and> (AllCategories \<in> ks \<or> NoCategories \<in> ks)
           then attr p k = JUndef else \<exists>vs. attr p k = js_array (map JStr vs) \<and> set vs = ks" if k: "k \<in> set searchKeys" for k
      unfolding p by (rule same_choice_sent [OF c k])
    show "attr p ''categories__isnull'' = (let ks = set (obj_keys (filter_of t ''categories'')) in
           if AllCategories \<in> ks then JBool False else if NoCategories \<in> ks then JBool True else JUndef)"
      unfolding p search_params_isnull Let_def by (simp add: same_choice_get [OF c] searchKeys_def del: obj_keys_in)
    show "attr p ''keywords'' = (if w = [] then JUndef else JStr w)" "attr p ''max_results'' = jint 25"
      using other [of "''keywords''"] other [of "''max_results''"] by (simp_all add: searchKeys_def attr_def)
    fix d assume "s_descendant s = Some d"
    then show "attr p ''tree_id'' = attr d ''tree_id''" "attr p ''lft__gt'' = attr d ''lft''" "attr p ''rght__lt'' = attr d ''rght''"
      using other [of "''tree_id''"] other [of "''lft__gt''"] other [of "''rght__lt''"]
      by (simp_all add: searchKeys_def attr_def base_params_def)
  qed
qed

end
