(* ===== verification/Learn_Pages.thy ===== *)
theory Learn_Pages
  imports Learn_Properties
begin

text \<open>
  The requests and answers of the learner's search: the pages of its results, and the tree of categories it shows.
\<close>

section \<open>Requests for further pages\<close>

definition more_open :: "library \<Rightarrow> search_request list" where
  "more_open s = filter (\<lambda>r. sq_open r \<and> sq_purpose r = For_More) (s_requests s)"

definition more_asked :: "library \<Rightarrow> nat" where
  "more_asked s = length (filter (\<lambda>r. sq_purpose r = For_More) (s_requests s))"

definition page_inv :: "library \<Rightarrow> bool" where
  "page_inv s \<longleftrightarrow> length (more_open s) \<le> (if s_moreLoading s then 1 else 0) \<and> (\<forall>a \<in> set (s_results s). a < length (s_heap s))
    \<and> distinct (s_results s)"

definition paging_stopped :: "nat \<Rightarrow> library \<Rightarrow> bool" where
  "paging_stopped n s \<longleftrightarrow> s_moreLoading s \<and> more_open s = [] \<and> more_asked s = n"

text \<open>The parts of the state the requests for pages depend on.\<close>

definition paging :: "library \<Rightarrow> search_request list \<times> bool \<times> content_node list \<times> nat list" where
  "paging s = (s_requests s, s_moreLoading s, s_heap s, s_results s)"

lemma paging_cong: "paging s = paging t \<Longrightarrow> page_inv s = page_inv t" "paging s = paging t \<Longrightarrow> paging_stopped n s = paging_stopped n t"
  by (simp_all add: paging_def page_inv_def more_open_def paging_stopped_def more_asked_def)

lemma labels_paging: "setAvailableLabels l s = Inr t \<Longrightarrow> paging t = paging s \<and> s_more t = s_more s \<and> s_query t = s_query s"
  by (auto simp: setAvailableLabels_def bind_result_Inr paging_def split: if_splits)

lemma ask_inv: "p \<noteq> For_More \<Longrightarrow> page_inv s \<Longrightarrow> page_inv (ask p v s)" "p \<noteq> For_More \<Longrightarrow> paging_stopped n s \<Longrightarrow> paging_stopped n (ask p v s)"
  by (simp_all add: ask_def page_inv_def more_open_def paging_stopped_def more_asked_def)

lemma ask_progress_paging: "paging (ask_progress v s) = paging s"
  by (simp add: ask_progress_def paging_def)

lemma search_inv:
  assumes "page_inv s" shows "page_inv (fst (search s))"
proof -
  have "page_inv (ask_progress v (s\<lparr>s_loading := True\<rparr>))" for v
    using assms paging_cong(1) [of "ask_progress v (s\<lparr>s_loading := True\<rparr>)" s] by (simp add: ask_progress_paging) (simp add: paging_def)
  moreover have "page_inv (s\<lparr>s_more := JNull, s_labels := JNull\<rparr>)" using assms paging_cong(1) [of "s\<lparr>s_more := JNull, s_labels := JNull\<rparr>" s] by (simp add: paging_def)
  ultimately show ?thesis using assms by (auto simp: search_def Let_def ask_inv split: sum.split)
qed

lemma search_stopped:
  assumes "paging_stopped n s" shows "paging_stopped n (fst (search s))"
proof -
  have "paging_stopped n (ask_progress v (s\<lparr>s_loading := True\<rparr>))" for v
    using assms paging_cong(2) [of "ask_progress v (s\<lparr>s_loading := True\<rparr>)" s n] by (simp add: ask_progress_paging) (simp add: paging_def)
  moreover have "paging_stopped n (s\<lparr>s_more := JNull, s_labels := JNull\<rparr>)" using assms paging_cong(2) [of "s\<lparr>s_more := JNull, s_labels := JNull\<rparr>" s n] by (simp add: paging_def)
  ultimately show ?thesis using assms by (auto simp: search_def Let_def ask_inv split: sum.split)
qed

lemma close_open: "i < length (s_requests s) \<Longrightarrow> length (more_open (close_request i s)) =
    length (more_open s) - (if sq_open (s_requests s ! i) \<and> sq_purpose (s_requests s ! i) = For_More then 1 else 0)"
  by (simp add: more_open_def close_request_def filter_update)

lemma close_asked: "i < length (s_requests s) \<Longrightarrow> more_asked (close_request i s) = more_asked s"
proof -
  have "length (filter Q (xs[i := y])) = length (filter Q xs)" if "i < length xs" "Q y = Q (xs ! i)" for Q and xs :: "search_request list" and i y
    using that by (induction xs arbitrary: i) (auto split: nat.split)
  then show "i < length (s_requests s) \<Longrightarrow> ?thesis" by (simp add: more_asked_def close_request_def)
qed

lemma more_open_in: "i < length (s_requests s) \<Longrightarrow> sq_open (s_requests s ! i) \<Longrightarrow> sq_purpose (s_requests s ! i) = For_More \<Longrightarrow>
    s_requests s ! i \<in> set (more_open s)"
  by (simp add: more_open_def)


lemma arrived_keeps: "s_requests (arrived K p v s) = s_requests s \<and> (p \<noteq> For_More \<longrightarrow> s_moreLoading (arrived K p v s) = s_moreLoading s)
    \<and> (s_moreLoading (arrived K p v s) \<longrightarrow> s_moreLoading s)"
proof -
  have l: "setAvailableLabels l t = Inr u \<Longrightarrow> s_requests u = s_requests t \<and> s_moreLoading u = s_moreLoading t" for l t u
    using labels_paging [of l t u] by (simp add: paging_def)
  show ?thesis
    by (cases p) (auto simp: arrived_def results_arrived_def labels_arrived_def more_arrived_def globals_arrived_def new_nodes_def Let_def
        split: sum.split dest: l)
qed

definition results_valid :: "library \<Rightarrow> bool" where
  "results_valid s \<longleftrightarrow> (\<forall>a \<in> set (s_results s). a < length (s_heap s)) \<and> distinct (s_results s)"

lemma arrived_valid:
  assumes "results_valid s" shows "results_valid (arrived K p v s)"
proof -
  have l: "setAvailableLabels l t = Inr u \<Longrightarrow> results_valid u = results_valid t" for l t u
    using labels_paging [of l t u] by (simp add: paging_def results_valid_def)
  have n: "results_valid (s1\<lparr>s_results := as, s_more := m\<rparr>) \<and> results_valid (s1\<lparr>s_results := s_results s1 @ as, s_more := m\<rparr>)"
    if nn: "new_nodes w s = (s1, as)" for w s1 as m
  proof -
    obtain ns where "s1 = s\<lparr>s_heap := s_heap s @ ns\<rparr>" "as = [length (s_heap s)..<length (s_heap s) + length ns]"
      using nn by (auto simp: new_nodes_def Let_def)
    moreover have "a < length (s_heap s) + length ns" "a < length (s_heap s)" if "a \<in> set (s_results s)" for a
      using assms that by (auto simp: results_valid_def trans_less_add1)
    ultimately show ?thesis using assms by (fastforce simp: results_valid_def)
  qed
  have f: "results_valid (t\<lparr>s_loading := b\<rparr>) = results_valid t" "results_valid (t\<lparr>s_moreLoading := b\<rparr>) = results_valid t"
    "results_valid (t\<lparr>s_more := m\<rparr>) = results_valid t" "results_valid (t\<lparr>s_globals := g\<rparr>) = results_valid t" for t b m g
    by (simp_all add: results_valid_def)
  have "results_valid (results_arrived v s)" "results_valid (more_arrived v s)"
    using n l unfolding results_arrived_def more_arrived_def by (auto simp: Let_def f split: prod.split sum.split)
  moreover have "results_valid (labels_arrived v s)" "results_valid (globals_arrived K v s)"
    using assms l by (auto simp: labels_arrived_def globals_arrived_def f Let_def split: sum.split)
  ultimately show ?thesis using assms by (cases p) (simp_all add: arrived_def)
qed

lemma handled_cases: "\<exists>c v. handled K p r s = arrived K p v (s\<lparr>s_cache := c\<rparr>) \<or> handled K p r s = s\<lparr>s_cache := c\<rparr>"
proof (cases r)
  case (Inl e)
  then show ?thesis by (intro exI [of _ "s_cache s"]) (simp add: handled_def)
next
  case (Inr v)
  obtain c w where "answer_cached ''id'' v (s_cache s) = (c, w)" by fastforce
  with Inr show ?thesis by (intro exI [of _ c]) (cases w; simp add: handled_def; blast)
qed

lemma answered_cases:
  obtains "answered K i r s = s"
  | c p v g where "i < length (s_requests s)" "sq_open (s_requests s ! i)" "p = sq_purpose (s_requests s ! i)"
    "answered K i r s = g (arrived K p v (close_request i s\<lparr>s_cache := c\<rparr>)) \<or> answered K i r s = g (close_request i s\<lparr>s_cache := c\<rparr>)"
    "g = (\<lambda>t. t\<lparr>s_globalsLoading := False\<rparr>) \<or> g = (\<lambda>t. t)"
proof (cases "i < length (s_requests s) \<and> sq_open (s_requests s ! i)")
  case op: True
  obtain p where p: "p = sq_purpose (s_requests s ! i)" by simp
  obtain c v where "handled K p r (close_request i s) = arrived K p v (close_request i s\<lparr>s_cache := c\<rparr>)
      \<or> handled K p r (close_request i s) = close_request i s\<lparr>s_cache := c\<rparr>" using handled_cases by metis
  moreover have "answered K i r s = (if p = For_Globals then \<lambda>t. t\<lparr>s_globalsLoading := False\<rparr> else (\<lambda>t. t)) (handled K p r (close_request i s))"
    using op by (simp add: answered_def p Let_def)
  ultimately show ?thesis
    using op p by (intro that(2) [of p "if p = For_Globals then \<lambda>t. t\<lparr>s_globalsLoading := False\<rparr> else (\<lambda>t. t)" v c]) auto
next
  case False
  then show ?thesis by (intro that(1)) (auto simp: answered_def)
qed

lemma page_inv_valid: "page_inv s \<longleftrightarrow> length (more_open s) \<le> (if s_moreLoading s then 1 else 0) \<and> results_valid s"
  by (auto simp: page_inv_def results_valid_def)

lemma page_answered_inv:
  assumes "page_inv s" shows "page_inv (answered K i r s)"
proof (cases rule: answered_cases [of K i r s])
  case (2 c p v g)
  obtain s1 where s1: "s1 = close_request i s\<lparr>s_cache := c\<rparr>" by simp
  have o: "length (more_open s1) = length (more_open s) - (if p = For_More then 1 else 0)"
    using close_open [OF 2(1)] 2(2,3) by (simp add: s1 more_open_def)
  have v: "results_valid s1" "s_moreLoading s1 = s_moreLoading s"
    using assms by (simp_all add: s1 close_request_def page_inv_valid results_valid_def)
  have "page_inv s1" using assms o v by (auto simp: page_inv_valid split: if_splits)
  moreover have "page_inv (arrived K p v s1)"
    using arrived_keeps [of K p v s1] arrived_valid [OF v(1), of K p v] assms o v(2)
    by (auto simp: page_inv_valid more_open_def split: if_splits)
  moreover have "page_inv (g t) = page_inv t" for t using 2(5) by (elim disjE) (simp_all add: page_inv_def more_open_def)
  ultimately show ?thesis using 2(4) unfolding s1 [symmetric] by metis
qed (use assms in simp)

lemma answered_stopped:
  assumes "paging_stopped n s" shows "paging_stopped n (answered K i r s)"
proof (cases rule: answered_cases [of K i r s])
  case (2 c p v g)
  obtain s1 where s1: "s1 = close_request i s\<lparr>s_cache := c\<rparr>" by simp
  have p: "p \<noteq> For_More" using more_open_in [OF 2(1,2)] 2(3) assms by (auto simp: paging_stopped_def)
  have "length (more_open s1) = length (more_open s)" "more_asked s1 = more_asked s" "s_moreLoading s1 = s_moreLoading s"
    using close_open [OF 2(1)] close_asked [OF 2(1)] 2(2,3) p by (simp_all add: s1 more_open_def more_asked_def close_request_def)
  then have a: "paging_stopped n s1" using assms by (auto simp: paging_stopped_def)
  then have "paging_stopped n (arrived K p v s1)" using arrived_keeps [of K p v s1] p by (simp add: paging_stopped_def more_open_def more_asked_def)
  moreover have "paging_stopped n (g t) = paging_stopped n t" for t using 2(5) by (elim disjE) (simp_all add: paging_stopped_def more_open_def more_asked_def)
  ultimately show ?thesis using 2(4) a unfolding s1 [symmetric] by metis
qed (use assms in simp)


lemma push_inv: "page_inv (push_terms t s) = page_inv s" "paging_stopped n (push_terms t s) = paging_stopped n s"
  by (simp_all add: push_terms_def page_inv_def paging_stopped_def more_open_def more_asked_def)

lemma removeFilterTag_push: "fst (removeFilterTag x k s) = s \<or> (\<exists>t. fst (removeFilterTag x k s) = push_terms t s)"
  by (auto simp: removeFilterTag_def split: sum.split option.split)

lemma searchMore_inv: "page_inv s \<Longrightarrow> page_inv (fst (searchMore s))" "paging_stopped n s \<Longrightarrow> fst (searchMore s) = s"
proof -
  have "page_inv (ask For_More v (ask_progress v (s\<lparr>s_moreLoading := True\<rparr>)))" if "page_inv s" "\<not> s_moreLoading s" for v
    using that by (auto simp: page_inv_def more_open_def ask_def ask_progress_def)
  then show "page_inv s \<Longrightarrow> page_inv (fst (searchMore s))" by (auto simp: searchMore_def split: sum.split)
  show "paging_stopped n s \<Longrightarrow> fst (searchMore s) = s" by (auto simp: searchMore_def paging_stopped_def split: sum.split)
qed

lemma keep_paging: "page_inv (s\<lparr>s_query := q\<rparr>) = page_inv s" "page_inv (s\<lparr>s_descendant := d\<rparr>) = page_inv s"
  "page_inv (s\<lparr>s_baseurl := b, s_globalsLoading := g\<rparr>) = page_inv s"
  "paging_stopped n (s\<lparr>s_query := q\<rparr>) = paging_stopped n s" "paging_stopped n (s\<lparr>s_descendant := d\<rparr>) = paging_stopped n s"
  "paging_stopped n (s\<lparr>s_baseurl := b, s_globalsLoading := g\<rparr>) = paging_stopped n s"
  by (simp_all add: page_inv_def paging_stopped_def more_open_def more_asked_def)

interpretation library_run: stepper "search_step K" page_inv for K
proof
  fix s e assume s: "page_inv s"
  show "page_inv (search_step K s e)"
  proof (cases e)
    case (Remove_Filter_Tag x k)
    then show ?thesis using s removeFilterTag_push [of x k s] by (auto simp: search_step_def push_inv)
  qed (use s in \<open>auto simp: search_step_def search_inv keep_paging ensureGlobalLabels_def ask_inv searchMore_inv clearSearch_def push_inv page_answered_inv
    split: option.split\<close>)
qed

interpretation library_stopped: stepper "search_step K" "paging_stopped n" for K n
proof
  fix s e assume s: "paging_stopped n s"
  show "paging_stopped n (search_step K s e)"
  proof (cases e)
    case (Remove_Filter_Tag x k)
    then show ?thesis using s removeFilterTag_push [of x k s] by (auto simp: search_step_def push_inv)
  qed (use s in \<open>auto simp: search_step_def search_stopped keep_paging ensureGlobalLabels_def ask_inv searchMore_inv clearSearch_def push_inv
    answered_stopped split: option.split\<close>)
qed

lemma useSearch_inv: "page_inv (useSearch q d b c l ca)"
  by (simp add: page_inv_def more_open_def useSearch_def ensureGlobalLabels_def ask_def)

text \<open>
  C32. In every reachable state of the search at most one request for a further page is under way, and only while the page
  is marked as loading; all results are different nodes.  When such a request fails, the mark stays for ever and no further
  page is asked for again, whatever happens after that, new searches included.
\<close>

theorem one_page_at_a_time:
  assumes "s = foldl (search_step K) (useSearch q d b c l ca) evs"
  shows "length (more_open s) \<le> (if s_moreLoading s then 1 else 0) \<and> (\<forall>a \<in> set (s_results s). a < length (s_heap s)) \<and> distinct (s_results s)
    \<and> (\<forall>i e evs'. i < length (s_requests s) \<and> s_requests s ! i \<in> set (more_open s) \<longrightarrow>
        (let u = foldl (search_step K) s (Answered i (Inl e) # evs') in s_moreLoading u \<and> more_asked u = more_asked s))"
proof -
  have inv: "page_inv s" unfolding assms by (rule library_run.run_inv) (rule useSearch_inv)
  have "s_moreLoading u \<and> more_asked u = more_asked s"
    if i: "i < length (s_requests s)" "s_requests s ! i \<in> set (more_open s)" and u: "u = foldl (search_step K) s (Answered i (Inl e) # evs')" for i e evs' u
  proof -
    have o: "sq_open (s_requests s ! i)" "sq_purpose (s_requests s ! i) = For_More" using i(2) by (simp_all add: more_open_def)
    have "search_step K s (Answered i (Inl e)) = close_request i s"
      using i(1) o by (simp add: search_step_def answered_def Let_def handled_def)
    moreover have "0 < length (more_open s)" using i(2) by auto
    then have "s_moreLoading s" using inv by (cases "s_moreLoading s") (simp_all add: page_inv_def)
    then have "length (more_open s) \<le> 1" using inv by (simp add: page_inv_def)
    with \<open>0 < length (more_open s)\<close> have "length (more_open s) = 1" by linarith
    then have "paging_stopped (more_asked s) (close_request i s)"
      using \<open>s_moreLoading s\<close> close_open [OF i(1)] close_asked [OF i(1)] o by (simp add: paging_stopped_def) (simp add: close_request_def)
    ultimately have "paging_stopped (more_asked s) u"
      using library_stopped.run_inv [of "more_asked s" "close_request i s" K evs'] u by simp
    then show ?thesis by (simp add: paging_stopped_def)
  qed
  then show ?thesis using inv unfolding page_inv_def Let_def by blast
qed


section \<open>Reading the pages\<close>

definition page_nodes :: "jsval \<Rightarrow> jsval list" where
  "page_nodes v = (if truthy (js_prop v ''results'') then elements (js_prop v ''results'') else [])"

text \<open>An answer the handlers take without an exception.\<close>

definition page_ok :: "jsval \<Rightarrow> bool" where
  "page_ok v \<longleftrightarrow> \<not> nullish v \<and> (\<forall>c. snd (cacheData ''id'' v c) = None)
     \<and> (truthy (js_prop v ''labels'') \<longrightarrow> (\<exists>x. ids_of (js_prop (js_prop v ''labels'') ''channels'') = Inr x)
         \<and> (\<exists>x. ids_of (js_prop (js_prop v ''labels'') ''languages'') = Inr x))"

definition shown_nodes :: "library \<Rightarrow> jsval list" where
  "shown_nodes s = map (\<lambda>a. n_data (s_heap s ! a)) (s_results s)"

lemma page_ok_labels: "page_ok v \<Longrightarrow> \<exists>l. setAvailableLabels (js_prop v ''labels'') s = Inr (s\<lparr>s_labels := l\<rparr>)"
proof (cases "truthy (js_prop v ''labels'')")
  case True
  assume "page_ok v"
  then obtain x y where "ids_of (js_prop (js_prop v ''labels'') ''channels'') = Inr x" "ids_of (js_prop (js_prop v ''labels'') ''languages'') = Inr y"
    using True unfolding page_ok_def by blast
  then show ?thesis using True
    by (intro exI [of _ "JObj (obj_set ''languages'' y (obj_set ''channels'' x (own_properties (js_prop v ''labels''))))"]) (simp add: setAvailableLabels_def)
next
  case False
  then show ?thesis by (intro exI [of _ "s_labels s"]) (simp add: setAvailableLabels_def)
qed

lemma shown_new:
  assumes "new_nodes w s = (s1, as)" "results_valid s"
  shows "map (\<lambda>a. n_data (s_heap s1 ! a)) as = (if truthy w then elements w else [])"
    "map (\<lambda>a. n_data (s_heap s1 ! a)) (s_results s) = shown_nodes s" "s_results s1 = s_results s"
proof -
  obtain ns where ns: "ns = (if truthy w then elements w else [])" by simp
  have n: "s1 = s\<lparr>s_heap := s_heap s @ map (\<lambda>d. \<lparr>n_data = d, n_copies = None\<rparr>) ns\<rparr>" "as = [length (s_heap s)..<length (s_heap s) + length ns]"
    using assms(1) by (simp_all add: new_nodes_def Let_def ns)
  show "map (\<lambda>a. n_data (s_heap s1 ! a)) as = (if truthy w then elements w else [])"
    unfolding n ns [symmetric] by (intro nth_equalityI) (simp_all add: nth_append)
  show "map (\<lambda>a. n_data (s_heap s1 ! a)) (s_results s) = shown_nodes s" "s_results s1 = s_results s"
    using assms(2) by (simp_all add: n shown_nodes_def results_valid_def nth_append)
qed

text \<open>An answer on the first page replaces what is shown; one for a further page is appended to it.\<close>

lemma results_page:
  assumes "page_ok v" "results_valid s" "i < length (s_requests s)" "s_requests s ! i = \<lparr>sq_purpose = For_Results, sq_params = p, sq_open = True\<rparr>"
    and "u = search_step K s (Answered i (Inr v))"
  shows "shown_nodes u = page_nodes v \<and> s_more u = js_prop v ''more'' \<and> \<not> s_loading u \<and> s_moreLoading u = s_moreLoading s
    \<and> s_query u = s_query s \<and> s_requests u = (s_requests s)[i := \<lparr>sq_purpose = For_Results, sq_params = p, sq_open = False\<rparr>] \<and> results_valid u"
proof -
  obtain c where c: "cacheData ''id'' v (s_cache (close_request i s)) = (c, None)" using assms(1) by (metis page_ok_def prod.collapse)
  obtain t where t: "t = close_request i s\<lparr>s_cache := c\<rparr>" by simp
  have tq: "s_requests t = (s_requests s)[i := \<lparr>sq_purpose = For_Results, sq_params = p, sq_open = False\<rparr>]"
    and ts: "s_heap t = s_heap s" "s_results t = s_results s" "s_query t = s_query s" "s_moreLoading t = s_moreLoading s"
    by (simp_all add: t close_request_def assms(4))
  then have tv: "results_valid t" using assms(2) by (simp add: results_valid_def)
  obtain s1 as where n: "new_nodes (js_prop v ''results'') t = (s1, as)" by fastforce
  obtain l where l: "setAvailableLabels (js_prop v ''labels'') (s1\<lparr>s_results := as, s_more := js_prop v ''more''\<rparr>) =
      Inr (s1\<lparr>s_results := as, s_more := js_prop v ''more'', s_labels := l\<rparr>)" using page_ok_labels [OF assms(1)] by fastforce
  have "\<not> nullish v" using assms(1) by (simp add: page_ok_def)
  then have a: "arrived K For_Results v t = s1\<lparr>s_results := as, s_more := js_prop v ''more'', s_labels := l, s_loading := False\<rparr>"
    using l by (simp add: arrived_def results_arrived_def n Let_def)
  have u: "u = arrived K For_Results v t"
    using assms(3,4,5) c by (simp add: search_step_def answered_def Let_def handled_def answer_cached_def t)
  have "s_moreLoading s1 = s_moreLoading t" "s_query s1 = s_query t" "s_requests s1 = s_requests t"
    using n by (auto simp: new_nodes_def Let_def)
  then show ?thesis using shown_new [OF n tv] arrived_valid [OF tv, of K For_Results v] ts tq
    unfolding u by (simp add: a shown_nodes_def page_nodes_def)
qed

lemma further_page:
  assumes "page_ok v" "results_valid s" "get_searchTerms (s_query s) = Inr terms" "displaying terms" "\<not> s_moreLoading s" "truthy (s_more s)"
    and "u = foldl (search_step K) s [Search_More, Answered (length (s_requests s)) (Inr v)]"
  shows "shown_nodes u = shown_nodes s @ page_nodes v \<and> s_more u = js_prop v ''more'' \<and> s_loading u = s_loading s \<and> \<not> s_moreLoading u
    \<and> s_query u = s_query s \<and> s_requests u = s_requests s @ [\<lparr>sq_purpose = For_More, sq_params = s_more s, sq_open = False\<rparr>] \<and> results_valid u"
proof -
  obtain i where i: "i = length (s_requests s)" by simp
  obtain r where r: "r = search_step K s Search_More" by simp
  have r': "r = ask For_More (s_more s) (ask_progress (s_more s) (s\<lparr>s_moreLoading := True\<rparr>))"
    using assms(3-6) by (simp add: r search_step_def searchMore_def)
  have rq: "s_requests r = s_requests s @ [\<lparr>sq_purpose = For_More, sq_params = s_more s, sq_open = True\<rparr>]"
    by (simp add: r' ask_def ask_progress_def)
  obtain c where c: "cacheData ''id'' v (s_cache (close_request i r)) = (c, None)" using assms(1) by (metis page_ok_def prod.collapse)
  obtain t where t: "t = close_request i r\<lparr>s_cache := c\<rparr>" by simp
  have tq: "s_requests t = s_requests s @ [\<lparr>sq_purpose = For_More, sq_params = s_more s, sq_open = False\<rparr>]"
    by (simp add: t close_request_def rq i)
  have ts: "s_heap t = s_heap s" "s_results t = s_results s" "s_query t = s_query s" "s_loading t = s_loading s"
    by (simp_all add: t close_request_def r' ask_def ask_progress_def)
  then have tv: "results_valid t" "shown_nodes t = shown_nodes s" using assms(2) by (simp_all add: results_valid_def shown_nodes_def)
  obtain s1 as where n: "new_nodes (js_prop v ''results'') t = (s1, as)" by fastforce
  obtain l where l: "setAvailableLabels (js_prop v ''labels'') (s1\<lparr>s_results := s_results s1 @ as, s_more := js_prop v ''more''\<rparr>) =
      Inr (s1\<lparr>s_results := s_results s1 @ as, s_more := js_prop v ''more'', s_labels := l\<rparr>)" using page_ok_labels [OF assms(1)] by fastforce
  have "\<not> nullish v" using assms(1) by (simp add: page_ok_def)
  then have a: "arrived K For_More v t = s1\<lparr>s_results := s_results s1 @ as, s_more := js_prop v ''more'', s_labels := l, s_moreLoading := False\<rparr>"
    using l by (simp add: arrived_def more_arrived_def n Let_def)
  have "u = search_step K r (Answered i (Inr v))" using assms(7) by (simp add: r i)
  then have u: "u = arrived K For_More v t"
    using c rq by (simp add: search_step_def answered_def Let_def handled_def answer_cached_def t i)
  have "s_loading s1 = s_loading t" "s_query s1 = s_query t" "s_requests s1 = s_requests t" using n by (auto simp: new_nodes_def Let_def)
  then show ?thesis using shown_new [OF n tv(1)] arrived_valid [OF tv(1), of K For_More v] tv(2) ts tq
    unfolding u by (simp add: a shown_nodes_def page_nodes_def)
qed

fun page_events :: "nat \<Rightarrow> jsval list \<Rightarrow> search_event list" where
  "page_events n [] = []"
| "page_events n (v # vs) = Search_More # Answered n (Inr v) # page_events (Suc n) vs"

lemma further_pages:
  assumes "\<forall>v \<in> set vs. page_ok v" "\<forall>v \<in> set (butlast vs). truthy (js_prop v ''more'')"
    and "results_valid s" "get_searchTerms (s_query s) = Inr terms" "displaying terms" "\<not> s_moreLoading s" "vs \<noteq> [] \<longrightarrow> truthy (s_more s)"
    and "u = foldl (search_step K) s (page_events (length (s_requests s)) vs)"
  shows "shown_nodes u = shown_nodes s @ concat (map page_nodes vs) \<and> s_more u = (if vs = [] then s_more s else js_prop (last vs) ''more'')
    \<and> s_loading u = s_loading s \<and> \<not> s_moreLoading u \<and> s_query u = s_query s
    \<and> s_requests u = s_requests s @ map (\<lambda>m. \<lparr>sq_purpose = For_More, sq_params = m, sq_open = False\<rparr>) (butlast (s_more s # map (\<lambda>v. js_prop v ''more'') vs))"
  using assms
proof (induction vs arbitrary: s)
  case (Cons v vs)
  obtain t where t: "t = foldl (search_step K) s [Search_More, Answered (length (s_requests s)) (Inr v)]" by simp
  have f: "shown_nodes t = shown_nodes s @ page_nodes v" "s_more t = js_prop v ''more''" "s_loading t = s_loading s" "\<not> s_moreLoading t"
    "s_query t = s_query s" "s_requests t = s_requests s @ [\<lparr>sq_purpose = For_More, sq_params = s_more s, sq_open = False\<rparr>]" "results_valid t"
    using further_page [OF _ Cons.prems(3-6) _ t] Cons.prems(1,7) by auto
  have l: "length (s_requests t) = Suc (length (s_requests s))" by (simp add: f(6))
  have u: "u = foldl (search_step K) t (page_events (length (s_requests t)) vs)" using Cons.prems(8) t unfolding l by simp
  have m: "vs \<noteq> [] \<longrightarrow> truthy (s_more t)" using Cons.prems(2) f(2) by auto
  have "get_searchTerms (s_query t) = Inr terms" using Cons.prems(4) f(5) by simp
  then have "shown_nodes u = shown_nodes t @ concat (map page_nodes vs)" "s_more u = (if vs = [] then s_more t else js_prop (last vs) ''more'')"
    "s_loading u = s_loading t" "\<not> s_moreLoading u" "s_query u = s_query t"
    "s_requests u = s_requests t @ map (\<lambda>m. \<lparr>sq_purpose = For_More, sq_params = m, sq_open = False\<rparr>) (butlast (s_more t # map (\<lambda>v. js_prop v ''more'') vs))"
    using Cons.IH [OF _ _ f(7) _ Cons.prems(5) f(4) m u] Cons.prems(1,2) by (auto split: if_splits)
  then show ?case using f by simp
qed simp

text \<open>
  C31. The pages of a search are read in order: when the first page has arrived, each time the next one is asked for it is
  with the cursor of the page before, and when the answers have arrived the nodes shown are those of all the pages, in
  order, nothing is loading, and after a last page without a cursor nothing more is asked for.
\<close>

theorem pages_in_order:
  assumes "\<forall>v \<in> set (v1 # vs). page_ok v" "\<forall>v \<in> set (butlast (v1 # vs)). truthy (js_prop v ''more'')"
    and "results_valid s" "get_searchTerms (s_query s) = Inr terms" "displaying terms" "\<not> s_moreLoading s"
    and "i < length (s_requests s)" "s_requests s ! i = \<lparr>sq_purpose = For_Results, sq_params = p, sq_open = True\<rparr>"
    and "u = foldl (search_step K) s (Answered i (Inr v1) # page_events (length (s_requests s)) vs)"
  shows "shown_nodes u = concat (map page_nodes (v1 # vs)) \<and> \<not> s_loading u \<and> \<not> s_moreLoading u \<and> s_query u = s_query s
    \<and> map sq_params (drop (length (s_requests s)) (s_requests u)) = map (\<lambda>v. js_prop v ''more'') (butlast (v1 # vs))
    \<and> (\<not> truthy (js_prop (last (v1 # vs)) ''more'') \<longrightarrow> search_step K u Search_More = u)"
proof -
  obtain t where t: "t = search_step K s (Answered i (Inr v1))" by simp
  have f: "shown_nodes t = page_nodes v1" "s_more t = js_prop v1 ''more''" "\<not> s_loading t" "s_moreLoading t = s_moreLoading s"
    "s_query t = s_query s" "length (s_requests t) = length (s_requests s)" "results_valid t"
    using results_page [OF _ assms(3,7,8) t] assms(1) by auto
  have u: "u = foldl (search_step K) t (page_events (length (s_requests t)) vs)" using assms(9) by (simp add: t [symmetric] f(6))
  have m: "vs \<noteq> [] \<longrightarrow> truthy (s_more t)" using assms(2) f(2) by auto
  have q: "get_searchTerms (s_query t) = Inr terms" "\<not> s_moreLoading t" using assms(4,6) f(4,5) by simp_all
  have g: "shown_nodes u = shown_nodes t @ concat (map page_nodes vs)" "s_more u = (if vs = [] then s_more t else js_prop (last vs) ''more'')"
    "s_loading u = s_loading t" "\<not> s_moreLoading u" "s_query u = s_query t"
    "s_requests u = s_requests t @ map (\<lambda>m. \<lparr>sq_purpose = For_More, sq_params = m, sq_open = False\<rparr>) (butlast (s_more t # map (\<lambda>v. js_prop v ''more'') vs))"
    using further_pages [OF _ _ f(7) q(1) assms(5) q(2) m u] assms(1,2) by (auto split: if_splits)
  have "map sq_params (drop (length (s_requests s)) (s_requests u)) = butlast (s_more t # map (\<lambda>v. js_prop v ''more'') vs)"
    by (simp add: g(6) f(6) comp_def)
  moreover have "butlast (js_prop v1 ''more'' # map (\<lambda>v. js_prop v ''more'') vs) = map (\<lambda>v. js_prop v ''more'') (butlast (v1 # vs))"
    by (simp add: map_butlast)
  moreover have "search_step K u Search_More = u" if "\<not> truthy (js_prop (last (v1 # vs)) ''more'')"
    using that g(2) f(2) by (auto simp: search_step_def searchMore_def split: sum.split if_splits)
  ultimately show ?thesis using g f by simp
qed

end
