(* ===== verification/Learn_Samples.thy ===== *)
theory Learn_Samples
  imports Learn_Categories Learn_Pages
begin

text \<open>
  The properties of the learner's search at concrete inputs, and runs that show what its requests do when they overlap or fail.
\<close>

definition sample_constants :: label_constants where
  "sample_constants = \<lparr>LearningActivities = [], ResourcesNeededTypes = [], ContentLevels = [], AccessibilityCategories = [],
     Categories = [(''ALGEBRA'', ''m.a''), (''MATHEMATICS'', ''m''), (''SCIENCES'', ''s'')]\<rparr>"

theorem library_categories_witness:
  "find_category (generateLibraryCategoriesLookup sample_constants (js_array [JStr ''m.a''])) [''MATHEMATICS'', ''ALGEBRA''] = Some ''m.a''"
proof -
  obtain K where K: "K = sample_constants" by simp
  obtain c where c: "c = js_array [JStr ''m.a'']" by simp
  have v: "obj_values (Categories K) = [''m.a'', ''m'', ''s'']" unfolding K by code_simp
  have s: "shown_paths K c ''m.a'' = [''m'', ''m.a'']" "shown_paths K c ''m'' = [''m'']" "shown_paths K c ''s'' = []"
    unfolding K c by code_simp+
  have k: "key_of (invert (Categories K)) ''m'' = ''MATHEMATICS''" "key_of (invert (Categories K)) ''m.a'' = ''ALGEBRA''"
    unfolding K by code_simp+
  have "inj_on (key_of (invert (Categories K))) (\<Union>v \<in> set (obj_values (Categories K)). set (shown_paths K c v))"
    unfolding v by (auto simp: s k inj_on_def)
  note lib = conjunct2 [OF library_categories [OF this], THEN bspec, of "''m.a''"]
  have "''m.a'' \<in> set (label_names c)" "hd (js_split CHR ''.'' ''m.a'') \<noteq> []" unfolding c by code_simp+
  moreover have "label_paths [] (js_split CHR ''.'' ''m.a'') = [''m'', ''m.a'']" by code_simp
  ultimately show ?thesis using lib v k unfolding K c by simp
qed

definition sample_card :: "string \<Rightarrow> string \<Rightarrow> content_node" where
  "sample_card c l = \<lparr>n_data = JObj [(''content_id'', JStr c), (''lang'', JObj [(''id'', JStr l)])], n_copies = None\<rparr>"

theorem one_card_per_resource_witness:
  "\<exists>h. deduplicateResources ''fr'' [0, 1, 2] [sample_card ''c'' ''en'', sample_card ''d'' ''en'', sample_card ''c'' ''FR''] = (h, [2, 1])
     \<and> (\<exists>ds. n_copies (h ! 2) = Some ds \<and> hd ds = 2 \<and> mset ds = {#0, 2#}) \<and> n_copies (h ! 1) = None"
proof -
  obtain cs where cs: "cs = [sample_card ''c'' ''en'', sample_card ''d'' ''en'', sample_card ''c'' ''FR'']" by simp
  obtain h ps where d: "deduplicateResources ''fr'' [0, 1, 2] cs = (h, ps)" by fastforce
  have "snd (deduplicateResources ''fr'' [0, 1, 2] cs) = [2, 1]" unfolding cs by code_simp
  then have ps: "ps = [2, 1]" using d by simp
  have "\<forall>a \<in> set [0, 1, 2]. a < length cs" unfolding cs by simp
  note card = one_card_per_resource [OF this d]
  have "map (\<lambda>a. content_id (cs ! a)) [0, 1, 2] = [''c'', ''d'', ''c'']" unfolding cs by code_simp
  then have f: "filter (\<lambda>a. content_id (cs ! a) = content_id (cs ! 2)) [0, 1, 2] = [0, 2]"
    "filter (\<lambda>a. content_id (cs ! a) = content_id (cs ! 1)) [0, 1, 2] = [1]" by simp_all
  have "best_copy ''fr'' [0, 2] cs h 2" "best_copy ''fr'' [1] cs h 1" using card unfolding ps by (simp_all only: f list.set ball_simps) 
  moreover have "n_copies (cs ! 1) = None" by (simp add: cs sample_card_def)
  ultimately have "(\<exists>ds. n_copies (h ! 2) = Some ds \<and> hd ds = 2 \<and> mset ds = {#0, 2#}) \<and> n_copies (h ! 1) = None"
    unfolding best_copy_def by fastforce
  then show ?thesis using d unfolding cs ps by blast
qed

definition sample_node :: "string \<Rightarrow> string \<Rightarrow> jsval" where
  "sample_node i t = JObj [(''id'', JStr i), (''title'', JStr t)]"

definition sample_page :: "jsval list \<Rightarrow> jsval \<Rightarrow> jsval" where
  "sample_page ns cursor = JObj [(''results'', js_array ns), (''more'', cursor)]"

theorem answers_are_cached_witness:
  "\<exists>c. cacheData ''id'' (sample_page [sample_node ''a'' ''A'', sample_node ''a'' ''B''] JNull) [] = (c, None)
     \<and> cached c ''a'' ''title'' = Some (JStr ''B'')
     \<and> (\<exists>r. fetchModel (\<lambda>_ _. []) (JStr ''a'') [(''lang'', JStr ''fr'')] c = Resolved (JObj r) \<and> obj_get r ''title'' = Some (JStr ''B''))"
proof -
  obtain v where v: "v = sample_page [sample_node ''a'' ''A'', sample_node ''a'' ''B''] JNull" by simp
  obtain c e where d: "cacheData ''id'' v [] = (c, e)" by fastforce
  have "snd (cacheData ''id'' v []) = None" unfolding v by code_simp
  then have d: "cacheData ''id'' v [] = (c, None)" using d by simp
  note a = answers_are_cached [OF d, of "\<lambda>_ _. []"]
  have l: "listing ''id'' v = [[(''id'', JStr ''a''), (''title'', JStr ''A'')], [(''id'', JStr ''a''), (''title'', JStr ''B'')]]"
    unfolding v by code_simp
  have "cached c ''a'' ''title'' = Some (JStr ''B'')"
    using conjunct1 [OF a] unfolding l by (simp add: newest_def attr_def obj_get_def)
  moreover have i: "js_string (JStr ''a'') = ''a''" by simp
  have "\<exists>r. fetchModel (\<lambda>_ _. []) (JStr ''a'') [(''lang'', JStr ''fr'')] c = Resolved (JObj r)
      \<and> (\<forall>k. obj_get r k = map_option cloneDeep (cached c ''a'' k))"
    using conjunct2 [OF a, THEN spec, of "JStr ''a''", THEN spec, of "[(''lang'', JStr ''fr'')]"] unfolding l i by (simp add: attr_def obj_get_def)
  ultimately show ?thesis using d unfolding v by fastforce
qed

definition sample_terms :: search_terms where
  "sample_terms = \<lparr>t_filters = [(''channels'', [(''c1'', True), (''c2'', True)])], t_keywords = JStr ''sun''\<rparr>"

definition empty_constants :: label_constants where
  "empty_constants = \<lparr>LearningActivities = [], ResourcesNeededTypes = [], ContentLevels = [], AccessibilityCategories = [], Categories = []\<rparr>"

theorem chosen_filters_reach_server_witness:
  "\<exists>p. s_requests (search_step empty_constants (push_terms sample_terms (useSearch [] None JUndef False True []))
         (Navigated (set_searchTerms sample_terms []))) ! 1 = \<lparr>sq_purpose = For_Results, sq_params = JObj p, sq_open = True\<rparr>
     \<and> attr p ''keywords'' = JStr ''sun'' \<and> (\<exists>vs. attr p ''channels'' = js_array (map JStr vs) \<and> set vs = {''c1'', ''c2''})"
proof -
  obtain s q u where s: "s = useSearch [] None JUndef False True []" and q: "q = set_searchTerms sample_terms (s_query s)"
    and u: "u = search_step empty_constants (push_terms sample_terms s) (Navigated q)" by simp
  have k: "set (obj_keys (filter_of sample_terms ''channels'')) = {''c1'', ''c2''}" by code_simp
  have t: "terms_ok sample_terms" "t_keywords sample_terms = JStr ''sun''" by code_simp+
  have w: "''sun'' \<noteq> [] \<or> (\<exists>k \<in> set searchKeys. obj_keys (filter_of sample_terms k) \<noteq> [])" by simp
  note chosen_filters_reach_server [OF t w q u]
  note all = this [THEN conjunct2, THEN conjunct2, THEN conjunct2]
  have n: "s_descendant s = None" "s_query s = []" "length (s_requests s) = 1" by (simp_all add: s useSearch_def ensureGlobalLabels_def ask_def)
  have "\<exists>p. s_requests u = s_requests s @ [\<lparr>sq_purpose = For_Results, sq_params = JObj p, sq_open = True\<rparr>]
    \<and> (\<forall>k \<in> set searchKeys. let ks = set (obj_keys (filter_of sample_terms k)) in
           if ks = {} \<or> k = ''channels'' \<and> s_descendant s \<noteq> None \<or> k = ''categories'' \<and> (AllCategories \<in> ks \<or> NoCategories \<in> ks)
           then attr p k = JUndef else \<exists>vs. attr p k = js_array (map JStr vs) \<and> set vs = ks)
    \<and> attr p ''keywords'' = (if ''sun'' = [] then JUndef else JStr ''sun'')"
    using all by (rule ex_forward) (elim conjE, intro conjI, assumption+)
  then obtain p where p: "s_requests u = s_requests s @ [\<lparr>sq_purpose = For_Results, sq_params = JObj p, sq_open = True\<rparr>]"
    "\<forall>k \<in> set searchKeys. let ks = set (obj_keys (filter_of sample_terms k)) in
           if ks = {} \<or> k = ''channels'' \<and> s_descendant s \<noteq> None \<or> k = ''categories'' \<and> (AllCategories \<in> ks \<or> NoCategories \<in> ks)
           then attr p k = JUndef else \<exists>vs. attr p k = js_array (map JStr vs) \<and> set vs = ks" "attr p ''keywords'' = JStr ''sun''"
    by (elim exE conjE) simp
  have "''channels'' \<in> set searchKeys" by (simp add: searchKeys_def)
  from bspec [OF p(2) this] have "\<exists>vs. attr p ''channels'' = js_array (map JStr vs) \<and> set vs = {''c1'', ''c2''}"
    unfolding Let_def k n(1) by (auto split: if_splits)
  moreover have "s_requests u ! 1 = \<lparr>sq_purpose = For_Results, sq_params = JObj p, sq_open = True\<rparr>"
    using p(1) n(3) by (simp add: nth_append)
  ultimately show ?thesis using p(3) unfolding u q n(2) unfolding s by blast
qed

lemma sample_node_cached: "snd (cacheData ''id'' (sample_node i t) c) = None"
  by (simp add: cacheData.simps sample_node_def js_prop_JObj obj_get_def truthy_def Let_def)

lemma for_of_no_error: "(\<And>x c. x \<in> set xs \<Longrightarrow> snd (f x c) = None) \<Longrightarrow> snd (for_of f xs c) = None"
proof (induction xs arbitrary: c)
  case (Cons x xs)
  then have "snd (f x c) = None" by simp
  then obtain d where "f x c = (d, None)" by (cases "f x c") simp
  with Cons show ?case by simp
qed simp

lemma sample_page_ok:
  assumes "\<forall>n \<in> set ns. \<exists>i t. n = sample_node i t" "length ns \<le> 4294967295"
  shows "page_ok (sample_page ns m)"
proof -
  have "snd (cacheData ''id'' (sample_page ns m) c) = None" for c
  proof -
    have "iterated (js_array ns) = Some ns" using elements_js_array [OF assms(2)] by (simp add: iterated_def js_array_def)
    moreover have "truthy (js_array ns)" by (simp add: js_array_def truthy_def)
    moreover have "js_prop (sample_page ns m) ''id'' = JUndef" "js_prop (sample_page ns m) ''results'' = js_array ns"
      by (simp_all add: sample_page_def js_prop_JObj obj_get_def)
    moreover have "snd (for_of (cacheData ''id'') ns c) = None" using assms(1) sample_node_cached by (intro for_of_no_error) auto
    ultimately show ?thesis by (simp add: cacheData.simps [of _ "sample_page ns m"]) (simp add: sample_page_def truthy_def)
  qed
  then show ?thesis by (simp add: page_ok_def sample_page_def nullish_def js_prop_JObj obj_get_def truthy_def)
qed

definition sample_search :: library where
  "sample_search = search_step empty_constants (useSearch [] None JUndef False False []) (Navigated [(''channels'', JStr ''c'')])"

theorem pages_in_order_witness:
  "shown_nodes (foldl (search_step empty_constants) sample_search
      (Answered 1 (Inr (sample_page [sample_node ''a'' ''A''] (JStr ''2''))) # page_events 2 [sample_page [sample_node ''b'' ''B''] JNull]))
    = [sample_node ''a'' ''A'', sample_node ''b'' ''B'']"
proof -
  obtain u where u: "u = foldl (search_step empty_constants) sample_search (Answered 1 (Inr (sample_page [sample_node ''a'' ''A''] (JStr ''2'')))
      # page_events (length (s_requests sample_search)) [sample_page [sample_node ''b'' ''B''] JNull])" by simp
  have v: "\<forall>v \<in> set [sample_page [sample_node ''a'' ''A''] (JStr ''2''), sample_page [sample_node ''b'' ''B''] JNull]. page_ok v"
    by (auto intro!: sample_page_ok; blast)
  have m: "\<forall>v \<in> set (butlast [sample_page [sample_node ''a'' ''A''] (JStr ''2''), sample_page [sample_node ''b'' ''B''] JNull]). truthy (js_prop v ''more'')"
    by code_simp
  have l: "length (s_requests sample_search) = 2" "results_valid sample_search" "\<not> s_moreLoading sample_search" by code_simp+
  have "case get_searchTerms (s_query sample_search) of Inl e \<Rightarrow> False | Inr t \<Rightarrow> displaying t" by code_simp
  then obtain terms where t: "get_searchTerms (s_query sample_search) = Inr terms" "displaying terms" by (auto split: sum.splits)
  have r: "s_requests sample_search ! 1 = \<lparr>sq_purpose = For_Results, sq_params = sq_params (s_requests sample_search ! 1), sq_open = True\<rparr>" by code_simp
  have "1 < length (s_requests sample_search)" using l(1) by simp
  note pages_in_order [OF v m l(2) t l(3) this r u]
  moreover have "concat (map page_nodes [sample_page [sample_node ''a'' ''A''] (JStr ''2''), sample_page [sample_node ''b'' ''B''] JNull])
      = [sample_node ''a'' ''A'', sample_node ''b'' ''B'']" by code_simp
  ultimately show ?thesis unfolding u l(1) by (simp only:)
qed

text \<open>The first search after a page failed gets no further pages.\<close>

theorem one_page_at_a_time_witness:
  "s_moreLoading (foldl (search_step empty_constants) (useSearch [] None JUndef False False [])
     [Navigated [(''channels'', JStr ''c'')], Answered 1 (Inr (sample_page [] (JStr ''2''))), Search_More, Answered 2 (Inl (PlainError [])),
      Navigated [(''channels'', JStr ''d'')], Answered 3 (Inr (sample_page [] (JStr ''2''))), Search_More])"
proof -
  obtain s where s: "s = foldl (search_step empty_constants) (useSearch [] None JUndef False False [])
     [Navigated [(''channels'', JStr ''c'')], Answered 1 (Inr (sample_page [] (JStr ''2''))), Search_More]" by simp
  have o: "2 < length (s_requests s)" "s_requests s ! 2 \<in> set (more_open s)" unfolding s by code_simp+
  note one_page_at_a_time [OF s, THEN conjunct2, THEN conjunct2, THEN conjunct2, THEN spec, of 2, THEN spec, of "PlainError []",
      THEN spec, of "[Navigated [(''channels'', JStr ''d'')], Answered 3 (Inr (sample_page [] (JStr ''2''))), Search_More]",
      THEN mp, OF conjI, OF o]
  then show ?thesis unfolding Let_def s by simp
qed

section \<open>Overlapping and failing requests\<close>

text \<open>
  Whichever search is answered last is shown: when a search is changed while it is under way and the answers arrive in the
  other order, the page shows the results of the first search for the terms of the second.
\<close>

lemma stale_answer_wins:
  "let s = foldl (search_step empty_constants) (useSearch [] None JUndef False False [])
     [Navigated [(''channels'', JStr ''c'')], Navigated [(''channels'', JStr ''d'')],
      Answered 2 (Inr (sample_page [sample_node ''in_d'' ''D''] JNull)), Answered 1 (Inr (sample_page [sample_node ''in_c'' ''C''] JNull))]
   in s_query s = [(''channels'', JStr ''d'')] \<and> shown_nodes s = [sample_node ''in_c'' ''C''] \<and> \<not> searchLoading (s\<lparr>s_globalsLoading := False\<rparr>)"
  by code_simp

text \<open>A search that fails is shown as loading until another one succeeds.\<close>

lemma failed_search_keeps_loading:
  "s_loading (foldl (search_step empty_constants) (useSearch [] None JUndef False False [])
     [Navigated [(''channels'', JStr ''c'')], Answered 1 (Inl (PlainError [])), Navigated []])"
  by code_simp

text \<open>A filter that is repeated in the URL is an array of the query, and nothing is searched at all.\<close>

lemma repeated_filter_throws:
  "search (useSearch [(''channels'', js_array [JStr ''c'', JStr ''d''])] None JUndef False False []) =
     (useSearch [(''channels'', js_array [JStr ''c'', JStr ''d''])] None JUndef False False [],
      Some (TypeError ''query[key].split is not a function''))"
  by code_simp

end
