(* ===== verification/Learner_Resources.thy ===== *)
theory Learner_Resources
  imports Content_Nodes
begin

text \<open>
  The classes, lessons and quizzes of a learner and what can be resumed
  (\<open>kolibri/plugins/learn/assets/src/composables/useLearnerResources.js\<close>).  The refs of the module are one store, together with the
  cache of content nodes and the map of progress the module writes to.  The answers have the shape the API gives
  them: every class with assignments has a list of quizzes and one of lessons, and progress is a number.
\<close>

section \<open>Classes\<close>

record lesson_resource =
  rs_contentnode_id :: string
  rs_progress :: jsnum
  rs_contentnode :: jsval

record lesson =
  ls_id :: string
  ls_collection :: string
  ls_is_active :: bool
  ls_resources :: "lesson_resource list"
  ls_resource_progress :: jsnum
  ls_total_resources :: jsnum

record quiz_progress =
  qp_started :: bool
  qp_closed :: bool

record quiz =
  qz_id :: string
  qz_collection :: string
  qz_active :: bool
  qz_progress :: "quiz_progress option"

record assignments =
  as_exams :: "quiz list"
  as_lessons :: "lesson list"

record classroom =
  cl_id :: string
  cl_assignments :: "assignments option"

record learner_store =
  st_heap :: "content_node list"
  st_resumable :: "nat list"
  st_moreResumable :: jsval
  st_classes :: "classroom list"
  st_cache :: node_cache
  st_progress :: progress_map

section \<open>Storing answers\<close>

definition cache_in :: "jsval \<Rightarrow> learner_store \<Rightarrow> learner_store \<times> js_error option" where
  "cache_in v s = (case cacheData ''id'' v (st_cache s) of (c, e) \<Rightarrow> (s\<lparr>st_cache := c\<rparr>, e))"

definition shown_objects :: "jsval list \<Rightarrow> learner_store \<Rightarrow> learner_store \<times> nat list" where
  "shown_objects nodes s = (s\<lparr>st_heap := st_heap s @ map (\<lambda>d. \<lparr>n_data = d, n_copies = None\<rparr>) nodes\<rparr>,
     [length (st_heap s)..<length (st_heap s) + length nodes])"

definition setResumableContentNodes :: "jsval list \<Rightarrow> jsval \<Rightarrow> learner_store \<Rightarrow> learner_store \<times> js_error option" where
  "setResumableContentNodes nodes m s =
     (let (s1, as) = shown_objects nodes s
      in cache_in (js_array nodes) (s1\<lparr>st_resumable := as, st_moreResumable := m\<rparr>))"

definition addResumableContentNodes :: "jsval list \<Rightarrow> jsval \<Rightarrow> learner_store \<Rightarrow> learner_store \<times> js_error option" where
  "addResumableContentNodes nodes m s =
     (let (s1, as) = shown_objects nodes s
      in cache_in (js_array nodes) (s1\<lparr>st_resumable := st_resumable s1 @ as, st_moreResumable := m\<rparr>))"

definition cacheResource :: "lesson_resource \<Rightarrow> learner_store \<Rightarrow> learner_store \<times> js_error option" where
  "cacheResource r s =
     (if truthy (rs_contentnode r) \<and> truthy (js_prop (rs_contentnode r) ''content_id'') then
        (case cache_in (rs_contentnode r) s of
           (s1, Some e) \<Rightarrow> (s1, Some e)
         | (s1, None) \<Rightarrow> (s1\<lparr>st_progress := setContentNodeProgress (js_string (js_prop (rs_contentnode r) ''content_id''))
               (rs_progress r) (st_progress s1)\<rparr>, None))
      else (s, None))"

definition cacheLessonResources :: "lesson \<Rightarrow> learner_store \<Rightarrow> learner_store \<times> js_error option" where
  "cacheLessonResources l = for_of cacheResource (ls_resources l)"

definition setClassData :: "classroom \<Rightarrow> learner_store \<Rightarrow> learner_store \<times> js_error option" where
  "setClassData c s = (case cl_assignments c of
       None \<Rightarrow> (s, Some (TypeError ''Cannot read properties of undefined''))
     | Some a \<Rightarrow> for_of cacheLessonResources (as_lessons a) s)"

definition setClasses :: "classroom list \<Rightarrow> learner_store \<Rightarrow> learner_store \<times> js_error option" where
  "setClasses cs s = for_of setClassData cs (s\<lparr>st_classes := cs\<rparr>)"

section \<open>What the learner has to do\<close>

definition assignments_of :: "(assignments \<Rightarrow> 'a list) \<Rightarrow> classroom list \<Rightarrow> 'a list js_result" where
  "assignments_of f cs = bind_result (map_result (\<lambda>c. case cl_assignments c of
       None \<Rightarrow> Inl (TypeError ''Cannot read properties of undefined'') | Some a \<Rightarrow> Inr (f a)) cs) (\<lambda>xs. Inr (concat xs))"

definition classesQuizzes :: "learner_store \<Rightarrow> quiz list js_result" where
  "classesQuizzes s = assignments_of as_exams (st_classes s)"

definition activeClassesLessons :: "learner_store \<Rightarrow> lesson list js_result" where
  "activeClassesLessons s = assignments_of as_lessons (st_classes s)"

record class_resource =
  cr_contentNodeId :: string
  cr_progress :: jsnum
  cr_lessonId :: string
  cr_classId :: string
  cr_contentNode :: jsval

definition resources_of_lesson :: "string \<Rightarrow> lesson \<Rightarrow> class_resource list" where
  "resources_of_lesson classId l = map (\<lambda>r. \<lparr>cr_contentNodeId = rs_contentnode_id r, cr_progress = rs_progress r,
     cr_lessonId = ls_id l, cr_classId = classId, cr_contentNode = rs_contentnode r\<rparr>) (ls_resources l)"

definition classesResources :: "learner_store \<Rightarrow> class_resource list js_result" where
  "classesResources s = bind_result (map_result (\<lambda>c. case cl_assignments c of
       None \<Rightarrow> Inl (TypeError ''Cannot read properties of undefined'')
     | Some a \<Rightarrow> Inr (concat (map (resources_of_lesson (cl_id c)) (as_lessons a)))) (st_classes s)) (\<lambda>xs. Inr (concat xs))"

definition activeClassesQuizzes :: "learner_store \<Rightarrow> quiz list js_result" where
  "activeClassesQuizzes s = bind_result (classesQuizzes s) (\<lambda>qs. Inr (filter qz_active qs))"

text \<open>A callback of \<open>filter\<close> or \<open>some\<close> that reads the progress of a quiz throws when there is none.\<close>

definition quiz_state :: "quiz \<Rightarrow> quiz_progress js_result" where
  "quiz_state q = (case qz_progress q of Some p \<Rightarrow> Inr p | None \<Rightarrow> Inl (TypeError ''Cannot read properties of undefined''))"

definition resumableClassesQuizzes :: "learner_store \<Rightarrow> quiz list js_result" where
  "resumableClassesQuizzes s = bind_result (activeClassesQuizzes s) (\<lambda>qs.
     bind_result (map_result quiz_state qs) (\<lambda>ps.
       Inr (map fst (filter (\<lambda>(q, p). qp_started p \<and> \<not> qp_closed p) (zip qs ps)))))"

definition resumableClassesResources :: "learner_store \<Rightarrow> class_resource list js_result" where
  "resumableClassesResources s = bind_result (classesResources s) (\<lambda>rs. Inr (filter (\<lambda>r.
     cr_progress r \<noteq> Fin 0 \<and> cr_progress r \<noteq> NaN \<and> num_lt (cr_progress r) (Fin 1) \<and> truthy (cr_contentNode r)) rs))"

text \<open>\<open>some\<close> stops at the first unclosed quiz, so a later one without progress does not matter.\<close>

fun some_result :: "('a \<Rightarrow> bool js_result) \<Rightarrow> 'a list \<Rightarrow> bool js_result" where
  "some_result f [] = Inr False"
| "some_result f (x # xs) = bind_result (f x) (\<lambda>b. if b then Inr True else some_result f xs)"

definition learnerFinishedAllClasses :: "learner_store \<Rightarrow> bool js_result" where
  "learnerFinishedAllClasses s = bind_result (activeClassesLessons s) (\<lambda>ls.
     bind_result (activeClassesQuizzes s) (\<lambda>qs.
       bind_result (some_result (\<lambda>q. bind_result (quiz_state q) (\<lambda>p. Inr (\<not> qp_closed p))) qs) (\<lambda>hasUnfinishedQuiz.
         Inr (\<not> (list_ex (\<lambda>l. num_lt (ls_resource_progress l) (ls_total_resources l)) ls \<or> hasUnfinishedQuiz)))))"

definition getClass :: "string \<Rightarrow> learner_store \<Rightarrow> classroom option" where
  "getClass classId s = find (\<lambda>c. cl_id c = classId) (st_classes s)"

definition getClassActiveLessons :: "string \<Rightarrow> learner_store \<Rightarrow> lesson list" where
  "getClassActiveLessons classId s = (case getClass classId s of
       None \<Rightarrow> []
     | Some c \<Rightarrow> (case cl_assignments c of None \<Rightarrow> [] | Some a \<Rightarrow> filter ls_is_active (as_lessons a)))"

definition getClassActiveQuizzes :: "string \<Rightarrow> learner_store \<Rightarrow> quiz list" where
  "getClassActiveQuizzes classId s = (case getClass classId s of
       None \<Rightarrow> []
     | Some c \<Rightarrow> (case cl_assignments c of None \<Rightarrow> [] | Some a \<Rightarrow> filter qz_active (as_exams a)))"

section \<open>Links\<close>

record page_link =
  pl_name :: string
  pl_params :: attrs

definition getClassLessonLink :: "lesson option \<Rightarrow> page_link option" where
  "getClassLessonLink l = map_option (\<lambda>l. \<lparr>pl_name = ''LESSON_PLAYLIST'',
     pl_params = [(''classId'', JStr (ls_collection l)), (''lessonId'', JStr (ls_id l))]\<rparr>) l"

definition getClassQuizLink :: "quiz option \<Rightarrow> page_link option" where
  "getClassQuizLink q = (case q of None \<Rightarrow> None | Some q \<Rightarrow> (case qz_progress q of
       None \<Rightarrow> None
     | Some p \<Rightarrow> Some (if qp_closed p then
           \<lparr>pl_name = ''EXAM_REPORT_VIEWER'', pl_params = [(''classId'', JStr (qz_collection q)), (''examId'', JStr (qz_id q)),
             (''questionNumber'', jint 0), (''questionInteraction'', jint 0), (''tryIndex'', jint 0)]\<rparr>
         else \<lparr>pl_name = ''EXAM_VIEWER'', pl_params = [(''classId'', JStr (qz_collection q)), (''examId'', JStr (qz_id q)),
             (''questionNumber'', jint 0)]\<rparr>)))"

section \<open>Fetching\<close>

text \<open>The handlers of the answers, and the parameters of the requests for what can be resumed.\<close>

definition fetchClass_answered :: "string \<Rightarrow> classroom \<Rightarrow> learner_store \<Rightarrow> learner_store \<times> js_error option" where
  "fetchClass_answered classId c s = setClassData c (s\<lparr>st_classes := filter (\<lambda>c. cl_id c \<noteq> classId) (st_classes s) @ [c]\<rparr>)"

definition fetchClasses_answered :: "classroom list \<Rightarrow> learner_store \<Rightarrow> learner_store" where
  "fetchClasses_answered cs s = s\<lparr>st_classes := cs\<rparr>"

definition fetchLesson_answered :: "lesson \<Rightarrow> learner_store \<Rightarrow> learner_store \<times> js_error option" where
  "fetchLesson_answered = cacheLessonResources"

definition resume_params :: attrs where
  "resume_params = [(''resume'', JBool True), (''max_results'', jint 12), (''ordering'', JStr ''-last_interacted'')]"

definition fetchResumableContentNodes :: "(string \<Rightarrow> jsval \<Rightarrow> string) \<Rightarrow> request" where
  "fetchResumableContentNodes urls = fetchResume urls (Some resume_params)"

definition fetchMoreResumableContentNodes :: "(string \<Rightarrow> jsval \<Rightarrow> string) \<Rightarrow> learner_store \<Rightarrow> request option" where
  "fetchMoreResumableContentNodes urls s =
     (if truthy (st_moreResumable s) then Some (fetchResume urls (Some (case st_moreResumable s of JObj m \<Rightarrow> m | _ \<Rightarrow> []))) else None)"

text \<open>\<open>fetchResume\<close> caches the answer first; the nodes are then shown, unless there are none.\<close>

definition resumable_answered ::
  "(jsval list \<Rightarrow> jsval \<Rightarrow> learner_store \<Rightarrow> learner_store \<times> js_error option) \<Rightarrow> jsval \<Rightarrow> learner_store \<Rightarrow> learner_store \<times> js_error option" where
  "resumable_answered store v s = (case cache_in v s of
       (s1, Some e) \<Rightarrow> (s1, Some e)
     | (s1, None) \<Rightarrow>
         if nullish v then (s1, Some (TypeError ''Cannot destructure''))
         else (let nodes = (if truthy (js_prop v ''results'') then elements (js_prop v ''results'') else []) in
               if nodes = [] then (s1, None)
               else store nodes (if js_prop v ''more'' = JUndef then JNull else js_prop v ''more'') s1))"

definition fetchResumable_answered :: "jsval \<Rightarrow> learner_store \<Rightarrow> learner_store \<times> js_error option" where
  "fetchResumable_answered = resumable_answered setResumableContentNodes"

definition fetchMoreResumable_answered :: "jsval \<Rightarrow> learner_store \<Rightarrow> learner_store \<times> js_error option" where
  "fetchMoreResumable_answered = resumable_answered addResumableContentNodes"

definition resumableContentNodes :: "string \<Rightarrow> learner_store \<Rightarrow> learner_store \<times> nat list" where
  "resumableContentNodes current s =
     (let (h, ps) = deduplicateResources current (st_resumable s) (st_heap s) in (s\<lparr>st_heap := h\<rparr>, ps))"

end
