(* ===== verification/Download_Requests.thy ===== *)
theory Download_Requests
  imports Content_Nodes
begin

text \<open>
  Requests for downloads (\<open>kolibri/plugins/learn/assets/src/composables/useDownloadRequests.js\<close>): the map of requests the pages
  share, their creation and removal, and the polling of their state.  One use of the composable is modelled; the calls, the
  timer, the answers and the unmounting of its component are events.  The user, the facility, the device and the date
  are arguments.
\<close>

record download =
  dl_id :: jsval
  dl_contentnode_id :: string
  dl_status :: string
  dl_metadata :: attrs
  dl_origin :: attrs

datatype download_call = Poll_Requests | List_Requests | Create_Request | Delete_Request jsval | Ask_Freespace

record download_request =
  dq_call :: download_call
  dq_params :: jsval
  dq_open :: bool

datatype download_notice = Download_Started | Resource_Removed

record downloads =
  dr_map :: "download jsobj"
  dr_loading :: bool
  dr_availableSpace :: jsval
  dr_poller :: "nat option"
  dr_timers :: "(nat \<times> int) list"
  dr_next :: nat
  dr_pollingParams :: jsval
  dr_requests :: "download_request list"
  dr_notices :: "download_notice list"

definition new_downloads :: "download jsobj \<Rightarrow> downloads" where
  "new_downloads m = \<lparr>dr_map = m, dr_loading = True, dr_availableSpace = jint 0, dr_poller = None, dr_timers = [], dr_next = 1,
     dr_pollingParams = JObj [], dr_requests = [], dr_notices = []\<rparr>"

definition call :: "download_call \<Rightarrow> jsval \<Rightarrow> downloads \<Rightarrow> downloads" where
  "call c params s = s\<lparr>dr_requests := dr_requests s @ [\<lparr>dq_call = c, dq_params = params, dq_open = True\<rparr>]\<rparr>"

section \<open>Polling\<close>

definition store_downloads :: "download list \<Rightarrow> downloads \<Rightarrow> downloads" where
  "store_downloads ds s = s\<lparr>dr_map := fold (\<lambda>d. obj_set (dl_contentnode_id d) d) ds (dr_map s), dr_loading := False\<rparr>"

definition defaultPollingInterval :: int where "defaultPollingInterval = 30000"

definition pollingInterval :: "download \<Rightarrow> int" where
  "pollingInterval d = (if dl_status d = ''PENDING'' \<or> dl_status d = ''FAILED'' then 5000
     else if dl_status d = ''IN_PROGRESS'' then 1000 else defaultPollingInterval)"

definition calculatePollingInterval :: "downloads \<Rightarrow> int" where
  "calculatePollingInterval s = foldl (\<lambda>interval d. min interval (pollingInterval d)) defaultPollingInterval (obj_values (dr_map s))"

definition pollRequests :: "downloads \<Rightarrow> downloads" where
  "pollRequests s = s\<lparr>dr_timers := dr_timers s @ [(dr_next s, calculatePollingInterval s)], dr_poller := Some (dr_next s), dr_next := Suc (dr_next s)\<rparr>"

definition clearPolling :: "downloads \<Rightarrow> downloads" where
  "clearPolling s = s\<lparr>dr_timers := filter (\<lambda>(i, d). dr_poller s \<noteq> Some i) (dr_timers s)\<rparr>"

definition restartPolling :: "downloads \<Rightarrow> downloads" where
  "restartPolling s = (if dr_poller s \<noteq> None then pollRequests (clearPolling s) else s)"

definition fetchUserDownloadRequests :: "download_call \<Rightarrow> jsval \<Rightarrow> downloads \<Rightarrow> downloads" where
  "fetchUserDownloadRequests = call"

definition pollUserDownloadRequests :: "jsval \<Rightarrow> downloads \<Rightarrow> downloads" where
  "pollUserDownloadRequests params s = fetchUserDownloadRequests Poll_Requests params (s\<lparr>dr_pollingParams := params\<rparr>)"

definition timer_fires :: "nat \<Rightarrow> downloads \<Rightarrow> downloads" where
  "timer_fires i s = (if i \<in> fst ` set (dr_timers s)
     then fetchUserDownloadRequests Poll_Requests (dr_pollingParams s) (s\<lparr>dr_timers := filter (\<lambda>(j, d). j \<noteq> i) (dr_timers s)\<rparr>) else s)"

section \<open>Adding and removing\<close>

record requested_node =
  rn_id :: string
  rn_title :: jsval
  rn_file_sizes :: "jsnum list"
  rn_learning_activities :: jsval

definition pending_download :: "requested_node \<Rightarrow> attrs \<Rightarrow> download" where
  "pending_download n origin = \<lparr>dl_id = JUndef, dl_contentnode_id = rn_id n, dl_status = ''PENDING'',
     dl_metadata = [(''title'', rn_title n), (''file_size'', JNum (foldl num_add (Fin 0) (rn_file_sizes n))),
       (''learning_activities'', rn_learning_activities n)],
     dl_origin = origin\<rparr>"

definition addDownloadRequest :: "requested_node \<Rightarrow> attrs \<Rightarrow> downloads \<Rightarrow> downloads" where
  "addDownloadRequest n origin s =
     (let d = pending_download n origin; s1 = call Create_Request JUndef (s\<lparr>dr_map := obj_set (rn_id n) d (dr_map s)\<rparr>)
      in s1\<lparr>dr_notices := dr_notices s1 @ [Download_Started]\<rparr>)"

text \<open>\<open>deleteModel\<close> throws without an id, before anything is removed.\<close>

definition removeDownloadRequest :: "string \<Rightarrow> downloads \<Rightarrow> downloads \<times> js_error option" where
  "removeDownloadRequest contentNodeId s = (case obj_get (dr_map s) contentNodeId of
       None \<Rightarrow> (s, None)
     | Some d \<Rightarrow>
         if \<not> truthy (dl_id d) then (s, Some (TypeError ''An id must be specified''))
         else (let s1 = call (Delete_Request (dl_id d)) JUndef s
               in (s1\<lparr>dr_map := obj_del (dl_contentnode_id d) (dr_map s1), dr_notices := dr_notices s1 @ [Resource_Removed]\<rparr>, None)))"

text \<open>The number returned is the constant 0; the space is set when the answer arrives.\<close>

definition fetchAvailableFreespace :: "downloads \<Rightarrow> downloads \<times> int" where
  "fetchAvailableFreespace s = (call Ask_Freespace (JObj [(''path'', JStr ''Content'')]) s, 0)"

section \<open>Events\<close>

datatype download_answer = Requests_Are "download list" | Request_Created download | Request_Deleted | Freespace_Is jsval | Call_Failed

definition close_call :: "nat \<Rightarrow> downloads \<Rightarrow> downloads" where
  "close_call i s = s\<lparr>dr_requests := (dr_requests s)[i := (dr_requests s ! i)\<lparr>dq_open := False\<rparr>]\<rparr>"

definition download_handled :: "download_call \<Rightarrow> download_answer \<Rightarrow> downloads \<Rightarrow> downloads" where
  "download_handled c a s = (case (c, a) of
       (Poll_Requests, Requests_Are ds) \<Rightarrow> pollRequests (store_downloads ds s)
     | (List_Requests, Requests_Are ds) \<Rightarrow> store_downloads ds s
     | (Create_Request, Request_Created d) \<Rightarrow> restartPolling (s\<lparr>dr_map := obj_set (dl_contentnode_id d) d (dr_map s)\<rparr>)
     | (Ask_Freespace, Freespace_Is v) \<Rightarrow> s\<lparr>dr_availableSpace := v\<rparr>
     | _ \<Rightarrow> s)"

text \<open>An answer is of the kind its call asks for, or the call fails.\<close>

definition answer_fits :: "download_call \<Rightarrow> download_answer \<Rightarrow> bool" where
  "answer_fits c a \<longleftrightarrow> (case a of
       Requests_Are _ \<Rightarrow> c = Poll_Requests \<or> c = List_Requests
     | Request_Created _ \<Rightarrow> c = Create_Request
     | Request_Deleted \<Rightarrow> (case c of Delete_Request _ \<Rightarrow> True | _ \<Rightarrow> False)
     | Freespace_Is _ \<Rightarrow> c = Ask_Freespace
     | Call_Failed \<Rightarrow> True)"

definition download_answered :: "nat \<Rightarrow> download_answer \<Rightarrow> downloads \<Rightarrow> downloads" where
  "download_answered i a s = (if i < length (dr_requests s) \<and> dq_open (dr_requests s ! i) \<and> answer_fits (dq_call (dr_requests s ! i)) a
     then download_handled (dq_call (dr_requests s ! i)) a (close_call i s) else s)"

datatype download_event =
    Start_Polling jsval
  | List_Downloads jsval
  | Add_Download requested_node attrs
  | Remove_Download string
  | Get_Freespace
  | Timer_Fires nat
  | Call_Answered nat download_answer
  | Unmounted

definition download_step :: "downloads \<Rightarrow> download_event \<Rightarrow> downloads" where
  "download_step s ev = (case ev of
       Start_Polling params \<Rightarrow> pollUserDownloadRequests params s
     | List_Downloads params \<Rightarrow> fetchUserDownloadRequests List_Requests params s
     | Add_Download n origin \<Rightarrow> addDownloadRequest n origin s
     | Remove_Download i \<Rightarrow> fst (removeDownloadRequest i s)
     | Get_Freespace \<Rightarrow> fst (fetchAvailableFreespace s)
     | Timer_Fires i \<Rightarrow> timer_fires i s
     | Call_Answered i a \<Rightarrow> download_answered i a s
     | Unmounted \<Rightarrow> clearPolling s)"

end
