(* ===== verification/Learner_Properties.thy ===== *)
theory Learner_Properties
  imports Learner_Resources Download_Requests Learn_Properties
begin

text \<open>
  What storing the classes of a learner and polling the requests for downloads guarantee, and where the polling fails.
\<close>

section \<open>The resources of the classes\<close>

definition with_node :: "lesson_resource \<Rightarrow> bool" where
  "with_node r \<longleftrightarrow> truthy (rs_contentnode r) \<and> truthy (js_prop (rs_contentnode r) ''content_id'')"

definition resource_content :: "lesson_resource \<Rightarrow> string" where
  "resource_content r = js_string (js_prop (rs_contentnode r) ''content_id'')"

definition assigned :: "classroom list \<Rightarrow> lesson_resource list" where
  "assigned cs = concat (map (\<lambda>c. case cl_assignments c of None \<Rightarrow> [] | Some a \<Rightarrow> concat (map ls_resources (as_lessons a))) cs)"

definition store_resource :: "lesson_resource \<Rightarrow> learner_store \<Rightarrow> learner_store" where
  "store_resource r s = s\<lparr>st_cache := fold (merge_node ''id'') (listing ''id'' (rs_contentnode r)) (st_cache s),
     st_progress := setContentNodeProgress (resource_content r) (rs_progress r) (st_progress s)\<rparr>"

lemma cacheResource_stores: "cacheResource r s = (s', None) \<Longrightarrow> s' = fold store_resource (filter with_node [r]) s"
  by (auto simp: cacheResource_def cache_in_def with_node_def store_resource_def resource_content_def
      dest: cacheData_listing split: if_splits prod.splits option.splits)

lemma setClasses_stores:
  assumes "setClasses cs s = (s', None)"
  shows "s' = fold store_resource (filter with_node (assigned cs)) (s\<lparr>st_classes := cs\<rparr>)"
proof -
  have single: "concat (map (\<lambda>r. filter with_node [r]) rs) = filter with_node rs" for rs
    by (induction rs) simp_all
  have lesson: "t' = fold store_resource (filter with_node (ls_resources l)) t" if "cacheLessonResources l t = (t', None)" for l t t'
    using for_of_fold [where h = "\<lambda>r. filter with_node [r]", OF that [unfolded cacheLessonResources_def] cacheResource_stores]
    by (simp only: single)
  have room: "t' = fold store_resource (filter with_node (assigned [c])) t" if ok: "setClassData c t = (t', None)" for c t t'
  proof -
    obtain a where a: "cl_assignments c = Some a" using ok by (cases "cl_assignments c") (simp_all add: setClassData_def)
    then have "for_of cacheLessonResources (as_lessons a) t = (t', None)" using ok by (simp add: setClassData_def)
    from for_of_fold [OF this lesson] show ?thesis using a by (simp add: assigned_def filter_concat comp_def)
  qed
  from for_of_fold [OF assms [unfolded setClasses_def] room] show ?thesis
    by (simp add: filter_concat [symmetric] comp_def assigned_def map_concat filter_concat)
qed

lemma stored_parts:
  "st_classes (fold store_resource rs s) = st_classes s"
  "st_cache (fold store_resource rs s) = fold (merge_node ''id'') (concat (map (\<lambda>r. listing ''id'' (rs_contentnode r)) rs)) (st_cache s)"
  "st_progress (fold store_resource rs s)
    = fold (\<lambda>(i, p). setContentNodeProgress i p) (map (\<lambda>r. (resource_content r, rs_progress r)) rs) (st_progress s)"
  by (induction rs arbitrary: s) (simp_all add: store_resource_def)

lemma progress_step: "obj_get (setContentNodeProgress j p m) i = (if i \<noteq> j then obj_get m i else Some (case obj_get m i of
     None \<Rightarrow> p | Some q \<Rightarrow> if q = Fin 0 \<or> q = NaN \<or> num_lt q p then p else q))"
  by (auto simp: setContentNodeProgress_def split: option.split)

lemma greatest_recorded:
  assumes "\<forall>(j, p) \<in> set ps. \<exists>q. p = Fin q \<and> 0 \<le> q" and "\<forall>j p. obj_get m j = Some p \<longrightarrow> (\<exists>q. p = Fin q)"
  shows "obj_get (fold (\<lambda>(j, p). setContentNodeProgress j p) ps m) i =
     (let qs = {q. obj_get m i = Some (Fin q) \<or> (i, Fin q) \<in> set ps} in if qs = {} then None else Some (Fin (Max qs)))"
  using assms(1)
proof (induction ps rule: rev_induct)
  case Nil
  show ?case
  proof (cases "obj_get m i")
    case (Some p)
    with assms(2) obtain q where "p = Fin q" by blast
    with Some show ?thesis by (simp add: Let_def)
  qed simp
next
  case (snoc x ps)
  obtain j q where x: "x = (j, Fin q)" and q: "0 \<le> q" using snoc.prems by fastforce
  define qs where "qs = {q. obj_get m i = Some (Fin q) \<or> (i, Fin q) \<in> set ps}"
  have "qs \<subseteq> {q. obj_get m i = Some (Fin q)} \<union> (\<lambda>(j, p). case p of Fin q \<Rightarrow> q | _ \<Rightarrow> 0) ` set ps"
    by (force simp: qs_def image_iff)
  moreover have "finite {q. obj_get m i = Some (Fin q)}" by (cases "obj_get m i") (auto intro: finite_subset [of _ "{THE q. obj_get m i = Some (Fin q)}"])
  ultimately have fin: "finite qs" using finite_subset by blast
  have ih: "obj_get (fold (\<lambda>(j, p). setContentNodeProgress j p) ps m) i = (if qs = {} then None else Some (Fin (Max qs)))"
    using snoc by (simp add: qs_def Let_def)
  have "{q. obj_get m i = Some (Fin q) \<or> (i, Fin q) \<in> set (ps @ [x])} = (if i = j then insert q qs else qs)"
    using x by (auto simp: qs_def)
  then have "(let qs = {q. obj_get m i = Some (Fin q) \<or> (i, Fin q) \<in> set (ps @ [x])} in if qs = {} then None else Some (Fin (Max qs)))
      = (if i \<noteq> j then (if qs = {} then None else Some (Fin (Max qs))) else Some (Fin (if qs = {} then q else max q (Max qs))))"
    using fin by (simp add: Let_def)
  moreover have "obj_get (fold (\<lambda>(j, p). setContentNodeProgress j p) (ps @ [x]) m) i
      = (if i \<noteq> j then (if qs = {} then None else Some (Fin (Max qs))) else Some (Fin (if qs = {} then q else max q (Max qs))))"
    using q ih by (cases "i = j") (simp_all add: x progress_step max_def)
  ultimately show ?case by simp
qed

text \<open>
  C36. Once the classes of a learner are stored, the content node of every resource of their lessons that came with it is
  fetched by id from the cache, without a request, and the progress known for a content id is the greatest of what was known
  and what the classes say: it never goes down.
\<close>

theorem class_resources_ready:
  assumes "setClasses cs s = (s', None)"
    and "\<forall>r \<in> set (assigned cs). \<exists>q. rs_progress r = Fin q \<and> 0 \<le> q" and "\<forall>i p. obj_get (st_progress s) i = Some p \<longrightarrow> (\<exists>q. p = Fin q)"
  shows "st_classes s' = cs
    \<and> (\<forall>r \<in> set (assigned cs). with_node r \<longrightarrow> (\<forall>m params. rs_contentnode r = JObj m \<and> truthy (js_prop (JObj m) ''id'') \<longrightarrow>
        (\<exists>n. fetchModel urls (js_prop (JObj m) ''id'') params (st_cache s') = Resolved n)))
    \<and> (\<forall>i. obj_get (st_progress s') i =
        (let qs = {q. obj_get (st_progress s) i = Some (Fin q) \<or> (\<exists>r \<in> set (assigned cs). with_node r \<and> resource_content r = i \<and> rs_progress r = Fin q)}
         in if qs = {} then None else Some (Fin (Max qs))))"
proof (intro conjI ballI impI allI)
  note s' = setClasses_stores [OF assms(1)]
  show "st_classes s' = cs" unfolding s' stored_parts by simp
  show "\<exists>n. fetchModel urls (js_prop (JObj m) ''id'') params (st_cache s') = Resolved n"
    if r: "r \<in> set (assigned cs)" "with_node r" and m: "rs_contentnode r = JObj m \<and> truthy (js_prop (JObj m) ''id'')" for r m params
  proof -
    have "m \<in> set (listing ''id'' (rs_contentnode r))" using m by (simp add: listing.simps [of _ "JObj m"])
    then have "js_string (attr m ''id'') \<in> (\<lambda>m. js_string (attr m ''id'')) ` set (concat (map (\<lambda>r. listing ''id'' (rs_contentnode r)) (filter with_node (assigned cs))))"
      using r by auto
    then have "obj_get (st_cache s') (js_string (attr m ''id'')) \<noteq> None" unfolding s' stored_parts cached_ids by blast
    then show ?thesis by (auto simp: fetchModel_def js_prop_JObj attr_def split: option.split)
  qed
  show "obj_get (st_progress s') i =
        (let qs = {q. obj_get (st_progress s) i = Some (Fin q) \<or> (\<exists>r \<in> set (assigned cs). with_node r \<and> resource_content r = i \<and> rs_progress r = Fin q)}
         in if qs = {} then None else Some (Fin (Max qs)))" for i
  proof -
    have e: "(i, Fin q) \<in> set (map (\<lambda>r. (resource_content r, rs_progress r)) (filter with_node (assigned cs)))
        \<longleftrightarrow> (\<exists>r \<in> set (assigned cs). with_node r \<and> resource_content r = i \<and> rs_progress r = Fin q)" for q
      by force
    show ?thesis unfolding s' stored_parts e [symmetric] using assms(2,3) by (subst greatest_recorded) auto
  qed
qed

definition sample_resource :: "string \<Rightarrow> jsnum \<Rightarrow> lesson_resource" where
  "sample_resource i p = \<lparr>rs_contentnode_id = i, rs_progress = p, rs_contentnode = JObj [(''id'', JStr i), (''content_id'', JStr ''c'')]\<rparr>"

definition sample_classes :: "classroom list" where
  "sample_classes = [\<lparr>cl_id = ''k'', cl_assignments = Some \<lparr>as_exams = [], as_lessons = [\<lparr>ls_id = ''l'', ls_collection = ''k'', ls_is_active = True,
     ls_resources = [sample_resource ''m'' (Fin 3), sample_resource ''n'' (Fin 2)], ls_resource_progress = Fin 0, ls_total_resources = Fin 2\<rparr>]\<rparr>\<rparr>]"

definition empty_store :: learner_store where
  "empty_store = \<lparr>st_heap = [], st_resumable = [], st_moreResumable = JNull, st_classes = [], st_cache = [], st_progress = []\<rparr>"

theorem class_resources_ready_witness: "obj_get (st_progress (fst (setClasses sample_classes empty_store))) ''c'' = Some (Fin 3)"
proof -
  have a: "assigned sample_classes = [sample_resource ''m'' (Fin 3), sample_resource ''n'' (Fin 2)]" by (simp add: assigned_def sample_classes_def)
  have "snd (setClasses sample_classes empty_store) = None" by code_simp
  then have ok: "setClasses sample_classes empty_store = (fst (setClasses sample_classes empty_store), None)" by (simp add: prod_eq_iff)
  have p: "\<forall>r \<in> set (assigned sample_classes). \<exists>q. rs_progress r = Fin q \<and> 0 \<le> q" by (simp add: a sample_resource_def)
  have m: "\<forall>i p. obj_get (st_progress empty_store) i = Some p \<longrightarrow> (\<exists>q. p = Fin q)" by (simp add: empty_store_def)
  have n: "with_node (sample_resource i q)" "resource_content (sample_resource i q) = ''c''" "rs_progress (sample_resource i q) = q" for i q
    by (simp_all add: with_node_def resource_content_def sample_resource_def js_prop_JObj obj_get_def truthy_def)
  have "{q. obj_get (st_progress empty_store) ''c'' = Some (Fin q) \<or>
      (\<exists>r \<in> set (assigned sample_classes). with_node r \<and> resource_content r = ''c'' \<and> rs_progress r = Fin q)} = {3, 2}"
    by (auto simp: a n empty_store_def)
  then show ?thesis using class_resources_ready [OF ok p m, THEN conjunct2, THEN conjunct2, rule_format, of "''c''"]
    by (simp add: Let_def)
qed

text \<open>When nothing can be resumed any more, what could be is still shown.\<close>

lemma stale_nodes_stay: "fst (fetchResumable_answered (JObj [(''results'', js_array []), (''more'', JNull)]) s) = s"
proof -
  have i: "iterated (js_array []) = Some []" by code_simp
  have "cacheData ''id'' (JObj [(''results'', js_array []), (''more'', JNull)]) c = (c, None)" for c
    using i by (simp add: cacheData.simps js_prop_JObj obj_get_def truthy_def)
  moreover have "elements (js_array []) = []" by code_simp
  ultimately show ?thesis
    by (simp add: fetchResumable_answered_def resumable_answered_def cache_in_def nullish_def js_prop_JObj obj_get_def)
qed

section \<open>Polling goes on\<close>

definition polling_call :: "download_request \<Rightarrow> bool" where
  "polling_call r \<longleftrightarrow> dq_open r \<and> dq_call r = Poll_Requests"

text \<open>The loops of polling: each is a pending timer or a request under way.\<close>

definition loops :: "downloads \<Rightarrow> nat" where
  "loops s = length (dr_timers s) + length (filter polling_call (dr_requests s))"

definition timers_fresh :: "downloads \<Rightarrow> bool" where
  "timers_fresh s \<longleftrightarrow> distinct (map fst (dr_timers s)) \<and> (\<forall>(i, d) \<in> set (dr_timers s). i < dr_next s \<and> d \<in> {1000, 5000, 30000})"

definition is_start :: "download_event \<Rightarrow> bool" where
  "is_start ev \<longleftrightarrow> (case ev of Start_Polling _ \<Rightarrow> True | _ \<Rightarrow> False)"

definition undisturbed :: "download_event \<Rightarrow> bool" where
  "undisturbed ev \<longleftrightarrow> (case ev of Unmounted \<Rightarrow> False | Call_Answered _ Call_Failed \<Rightarrow> False | _ \<Rightarrow> True)"

lemma interval_foldl:
  "n = 1000 \<or> n = 5000 \<or> n = 30000 \<Longrightarrow> foldl (\<lambda>interval d. min interval (pollingInterval d)) n ds =
    (if \<exists>d \<in> set ds. dl_status d = ''IN_PROGRESS'' then 1000
     else if \<exists>d \<in> set ds. dl_status d = ''PENDING'' \<or> dl_status d = ''FAILED'' then min n 5000 else n)"
proof (induction ds arbitrary: n)
  case (Cons d ds)
  have "min n (pollingInterval d) \<in> {1000, 5000, 30000}" using Cons.prems by (auto simp: pollingInterval_def defaultPollingInterval_def)
  then have "foldl (\<lambda>interval d. min interval (pollingInterval d)) (min n (pollingInterval d)) ds =
    (if \<exists>d \<in> set ds. dl_status d = ''IN_PROGRESS'' then 1000
     else if \<exists>d \<in> set ds. dl_status d = ''PENDING'' \<or> dl_status d = ''FAILED'' then min (min n (pollingInterval d)) 5000 else min n (pollingInterval d))"
    using Cons.IH [of "min n (pollingInterval d)"] by simp
  then show ?case using Cons.prems by (elim disjE) (simp_all add: pollingInterval_def defaultPollingInterval_def)
qed simp

lemma polling_interval: "calculatePollingInterval s =
    (if \<exists>k d. obj_get (dr_map s) k = Some d \<and> dl_status d = ''IN_PROGRESS'' then 1000
     else if \<exists>k d. obj_get (dr_map s) k = Some d \<and> (dl_status d = ''PENDING'' \<or> dl_status d = ''FAILED'') then 5000 else 30000)"
  unfolding calculatePollingInterval_def defaultPollingInterval_def
  by (subst interval_foldl) (auto simp: set_obj_values)

lemma loops_call: "loops (call c p s) = loops s + (if c = Poll_Requests then 1 else 0)"
  by (simp add: loops_def call_def polling_call_def)

lemma loops_poll: "loops (pollRequests s) = Suc (loops s)"
  by (simp add: loops_def pollRequests_def)

lemma filter_ids: "distinct (map fst ts) \<Longrightarrow> length ts \<le> Suc (length (filter (\<lambda>(i, d). po \<noteq> Some i) ts))"
proof (induction ts)
  case (Cons t ts)
  obtain i d where t: "t = (i, d)" by fastforce
  show ?case
  proof (cases "po = Some i")
    case True
    then have "filter (\<lambda>(j, d). po \<noteq> Some j) ts = ts" using Cons.prems t by (intro filter_True) (force simp: image_iff)
    then show ?thesis using t True by simp
  qed (use Cons t in simp)
qed simp

lemma loops_restart: "timers_fresh s \<Longrightarrow> loops s \<le> loops (restartPolling s)"
proof -
  assume "timers_fresh s"
  then have "length (dr_timers s) \<le> Suc (length (filter (\<lambda>(i, d). dr_poller s \<noteq> Some i) (dr_timers s)))"
    by (intro filter_ids) (simp add: timers_fresh_def)
  then show ?thesis by (simp add: restartPolling_def loops_poll) (simp add: clearPolling_def loops_def)
qed

lemma loops_cong: "dr_timers s = dr_timers t \<Longrightarrow> dr_requests s = dr_requests t \<Longrightarrow> loops s = loops t"
  by (simp add: loops_def)

lemma loops_close: "i < length (dr_requests s) \<Longrightarrow> polling_call (dr_requests s ! i) \<Longrightarrow> Suc (loops (close_call i s)) = loops s"
  "i < length (dr_requests s) \<Longrightarrow> \<not> polling_call (dr_requests s ! i) \<Longrightarrow> loops (close_call i s) = loops s"
proof -
  have "\<not> polling_call ((dr_requests s ! i)\<lparr>dq_open := False\<rparr>)" by (simp add: polling_call_def)
  then show "i < length (dr_requests s) \<Longrightarrow> polling_call (dr_requests s ! i) \<Longrightarrow> Suc (loops (close_call i s)) = loops s"
    "i < length (dr_requests s) \<Longrightarrow> \<not> polling_call (dr_requests s ! i) \<Longrightarrow> loops (close_call i s) = loops s"
    using filter_nth_ne [of i "dr_requests s" polling_call] by (simp_all add: loops_def close_call_def filter_update)
qed

lemma fresh_poll: "timers_fresh s \<Longrightarrow> timers_fresh (pollRequests s)"
  using polling_interval [of s] by (auto simp: timers_fresh_def pollRequests_def dest: order.strict_trans)

lemma fresh_filter: "timers_fresh s \<Longrightarrow> timers_fresh (s\<lparr>dr_timers := filter P (dr_timers s)\<rparr>)"
  by (auto simp: timers_fresh_def distinct_map_filter)

lemma fresh_cong: "dr_timers s = dr_timers t \<Longrightarrow> dr_next s = dr_next t \<Longrightarrow> timers_fresh s = timers_fresh t"
  by (simp add: timers_fresh_def)

lemma fresh_restart: "timers_fresh s \<Longrightarrow> timers_fresh (restartPolling s)"
  by (simp add: restartPolling_def clearPolling_def fresh_poll fresh_filter)

lemma timer_removed: "distinct (map fst ts) \<Longrightarrow> i \<in> fst ` set ts \<Longrightarrow> Suc (length (filter (\<lambda>(j, d). j \<noteq> i) ts)) = length ts"
proof (induction ts)
  case (Cons t ts)
  obtain j d where t: "t = (j, d)" by fastforce
  show ?case
  proof (cases "j = i")
    case True
    then have "filter (\<lambda>(j, d). j \<noteq> i) ts = ts" using Cons.prems t by (intro filter_True) (force simp: image_iff)
    then show ?thesis using t True by simp
  qed (use Cons t in auto)
qed simp

lemma handled_loops:
  assumes "timers_fresh s" "answer_fits c a" "a \<noteq> Call_Failed"
  shows "loops s + (if c = Poll_Requests then 1 else 0) \<le> loops (download_handled c a s) \<and> timers_fresh (download_handled c a s)"
proof -
  have st: "timers_fresh (store_downloads ds s)" "loops (store_downloads ds s) = loops s" for ds
    using assms(1) fresh_cong [of "store_downloads ds s" s] loops_cong [of "store_downloads ds s" s] by (simp_all add: store_downloads_def)
  have cr: "timers_fresh (s\<lparr>dr_map := m\<rparr>)" "loops (s\<lparr>dr_map := m\<rparr>) = loops s" for m
    using assms(1) fresh_cong [of "s\<lparr>dr_map := m\<rparr>" s] loops_cong [of "s\<lparr>dr_map := m\<rparr>" s] by simp_all
  show ?thesis
  proof (cases a)
    case (Requests_Are ds)
    then show ?thesis using assms(2) st by (auto simp: answer_fits_def download_handled_def loops_poll fresh_poll)
  next
    case (Request_Created d)
    then show ?thesis using assms(2) cr loops_restart [OF cr(1)] fresh_restart [OF cr(1)]
      by (simp add: answer_fits_def download_handled_def)
  next
    case (Freespace_Is v)
    then show ?thesis using assms(1,2) fresh_cong [of "s\<lparr>dr_availableSpace := v\<rparr>" s] loops_cong [of "s\<lparr>dr_availableSpace := v\<rparr>" s]
      by (simp add: answer_fits_def download_handled_def)
  qed (use assms in \<open>auto simp: answer_fits_def download_handled_def split: download_call.splits\<close>)
qed

lemma step_loops:
  assumes "timers_fresh s" "undisturbed ev"
  shows "loops s + (if is_start ev then 1 else 0) \<le> loops (download_step s ev) \<and> timers_fresh (download_step s ev)"
proof (cases ev)
  case (Add_Download n origin)
  then show ?thesis using assms(1)
    by (simp add: download_step_def addDownloadRequest_def is_start_def Let_def call_def loops_def timers_fresh_def polling_call_def)
next
  case (Timer_Fires i)
  then show ?thesis using assms(1) timer_removed [of "dr_timers s" i] fresh_filter [OF assms(1), of "\<lambda>(j, d). j \<noteq> i"]
    by (auto simp: download_step_def timer_fires_def is_start_def fetchUserDownloadRequests_def call_def loops_def polling_call_def timers_fresh_def)
next
  case (Call_Answered i a)
  show ?thesis
  proof (cases "i < length (dr_requests s) \<and> dq_open (dr_requests s ! i) \<and> answer_fits (dq_call (dr_requests s ! i)) a")
    case True
    have "timers_fresh (close_call i s)" using assms(1) by (simp add: close_call_def timers_fresh_def)
    moreover have "a \<noteq> Call_Failed" using assms(2) Call_Answered by (auto simp: undisturbed_def)
    ultimately show ?thesis using True Call_Answered handled_loops [of "close_call i s" "dq_call (dr_requests s ! i)" a] loops_close [of i s]
      by (auto simp: download_step_def download_answered_def is_start_def polling_call_def split: if_splits)
  qed (use Call_Answered assms(1) in \<open>auto simp: download_step_def download_answered_def is_start_def\<close>)
qed (use assms in \<open>auto simp: download_step_def pollUserDownloadRequests_def fetchUserDownloadRequests_def is_start_def loops_def call_def
    polling_call_def timers_fresh_def undisturbed_def removeDownloadRequest_def fetchAvailableFreespace_def Let_def split: option.split\<close>)


text \<open>
  C37. Polling of the download requests goes on: as long as no call fails and the component is not unmounted, each start of
  polling leaves a timer or a request of its own that goes on for ever, whatever is added, removed and answered.  Timers last
  one, five or thirty seconds; the time chosen is one second when something is being downloaded, else five when
  something waits or has failed, else thirty.  When a timer fires, the requests are asked for with the latest parameters.
\<close>

theorem downloads_are_polled:
  assumes "\<forall>ev \<in> set evs. undisturbed ev" and "s = foldl download_step (new_downloads m) evs"
  shows "length (filter is_start evs) \<le> loops s
    \<and> (\<forall>(i, d) \<in> set (dr_timers s). d \<in> {1000, 5000, 30000}
        \<and> dr_requests (download_step s (Timer_Fires i)) = dr_requests s @ [\<lparr>dq_call = Poll_Requests, dq_params = dr_pollingParams s, dq_open = True\<rparr>])
    \<and> calculatePollingInterval s =
        (if \<exists>k d. obj_get (dr_map s) k = Some d \<and> dl_status d = ''IN_PROGRESS'' then 1000
         else if \<exists>k d. obj_get (dr_map s) k = Some d \<and> (dl_status d = ''PENDING'' \<or> dl_status d = ''FAILED'') then 5000 else 30000)"
proof -
  have "length (filter is_start evs) \<le> loops s \<and> timers_fresh s"
    using assms
  proof (induction evs arbitrary: s rule: rev_induct)
    case Nil
    then show ?case by (simp add: new_downloads_def timers_fresh_def)
  next
    case (snoc ev evs)
    let ?t = "foldl download_step (new_downloads m) evs"
    have "length (filter is_start evs) \<le> loops ?t \<and> timers_fresh ?t" using snoc.prems(1) by (intro snoc.IH) simp_all
    moreover have "s = download_step ?t ev" "undisturbed ev" using snoc.prems by simp_all
    ultimately show ?case using step_loops [of ?t ev] by (cases "is_start ev") simp_all
  qed
  moreover have "dr_requests (download_step s (Timer_Fires i)) = dr_requests s @ [\<lparr>dq_call = Poll_Requests, dq_params = dr_pollingParams s, dq_open = True\<rparr>]"
    if "(i, d) \<in> set (dr_timers s)" for i d
    using that by (force simp: download_step_def timer_fires_def fetchUserDownloadRequests_def call_def)
  ultimately show ?thesis using polling_interval [of s] unfolding timers_fresh_def by fast
qed

definition sample_download :: "string \<Rightarrow> string \<Rightarrow> download" where
  "sample_download i st = \<lparr>dl_id = JStr (''r'' @ i), dl_contentnode_id = i, dl_status = st, dl_metadata = [], dl_origin = []\<rparr>"

theorem downloads_are_polled_witness:
  "1 \<le> loops (foldl download_step (new_downloads []) [Start_Polling JNull, Call_Answered 0 (Requests_Are [sample_download ''n'' ''IN_PROGRESS'']), Timer_Fires 1])"
  using downloads_are_polled [OF _ refl, of "[Start_Polling JNull, Call_Answered 0 (Requests_Are [sample_download ''n'' ''IN_PROGRESS'']), Timer_Fires 1]" "[]"]
  by (simp add: undisturbed_def is_start_def)

section \<open>Where polling goes wrong\<close>

text \<open>A download that is added while a request of the polling is under way starts a second loop.\<close>

definition sample_requested :: requested_node where
  "sample_requested = \<lparr>rn_id = ''n'', rn_title = JStr ''N'', rn_file_sizes = [], rn_learning_activities = JUndef\<rparr>"

lemma adding_doubles_polling:
  "loops (foldl download_step (new_downloads []) [Start_Polling JNull, Call_Answered 0 (Requests_Are []), Timer_Fires 1,
     Add_Download sample_requested [], Call_Answered 2 (Request_Created (sample_download ''n'' ''PENDING'')), Call_Answered 1 (Requests_Are [])]) = 2"
  by code_simp

text \<open>Unmounting while a request of the polling is under way does not end it: its answer sets the next timer.\<close>

lemma polling_outlives_component:
  "loops (foldl download_step (new_downloads []) [Start_Polling JNull, Unmounted, Call_Answered 0 (Requests_Are [])]) = 1"
  by code_simp

text \<open>One failing request ends the polling.\<close>

lemma failure_ends_polling:
  "loops (foldl download_step (new_downloads []) [Start_Polling JNull, Call_Answered 0 (Requests_Are []), Timer_Fires 1, Call_Answered 1 Call_Failed]) = 0"
  by code_simp

text \<open>A download that was just added cannot be removed before the server has answered: removing it throws.\<close>

lemma removing_too_early_throws:
  "snd (removeDownloadRequest ''n'' (download_step (new_downloads []) (Add_Download sample_requested []))) = Some (TypeError ''An id must be specified'')"
  by code_simp

text \<open>One the server does not list any more stays in the map.\<close>

lemma finished_download_stays:
  "obj_get (dr_map (foldl download_step (new_downloads []) [Start_Polling JNull, Call_Answered 0 (Requests_Are [sample_download ''n'' ''IN_PROGRESS'']),
     Timer_Fires 1, Call_Answered 1 (Requests_Are [])])) ''n'' = Some (sample_download ''n'' ''IN_PROGRESS'')"
  by code_simp

end
