(* ===== verification/Object_Specs.thy ===== *)
theory Object_Specs
  imports Js_Value
begin

text \<open>
  Specifications of objects (\<open>kolibri/core/assets/src/objectSpecs.js\<close>): an object is validated by a specification, and its
  defaults are filled in.  Specifications and what they describe are values alike, so that malformed specifications are covered;
  a function is a number, and \<open>call f xs\<close>, a parameter, what it returns.  Dates and symbols are not represented: no value has
  these types.  What is logged is left out.
\<close>

datatype known_type = Array_Type | Boolean_Type | Date_Type | Function_Type | Object_Type | Number_Type | String_Type | Symbol_Type

datatype thing =
    Undefined
  | Null
  | Boolean bool
  | Number jsnum
  | Text string
  | Function nat
  | Constructor known_type
  | Items "(string \<times> thing) list"
  | Fields "(string \<times> thing) list"

definition truthy_thing :: "thing \<Rightarrow> bool" where
  "truthy_thing v \<longleftrightarrow> (case v of
       Undefined \<Rightarrow> False | Null \<Rightarrow> False | Boolean b \<Rightarrow> b | Number n \<Rightarrow> n \<noteq> Fin 0 \<and> n \<noteq> NaN | Text s \<Rightarrow> s \<noteq> [] | _ \<Rightarrow> True)"

definition hasData :: "thing \<Rightarrow> bool" where
  "hasData v \<longleftrightarrow> v \<noteq> Undefined \<and> v \<noteq> Null"

definition isFunction :: "thing \<Rightarrow> bool" where
  "isFunction v \<longleftrightarrow> (case v of Function _ \<Rightarrow> True | Constructor _ \<Rightarrow> True | _ \<Rightarrow> False)"

definition isArray :: "thing \<Rightarrow> bool" where
  "isArray v \<longleftrightarrow> (case v of Items _ \<Rightarrow> True | _ \<Rightarrow> False)"

definition isPlainObject :: "thing \<Rightarrow> bool" where
  "isPlainObject v \<longleftrightarrow> (case v of Fields _ \<Rightarrow> True | _ \<Rightarrow> False)"

definition the_property :: "thing \<Rightarrow> string \<Rightarrow> thing" where
  "the_property v k = (case v of
       Fields m \<Rightarrow> (case obj_get m k of Some w \<Rightarrow> w | None \<Rightarrow> Undefined)
     | Items m \<Rightarrow> if k = ''length'' then Number (Fin (of_nat (arr_length m))) else (case obj_get m k of Some w \<Rightarrow> w | None \<Rightarrow> Undefined)
     | Text s \<Rightarrow> if k = ''length'' then Number (Fin (of_nat (length s)))
                 else if is_index k \<and> digits_val k < length s then Text [s ! digits_val k] else Undefined
     | _ \<Rightarrow> Undefined)"

definition read_property :: "thing \<Rightarrow> string \<Rightarrow> thing js_result" where
  "read_property v k = (if hasData v then Inr (the_property v k) else Inl (TypeError ''Cannot read properties''))"

text \<open>Modules are strict: a property of a primitive value cannot be set.  The length of an array is left to itself.\<close>

definition set_property :: "string \<Rightarrow> thing \<Rightarrow> thing \<Rightarrow> thing js_result" where
  "set_property k w v = (case v of
       Fields m \<Rightarrow> Inr (Fields (obj_set k w m))
     | Items m \<Rightarrow> Inr (if k = ''length'' then v else Items (obj_set k w m))
     | _ \<Rightarrow> Inl (TypeError ''Cannot create property''))"

text \<open>The keys \<open>for (key in v)\<close> visits.\<close>

definition keys_in :: "thing \<Rightarrow> string list" where
  "keys_in v = (case v of Fields m \<Rightarrow> obj_keys m | Items m \<Rightarrow> obj_keys m | Text s \<Rightarrow> map nat_digits [0..<length s] | _ \<Rightarrow> [])"

definition items_of :: "thing \<Rightarrow> thing list" where
  "items_of v = (case v of Items m \<Rightarrow> map (\<lambda>i. the_property v (nat_digits i)) [0..<arr_length m] | _ \<Rightarrow> [])"

lemma size_field: "obj_get m k = Some w \<Longrightarrow> size w < size (Fields m) \<and> size w < size (Items m)"
proof -
  assume "obj_get m k = Some w"
  then have "(k, w) \<in> set m" by (auto simp: obj_get_def dest: map_of_SomeD)
  then have "size w < Suc (size_list (size_prod (\<lambda>_. 0) size) m)" by (induction m) auto
  then show ?thesis by simp
qed

lemma size_property: "size (the_property v k) \<le> size v" "isPlainObject v \<or> isArray v \<Longrightarrow> size (the_property v k) < size v"
  using size_field by (fastforce simp: the_property_def isPlainObject_def isArray_def split: thing.splits option.splits)+

section \<open>Validation\<close>

definition has_type :: "known_type \<Rightarrow> thing \<Rightarrow> bool" where
  "has_type t v \<longleftrightarrow> (case t of
       Array_Type \<Rightarrow> isArray v
     | Boolean_Type \<Rightarrow> (case v of Boolean _ \<Rightarrow> True | _ \<Rightarrow> False)
     | Function_Type \<Rightarrow> isFunction v
     | Object_Type \<Rightarrow> isPlainObject v
     | Number_Type \<Rightarrow> (case v of Number _ \<Rightarrow> True | _ \<Rightarrow> False)
     | String_Type \<Rightarrow> (case v of Text _ \<Rightarrow> True | _ \<Rightarrow> False)
     | _ \<Rightarrow> False)"

definition option_type :: "thing \<Rightarrow> known_type option" where
  "option_type options = (case the_property options ''type'' of Constructor t \<Rightarrow> Some t | _ \<Rightarrow> None)"

definition needsFunction :: "thing \<Rightarrow> bool" where
  "needsFunction options \<longleftrightarrow> option_type options = Some Array_Type \<or> option_type options = Some Object_Type"

text \<open>The checks that follow the validator and the sub-specification.\<close>

definition type_and_default :: "thing \<Rightarrow> thing \<Rightarrow> bool" where
  "type_and_default data options \<longleftrightarrow>
     (case option_type options of None \<Rightarrow> False | Some t \<Rightarrow> hasData data \<longrightarrow> has_type t data)
     \<and> (if truthy_thing (the_property options ''required'') then the_property options ''default'' = Undefined
        else the_property options ''default'' \<noteq> Undefined)
     \<and> (truthy_thing (the_property options ''default'') \<and> needsFunction options \<longrightarrow> isFunction (the_property options ''default''))"

text \<open>A loop that returns false at the first item that fails.\<close>

fun every_result :: "('a \<Rightarrow> bool js_result) \<Rightarrow> 'a list \<Rightarrow> bool js_result" where
  "every_result f [] = Inr True"
| "every_result f (x # xs) = bind_result (f x) (\<lambda>b. if b then every_result f xs else Inr False)"

lemma every_result_cong [fundef_cong]:
  "xs = ys \<Longrightarrow> (\<And>x. x \<in> set ys \<Longrightarrow> f x = g x) \<Longrightarrow> every_result f xs = every_result g ys"
proof (induction ys arbitrary: xs)
  case (Cons y ys)
  then show ?case by (cases "g y") auto
qed simp

definition validateObjectData :: "(thing \<Rightarrow> thing \<Rightarrow> bool js_result) \<Rightarrow> (thing \<Rightarrow> thing list \<Rightarrow> thing) \<Rightarrow> thing \<Rightarrow> thing \<Rightarrow> bool js_result" where
  "validateObjectData validate call data options =
     (let validator = the_property options ''validator''; spec = the_property options ''spec'' in
      if truthy_thing (the_property options ''required'') \<and> \<not> hasData data then Inr False
      else if truthy_thing validator \<and> truthy_thing spec then Inr False
      else if hasData data \<and> truthy_thing validator \<and> \<not> isFunction validator then Inl (TypeError ''options.validator is not a function'')
      else if hasData data \<and> truthy_thing validator \<and> \<not> truthy_thing (call validator [data]) then Inr False
      else bind_result
        (if hasData data \<and> truthy_thing spec then
           if isArray data then every_result (\<lambda>item. validate item (the_property spec ''spec'')) (items_of data)
           else if isPlainObject data then validate data spec
           else Inr False
         else Inr True)
        (\<lambda>ok. Inr (ok \<and> type_and_default data options)))"

text \<open>A sub-specification is smaller than the options it stands in, and so is what it says of the items of an array.\<close>

lemma size_spec: "truthy_thing (the_property v ''spec'') \<Longrightarrow> size (the_property v ''spec'') < size v"
proof -
  assume t: "truthy_thing (the_property v ''spec'')"
  have "\<not> is_index ''spec''" by code_simp
  with t have "isPlainObject v \<or> isArray v" by (cases v) (auto simp: truthy_thing_def the_property_def isPlainObject_def isArray_def)
  then show ?thesis by (rule size_property(2))
qed

lemma validateObjectData_cong [fundef_cong]:
  assumes "data = data'" "options = options'" "\<And>item sub. size sub < size options' \<Longrightarrow> f item sub = g item sub"
  shows "validateObjectData f call data options = validateObjectData g call data' options'"
proof -
  let ?spec = "the_property options ''spec''"
  have "f item ?spec = g item ?spec" "f item (the_property ?spec ''spec'') = g item (the_property ?spec ''spec'')"
    if "truthy_thing ?spec" for item
    using size_spec [OF that] size_property(1) [of ?spec "''spec''"] assms(2) by (intro assms(3); simp)+
  then show ?thesis unfolding assms(1,2) [symmetric]
    by (simp add: validateObjectData_def Let_def cong: if_cong)
qed

lemma size_keys_in: "k \<in> set (keys_in v) \<Longrightarrow> isPlainObject (the_property v k) \<Longrightarrow> size (the_property v k) < size v"
  using size_property(2) [of v k] by (cases v) (auto simp: keys_in_def isPlainObject_def isArray_def the_property_def split: if_splits)

function validateObject :: "(thing \<Rightarrow> thing list \<Rightarrow> thing) \<Rightarrow> bool \<Rightarrow> thing \<Rightarrow> thing \<Rightarrow> bool js_result" where
  "validateObject call production object spec =
     (if production then Inr True
      else bind_result (map_result (\<lambda>dataKey.
          if isPlainObject (the_property spec dataKey) then
            bind_result (read_property object dataKey) (\<lambda>data.
              validateObjectData (\<lambda>item sub. validateObject call production item sub) call data (the_property spec dataKey))
          else Inr False) (keys_in spec))
        (\<lambda>oks. Inr (list_all (\<lambda>ok. ok) oks)))"
  by pat_completeness auto
termination
  by (relation "measure (\<lambda>(call, production, object, spec). size spec)") (simp_all add: order.strict_trans [OF _ size_keys_in])

declare validateObject.simps [simp del]

section \<open>Defaults\<close>

text \<open>\<open>clone\<close> of lodash is shallow, and gives an empty object for a function.\<close>

definition clone_thing :: "thing \<Rightarrow> thing" where
  "clone_thing v = (if isFunction v then Fields [] else v)"

definition default_value :: "(thing \<Rightarrow> thing list \<Rightarrow> thing) \<Rightarrow> thing \<Rightarrow> thing js_result" where
  "default_value call options = (let d = the_property options ''default'' in
     if needsFunction options \<and> d \<noteq> Null then
       (if isFunction d then Inr (call d []) else Inl (TypeError ''options.default is not a function''))
     else Inr d)"

function objectWithDefaults :: "(thing \<Rightarrow> thing list \<Rightarrow> thing) \<Rightarrow> thing \<Rightarrow> thing \<Rightarrow> thing js_result" where
  "objectWithDefaults call object spec = fold_result (\<lambda>dataKey cloned.
       bind_result (read_property cloned dataKey) (\<lambda>v.
         let options = the_property spec dataKey in
         if v = Undefined then
           bind_result (read_property options ''default'') (\<lambda>d.
             if d = Undefined then Inr cloned
             else bind_result (default_value call options) (\<lambda>w. set_property dataKey w cloned))
         else if truthy_thing v then
           bind_result (read_property options ''spec'') (\<lambda>sub.
             if truthy_thing sub then bind_result (objectWithDefaults call v sub) (\<lambda>w. set_property dataKey w cloned) else Inr cloned)
         else Inr cloned))
     (keys_in spec) (clone_thing object)"
  by pat_completeness auto
termination
proof (relation "measure (\<lambda>(call, object, spec). size spec)")
  show "((call, v, sub), call, object, spec) \<in> measure (\<lambda>(call, object, spec). size spec)"
    if "options = the_property spec dataKey" "read_property options ''spec'' = Inr sub" "truthy_thing sub" for call v sub object spec options dataKey
    using that size_spec [of options] size_property(1) [of spec dataKey] by (auto simp: read_property_def split: if_splits)
qed simp

declare objectWithDefaults.simps [simp del]

end
