(* ===== verification/Object_Defaults.thy ===== *)
theory Object_Defaults
  imports Object_Specs
begin

text \<open>
  Valid objects stay valid when their defaults are filled in, and where specifications go wrong.
\<close>

section \<open>Valid objects stay valid\<close>

text \<open>
  The options of the items of an array, which filling in takes for a specification of the array itself,
  change nothing there when none of them is \<open>null\<close> or has a \<open>default\<close> or \<open>spec\<close> of its own.
\<close>

definition harmless :: "thing \<Rightarrow> bool" where
  "harmless sub \<longleftrightarrow> (\<forall>k \<in> set (keys_in sub). hasData (the_property sub k)
     \<and> the_property (the_property sub k) ''default'' = Undefined
     \<and> \<not> truthy_thing (the_property (the_property sub k) ''spec''))"

text \<open>
  A specification whose defaults are valid, and whose sub-specifications are for objects and of the same
  kind, or for arrays and harmless.
\<close>

function sound :: "(thing \<Rightarrow> thing list \<Rightarrow> thing) \<Rightarrow> thing \<Rightarrow> bool" where
  "sound call spec \<longleftrightarrow> (case spec of Fields m \<Rightarrow> obj_wf m | _ \<Rightarrow> False) \<and> (\<forall>k \<in> set (keys_in spec).
     let options = the_property spec k; sub = the_property options ''spec'' in
     (the_property options ''default'' \<noteq> Undefined \<longrightarrow> (case default_value call options of
        Inl _ \<Rightarrow> False | Inr w \<Rightarrow> w \<noteq> Undefined \<and> validateObjectData (validateObject call False) call w options = Inr True))
     \<and> (truthy_thing sub \<longrightarrow> (if option_type options = Some Array_Type then harmless sub
          else option_type options = Some Object_Type \<and> sound call sub)))"
  by pat_completeness auto
termination
proof (relation "measure (\<lambda>(call, spec). size spec)")
  show "((call, sub), call, spec) \<in> measure (\<lambda>(call, spec). size spec)"
    if "options = the_property spec k" "sub = the_property options ''spec''" "truthy_thing sub" for call sub spec options k
    using that size_spec [of options] size_property(1) [of spec k] by simp
qed simp

declare sound.simps [simp del]

lemma read_fields: "read_property (Fields m) k = Inr (the_property (Fields m) k)"
  by (simp add: read_property_def hasData_def)

lemma validateObject_iff: "validateObject call False (Fields m) spec = Inr True \<longleftrightarrow> (\<forall>k \<in> set (keys_in spec).
    isPlainObject (the_property spec k) \<and> validateObjectData (validateObject call False) call (the_property (Fields m) k) (the_property spec k) = Inr True)"
proof -
  let ?f = "\<lambda>k. if isPlainObject (the_property spec k) then validateObjectData (validateObject call False) call (the_property (Fields m) k) (the_property spec k) else Inr False"
  have "validateObject call False (Fields m) spec = bind_result (map_result ?f (keys_in spec)) (\<lambda>oks. Inr (list_all (\<lambda>ok. ok) oks))"
    by (simp add: validateObject.simps [of call False] read_fields cong: if_cong)
  moreover have "(\<exists>oks. list_all2 (\<lambda>k ok. f k = Inr ok) ks oks \<and> list_all (\<lambda>ok. ok) oks) \<longleftrightarrow> (\<forall>k \<in> set ks. f k = Inr True)"
    for f :: "string \<Rightarrow> bool js_result" and ks
    by (induction ks) (auto simp: list_all2_Cons1, (rule exI, intro conjI exI, rule refl, simp_all))
  ultimately show ?thesis by (auto simp: bind_result_Inr map_result_Inr split: if_splits)
qed

lemma fold_keys:
  assumes "distinct ks" and "\<And>k c. k \<in> set ks \<Longrightarrow> the_property (Fields c) k = the_property (Fields m) k \<Longrightarrow>
      \<exists>c'. f k (Fields c) = Inr (Fields c') \<and> (\<forall>j. the_property (Fields c') j = (if j = k then W k else the_property (Fields c) j))"
  shows "\<exists>m'. fold_result f ks (Fields m) = Inr (Fields m') \<and> (\<forall>j. the_property (Fields m') j = (if j \<in> set ks then W j else the_property (Fields m) j))"
  using assms
proof (induction ks arbitrary: m)
  case (Cons k ks)
  obtain c where c: "f k (Fields m) = Inr (Fields c)" "\<And>j. the_property (Fields c) j = (if j = k then W k else the_property (Fields m) j)"
    using Cons.prems(2) [of k m] by auto
  have "\<exists>m'. fold_result f ks (Fields c) = Inr (Fields m') \<and> (\<forall>j. the_property (Fields m') j = (if j \<in> set ks then W j else the_property (Fields c) j))"
  proof (rule Cons.IH)
    show "\<exists>c'. f j (Fields d) = Inr (Fields c') \<and> (\<forall>i. the_property (Fields c') i = (if i = j then W j else the_property (Fields d) i))"
      if "j \<in> set ks" "the_property (Fields d) j = the_property (Fields c) j" for j d
      using Cons.prems(1) that c(2) by (intro Cons.prems(2)) auto
  qed (use Cons.prems(1) in simp)
  then show ?case using c Cons.prems(1) by auto
qed simp

lemma set_fields: "\<exists>c'. set_property k w (Fields c) = Inr (Fields c') \<and> (\<forall>j. the_property (Fields c') j = (if j = k then w else the_property (Fields c) j))"
  by (auto simp: set_property_def the_property_def)

lemma valid_required: "validateObjectData (validateObject call False) call Undefined options = Inr True \<Longrightarrow> the_property options ''default'' \<noteq> Undefined"
  by (auto simp: validateObjectData_def hasData_def type_and_default_def Let_def split: if_splits)

text \<open>Data with a sub-specification is valid when, as an object, it is valid by that.\<close>

lemma valid_sub:
  assumes "truthy_thing (the_property options ''spec'')" "option_type options = Some Object_Type" "hasData v"
  shows "validateObjectData (validateObject call False) call v options = Inr True \<longleftrightarrow>
     \<not> truthy_thing (the_property options ''validator'') \<and> type_and_default v options
     \<and> (\<exists>m. v = Fields m \<and> validateObject call False (Fields m) (the_property options ''spec'') = Inr True)"
proof -
  have "type_and_default v options \<Longrightarrow> isPlainObject v" using assms(2,3) by (simp add: type_and_default_def has_type_def)
  moreover have "isPlainObject v \<Longrightarrow> \<exists>m. v = Fields m" by (auto simp: isPlainObject_def split: thing.splits)
  moreover have "isPlainObject v \<Longrightarrow> \<not> isArray v" by (auto simp: isPlainObject_def isArray_def split: thing.splits)
  ultimately show ?thesis using assms
    by (auto simp: validateObjectData_def Let_def bind_result_Inr split: if_splits)
qed

lemma sub_type_and_default: "type_and_default (Fields m) options = type_and_default (Fields n) options"
  by (simp add: type_and_default_def hasData_def has_type_def isPlainObject_def isArray_def isFunction_def split: option.splits known_type.splits)

text \<open>What a property of an object holds once the defaults are filled in.\<close>

definition filled :: "(thing \<Rightarrow> thing list \<Rightarrow> thing) \<Rightarrow> thing \<Rightarrow> thing \<Rightarrow> thing \<Rightarrow> bool" where
  "filled call options v w \<longleftrightarrow>
     (if v = Undefined then default_value call options = Inr w
      else if truthy_thing v \<and> truthy_thing (the_property options ''spec'') then objectWithDefaults call v (the_property options ''spec'') = Inr w
      else w = v)"

lemma sound_default:
  assumes "sound call spec" "k \<in> set (keys_in spec)" "the_property (the_property spec k) ''default'' \<noteq> Undefined"
  shows "\<exists>w. w \<noteq> Undefined \<and> default_value call (the_property spec k) = Inr w \<and> validateObjectData (validateObject call False) call w (the_property spec k) = Inr True"
  using assms by (cases "default_value call (the_property spec k)") (auto simp: sound.simps [of call spec] Let_def)

lemma sound_sub:
  assumes "sound call spec" "k \<in> set (keys_in spec)" "truthy_thing (the_property (the_property spec k) ''spec'')"
  obtains (array) "option_type (the_property spec k) = Some Array_Type" "harmless (the_property (the_property spec k) ''spec'')"
  | (object) "option_type (the_property spec k) = Some Object_Type" "sound call (the_property (the_property spec k) ''spec'')"
proof -
  have "if option_type (the_property spec k) = Some Array_Type then harmless (the_property (the_property spec k) ''spec'')
      else option_type (the_property spec k) = Some Object_Type \<and> sound call (the_property (the_property spec k) ''spec'')"
    using assms(1-3) unfolding sound.simps [of call spec] Let_def by blast
  then show thesis using array object by (metis (full_types))
qed

text \<open>One step of the loop.\<close>

definition fill_property :: "(thing \<Rightarrow> thing list \<Rightarrow> thing) \<Rightarrow> thing \<Rightarrow> string \<Rightarrow> thing \<Rightarrow> thing js_result" where
  "fill_property call spec dataKey cloned = bind_result (read_property cloned dataKey) (\<lambda>v.
     let options = the_property spec dataKey in
     if v = Undefined then
       bind_result (read_property options ''default'') (\<lambda>d.
         if d = Undefined then Inr cloned
         else bind_result (default_value call options) (\<lambda>w. set_property dataKey w cloned))
     else if truthy_thing v then
       bind_result (read_property options ''spec'') (\<lambda>sub.
         if truthy_thing sub then bind_result (objectWithDefaults call v sub) (\<lambda>w. set_property dataKey w cloned) else Inr cloned)
     else Inr cloned)"

lemma objectWithDefaults_fold: "objectWithDefaults call (Fields m) spec = fold_result (fill_property call spec) (keys_in spec) (Fields m)"
  unfolding objectWithDefaults.simps [of call "Fields m"] clone_thing_def isFunction_def thing.case if_False fill_property_def [abs_def] ..

lemma fold_unchanged: "(\<And>k. k \<in> set ks \<Longrightarrow> f k x = Inr x) \<Longrightarrow> fold_result f ks x = Inr x"
  by (induction ks) auto

lemma harmless_unchanged:
  assumes "harmless sub"
  shows "objectWithDefaults call (Items xs) sub = Inr (Items xs)"
proof -
  have "fill_property call sub k (Items xs) = Inr (Items xs)" if "k \<in> set (keys_in sub)" for k
    using assms that by (auto simp: harmless_def fill_property_def read_property_def hasData_def Let_def)
  then have "fold_result (fill_property call sub) (keys_in sub) (Items xs) = Inr (Items xs)" by (rule fold_unchanged)
  then show ?thesis
    unfolding objectWithDefaults.simps [of call "Items xs"] clone_thing_def isFunction_def thing.case if_False
      fill_property_def [abs_def] .
qed

text \<open>Valid data for an array type is an array.\<close>

lemma valid_array:
  assumes "validateObjectData (validateObject call False) call v options = Inr True" "hasData v"
    and "option_type options = Some Array_Type"
  shows "\<exists>xs. v = Items xs"
proof -
  have "type_and_default v options" using assms(1) by (auto simp: validateObjectData_def Let_def bind_result_Inr split: if_splits)
  then show ?thesis using assms(2,3) by (cases v) (auto simp: type_and_default_def has_type_def isArray_def)
qed

lemma filled_property:
  assumes "isPlainObject (the_property spec k)" "filled call (the_property spec k) (the_property (Fields c) k) w"
    and "the_property (Fields c) k = Undefined \<Longrightarrow> the_property (the_property spec k) ''default'' \<noteq> Undefined"
  shows "\<exists>c'. fill_property call spec k (Fields c) = Inr (Fields c')
    \<and> (\<forall>j. the_property (Fields c') j = (if j = k then w else the_property (Fields c) j))"
proof -
  have "read_property (the_property spec k) x = Inr (the_property (the_property spec k) x)" for x
    using assms(1) by (auto simp: read_property_def hasData_def isPlainObject_def)
  then show ?thesis using assms(2,3) set_fields [of k w c]
    by (auto simp: fill_property_def read_fields filled_def Let_def split: if_splits)
qed

text \<open>One property, when objects are filled in and stay valid by smaller specifications.\<close>

lemma valid_property_filled:
  assumes smaller: "\<And>sub n. size sub < size spec \<Longrightarrow> sound call sub \<Longrightarrow> validateObject call False (Fields n) sub = Inr True \<Longrightarrow>
      \<exists>n'. objectWithDefaults call (Fields n) sub = Inr (Fields n') \<and> validateObject call False (Fields n') sub = Inr True"
    and "sound call spec" "k \<in> set (keys_in spec)" "validateObjectData (validateObject call False) call v (the_property spec k) = Inr True"
  shows "\<exists>w. w \<noteq> Undefined \<and> filled call (the_property spec k) v w \<and> validateObjectData (validateObject call False) call w (the_property spec k) = Inr True"
proof (cases "truthy_thing v \<and> truthy_thing (the_property (the_property spec k) ''spec'')")
  case True
  let ?o = "the_property spec k" and ?sub = "the_property (the_property spec k) ''spec''"
  have "hasData v" using True by (auto simp: hasData_def truthy_thing_def)
  show ?thesis
  proof (rule sound_sub [OF assms(2,3) conjunct2 [OF True]])
  assume t: "option_type ?o = Some Array_Type" "harmless ?sub"
  obtain xs where "v = Items xs" using valid_array [OF assms(4) \<open>hasData v\<close> t(1)] by blast
  then show ?thesis using harmless_unchanged [OF t(2)] True assms(4) by (auto simp: filled_def)
  next
  assume t: "option_type ?o = Some Object_Type" "sound call ?sub"
  note sub = valid_sub [OF conjunct2 [OF True] t(1)]
  obtain n where n: "v = Fields n" "validateObject call False (Fields n) ?sub = Inr True"
      "\<not> truthy_thing (the_property ?o ''validator'')" "type_and_default (Fields n) ?o"
    using assms(4) sub [OF \<open>hasData v\<close>] by metis
  have "size ?sub < size spec" using size_spec [of ?o] True size_property(1) [of spec k] by simp
  from smaller [OF this t(2) n(2)] obtain n' where n': "objectWithDefaults call (Fields n) ?sub = Inr (Fields n')"
    "validateObject call False (Fields n') ?sub = Inr True" by blast
  have "validateObjectData (validateObject call False) call (Fields n') ?o = Inr True"
    using sub [of "Fields n'"] n(3,4) n'(2) sub_type_and_default [of n' _ n] by (simp add: hasData_def)
  then show ?thesis using n(1) n'(1) True by (intro exI [of _ "Fields n'"]) (simp add: filled_def)
  qed
next
  case False
  show ?thesis
  proof (cases "v = Undefined")
    case True
    then show ?thesis using sound_default [OF assms(2,3)] valid_required assms(4) by (auto simp: filled_def)
  qed (use False assms(4) in \<open>auto simp: filled_def\<close>)
qed

text \<open>
  C38. Let a specification be \<open>sound\<close>: its defaults are valid, every sub-specification of an object is sound
  again, and the options of the items of an array contain no \<open>null\<close> and nothing with a \<open>default\<close> or
  \<open>spec\<close> of its own.  Then an object that is valid by it is filled in without an exception, and stays
  valid: each property the specification names is then defined.  A missing one has its default, an object
  is filled in by the sub-specification, and every other value, arrays among them, and every property the
  specification does not name, is left as it was.  What \<open>sound\<close> excludes of arrays can throw, also for the
  specification in the repository's own tests, whose items have the default \<open>null\<close> (\<open>array_defaults_throw\<close>).
\<close>

theorem defaults_complete_valid_objects:
  assumes "sound call spec" and "validateObject call False (Fields m) spec = Inr True"
  shows "\<exists>m'. objectWithDefaults call (Fields m) spec = Inr (Fields m')
    \<and> validateObject call False (Fields m') spec = Inr True
    \<and> (\<forall>k. if k \<in> set (keys_in spec)
          then the_property (Fields m') k \<noteq> Undefined \<and> filled call (the_property spec k) (the_property (Fields m) k) (the_property (Fields m') k)
          else the_property (Fields m') k = the_property (Fields m) k)"
  using assms
proof (induction "size spec" arbitrary: spec m rule: less_induct)
  case less
  let ?p = "the_property (Fields m)" and ?o = "the_property spec"
  have o: "isPlainObject (?o k)" "validateObjectData (validateObject call False) call (?p k) (?o k) = Inr True" if "k \<in> set (keys_in spec)" for k
    using less.prems(2) that by (auto simp: validateObject_iff)
  have "\<exists>w. w \<noteq> Undefined \<and> filled call (?o k) (?p k) w \<and> validateObjectData (validateObject call False) call w (?o k) = Inr True" if "k \<in> set (keys_in spec)" for k
    using less.hyps by (intro valid_property_filled [OF _ less.prems(1) that o(2) [OF that]]) blast
  then obtain W where W: "\<And>k. k \<in> set (keys_in spec) \<Longrightarrow> W k \<noteq> Undefined \<and> filled call (?o k) (?p k) (W k) \<and> validateObjectData (validateObject call False) call (W k) (?o k) = Inr True"
    by metis
  have "distinct (keys_in spec)" using less.prems(1) unfolding sound.simps [of call spec] by (cases spec) (simp_all add: keys_in_def)
  then have "\<exists>m'. objectWithDefaults call (Fields m) spec = Inr (Fields m') \<and> (\<forall>j. the_property (Fields m') j = (if j \<in> set (keys_in spec) then W j else ?p j))"
    unfolding objectWithDefaults_fold
  proof (rule fold_keys)
    show "\<exists>c'. fill_property call spec k (Fields c) = Inr (Fields c') \<and> (\<forall>j. the_property (Fields c') j = (if j = k then W k else the_property (Fields c) j))"
      if k: "k \<in> set (keys_in spec)" and c: "the_property (Fields c) k = ?p k" for k c
      using W [OF k] o [OF k] valid_required c by (intro filled_property) auto
  qed
  then obtain m' where m': "objectWithDefaults call (Fields m) spec = Inr (Fields m')"
      "\<And>j. the_property (Fields m') j = (if j \<in> set (keys_in spec) then W j else ?p j)" by blast
  have "validateObject call False (Fields m') spec = Inr True"
    unfolding validateObject_iff using o(1) W m'(2) by simp
  then show ?case using m' W by (intro exI [of _ m']) simp
qed

definition sample_options :: "thing \<Rightarrow> thing" where
  "sample_options d = Fields [(''type'', Constructor Number_Type), (''default'', d)]"

definition sample_spec :: thing where
  "sample_spec = Fields [(''a'', Fields [(''type'', Constructor Object_Type), (''required'', Boolean True), (''spec'', Fields [(''n'', sample_options (Number (Fin 1)))])]),
     (''b'', Fields [(''type'', Constructor Array_Type), (''default'', Function 0),
       (''spec'', Fields [(''type'', Constructor Object_Type), (''required'', Boolean True), (''spec'', Fields [(''n'', sample_options (Number (Fin 1)))])])])]"

definition sample_call :: "thing \<Rightarrow> thing list \<Rightarrow> thing" where
  "sample_call f xs = Items []"

theorem defaults_complete_valid_objects_witness:
  "\<exists>m. objectWithDefaults sample_call (Fields [(''a'', Fields []), (''c'', Null)]) sample_spec = Inr (Fields m)
     \<and> validateObject sample_call False (Fields m) sample_spec = Inr True \<and> the_property (Fields m) ''c'' = Null"
proof -
  have "sound sample_call sample_spec" by code_simp
  moreover have "validateObject sample_call False (Fields [(''a'', Fields []), (''c'', Null)]) sample_spec = Inr True" by code_simp
  ultimately obtain m where m: "objectWithDefaults sample_call (Fields [(''a'', Fields []), (''c'', Null)]) sample_spec = Inr (Fields m)"
      "validateObject sample_call False (Fields m) sample_spec = Inr True"
      "\<forall>k. if k \<in> set (keys_in sample_spec)
          then the_property (Fields m) k \<noteq> Undefined \<and> filled sample_call (the_property sample_spec k) (the_property (Fields [(''a'', Fields []), (''c'', Null)]) k) (the_property (Fields m) k)
          else the_property (Fields m) k = the_property (Fields [(''a'', Fields []), (''c'', Null)]) k"
    using defaults_complete_valid_objects by blast
  have "''c'' \<notin> set (keys_in sample_spec)" "the_property (Fields [(''a'', Fields []), (''c'', Null)]) ''c'' = Null" by code_simp+
  then show ?thesis using m(1,2) spec [OF m(3), of "''c''"] by auto
qed

section \<open>Where specifications go wrong\<close>

text \<open>Items of an array that are not objects are never validated: their specification has no \<open>spec\<close> of its own.\<close>

definition array_spec :: "thing \<Rightarrow> thing" where
  "array_spec item = Fields [(''xs'', Fields [(''type'', Constructor Array_Type), (''default'', Null), (''spec'', item)])]"

lemma array_items_unchecked:
  "validateObject sample_call False (Fields [(''xs'', Items [(''0'', Text ''A'')])])
     (array_spec (Fields [(''type'', Constructor Number_Type), (''required'', Boolean True)])) = Inr True"
  by code_simp

text \<open>Filling in takes the options of the items for a specification of the array: a default of \<open>null\<close> among them throws.\<close>

lemma array_defaults_throw:
  "objectWithDefaults sample_call (Fields [(''xs'', Items [])])
     (array_spec (Fields [(''type'', Constructor Object_Type), (''default'', Null), (''spec'', Fields [(''n'', sample_options (Number (Fin 1)))])]))
   = Inl (TypeError ''Cannot read properties'')"
  by code_simp

text \<open>Items are never filled in, and neither is a generated default, so that filling in twice differs from once.\<close>

lemma items_keep_missing:
  "objectWithDefaults sample_call (Fields [(''xs'', Items [(''0'', Fields [])])])
     (array_spec (Fields [(''type'', Constructor Object_Type), (''required'', Boolean True), (''spec'', Fields [(''n'', sample_options (Number (Fin 1)))])]))
   = Inr (Fields [(''xs'', Items [(''0'', Fields [])])])"
  by code_simp

lemma generated_default_not_filled:
  defines "s \<equiv> Fields [(''o'', Fields [(''type'', Constructor Object_Type), (''default'', Function 0), (''spec'', Fields [(''n'', sample_options (Number (Fin 1)))])])]"
  shows "objectWithDefaults (\<lambda>f xs. Fields []) (Fields []) s = Inr (Fields [(''o'', Fields [])])"
    "objectWithDefaults (\<lambda>f xs. Fields []) (Fields [(''o'', Fields [])]) s = Inr (Fields [(''o'', Fields [(''n'', Number (Fin 1))])])"
  unfolding s_def by code_simp+

end
