(* ===== verification/Exam_Creation.thy ===== *)
theory Exam_Creation
  imports Question_Selection Js_Value
begin

text \<open>
  The creation of a quiz (\<open>kolibri/plugins/coach/assets/src/modules/examCreation/index.js\<close> and \<open>actions.js\<close>,
  \<open>modules/examShared/exams.js\<close>): the module's state and mutations, and its actions, which wait for requests.  Calls of the
  actions and answers are events.  \<open>shuffle\<close>, at two types, is the third-party shuffle at a seed, \<open>snakeCase\<close> lodash's; random
  seeds are given with the event.
\<close>

section \<open>State\<close>

record exercise =
  ex_node :: content_node
  ex_title :: string

record content_file =
  fl_thumbnail :: bool
  fl_available :: bool
  fl_storage_url :: jsval

record descendant =
  de_id :: string
  de_ancestor_id :: string

record listed_node =
  ln_id :: string
  ln_content_id :: string
  ln_kind :: string
  ln_thumbnail :: jsval
  ln_files :: "content_file list"
  ln_numAssessments :: "nat option"
  ln_exercises :: "descendant list option"

record search_results =
  sr_total_results :: nat
  sr_channel_ids :: "string list"
  sr_content_kinds :: "string list"
  sr_results :: "listed_node list"
  sr_contentIdsFetched :: "string list"

record topic =
  tp_id :: string
  tp_numAssessments :: nat
  tp_exercises :: "descendant list"

record found =
  fo_channel_ids :: "string list"
  fo_content_kinds :: "string list"
  fo_results :: "listed_node list"

record exam_data =
  xd_collection :: string
  xd_title :: string
  xd_seed :: nat
  xd_question_count :: nat
  xd_question_sources :: "question_source list"
  xd_assignments :: "string list"
  xd_learners_see_fixed_order :: bool

datatype creation_call =
    Node_Assessments "string list"
  | Fetch_Exercises "string list"
  | Search_Nodes "jsval jsobj"
  | Descendants_Assessments "string list" found
  | Exercise_Descendants "topic list" found
  | Save_Exam exam_data

record creation_request =
  cq_call :: creation_call
  cq_open :: bool

record exam_creation =
  xc_title :: string
  xc_numberOfQuestions :: "nat option"
  xc_seed :: nat
  xc_contentList :: "listed_node list"
  xc_bookmarksList :: jsval
  xc_selectedExercises :: "exercise jsobj"
  xc_availableQuestions :: nat
  xc_searchResults :: search_results
  xc_ancestors :: jsval
  xc_examsModalSet :: jsval
  xc_currentContentNode :: jsval
  xc_preview :: jsval
  xc_selectedQuestions :: "question_source list"
  xc_learnersSeeFixedOrder :: bool
  xc_loadingNewQuestions :: bool
  xc_requests :: "creation_request list"
  xc_saved :: bool

definition no_results :: search_results where
  "no_results = \<lparr>sr_total_results = 0, sr_channel_ids = [], sr_content_kinds = [], sr_results = [], sr_contentIdsFetched = []\<rparr>"

text \<open>\<open>RESET_STATE\<close>, with the random seed; the requests under way go on.\<close>

definition defaultState :: "nat \<Rightarrow> creation_request list \<Rightarrow> exam_creation" where
  "defaultState sd rqs = \<lparr>xc_title = [], xc_numberOfQuestions = Some 10, xc_seed = sd, xc_contentList = [], xc_bookmarksList = js_array [], xc_selectedExercises = [],
     xc_availableQuestions = 0, xc_searchResults = no_results, xc_ancestors = js_array [],
     xc_examsModalSet = JBool False, xc_currentContentNode = JObj [], xc_preview = JObj [(''completionData'', JNull), (''questions'', JNull)],
     xc_selectedQuestions = [], xc_learnersSeeFixedOrder = False,
     xc_loadingNewQuestions = False, xc_requests = rqs, xc_saved = False\<rparr>"

definition numRemainingSearchResults :: "exam_creation \<Rightarrow> int" where
  "numRemainingSearchResults s = int (sr_total_results (xc_searchResults s)) - int (length (sr_contentIdsFetched (xc_searchResults s)))"

definition ex_id :: "exercise \<Rightarrow> string" where "ex_id e = node_id (ex_node e)"

definition ADD_TO_SELECTED_EXERCISES :: "exercise list \<Rightarrow> exam_creation \<Rightarrow> exam_creation" where
  "ADD_TO_SELECTED_EXERCISES es s = s\<lparr>xc_selectedExercises := fold (\<lambda>e. obj_set (ex_id e) e) es (xc_selectedExercises s)\<rparr>"

definition REMOVE_FROM_SELECTED_EXERCISES :: "exercise list \<Rightarrow> exam_creation \<Rightarrow> exam_creation" where
  "REMOVE_FROM_SELECTED_EXERCISES es s = s\<lparr>xc_selectedExercises := fold (\<lambda>e. obj_del (ex_id e)) es (xc_selectedExercises s)\<rparr>"

definition UPDATE_SELECTED_EXERCISES :: "exercise list \<Rightarrow> exam_creation \<Rightarrow> exam_creation" where
  "UPDATE_SELECTED_EXERCISES es s = s\<lparr>xc_selectedExercises := fold (\<lambda>e. obj_set (ex_id e) e) es (xc_selectedExercises s)\<rparr>"

definition ask_for :: "creation_call \<Rightarrow> exam_creation \<Rightarrow> exam_creation" where
  "ask_for c s = s\<lparr>xc_requests := xc_requests s @ [\<lparr>cq_call = c, cq_open = True\<rparr>]\<rparr>"

section \<open>Exercises and questions\<close>

definition MAX_QUESTIONS :: nat where "MAX_QUESTIONS = 50"

definition updateAvailableQuestions :: "exam_creation \<Rightarrow> exam_creation" where
  "updateAvailableQuestions s = (let ids = obj_keys (xc_selectedExercises s) in
     if 0 < length ids then
       if length ids < MAX_QUESTIONS then ask_for (Node_Assessments ids) s
       else s\<lparr>xc_availableQuestions := MAX_QUESTIONS\<rparr>
     else s\<lparr>xc_availableQuestions := 0\<rparr>)"

definition addToSelectedExercises :: "exercise list \<Rightarrow> exam_creation \<Rightarrow> exam_creation" where
  "addToSelectedExercises es s = updateAvailableQuestions (ADD_TO_SELECTED_EXERCISES es s)"

definition removeFromSelectedExercises :: "exercise list \<Rightarrow> exam_creation \<Rightarrow> exam_creation" where
  "removeFromSelectedExercises es s = updateAvailableQuestions (REMOVE_FROM_SELECTED_EXERCISES es s)"

text \<open>The number of questions is null while its field is empty, and then counts as 0.\<close>

definition questions_wanted :: "exam_creation \<Rightarrow> nat" where
  "questions_wanted s = (case xc_numberOfQuestions s of Some n \<Rightarrow> n | None \<Rightarrow> 0)"

definition updateSelectedQuestions :: "(nat \<Rightarrow> string list \<Rightarrow> string list) \<Rightarrow> exam_creation \<Rightarrow> exam_creation" where
  "updateSelectedQuestions shuffle s =
     (if obj_keys (xc_selectedExercises s) = [] then s\<lparr>xc_selectedQuestions := []\<rparr>
      else let exerciseIds = take (questions_wanted s) (shuffle (xc_seed s) (obj_keys (xc_selectedExercises s)))
           in ask_for (Fetch_Exercises exerciseIds) (s\<lparr>xc_loadingNewQuestions := True\<rparr>))"

definition available_exercises :: "string list \<Rightarrow> exercise list \<Rightarrow> exercise list" where
  "available_exercises exerciseIds contentNodes =
     (let exercises = fold (\<lambda>e. obj_set (ex_id e) e) contentNodes []
      in List.map_filter (obj_get exercises) exerciseIds)"

text \<open>The handler of the answer; \<open>None\<close> when the selection does not end.  An exception leaves the module loading.\<close>

definition exercises_fetched ::
  "(nat \<Rightarrow> nat list \<Rightarrow> nat list) \<Rightarrow> (nat \<Rightarrow> string list \<Rightarrow> string list) \<Rightarrow> (string \<Rightarrow> string) \<Rightarrow> string list \<Rightarrow> exercise list \<Rightarrow>
     exam_creation \<Rightarrow> (exam_creation \<times> js_error option) option" where
  "exercises_fetched shuffle_idx shuffle snakeCase exerciseIds contentNodes s =
     (let s1 = UPDATE_SELECTED_EXERCISES contentNodes s;
          available = available_exercises exerciseIds contentNodes;
          questionIdArrays = map (\<lambda>e. assessmentIds (assessmentMetaDataState snakeCase (ex_node e))) available
      in case selectQuestions (shuffle_idx (xc_seed s1)) (shuffle (xc_seed s1)) (questions_wanted s1)
             (map ex_id available) (map ex_title available) questionIdArrays of
           None \<Rightarrow> None
         | Some (Inl e) \<Rightarrow> Some (s1, Some e)
         | Some (Inr qs) \<Rightarrow> Some (s1\<lparr>xc_selectedQuestions := qs, xc_loadingNewQuestions := False\<rparr>, None))"

section \<open>Searching\<close>

record search_choice =
  sc_kind :: jsval
  sc_searchTerm :: jsval
  sc_channelId :: jsval

definition kinds_shown :: "string list" where "kinds_shown = [''topic'', ''exercise'']"

definition fetchAdditionalSearchResults :: "search_choice \<Rightarrow> exam_creation \<Rightarrow> exam_creation" where
  "fetchAdditionalSearchResults params s =
     (let kinds = (if truthy (sc_kind params) then [sc_kind params] else [JStr ''exercise'', JStr ''topic''])
      in ask_for (Search_Nodes (filter (\<lambda>(k, v). truthy v)
          [(''search'', sc_searchTerm params), (''channel_id'', sc_channelId params),
           (''exclude_content_ids'', js_array (map JStr (sr_contentIdsFetched (xc_searchResults s))))] @ [(''kind_in'', js_array kinds)])) s)"

definition getContentNodeThumbnail :: "listed_node \<Rightarrow> jsval" where
  "getContentNodeThumbnail n =
     (if truthy (ln_thumbnail n) then ln_thumbnail n
      else case find (\<lambda>f. fl_thumbnail f \<and> fl_available f) (ln_files n) of Some f \<Rightarrow> fl_storage_url f | None \<Rightarrow> JNull)"

text \<open>The topics that have exercises, and the list with the others left out.\<close>

definition topics_with_exercises :: "(string \<times> nat) list \<Rightarrow> topic list" where
  "topics_with_exercises counts = map (\<lambda>(i, n). \<lparr>tp_id = i, tp_numAssessments = n, tp_exercises = []\<rparr>) (filter (\<lambda>(i, n). 0 < n) counts)"

definition add_exercise :: "descendant \<Rightarrow> topic list \<Rightarrow> topic list js_result" where
  "add_exercise e ts = (let i = find_index (\<lambda>t. tp_id t = de_ancestor_id e) ts in
     if i < 0 then Inl (TypeError ''Cannot read properties of undefined'')
     else Inr (ts[nat i := (ts ! nat i)\<lparr>tp_exercises := tp_exercises (ts ! nat i) @ [e]\<rparr>]))"

definition annotate_node :: "topic list \<Rightarrow> listed_node \<Rightarrow> listed_node" where
  "annotate_node topics n = (case find (\<lambda>t. tp_id t = ln_id n) topics of
       Some t \<Rightarrow> n\<lparr>ln_id := tp_id t, ln_numAssessments := Some (tp_numAssessments t), ln_exercises := Some (tp_exercises t)\<rparr>
     | None \<Rightarrow> n)"

definition annotated_content_list :: "topic list \<Rightarrow> listed_node list \<Rightarrow> listed_node list" where
  "annotated_content_list topics childNodes =
     map (\<lambda>n. n\<lparr>ln_thumbnail := getContentNodeThumbnail n\<rparr>)
       (filter (\<lambda>n. \<not> (ln_kind n = ''topic'' \<and> (case ln_numAssessments n of None \<Rightarrow> 0 | Some a \<Rightarrow> a) < 1))
         (map (annotate_node topics) childNodes))"

definition search_list_ready :: "topic list \<Rightarrow> found \<Rightarrow> exam_creation \<Rightarrow> exam_creation" where
  "search_list_ready topics f s =
     (let r = xc_searchResults s
      in s\<lparr>xc_searchResults := \<lparr>sr_total_results = sr_total_results r,
            sr_channel_ids = uniq (sr_channel_ids r @ fo_channel_ids f),
            sr_content_kinds = filter (\<lambda>k. k \<in> set kinds_shown) (uniq (sr_content_kinds r @ fo_content_kinds f)),
            sr_results = uniq_by ln_id (sr_results r @ annotated_content_list topics (fo_results f)),
            sr_contentIdsFetched = uniq (sr_contentIdsFetched r @ map ln_content_id (fo_results f))\<rparr>\<rparr>)"

definition search_answered :: "found \<Rightarrow> exam_creation \<Rightarrow> exam_creation" where
  "search_answered f s = (let topicIds = map ln_id (filter (\<lambda>n. ln_kind n = ''topic'') (fo_results f)) in
     if topicIds = [] then search_list_ready [] f s else ask_for (Descendants_Assessments topicIds f) s)"

section \<open>Saving\<close>

definition exam_of :: "string \<Rightarrow> exam_creation \<Rightarrow> exam_data" where
  "exam_of classId s = \<lparr>xd_collection = classId, xd_title = xc_title s, xd_seed = xc_seed s,
     xd_question_count = length (xc_selectedQuestions s), xd_question_sources = xc_selectedQuestions s, xd_assignments = [classId],
     xd_learners_see_fixed_order = xc_learnersSeeFixedOrder s\<rparr>"

definition createExamAndRoute :: "string \<Rightarrow> exam_creation \<Rightarrow> exam_creation" where
  "createExamAndRoute classId s = ask_for (Save_Exam (exam_of classId s)) s"

definition createPracticeQuizAndRoute :: "string \<Rightarrow> bool \<Rightarrow> exam_creation \<Rightarrow> exam_creation" where
  "createPracticeQuizAndRoute classId randomized s = createExamAndRoute classId (s\<lparr>xc_learnersSeeFixedOrder := \<not> randomized\<rparr>)"

section \<open>Events\<close>

datatype creation_answer =
    Available_Are nat
  | Exercises_Are "exercise list"
  | Nodes_Found found
  | Assessments_Are "(string \<times> nat) list"
  | Descendants_Are "descendant list"
  | Exam_Saved
  | Not_Answered

datatype creation_event =
    Reset_State nat
  | Set_Title string
  | Set_Number "nat option"
  | Randomize_Seed nat
  | Set_Fixed_Order bool
  | Set_Content_List "listed_node list"
  | Set_Search_Results search_results
  | Set_Questions "question_source list"
  | Set_Bookmarks_List jsval
  | Set_Ancestors jsval
  | Set_Exams_Modal jsval
  | Set_Current_Content_Node jsval
  | Set_Preview_State jsval
  | Add_Exercises "exercise list"
  | Remove_Exercises "exercise list"
  | Update_Questions
  | Search_Further search_choice
  | Create_Exam string
  | Create_Practice_Quiz string bool
  | Answer nat creation_answer

definition close_at :: "nat \<Rightarrow> exam_creation \<Rightarrow> exam_creation" where
  "close_at i s = s\<lparr>xc_requests := (xc_requests s)[i := (xc_requests s ! i)\<lparr>cq_open := False\<rparr>]\<rparr>"

text \<open>What the answers do, with the exception their handlers throw; a failed call or an answer of another kind does nothing.\<close>

definition creation_handled ::
  "(nat \<Rightarrow> nat list \<Rightarrow> nat list) \<Rightarrow> (nat \<Rightarrow> string list \<Rightarrow> string list) \<Rightarrow> (string \<Rightarrow> string) \<Rightarrow> creation_call \<Rightarrow> creation_answer \<Rightarrow>
     exam_creation \<Rightarrow> (exam_creation \<times> js_error option) option" where
  "creation_handled shuffle_idx shuffle snakeCase c a s = (case (c, a) of
       (Node_Assessments ids, Available_Are n) \<Rightarrow> Some (s\<lparr>xc_availableQuestions := n\<rparr>, None)
     | (Fetch_Exercises ids, Exercises_Are es) \<Rightarrow> exercises_fetched shuffle_idx shuffle snakeCase ids es s
     | (Search_Nodes p, Nodes_Found f) \<Rightarrow> Some (search_answered f s, None)
     | (Descendants_Assessments ids f, Assessments_Are counts) \<Rightarrow> Some (ask_for (Exercise_Descendants (topics_with_exercises counts) f) s, None)
     | (Exercise_Descendants ts f, Descendants_Are es) \<Rightarrow> (case fold_result add_exercise es ts of
           Inl e \<Rightarrow> Some (s, Some e)
         | Inr topics \<Rightarrow> Some (search_list_ready topics f s, None))
     | (Save_Exam x, Exam_Saved) \<Rightarrow> Some (s\<lparr>xc_saved := True\<rparr>, None)
     | _ \<Rightarrow> Some (s, None))"

definition creation_step ::
  "(nat \<Rightarrow> nat list \<Rightarrow> nat list) \<Rightarrow> (nat \<Rightarrow> string list \<Rightarrow> string list) \<Rightarrow> (string \<Rightarrow> string) \<Rightarrow> creation_event \<Rightarrow>
     exam_creation \<Rightarrow> (exam_creation \<times> js_error option) option" where
  "creation_step shuffle_idx shuffle snakeCase ev s = (case ev of
       Reset_State sd \<Rightarrow> Some (defaultState sd (xc_requests s), None)
     | Set_Title t \<Rightarrow> Some (s\<lparr>xc_title := t\<rparr>, None)
     | Set_Number n \<Rightarrow> Some (s\<lparr>xc_numberOfQuestions := n\<rparr>, None)
     | Randomize_Seed sd \<Rightarrow> Some (s\<lparr>xc_seed := sd\<rparr>, None)
     | Set_Fixed_Order b \<Rightarrow> Some (s\<lparr>xc_learnersSeeFixedOrder := b\<rparr>, None)
     | Set_Content_List ns \<Rightarrow> Some (s\<lparr>xc_contentList := ns\<rparr>, None)
     | Set_Search_Results r \<Rightarrow> Some (s\<lparr>xc_searchResults := r\<rparr>, None)
     | Set_Questions qs \<Rightarrow> Some (s\<lparr>xc_selectedQuestions := qs\<rparr>, None)
     | Set_Bookmarks_List v \<Rightarrow> Some (s\<lparr>xc_bookmarksList := v\<rparr>, None)
     | Set_Ancestors v \<Rightarrow> Some (s\<lparr>xc_ancestors := v\<rparr>, None)
     | Set_Exams_Modal v \<Rightarrow> Some (s\<lparr>xc_examsModalSet := v\<rparr>, None)
     | Set_Current_Content_Node v \<Rightarrow> Some (s\<lparr>xc_currentContentNode := v\<rparr>, None)
     | Set_Preview_State v \<Rightarrow> Some (s\<lparr>xc_preview := v\<rparr>, None)
     | Add_Exercises es \<Rightarrow> Some (addToSelectedExercises es s, None)
     | Remove_Exercises es \<Rightarrow> Some (removeFromSelectedExercises es s, None)
     | Update_Questions \<Rightarrow> Some (updateSelectedQuestions shuffle s, None)
     | Search_Further p \<Rightarrow> Some (fetchAdditionalSearchResults p s, None)
     | Create_Exam classId \<Rightarrow> Some (createExamAndRoute classId s, None)
     | Create_Practice_Quiz classId randomized \<Rightarrow> Some (createPracticeQuizAndRoute classId randomized s, None)
     | Answer i a \<Rightarrow>
         (if i < length (xc_requests s) \<and> cq_open (xc_requests s ! i) then
            creation_handled shuffle_idx shuffle snakeCase (cq_call (xc_requests s ! i)) a (close_at i s)
          else Some (s, None)))"

text \<open>A sequence of events; exceptions of handlers end only the handler.\<close>

fun creation_run ::
  "(nat \<Rightarrow> nat list \<Rightarrow> nat list) \<Rightarrow> (nat \<Rightarrow> string list \<Rightarrow> string list) \<Rightarrow> (string \<Rightarrow> string) \<Rightarrow> creation_event list \<Rightarrow>
     exam_creation \<Rightarrow> exam_creation option" where
  "creation_run shuffle_idx shuffle snakeCase [] s = Some s"
| "creation_run shuffle_idx shuffle snakeCase (ev # evs) s = (case creation_step shuffle_idx shuffle snakeCase ev s of
       None \<Rightarrow> None
     | Some (s', e) \<Rightarrow> creation_run shuffle_idx shuffle snakeCase evs s')"

end
