(* ===== verification/Exam_Creation_Properties.thy ===== *)
theory Exam_Creation_Properties
  imports Exam_Creation
begin

text \<open>
  What creating a quiz guarantees: selecting its questions always ends, and gives as many distinct questions of the chosen
  exercises as there can be.  The lemmas at the end show what goes wrong when requests overlap.
\<close>

text \<open>The third-party shuffle, which permutes.\<close>

definition permuting :: "(nat \<Rightarrow> string list \<Rightarrow> string list) \<Rightarrow> (nat \<Rightarrow> nat list \<Rightarrow> nat list) \<Rightarrow> bool" where
  "permuting shuffle shuffle_idx \<longleftrightarrow> (\<forall>sd xs. mset (shuffle sd xs) = mset xs) \<and> (\<forall>sd xs. mset (shuffle_idx sd xs) = mset xs)"

section \<open>The requests for exercises\<close>

definition fetches_distinct :: "exam_creation \<Rightarrow> bool" where
  "fetches_distinct s \<longleftrightarrow> obj_wf (xc_selectedExercises s)
     \<and> (\<forall>r \<in> set (xc_requests s). \<forall>ids. cq_call r = Fetch_Exercises ids \<longrightarrow> distinct ids)"

lemma fetches_ask: "fetches_distinct s \<Longrightarrow> (\<And>ids. c = Fetch_Exercises ids \<Longrightarrow> distinct ids) \<Longrightarrow> fetches_distinct (ask_for c s)"
  by (auto simp: fetches_distinct_def ask_for_def)

lemma fetches_cong: "xc_selectedExercises s = xc_selectedExercises t \<Longrightarrow> xc_requests s = xc_requests t \<Longrightarrow> fetches_distinct s = fetches_distinct t"
  by (simp add: fetches_distinct_def)

lemma wf_fold: "obj_wf m \<Longrightarrow> obj_wf (fold (\<lambda>e. obj_set (ex_id e) e) es m) \<and> obj_wf (fold (\<lambda>e. obj_del (ex_id e)) es m)"
  by (induction es arbitrary: m) auto

lemma fetches_updates: "fetches_distinct s \<Longrightarrow> fetches_distinct (ADD_TO_SELECTED_EXERCISES es s)"
  "fetches_distinct s \<Longrightarrow> fetches_distinct (REMOVE_FROM_SELECTED_EXERCISES es s)"
  "fetches_distinct s \<Longrightarrow> fetches_distinct (UPDATE_SELECTED_EXERCISES es s)"
  by (simp_all add: fetches_distinct_def ADD_TO_SELECTED_EXERCISES_def REMOVE_FROM_SELECTED_EXERCISES_def UPDATE_SELECTED_EXERCISES_def wf_fold)

lemma fetches_available: "fetches_distinct s \<Longrightarrow> fetches_distinct (updateAvailableQuestions s)"
  by (auto simp: updateAvailableQuestions_def Let_def intro!: fetches_ask) (simp_all add: fetches_distinct_def)

lemma fetches_close: "fetches_distinct s \<Longrightarrow> fetches_distinct (close_at i s)"
proof (cases "i < length (xc_requests s)")
  case True
  assume s: "fetches_distinct s"
  then have "distinct ids" if "cq_call (xc_requests s ! i) = Fetch_Exercises ids" for ids
    using that True by (auto simp: fetches_distinct_def)
  then show ?thesis using s by (auto simp: fetches_distinct_def close_at_def dest!: set_update_subset_insert [THEN subsetD])
qed (simp add: close_at_def fetches_distinct_def not_less list_update_beyond)

lemma fetches_selected:
  assumes "permuting shuffle shuffle_idx" "fetches_distinct s"
  shows "fetches_distinct (updateSelectedQuestions shuffle s)"
proof -
  have "distinct (obj_keys (xc_selectedExercises s))" using assms(2) by (simp add: fetches_distinct_def)
  then have "distinct (shuffle (xc_seed s) (obj_keys (xc_selectedExercises s)))" using assms(1) mset_eq_imp_distinct_iff unfolding permuting_def by metis
  moreover have "fetches_distinct (s\<lparr>xc_loadingNewQuestions := True\<rparr>)" using assms(2) by (simp add: fetches_distinct_def)
  ultimately have "fetches_distinct (ask_for (Fetch_Exercises (take (questions_wanted s) (shuffle (xc_seed s) (obj_keys (xc_selectedExercises s)))))
      (s\<lparr>xc_loadingNewQuestions := True\<rparr>))" by (intro fetches_ask) auto
  then show ?thesis using assms(2) by (simp add: updateSelectedQuestions_def Let_def) (simp add: fetches_distinct_def)
qed

section \<open>Selecting questions\<close>

definition questions_of :: "(string \<Rightarrow> string) \<Rightarrow> exercise \<Rightarrow> string list" where
  "questions_of snakeCase e = assessmentIds (assessmentMetaDataState snakeCase (ex_node e))"

lemma last_listed: "obj_get (fold (\<lambda>e. obj_set (ex_id e) e) es m) k = Some e \<Longrightarrow> (e \<in> set es \<and> ex_id e = k) \<or> obj_get m k = Some e"
  by (induction es arbitrary: m) (fastforce split: if_splits)+

lemma available_from: "e \<in> set (available_exercises ids es) \<Longrightarrow> e \<in> set es \<and> ex_id e \<in> set ids"
proof -
  assume "e \<in> set (available_exercises ids es)"
  then obtain k where "k \<in> set ids" "obj_get (fold (\<lambda>e. obj_set (ex_id e) e) es []) k = Some e"
    by (auto simp: available_exercises_def map_filter_def Let_def)
  then show ?thesis using last_listed [of es "[]" k e] by auto
qed

lemma nothing_available: "sh_idx [] = [] \<Longrightarrow> selectQuestions sh_idx sh_ids n [] [] [] =
    Some (if n = 0 then Inr [] else Inl undefined_property)"
  by (auto simp: selectQuestions_def select_loop.simps nth_opt_def annotateQuestionSourcesWithCounter_def)

lemma fetched_selection:
  assumes "permuting shuffle shuffle_idx"
  shows "available_exercises ids es \<noteq> [] \<Longrightarrow> \<exists>qs. exercises_fetched shuffle_idx shuffle snakeCase ids es s
      = Some (UPDATE_SELECTED_EXERCISES es s\<lparr>xc_selectedQuestions := qs, xc_loadingNewQuestions := False\<rparr>, None)
      \<and> chosen_well (questions_wanted s) (map ex_id (available_exercises ids es)) (map (questions_of snakeCase) (available_exercises ids es)) qs"
    and "available_exercises ids es = [] \<Longrightarrow> exercises_fetched shuffle_idx shuffle snakeCase ids es s
      = Some (if questions_wanted s = 0 then (UPDATE_SELECTED_EXERCISES es s\<lparr>xc_selectedQuestions := [], xc_loadingNewQuestions := False\<rparr>, None)
          else (UPDATE_SELECTED_EXERCISES es s, Some undefined_property))"
proof -
  have u: "xc_seed (UPDATE_SELECTED_EXERCISES es s) = xc_seed s" "questions_wanted (UPDATE_SELECTED_EXERCISES es s) = questions_wanted s"
    by (simp_all add: UPDATE_SELECTED_EXERCISES_def questions_wanted_def)
  let ?A = "available_exercises ids es"
  show "\<exists>qs. exercises_fetched shuffle_idx shuffle snakeCase ids es s
      = Some (UPDATE_SELECTED_EXERCISES es s\<lparr>xc_selectedQuestions := qs, xc_loadingNewQuestions := False\<rparr>, None)
      \<and> chosen_well (questions_wanted s) (map ex_id ?A) (map (questions_of snakeCase) ?A) qs" if "?A \<noteq> []"
    using selectQuestions_chosen [of "map (questions_of snakeCase) ?A" "map ex_id ?A" "shuffle_idx (xc_seed s)" "shuffle (xc_seed s)"
        "questions_wanted s" "map ex_title ?A"] that assms
    by (auto simp: permuting_def exercises_fetched_def u Let_def questions_of_def [abs_def])
  show "exercises_fetched shuffle_idx shuffle snakeCase ids es s
      = Some (if questions_wanted s = 0 then (UPDATE_SELECTED_EXERCISES es s\<lparr>xc_selectedQuestions := [], xc_loadingNewQuestions := False\<rparr>, None)
          else (UPDATE_SELECTED_EXERCISES es s, Some undefined_property))" if "?A = []"
  proof -
    have "mset (shuffle_idx (xc_seed s) []) = mset []" using assms unfolding permuting_def by blast
    then have "shuffle_idx (xc_seed s) [] = []" by simp
    from nothing_available [where sh_idx = "shuffle_idx (xc_seed s)", OF this] show ?thesis using that by (simp add: exercises_fetched_def u Let_def)
  qed
qed

section \<open>Every sequence of events\<close>

lemma handled_fine:
  assumes "permuting shuffle shuffle_idx" and "fetches_distinct s"
  shows "\<exists>s' e. creation_handled shuffle_idx shuffle snakeCase c a s = Some (s', e) \<and> fetches_distinct s'"
proof -
  have ready: "fetches_distinct (search_list_ready ts f s)" for ts f
    using assms(2) by (simp add: search_list_ready_def Let_def fetches_distinct_def)
  have fetched: "\<exists>s' e. exercises_fetched shuffle_idx shuffle snakeCase ids es s = Some (s', e) \<and> fetches_distinct s'" for ids es
  proof (cases "available_exercises ids es = []")
    case True
    then show ?thesis using fetched_selection(2) [OF assms(1) True] fetches_updates(3) [OF assms(2), of es]
      by (auto simp: fetches_distinct_def)
  next
    case False
    then show ?thesis using fetched_selection(1) [OF assms(1) False, of snakeCase s] fetches_updates(3) [OF assms(2), of es]
      by (auto simp: fetches_distinct_def)
  qed
  have other: "fetches_distinct (s\<lparr>xc_availableQuestions := n\<rparr>)" "fetches_distinct (s\<lparr>xc_saved := True\<rparr>)" for n
    using assms(2) by (simp_all add: fetches_distinct_def)
  have asked: "fetches_distinct (ask_for (Exercise_Descendants ts f) s)" "fetches_distinct (search_answered f s)" for ts f
    using assms(2) ready fetches_ask by (auto simp: search_answered_def Let_def)
  show ?thesis using fetched ready asked other assms(2)
    by (cases c; cases a) (simp_all add: creation_handled_def split: sum.split)
qed

lemma step_fine:
  assumes "permuting shuffle shuffle_idx" and "fetches_distinct s"
  shows "\<exists>s' e. creation_step shuffle_idx shuffle snakeCase ev s = Some (s', e) \<and> fetches_distinct s'"
proof (cases ev)
  case (Answer i a)
  then show ?thesis using handled_fine [OF assms(1) fetches_close [OF assms(2)]] assms(2) by (simp add: creation_step_def)
next
  case Update_Questions
  then show ?thesis using fetches_selected [OF assms] by (simp add: creation_step_def)
next
  case (Add_Exercises es)
  then show ?thesis using assms(2) by (simp add: creation_step_def addToSelectedExercises_def fetches_available fetches_updates)
next
  case (Remove_Exercises es)
  then show ?thesis using assms(2) by (simp add: creation_step_def removeFromSelectedExercises_def fetches_available fetches_updates)
qed (use assms(2) in \<open>auto simp: creation_step_def fetches_distinct_def defaultState_def fetchAdditionalSearchResults_def ask_for_def
    createExamAndRoute_def createPracticeQuizAndRoute_def Let_def\<close>)

lemma run_fine:
  assumes "permuting shuffle shuffle_idx" and "fetches_distinct s"
  shows "\<exists>s'. creation_run shuffle_idx shuffle snakeCase evs s = Some s' \<and> fetches_distinct s'"
  using assms(2)
proof (induction evs arbitrary: s)
  case (Cons ev evs)
  then show ?case using step_fine [OF assms(1) Cons.prems, of snakeCase ev] by auto
qed simp

text \<open>
  C39. Whatever is clicked and answered while a quiz is made, every handler ends.  When the exercises asked for arrive, and there
  is one among them, the quiz has as many questions as are wanted then, or all there are if they are fewer: distinct, sorted by
  title, each a question of an exercise that was asked for; and the exam that is saved from then on is made of them.
\<close>

theorem questions_of_chosen_exercises:
  assumes "permuting shuffle shuffle_idx"
  shows "\<exists>t. creation_run shuffle_idx shuffle snakeCase evs (defaultState sd []) = Some t
    \<and> (\<forall>i ids es. i < length (xc_requests t) \<and> xc_requests t ! i = \<lparr>cq_call = Fetch_Exercises ids, cq_open = True\<rparr>
          \<and> available_exercises ids es \<noteq> [] \<longrightarrow>
        distinct ids \<and> (\<exists>u. creation_step shuffle_idx shuffle snakeCase (Answer i (Exercises_Are es)) t = Some (u, None)
          \<and> \<not> xc_loadingNewQuestions u
          \<and> (let qs = xc_selectedQuestions u; A = available_exercises ids es
             in length qs = min (questions_wanted t) (card (\<Union>e \<in> set A. set (questions_of snakeCase e)))
              \<and> distinct (map question_id qs) \<and> sorted (map title_key qs)
              \<and> (\<forall>q \<in> set qs. \<exists>e \<in> set A. ex_id e \<in> set ids \<and> exercise_id q = ex_id e \<and> question_id q \<in> Some ` set (questions_of snakeCase e))
              \<and> (\<forall>classId. xd_question_sources (exam_of classId u) = qs \<and> xd_question_count (exam_of classId u) = length qs))))"
proof -
  have "fetches_distinct (defaultState sd [])" by (simp add: fetches_distinct_def defaultState_def)
  from run_fine [OF assms this, of snakeCase evs] obtain t where t: "creation_run shuffle_idx shuffle snakeCase evs (defaultState sd []) = Some t" "fetches_distinct t"
    by blast
  show ?thesis
  proof (rule exI [of _ t], intro conjI t(1) allI impI)
    fix i ids es
    let ?A = "available_exercises ids es"
    assume a: "i < length (xc_requests t) \<and> xc_requests t ! i = \<lparr>cq_call = Fetch_Exercises ids, cq_open = True\<rparr> \<and> ?A \<noteq> []"
    then have "\<lparr>cq_call = Fetch_Exercises ids, cq_open = True\<rparr> \<in> set (xc_requests t)" by (metis nth_mem)
    then show "distinct ids" using t(2) by (force simp: fetches_distinct_def)
    from a fetched_selection(1) [OF assms, of ids es snakeCase "close_at i t"] obtain qs where qs:
      "exercises_fetched shuffle_idx shuffle snakeCase ids es (close_at i t)
        = Some (UPDATE_SELECTED_EXERCISES es (close_at i t)\<lparr>xc_selectedQuestions := qs, xc_loadingNewQuestions := False\<rparr>, None)"
      and c: "chosen_well (questions_wanted t) (map ex_id ?A) (map (questions_of snakeCase) ?A) qs"
      by (auto simp: questions_wanted_def close_at_def)
    have "\<exists>e \<in> set ?A. ex_id e \<in> set ids \<and> exercise_id q = ex_id e \<and> question_id q \<in> Some ` set (questions_of snakeCase e)" if "q \<in> set qs" for q
      using c that available_from unfolding chosen_well_def by (fastforce dest: bspec)
    moreover have "\<Union> (set ` set (map (questions_of snakeCase) ?A)) = (\<Union>e \<in> set ?A. set (questions_of snakeCase e))" by auto
    ultimately show "\<exists>u. creation_step shuffle_idx shuffle snakeCase (Answer i (Exercises_Are es)) t = Some (u, None)
          \<and> \<not> xc_loadingNewQuestions u
          \<and> (let qs = xc_selectedQuestions u; A = ?A
             in length qs = min (questions_wanted t) (card (\<Union>e \<in> set A. set (questions_of snakeCase e)))
              \<and> distinct (map question_id qs) \<and> sorted (map title_key qs)
              \<and> (\<forall>q \<in> set qs. \<exists>e \<in> set A. ex_id e \<in> set ids \<and> exercise_id q = ex_id e \<and> question_id q \<in> Some ` set (questions_of snakeCase e))
              \<and> (\<forall>classId. xd_question_sources (exam_of classId u) = qs \<and> xd_question_count (exam_of classId u) = length qs))"
      using a qs c by (simp add: creation_step_def creation_handled_def Let_def chosen_well_def exam_of_def)
  qed
qed

definition sample_exercise :: "string \<Rightarrow> string list \<Rightarrow> exercise" where
  "sample_exercise i qs = \<lparr>ex_node = \<lparr>node_id = i, assessmentmetadata = Some \<lparr>assessment_item_ids = qs, mastery_model = [(''type'', ''m'')], randomize = False\<rparr>\<rparr>, ex_title = i\<rparr>"

definition sample_run :: "creation_event list \<Rightarrow> exam_creation option" where
  "sample_run evs = creation_run (\<lambda>sd xs. xs) (\<lambda>sd xs. xs) (\<lambda>s. s) evs (defaultState 0 [])"

definition sample_choice :: "creation_event list" where
  "sample_choice = [Add_Exercises [sample_exercise ''e'' [''p'', ''q''], sample_exercise ''f'' [''q'']], Update_Questions]"

theorem questions_of_chosen_exercises_witness:
  "\<exists>t u. sample_run sample_choice = Some t
    \<and> creation_step (\<lambda>sd xs. xs) (\<lambda>sd xs. xs) (\<lambda>s. s) (Answer 1 (Exercises_Are [sample_exercise ''e'' [''p'', ''q''], sample_exercise ''f'' [''q'']])) t = Some (u, None)
    \<and> length (xc_selectedQuestions u) = 2"
proof -
  let ?es = "[sample_exercise ''e'' [''p'', ''q''], sample_exercise ''f'' [''q'']]"
  have "permuting (\<lambda>sd xs. xs) (\<lambda>sd xs. xs)" by (simp add: permuting_def)
  from questions_of_chosen_exercises [OF this, of "\<lambda>s. s" sample_choice 0] obtain t where
    t: "sample_run sample_choice = Some t" and all: "\<forall>i ids es. i < length (xc_requests t) \<and> xc_requests t ! i = \<lparr>cq_call = Fetch_Exercises ids, cq_open = True\<rparr>
          \<and> available_exercises ids es \<noteq> [] \<longrightarrow>
        distinct ids \<and> (\<exists>u. creation_step (\<lambda>sd xs. xs) (\<lambda>sd xs. xs) (\<lambda>s. s) (Answer i (Exercises_Are es)) t = Some (u, None)
          \<and> \<not> xc_loadingNewQuestions u
          \<and> (let qs = xc_selectedQuestions u; A = available_exercises ids es
             in length qs = min (questions_wanted t) (card (\<Union>e \<in> set A. set (questions_of (\<lambda>s. s) e)))
              \<and> distinct (map question_id qs) \<and> sorted (map title_key qs)
              \<and> (\<forall>q \<in> set qs. \<exists>e \<in> set A. ex_id e \<in> set ids \<and> exercise_id q = ex_id e \<and> question_id q \<in> Some ` set (questions_of (\<lambda>s. s) e))
              \<and> (\<forall>classId. xd_question_sources (exam_of classId u) = qs \<and> xd_question_count (exam_of classId u) = length qs)))"
    unfolding sample_run_def by blast
  have "(case sample_run sample_choice of None \<Rightarrow> False | Some t \<Rightarrow> xc_requests t ! 1 = \<lparr>cq_call = Fetch_Exercises [''e'', ''f''], cq_open = True\<rparr>
      \<and> length (xc_requests t) = 2 \<and> questions_wanted t = 10)" by code_simp
  then have r: "xc_requests t ! 1 = \<lparr>cq_call = Fetch_Exercises [''e'', ''f''], cq_open = True\<rparr>" "1 < length (xc_requests t)" "questions_wanted t = 10"
    using t by simp_all
  have a: "available_exercises [''e'', ''f''] ?es = ?es" "questions_of (\<lambda>s. s) (sample_exercise ''e'' [''p'', ''q'']) = [''p'', ''q'']"
    "questions_of (\<lambda>s. s) (sample_exercise ''f'' [''q'']) = [''q'']" by code_simp+
  then have c: "card (\<Union>e \<in> set ?es. set (questions_of (\<lambda>s. s) e)) = 2" by (simp add: card_insert_if)
  have "available_exercises [''e'', ''f''] ?es \<noteq> []" using a(1) by simp
  with all r(1,2) obtain u where "creation_step (\<lambda>sd xs. xs) (\<lambda>sd xs. xs) (\<lambda>s. s) (Answer 1 (Exercises_Are ?es)) t = Some (u, None)"
    "length (xc_selectedQuestions u) = min (questions_wanted t) (card (\<Union>e \<in> set (available_exercises [''e'', ''f''] ?es). set (questions_of (\<lambda>s. s) e)))"
    unfolding Let_def by blast
  then show ?thesis using t r(3) a(1) c by (intro exI conjI) simp_all
qed

section \<open>Where requests overlap\<close>

declare select_loop.simps [code]

definition after :: "creation_event list \<Rightarrow> (exam_creation \<Rightarrow> 'a) \<Rightarrow> 'a option" where
  "after evs f = map_option f (sample_run evs)"

text \<open>An exercise that is removed while its metadata are fetched is selected again by the answer.\<close>

lemma removed_exercise_returns:
  "after (sample_choice @ [Remove_Exercises [sample_exercise ''e'' [''p'', ''q'']],
      Answer 1 (Exercises_Are [sample_exercise ''e'' [''p'', ''q''], sample_exercise ''f'' [''q'']])]) (\<lambda>s. obj_keys (xc_selectedExercises s))
    = Some [''f'', ''e'']"
  by code_simp

text \<open>The number of questions available is that of the answer that arrives last, also when nothing is selected any more.\<close>

lemma stale_availability:
  "after [Add_Exercises [sample_exercise ''e'' [''p'']], Remove_Exercises [sample_exercise ''e'' [''p'']], Answer 0 (Available_Are 1)] xc_availableQuestions = Some 1"
  by code_simp

text \<open>When the server has none of the exercises the selection throws, and as when the request fails the module stays loading.\<close>

lemma nothing_found_keeps_loading:
  "after (sample_choice @ [Answer 1 (Exercises_Are [])]) xc_loadingNewQuestions = Some True"
  "after (sample_choice @ [Answer 1 Not_Answered]) xc_loadingNewQuestions = Some True"
  by code_simp+

text \<open>The first of two answers ends the loading of both, and the exercises are those of the number of questions of its request.\<close>

lemma answer_of_old_number:
  "after [Add_Exercises [sample_exercise ''e'' [''p''], sample_exercise ''f'' [''q'']], Set_Number (Some 1), Update_Questions, Set_Number (Some 2), Update_Questions,
      Answer 2 (Exercises_Are [sample_exercise ''e'' [''p''], sample_exercise ''f'' [''q'']]), Answer 1 (Exercises_Are [sample_exercise ''e'' [''p'']])]
    (\<lambda>s. (xc_numberOfQuestions s, length (xc_selectedQuestions s))) = Some (Some 2, 1)"
  "after [Add_Exercises [sample_exercise ''e'' [''p'']], Update_Questions, Update_Questions, Answer 1 (Exercises_Are [sample_exercise ''e'' [''p'']])]
    (\<lambda>s. (xc_loadingNewQuestions s, length (filter cq_open (xc_requests s)))) = Some (False, 2)"
  by code_simp+

end
