(* ===== verification/Learner_Devices.thy ===== *)
theory Learner_Devices
  imports Js_Value
begin

text \<open>
  The devices in the learner's network, their channels and the pinned ones
  (\<open>kolibri/plugins/learn/assets/src/composables/useDevices.js\<close>, \<open>useChannels.js\<close>, \<open>usePinnedDevices.js\<close>, and the
  comparison of versions of \<open>core/assets/src/composables/useMinimumKolibriVersion.js\<close>).  Requests are made by the operations and answered by
  events.  Whether the user may use Studio, Studio's own data and a key for the order of names in the current
  locale are parameters.  Channels are JSON.
\<close>

section \<open>Versions\<close>

text \<open>\<open>parseInt\<close> of a string: decimal, or hexadecimal after \<open>0x\<close>.\<close>

definition hex_value :: "char \<Rightarrow> nat option" where
  "hex_value c = (let n = of_char c in
     if 48 \<le> n \<and> n \<le> 57 then Some (n - 48) else if 97 \<le> n \<and> n \<le> 102 then Some (n - 87) else if 65 \<le> n \<and> n \<le> 70 then Some (n - 55) else None)"

definition parse_digits :: "nat \<Rightarrow> string \<Rightarrow> nat option" where
  "parse_digits base s = (let ds = map (\<lambda>c. the (hex_value c)) (takeWhile (\<lambda>c. case hex_value c of Some d \<Rightarrow> d < base | None \<Rightarrow> False) s)
     in if ds = [] then None else Some (foldl (\<lambda>n d. n * base + d) 0 ds))"

definition parse_int :: "string \<Rightarrow> int option" where
  "parse_int s = (let t = dropWhile is_space s;
       negative = (t \<noteq> [] \<and> hd t = CHR ''-'');
       u = (if t \<noteq> [] \<and> hd t \<in> {CHR ''-'', CHR ''+''} then tl t else t);
       n = (if take 2 u = ''0x'' \<or> take 2 u = ''0X'' then parse_digits 16 (drop 2 u) else parse_digits 10 u)
     in map_option (\<lambda>n. if negative then - int n else int n) n)"

definition isMinimumKolibriVersion :: "int \<Rightarrow> int \<Rightarrow> int option \<Rightarrow> string \<Rightarrow> bool" where
  "isMinimumKolibriVersion majorVersion minorVersion revisionVersion version =
     (let v = js_split CHR ''.'' version in
      if version = [] \<or> length v < 3 then False
      else case (parse_int (v ! 0), parse_int (v ! 1), parse_int (v ! 2)) of
         (Some major, Some minor, Some r) \<Rightarrow>
           (let revision = (if CHR ''-'' \<in> set version then r - 1 else r) in
            majorVersion < major
            \<or> major = majorVersion \<and> (minorVersion < minor
               \<or> minor = minorVersion \<and> (case revisionVersion of None \<Rightarrow> True | Some rv \<Rightarrow> rv \<le> revision)))
       | _ \<Rightarrow> False)"

section \<open>State\<close>

record device =
  dv_id :: string
  dv_instance_id :: string
  dv_base_url :: string
  dv_device_name :: string
  dv_available :: bool
  dv_kolibri_version :: string

record pin =
  pn_instance_id :: string
  pn_id :: jsval

datatype device_call =
    Fetch_Devices bool
  | Fetch_Channels device nat
  | Fetch_Local_Channels
  | Fetch_Pins
  | Create_Pin string
  | Delete_Pin jsval
  | Fetch_Device string

record device_request =
  dc_call :: device_call
  dc_open :: bool

record devices =
  ds_currentDevice :: "device option"
  ds_networkDevices :: "device jsobj"
  ds_isLoading :: bool
  ds_deviceChannelsMap :: "jsval list jsobj"
  ds_isLoadingChannels :: bool
  ds_watching :: nat
  ds_batch :: nat
  ds_channelsMap :: "jsval jsobj"
  ds_localChannelsCache :: "jsval list"
  ds_userPinsMap :: "pin jsobj"
  ds_requests :: "device_request list"

definition new_devices :: devices where
  "new_devices = \<lparr>ds_currentDevice = None, ds_networkDevices = [], ds_isLoading = False, ds_deviceChannelsMap = [], ds_isLoadingChannels = True,
     ds_watching = 0, ds_batch = 0, ds_channelsMap = [], ds_localChannelsCache = [], ds_userPinsMap = [], ds_requests = []\<rparr>"

definition request_device :: "device_call \<Rightarrow> devices \<Rightarrow> devices" where
  "request_device c s = s\<lparr>ds_requests := ds_requests s @ [\<lparr>dc_call = c, dc_open = True\<rparr>]\<rparr>"

section \<open>Devices and their channels\<close>

text \<open>The answers of Studio, asked only when it may be used, and of the server.\<close>

definition fetched_devices :: "device \<Rightarrow> bool \<Rightarrow> device option \<Rightarrow> device list \<Rightarrow> device list js_result" where
  "fetched_devices studioData canAccessStudio studioResponse ds =
     (if canAccessStudio then
        (case studioResponse of
           None \<Rightarrow> Inl (TypeError ''Cannot read properties of null'')
         | Some studio \<Rightarrow>
             (let ds' = filter (\<lambda>d. isMinimumKolibriVersion 0 16 (Some 0) (dv_kolibri_version d)) ds in
              Inr (if dv_available studio
                      \<and> isMinimumKolibriVersion 0 16 (Some 0) (if dv_kolibri_version studio = [] then ''0.15.0'' else dv_kolibri_version studio)
                   then studioData\<lparr>dv_available := dv_available studio, dv_kolibri_version := dv_kolibri_version studio\<rparr> # ds'
                   else ds')))
      else Inr ds)"

definition setNetworkDevices :: "bool \<Rightarrow> devices \<Rightarrow> devices" where
  "setNetworkDevices canAccessStudio s = request_device (Fetch_Devices canAccessStudio) (s\<lparr>ds_isLoading := True\<rparr>)"

text \<open>Loading the channels of the devices that have none yet; the map keeps those of the others.\<close>

definition loadDeviceChannels :: "devices \<Rightarrow> devices" where
  "loadDeviceChannels s =
     (let batch = Suc (ds_batch s);
          ds = obj_values (ds_networkDevices s);
          missing = filter (\<lambda>d. obj_get (ds_deviceChannelsMap s) (dv_instance_id d) = None) ds;
          kept = List.map_filter (\<lambda>d. map_option (Pair (dv_instance_id d)) (obj_get (ds_deviceChannelsMap s) (dv_instance_id d))) ds
      in fold (\<lambda>d. request_device (Fetch_Channels d batch)) missing
           (s\<lparr>ds_batch := batch, ds_deviceChannelsMap := fold (\<lambda>(k, v). obj_set k v) kept [],
              ds_isLoadingChannels := (if missing = [] then False else ds_isLoadingChannels s)\<rparr>))"

text \<open>Each call of \<open>keepDeviceChannelsUpdated\<close> watches the devices; watchers run as soon as the devices change.\<close>

definition devices_arrived :: "device list \<Rightarrow> devices \<Rightarrow> devices" where
  "devices_arrived ds s =
     (let s1 = s\<lparr>ds_networkDevices := fold (\<lambda>d. obj_set (dv_instance_id d) d) (filter dv_available ds) [], ds_isLoading := False\<rparr>
      in (loadDeviceChannels ^^ ds_watching s1) s1)"

definition keepDeviceChannelsUpdated :: "devices \<Rightarrow> devices" where
  "keepDeviceChannelsUpdated s = (loadDeviceChannels s)\<lparr>ds_watching := Suc (ds_watching s)\<rparr>"

definition channels_listed :: "bool \<Rightarrow> (string \<times> jsval) list \<Rightarrow> devices \<Rightarrow> devices" where
  "channels_listed no_params channels s =
     (let s1 = s\<lparr>ds_channelsMap := fold (\<lambda>(k, v). obj_set k v) channels (ds_channelsMap s)\<rparr>
      in if no_params then s1\<lparr>ds_localChannelsCache := map snd channels\<rparr> else s1)"

definition updateDeviceChannels :: "device \<Rightarrow> jsval list \<Rightarrow> devices \<Rightarrow> devices" where
  "updateDeviceChannels d channels s = s\<lparr>ds_deviceChannelsMap := obj_set (dv_instance_id d) channels (ds_deviceChannelsMap s)\<rparr>"

definition batch_open :: "nat \<Rightarrow> devices \<Rightarrow> bool" where
  "batch_open batch s \<longleftrightarrow> list_ex (\<lambda>r. dc_open r \<and> (case dc_call r of Fetch_Channels d b \<Rightarrow> b = batch | _ \<Rightarrow> False)) (ds_requests s)"

text \<open>Without an address the request has no parameters, as that for the local channels.  Channels that arrive end the loading; so does the last answer of those asked for together, also when all failed.\<close>

definition channels_settled :: "nat \<Rightarrow> devices \<Rightarrow> devices" where
  "channels_settled batch s = (if batch_open batch s then s else s\<lparr>ds_isLoadingChannels := False\<rparr>)"

definition device_channels_arrived :: "device \<Rightarrow> nat \<Rightarrow> (string \<times> jsval) list option \<Rightarrow> devices \<Rightarrow> devices" where
  "device_channels_arrived d batch answer s = (case answer of
       Some channels \<Rightarrow> channels_settled batch ((updateDeviceChannels d (map snd channels) (channels_listed (dv_base_url d = []) channels s))\<lparr>ds_isLoadingChannels := False\<rparr>)
     | None \<Rightarrow> channels_settled batch (updateDeviceChannels d [] s))"

definition networkDevicesWithChannels :: "string \<Rightarrow> (string \<Rightarrow> nat) \<Rightarrow> devices \<Rightarrow> device list" where
  "networkDevicesWithChannels studioId name_key s =
     sort_key (\<lambda>d. if dv_instance_id d = studioId then 0 else Suc (name_key (dv_device_name d)))
       (filter (\<lambda>d. case obj_get (ds_deviceChannelsMap s) (dv_instance_id d) of Some cs \<Rightarrow> cs \<noteq> [] | None \<Rightarrow> False)
         (obj_values (ds_networkDevices s)))"

definition setCurrentDevice :: "device \<Rightarrow> bool \<Rightarrow> string \<Rightarrow> devices \<Rightarrow> devices \<times> js_error option" where
  "setCurrentDevice studioData canAccessStudio i s =
     (if i = dv_id studioData then
        (if canAccessStudio then (s\<lparr>ds_currentDevice := Some studioData\<rparr>, None) else (s, Some (PlainError ''Cannot access Kolibri Studio'')))
      else (request_device (Fetch_Device i) s, None))"

definition computedDevice :: "string option \<Rightarrow> (device \<Rightarrow> 'a) \<Rightarrow> devices \<Rightarrow> 'a option" where
  "computedDevice routingDeviceId callback s = (case ds_currentDevice s of
       Some d \<Rightarrow> if Some (dv_instance_id d) = routingDeviceId then Some (callback d) else None
     | None \<Rightarrow> None)"

definition getChannelTitle :: "string \<Rightarrow> devices \<Rightarrow> jsval" where
  "getChannelTitle i s = (case obj_get (ds_channelsMap s) i of Some c \<Rightarrow> js_prop c ''name'' | None \<Rightarrow> JStr [])"

definition getChannelThumbnail :: "string \<Rightarrow> devices \<Rightarrow> jsval" where
  "getChannelThumbnail i s = (case obj_get (ds_channelsMap s) i of Some c \<Rightarrow> js_prop c ''thumbnail'' | None \<Rightarrow> JStr [])"

section \<open>Pins\<close>

definition createPinForUser :: "string \<Rightarrow> devices \<Rightarrow> devices" where
  "createPinForUser i s = request_device (Create_Pin i) (s\<lparr>ds_userPinsMap := obj_set i \<lparr>pn_instance_id = i, pn_id = JUndef\<rparr> (ds_userPinsMap s)\<rparr>)"

text \<open>The pin is taken out first; \<open>deleteModel\<close> throws without an id.\<close>

definition deletePinForUser :: "string \<Rightarrow> devices \<Rightarrow> devices \<times> js_error option" where
  "deletePinForUser i s = (case obj_get (ds_userPinsMap s) i of
       None \<Rightarrow> (s, Some (TypeError ''Cannot read properties of undefined''))
     | Some p \<Rightarrow> (let s1 = s\<lparr>ds_userPinsMap := obj_del i (ds_userPinsMap s)\<rparr> in
         if truthy (pn_id p) then (request_device (Delete_Pin (pn_id p)) s1, None) else (s1, Some (TypeError ''An id must be specified''))))"

definition handlePinToggle :: "string \<Rightarrow> devices \<Rightarrow> devices \<times> js_error option" where
  "handlePinToggle i s = (if obj_get (ds_userPinsMap s) i \<noteq> None then deletePinForUser i s else (createPinForUser i s, None))"

definition isPinnedDevice :: "string \<Rightarrow> devices \<Rightarrow> device \<Rightarrow> bool" where
  "isPinnedDevice studioId s d \<longleftrightarrow> obj_get (ds_userPinsMap s) (dv_instance_id d) \<noteq> None \<or> dv_instance_id d = studioId"

definition pinnedDevices :: "string \<Rightarrow> (string \<Rightarrow> nat) \<Rightarrow> devices \<Rightarrow> device list" where
  "pinnedDevices studioId name_key s = filter (isPinnedDevice studioId s) (networkDevicesWithChannels studioId name_key s)"

definition unpinnedDevices :: "string \<Rightarrow> (string \<Rightarrow> nat) \<Rightarrow> devices \<Rightarrow> device list" where
  "unpinnedDevices studioId name_key s = filter (\<lambda>d. \<not> isPinnedDevice studioId s d) (networkDevicesWithChannels studioId name_key s)"

section \<open>Events\<close>

datatype device_answer =
    Devices_Are "device option" "device list"
  | Channels_Are "(string \<times> jsval) list"
  | Pins_Are "pin list"
  | Pin_Created pin
  | Pin_Deleted
  | Device_Is device
  | Refused

datatype device_event =
    Poll_Devices bool
  | Keep_Channels_Updated
  | List_Local_Channels
  | Set_Current_Device bool string
  | Load_Pins
  | Toggle_Pin string
  | Device_Answer nat bool device_answer

definition close_device :: "nat \<Rightarrow> devices \<Rightarrow> devices" where
  "close_device i s = s\<lparr>ds_requests := (ds_requests s)[i := (ds_requests s ! i)\<lparr>dc_open := False\<rparr>]\<rparr>"

text \<open>The handlers; only that of a device's channels handles a failure.  \<open>can\<close>: Studio may be used when the answer arrives.\<close>

definition device_handled :: "device \<Rightarrow> bool \<Rightarrow> device_call \<Rightarrow> device_answer \<Rightarrow> devices \<Rightarrow> devices" where
  "device_handled studioData can c a s = (case c of
       Fetch_Devices asked \<Rightarrow> (case a of
           Devices_Are studio ds \<Rightarrow> (case fetched_devices studioData can (if asked then studio else None) ds of
               Inl e \<Rightarrow> s | Inr ds' \<Rightarrow> devices_arrived ds' s)
         | _ \<Rightarrow> s)
     | Fetch_Channels d batch \<Rightarrow> device_channels_arrived d batch (case a of Channels_Are cs \<Rightarrow> Some cs | _ \<Rightarrow> None) s
     | Fetch_Local_Channels \<Rightarrow> (case a of Channels_Are cs \<Rightarrow> channels_listed True cs s | _ \<Rightarrow> s)
     | Fetch_Pins \<Rightarrow> (case a of Pins_Are ps \<Rightarrow> s\<lparr>ds_userPinsMap := fold (\<lambda>p. obj_set (pn_instance_id p) p) ps []\<rparr> | _ \<Rightarrow> s)
     | Create_Pin i \<Rightarrow> (case a of Pin_Created p \<Rightarrow> s\<lparr>ds_userPinsMap := obj_set (pn_instance_id p) p (ds_userPinsMap s)\<rparr> | _ \<Rightarrow> s)
     | Delete_Pin i \<Rightarrow> s
     | Fetch_Device i \<Rightarrow> (case a of Device_Is d \<Rightarrow> s\<lparr>ds_currentDevice := Some d\<rparr> | _ \<Rightarrow> s))"

definition device_step :: "device \<Rightarrow> devices \<Rightarrow> device_event \<Rightarrow> devices" where
  "device_step studioData s ev = (case ev of
       Poll_Devices can \<Rightarrow> setNetworkDevices can s
     | Keep_Channels_Updated \<Rightarrow> keepDeviceChannelsUpdated s
     | List_Local_Channels \<Rightarrow> request_device Fetch_Local_Channels s
     | Set_Current_Device can i \<Rightarrow> fst (setCurrentDevice studioData can i s)
     | Load_Pins \<Rightarrow> request_device Fetch_Pins s
     | Toggle_Pin i \<Rightarrow> fst (handlePinToggle i s)
     | Device_Answer i can a \<Rightarrow>
         (if i < length (ds_requests s) \<and> dc_open (ds_requests s ! i)
          then device_handled studioData can (dc_call (ds_requests s ! i)) a (close_device i s) else s))"

end
