(* ===== verification/Learner_Devices_Properties.thy ===== *)
theory Learner_Devices_Properties
  imports Learner_Devices Js_Collections
begin

text \<open>
  What is known of the devices in the network and their channels, the comparison of versions, and where pins and
  devices go wrong.
\<close>

section \<open>Channels are known or asked for\<close>

definition channels_asked :: "string \<Rightarrow> devices \<Rightarrow> bool" where
  "channels_asked k s \<longleftrightarrow> (\<exists>r \<in> set (ds_requests s). dc_open r \<and> (\<exists>d b. dc_call r = Fetch_Channels d b \<and> dv_instance_id d = k))"

definition any_asked :: "devices \<Rightarrow> bool" where
  "any_asked s \<longleftrightarrow> (\<exists>k. channels_asked k s)"

definition network_ok :: "device jsobj \<Rightarrow> bool" where
  "network_ok m \<longleftrightarrow> (\<forall>k d. obj_get m k = Some d \<longrightarrow> dv_instance_id d = k \<and> dv_available d)"

definition devices_inv :: "devices \<Rightarrow> bool" where
  "devices_inv s \<longleftrightarrow> network_ok (ds_networkDevices s)
     \<and> (0 < ds_watching s \<longrightarrow>
          (\<forall>k. obj_get (ds_networkDevices s) k \<noteq> None \<longrightarrow> obj_get (ds_deviceChannelsMap s) k \<noteq> None \<or> channels_asked k s)
          \<and> (ds_isLoadingChannels s \<longrightarrow> any_asked s))"

text \<open>The other fields do not matter.\<close>

lemma inv_elsewhere:
  "devices_inv (s\<lparr>ds_userPinsMap := x1\<rparr>) = devices_inv s" "devices_inv (s\<lparr>ds_currentDevice := x2\<rparr>) = devices_inv s"
  "devices_inv (s\<lparr>ds_channelsMap := x3\<rparr>) = devices_inv s" "devices_inv (s\<lparr>ds_localChannelsCache := x4\<rparr>) = devices_inv s"
  "devices_inv (s\<lparr>ds_isLoading := x5\<rparr>) = devices_inv s"
  by (simp_all add: devices_inv_def any_asked_def channels_asked_def)

lemma asked_request: "channels_asked k (request_device c s) \<longleftrightarrow> channels_asked k s \<or> (\<exists>d b. c = Fetch_Channels d b \<and> dv_instance_id d = k)"
  by (auto simp: channels_asked_def request_device_def)

lemma inv_request: "devices_inv s \<Longrightarrow> devices_inv (request_device c s)"
  unfolding devices_inv_def any_asked_def asked_request by (auto simp: request_device_def)

lemma asked_requests: "channels_asked k (fold (\<lambda>d. request_device (Fetch_Channels d b)) ds s) \<longleftrightarrow> channels_asked k s \<or> k \<in> dv_instance_id ` set ds"
  by (induction ds arbitrary: s) (auto simp: asked_request)

lemma requests_keep:
  "ds_networkDevices (fold (\<lambda>d. request_device (Fetch_Channels d b)) ds s) = ds_networkDevices s"
  "ds_deviceChannelsMap (fold (\<lambda>d. request_device (Fetch_Channels d b)) ds s) = ds_deviceChannelsMap s"
  "ds_isLoadingChannels (fold (\<lambda>d. request_device (Fetch_Channels d b)) ds s) = ds_isLoadingChannels s"
  "ds_watching (fold (\<lambda>d. request_device (Fetch_Channels d b)) ds s) = ds_watching s"
  by (induction ds arbitrary: s) (simp_all add: request_device_def)

lemma get_kept: "obj_get (fold (\<lambda>(k, v). obj_set k v) (List.map_filter (\<lambda>d. map_option (Pair (dv_instance_id d)) (obj_get m (dv_instance_id d))) ds) n) k
    = (if k \<in> dv_instance_id ` set ds \<and> obj_get m k \<noteq> None then obj_get m k else obj_get n k)"
  by (induction ds arbitrary: n) (auto simp: map_filter_def split: option.splits)

lemma cong_asked: "ds_requests s = ds_requests t \<Longrightarrow> channels_asked k s = channels_asked k t"
  by (simp add: channels_asked_def)

lemma loaded:
  assumes "network_ok (ds_networkDevices s)"
  shows "devices_inv ((loadDeviceChannels s)\<lparr>ds_watching := n\<rparr>)"
    and "network_ok (ds_networkDevices (loadDeviceChannels s))" and "ds_watching (loadDeviceChannels s) = ds_watching s"
    and "devices_inv (loadDeviceChannels s)"
proof -
  let ?ds = "obj_values (ds_networkDevices s)"
  have keys: "obj_get (ds_networkDevices s) k \<noteq> None \<longleftrightarrow> k \<in> dv_instance_id ` set ?ds" for k
    using assms by (force simp: network_ok_def set_obj_values)
  show "network_ok (ds_networkDevices (loadDeviceChannels s))" "ds_watching (loadDeviceChannels s) = ds_watching s"
    using assms by (simp_all add: loadDeviceChannels_def Let_def requests_keep)
  let ?m = "filter (\<lambda>d. obj_get (ds_deviceChannelsMap s) (dv_instance_id d) = None) ?ds" and ?t = "loadDeviceChannels s"
  have asked: "channels_asked k ?t \<longleftrightarrow> channels_asked k s \<or> k \<in> dv_instance_id ` set ?m" for k
    unfolding loadDeviceChannels_def Let_def asked_requests by (simp add: channels_asked_def)
  have t: "ds_networkDevices ?t = ds_networkDevices s" "ds_isLoadingChannels ?t = (if ?m = [] then False else ds_isLoadingChannels s)"
    "obj_get (ds_deviceChannelsMap ?t) k = (if k \<in> dv_instance_id ` set ?ds then obj_get (ds_deviceChannelsMap s) k else None)" for k
    by (auto simp: loadDeviceChannels_def Let_def requests_keep get_kept)
  have known: "obj_get (ds_deviceChannelsMap ?t) k \<noteq> None \<or> channels_asked k ?t" if "obj_get (ds_networkDevices ?t) k \<noteq> None" for k
    using that keys [of k] by (auto simp: t asked)
  have loading: "any_asked ?t" if "ds_isLoadingChannels ?t"
  proof -
    have "?m \<noteq> []" using that t(2) by presburger
    then obtain d where "d \<in> set ?m" using last_in_set by blast
    then show ?thesis unfolding any_asked_def asked by blast
  qed
  have net: "network_ok (ds_networkDevices ?t)" using assms t(1) by simp
  show "devices_inv ?t" using known loading net unfolding devices_inv_def by blast
  have "channels_asked k (?t\<lparr>ds_watching := n\<rparr>) = channels_asked k ?t" for k by (rule cong_asked) simp
  then show "devices_inv (?t\<lparr>ds_watching := n\<rparr>)" using known loading net unfolding devices_inv_def any_asked_def by simp
qed

lemma loaded_often: "network_ok (ds_networkDevices s) \<Longrightarrow> devices_inv ((loadDeviceChannels ^^ Suc n) s) \<and> network_ok (ds_networkDevices ((loadDeviceChannels ^^ Suc n) s))"
proof (induction n)
  case 0
  have e: "(loadDeviceChannels ^^ Suc 0) s = loadDeviceChannels s" by (simp only: funpow.simps comp_apply id_apply)
  show ?case unfolding e by (rule conjI [OF loaded(4) [OF 0] loaded(2) [OF 0]])
next
  case (Suc n)
  let ?t = "(loadDeviceChannels ^^ Suc n) s"
  have "network_ok (ds_networkDevices ?t)" by (rule conjunct2 [OF Suc.IH [OF Suc.prems]])
  from conjI [OF loaded(4) [OF this] loaded(2) [OF this]] show ?case by (simp only: funpow.simps(2) [of "Suc n"] comp_apply)
qed

lemma network_set: "network_ok m \<Longrightarrow> dv_available d \<Longrightarrow> network_ok (obj_set (dv_instance_id d) d m)"
  unfolding network_ok_def by (metis obj_get_set option.inject)

lemma arrived_network: "network_ok (fold (\<lambda>d. obj_set (dv_instance_id d) d) (filter dv_available ds) [])"
proof -
  have step: "network_ok m \<Longrightarrow> network_ok (fold (\<lambda>d. obj_set (dv_instance_id d) d) (filter dv_available ds) m)" for m
    by (induction ds arbitrary: m) (simp_all add: network_set)
  have "network_ok []" by (simp add: network_ok_def)
  then show ?thesis by (rule step)
qed

lemma inv_arrived: "devices_inv (devices_arrived ds s)"
proof -
  let ?s = "s\<lparr>ds_networkDevices := fold (\<lambda>d. obj_set (dv_instance_id d) d) (filter dv_available ds) [], ds_isLoading := False\<rparr>"
  have n: "network_ok (ds_networkDevices ?s)" using arrived_network by simp
  show ?thesis
  proof (cases "ds_watching s")
    case 0
    then show ?thesis using n by (simp add: devices_arrived_def devices_inv_def)
  next
    case (Suc k)
    then show ?thesis using loaded_often [OF n, of k] by (simp add: devices_arrived_def Let_def)
  qed
qed

lemma asked_closed:
  "i < length (ds_requests s) \<Longrightarrow> channels_asked k s \<Longrightarrow> channels_asked k (close_device i s)
    \<or> (\<exists>d b. dc_call (ds_requests s ! i) = Fetch_Channels d b \<and> dv_instance_id d = k)"
proof -
  assume i: "i < length (ds_requests s)" and "channels_asked k s"
  then obtain r d b where r: "r \<in> set (ds_requests s)" "dc_open r" "dc_call r = Fetch_Channels d b" "dv_instance_id d = k"
    by (auto simp: channels_asked_def)
  then obtain j where j: "j < length (ds_requests s)" "r = ds_requests s ! j" by (auto simp: in_set_conv_nth)
  show ?thesis
  proof (cases "j = i")
    case False
    then have "r \<in> set (ds_requests (close_device i s))" using i j by (auto simp: close_device_def in_set_conv_nth intro!: exI [of _ j])
    then show ?thesis using r by (auto simp: channels_asked_def)
  qed (use r j in auto)
qed

lemma inv_closed:
  assumes "devices_inv s" "i < length (ds_requests s)" "\<And>d b. dc_call (ds_requests s ! i) \<noteq> Fetch_Channels d b"
  shows "devices_inv (close_device i s)"
proof -
  have "channels_asked k s \<Longrightarrow> channels_asked k (close_device i s)" for k using asked_closed [OF assms(2)] assms(3) by blast
  then show ?thesis using assms(1) unfolding devices_inv_def any_asked_def by (auto simp: close_device_def)
qed

lemma batch_asked: "batch_open b s \<Longrightarrow> any_asked s"
proof -
  assume "batch_open b s"
  then obtain r where r: "r \<in> set (ds_requests s)" "dc_open r" "case dc_call r of Fetch_Channels d b' \<Rightarrow> b' = b | _ \<Rightarrow> False"
    by (auto simp: batch_open_def list_ex_iff)
  then obtain d where "dc_call r = Fetch_Channels d b" by (cases "dc_call r") simp_all
  with r have "channels_asked (dv_instance_id d) s" unfolding channels_asked_def by blast
  then show ?thesis unfolding any_asked_def by blast
qed

lemma inv_channels:
  assumes "devices_inv s" "i < length (ds_requests s)" "dc_call (ds_requests s ! i) = Fetch_Channels d b"
  shows "devices_inv (device_channels_arrived d b a (close_device i s))"
proof -
  let ?t = "device_channels_arrived d b a (close_device i s)"
  have rq: "ds_requests ?t = ds_requests (close_device i s)" "ds_networkDevices ?t = ds_networkDevices s" "ds_watching ?t = ds_watching s"
    by (auto simp: device_channels_arrived_def channels_settled_def updateDeviceChannels_def channels_listed_def close_device_def Let_def split: option.split)
  have map: "obj_get (ds_deviceChannelsMap ?t) k = (if k = dv_instance_id d then Some (case a of Some cs \<Rightarrow> map snd cs | None \<Rightarrow> [])
      else obj_get (ds_deviceChannelsMap s) k)" for k
    by (auto simp: device_channels_arrived_def channels_settled_def updateDeviceChannels_def channels_listed_def close_device_def Let_def split: option.split)
  have "obj_get (ds_deviceChannelsMap ?t) k \<noteq> None \<or> channels_asked k ?t" if "obj_get (ds_deviceChannelsMap s) k \<noteq> None \<or> channels_asked k s" for k
    using that asked_closed [OF assms(2), of k] assms(3) map [of k] cong_asked [OF rq(1)] by auto
  moreover have "ds_isLoadingChannels ?t \<Longrightarrow> any_asked ?t"
  proof -
    assume "ds_isLoadingChannels ?t"
    then have "batch_open b ?t"
      by (auto simp: device_channels_arrived_def channels_settled_def batch_open_def updateDeviceChannels_def channels_listed_def Let_def split: option.splits if_splits)
    then show ?thesis by (rule batch_asked)
  qed
  ultimately show ?thesis using assms(1) unfolding devices_inv_def rq(2,3) by auto
qed

lemma inv_handled:
  assumes "devices_inv s" "i < length (ds_requests s)"
  shows "devices_inv (device_handled D can (dc_call (ds_requests s ! i)) a (close_device i s))"
proof (cases "\<exists>d b. dc_call (ds_requests s ! i) = Fetch_Channels d b")
  case True
  then show ?thesis using inv_channels [OF assms] by (auto simp: device_handled_def)
next
  case False
  then have c: "devices_inv (close_device i s)" using assms by (intro inv_closed) auto
  show ?thesis
  proof (cases "dc_call (ds_requests s ! i)")
    case (Fetch_Devices x)
    then show ?thesis using c inv_arrived by (simp add: device_handled_def split: device_answer.split sum.split)
  qed (use False c in \<open>auto simp: device_handled_def channels_listed_def Let_def inv_elsewhere split: device_answer.split\<close>)
qed

interpretation devices_run: stepper "device_step D" devices_inv for D
proof unfold_locales
  fix s ev
  assume s: "devices_inv s"
  show "devices_inv (device_step D s ev)"
  proof (cases ev)
    case Keep_Channels_Updated
    then show ?thesis using s loaded(1) by (simp add: device_step_def keepDeviceChannelsUpdated_def devices_inv_def)
  next
    case (Device_Answer i can a)
    then show ?thesis using s inv_handled [OF s] by (simp add: device_step_def)
  next
    case (Toggle_Pin i)
    then show ?thesis using s
      by (auto simp: device_step_def handlePinToggle_def deletePinForUser_def createPinForUser_def Let_def inv_elsewhere inv_request split: option.split)
  qed (use s in \<open>auto simp: device_step_def setNetworkDevices_def setCurrentDevice_def inv_elsewhere inv_request\<close>)
qed

lemma shown_devices: "network_ok (ds_networkDevices s) \<Longrightarrow> set (networkDevicesWithChannels S name_key s)
    = {d. obj_get (ds_networkDevices s) (dv_instance_id d) = Some d \<and> dv_available d
        \<and> (\<exists>cs. obj_get (ds_deviceChannelsMap s) (dv_instance_id d) = Some cs \<and> cs \<noteq> [])}"
proof (rule set_eqI)
  fix d
  assume n: "network_ok (ds_networkDevices s)"
  then have "(\<exists>k. obj_get (ds_networkDevices s) k = Some d) \<longleftrightarrow> obj_get (ds_networkDevices s) (dv_instance_id d) = Some d \<and> dv_available d"
    unfolding network_ok_def by metis
  then show "d \<in> set (networkDevicesWithChannels S name_key s) \<longleftrightarrow> d \<in> {d. obj_get (ds_networkDevices s) (dv_instance_id d) = Some d \<and> dv_available d
        \<and> (\<exists>cs. obj_get (ds_deviceChannelsMap s) (dv_instance_id d) = Some cs \<and> cs \<noteq> [])}"
    by (simp add: networkDevicesWithChannels_def set_obj_values split: option.split)
qed

text \<open>
  C40. Once the channels of devices are kept up to date, every device of the network has its channels or a request for
  them under way, whatever is answered in which order; when none is under way nothing is shown as loading.  Shown are the
  available devices that have channels, Studio first and the others by name, and each is either pinned or not.
\<close>

theorem devices_get_channels:
  assumes "s = foldl (device_step D) new_devices evs"
  shows "(0 < ds_watching s \<longrightarrow>
        (\<forall>k. obj_get (ds_networkDevices s) k \<noteq> None \<longrightarrow> obj_get (ds_deviceChannelsMap s) k \<noteq> None \<or> channels_asked k s)
        \<and> (\<not> any_asked s \<longrightarrow> \<not> ds_isLoadingChannels s))
    \<and> set (networkDevicesWithChannels S name_key s) = {d. obj_get (ds_networkDevices s) (dv_instance_id d) = Some d \<and> dv_available d
        \<and> (\<exists>cs. obj_get (ds_deviceChannelsMap s) (dv_instance_id d) = Some cs \<and> cs \<noteq> [])}
    \<and> sorted (map (\<lambda>d. if dv_instance_id d = S then 0 else Suc (name_key (dv_device_name d))) (networkDevicesWithChannels S name_key s))
    \<and> mset (pinnedDevices S name_key s) + mset (unpinnedDevices S name_key s) = mset (networkDevicesWithChannels S name_key s)"
proof (intro conjI)
  have "devices_inv new_devices" by (simp add: devices_inv_def new_devices_def network_ok_def)
  then have inv: "devices_inv s" unfolding assms by (rule devices_run.run_inv)
  then show "0 < ds_watching s \<longrightarrow>
        (\<forall>k. obj_get (ds_networkDevices s) k \<noteq> None \<longrightarrow> obj_get (ds_deviceChannelsMap s) k \<noteq> None \<or> channels_asked k s)
        \<and> (\<not> any_asked s \<longrightarrow> \<not> ds_isLoadingChannels s)"
    unfolding devices_inv_def by blast
  have "network_ok (ds_networkDevices s)" using inv by (simp add: devices_inv_def)
  then show "set (networkDevicesWithChannels S name_key s) = {d. obj_get (ds_networkDevices s) (dv_instance_id d) = Some d \<and> dv_available d
        \<and> (\<exists>cs. obj_get (ds_deviceChannelsMap s) (dv_instance_id d) = Some cs \<and> cs \<noteq> [])}"
    by (rule shown_devices)
  show "sorted (map (\<lambda>d. if dv_instance_id d = S then 0 else Suc (name_key (dv_device_name d))) (networkDevicesWithChannels S name_key s))"
    by (simp add: networkDevicesWithChannels_def)
  show "mset (pinnedDevices S name_key s) + mset (unpinnedDevices S name_key s) = mset (networkDevicesWithChannels S name_key s)"
    by (simp add: pinnedDevices_def unpinnedDevices_def)
qed

definition sample_device :: "string \<Rightarrow> string \<Rightarrow> device" where
  "sample_device i v = \<lparr>dv_id = i, dv_instance_id = i, dv_base_url = [], dv_device_name = i, dv_available = True, dv_kolibri_version = v\<rparr>"

definition sample_network :: devices where
  "sample_network = foldl (device_step (sample_device ''studio'' ''0.16.0'')) new_devices
     [Keep_Channels_Updated, Poll_Devices False, Device_Answer 0 False (Devices_Are None [sample_device ''d'' ''0.16.0''])]"

theorem devices_get_channels_witness: "channels_asked ''d'' sample_network"
proof -
  have "0 < ds_watching sample_network" "obj_get (ds_networkDevices sample_network) ''d'' \<noteq> None" "obj_get (ds_deviceChannelsMap sample_network) ''d'' = None"
    by code_simp+
  then show ?thesis using devices_get_channels [OF sample_network_def] by blast
qed

section \<open>Versions\<close>

lemma takeWhile_digits: "list_all is_digit ds \<Longrightarrow> s = [] \<or> \<not> is_digit (hd s) \<Longrightarrow>
    takeWhile (\<lambda>c. case hex_value c of Some d \<Rightarrow> d < 10 | None \<Rightarrow> False) (ds @ s) = ds"
proof -
  have d: "is_digit c \<longleftrightarrow> (case hex_value c of Some d \<Rightarrow> d < 10 | None \<Rightarrow> False)" for c
    by (auto simp: is_digit_def hex_value_def Let_def split: if_splits)
  show "list_all is_digit ds \<Longrightarrow> s = [] \<or> \<not> is_digit (hd s) \<Longrightarrow> ?thesis"
    by (cases s) (auto simp: takeWhile_append list_all_iff d)
qed

lemma js_split_hd: "js_split d s = p # ps \<Longrightarrow> p = takeWhile (\<lambda>x. x \<noteq> d) s"
proof (induction s arbitrary: p ps)
  case (Cons c s)
  then show ?case by (cases "js_split d s") (auto split: if_splits)
qed simp

lemma parse_number:
  assumes "s = [] \<or> \<not> is_digit (hd s)"
  shows "parse_digits 10 (nat_digits n @ s) = Some n"
proof -
  have v: "the (hex_value c) = digit_val c" if "is_digit c" for c using that by (auto simp: is_digit_def hex_value_def digit_val_def Let_def)
  have d: "list_all is_digit (nat_digits n)" "nat_digits n \<noteq> []" "digits_val (nat_digits n) = n" using nat_digits_digits by simp_all
  have "list_all is_digit ds \<Longrightarrow> foldl (\<lambda>n d. n * 10 + d) m (map (\<lambda>c. the (hex_value c)) ds) = foldl (\<lambda>n c. 10 * n + digit_val c) m ds" for ds m
    by (induction ds arbitrary: m) (simp_all add: v mult.commute)
  from this [OF d(1), of 0] show ?thesis using d takeWhile_digits [OF d(1) assms] by (simp add: parse_digits_def digits_val_def)
qed

lemma parse_int_number:
  assumes "s = [] \<or> \<not> is_digit (hd s) \<and> hd s \<noteq> CHR ''x'' \<and> hd s \<noteq> CHR ''X''"
  shows "parse_int (nat_digits n @ s) = Some (int n)"
proof -
  obtain c ds where c: "nat_digits n = c # ds" "is_digit c" "list_all is_digit ds" using nat_digits_digits [of n] by (cases "nat_digits n") auto
  have pre: "\<not> is_space c" "c \<noteq> CHR ''-''" "c \<noteq> CHR ''+''" using c(2) by (auto simp: is_space_def is_digit_def)
  have "\<not> (take 2 (c # ds @ s) = ''0x'' \<or> take 2 (c # ds @ s) = ''0X'')"
  proof (cases ds)
    case Nil
    then show ?thesis using assms by (cases s) auto
  next
    case (Cons e es)
    then show ?thesis using c(3) by (auto simp: is_digit_def)
  qed
  moreover have "parse_digits 10 (c # ds @ s) = Some n" using parse_number [of s n] assms c(1) by auto
  moreover have "parse_int (c # ds @ s) = map_option int
      (if take 2 (c # ds @ s) = ''0x'' \<or> take 2 (c # ds @ s) = ''0X'' then parse_digits 16 (drop 2 (c # ds @ s)) else parse_digits 10 (c # ds @ s))"
    using pre by (simp add: parse_int_def Let_def)
  ultimately show ?thesis using c(1) by (simp only: if_False append_Cons option.map)
qed

text \<open>
  For a version \<open>a.b.c\<close> followed by anything that is not part of the number, as \<open>-beta1\<close> or \<open>.dev0\<close>, the comparison is that
  of the numbers in order, where a hyphen makes a version smaller than its release: it counts as the release before.
\<close>

theorem version_order:
  assumes "suffix = [] \<or> \<not> is_digit (hd suffix) \<and> hd suffix \<noteq> CHR ''x'' \<and> hd suffix \<noteq> CHR ''X''"
  shows "isMinimumKolibriVersion M m rv (nat_digits a @ ''.'' @ nat_digits b @ ''.'' @ nat_digits c @ suffix) \<longleftrightarrow>
     (let r = int c - (if CHR ''-'' \<in> set suffix then 1 else 0) in
      M < int a \<or> M = int a \<and> (m < int b \<or> m = int b \<and> (rv = None \<or> the rv \<le> r)))"
proof -
  have nd: "CHR ''.'' \<notin> set (nat_digits n)" "CHR ''-'' \<notin> set (nat_digits n)" for n
    using nat_digits_digits [of n] by (auto simp: list_all_iff is_digit_def dest!: bspec)
  let ?v = "nat_digits a @ ''.'' @ nat_digits b @ ''.'' @ nat_digits c @ suffix"
  obtain p ps where p: "js_split CHR ''.'' (nat_digits c @ suffix) = p # ps" by (cases "js_split CHR ''.'' (nat_digits c @ suffix)") auto
  have "js_split CHR ''.'' ?v = nat_digits a # nat_digits b # p # ps"
    using js_split_append [of "CHR ''.''" "nat_digits a"] js_split_append [of "CHR ''.''" "nat_digits b"] nd p by simp
  moreover have "parse_int p = Some (int c)"
  proof -
    let ?t = "takeWhile (\<lambda>x. x \<noteq> CHR ''.'') suffix"
    have "p = nat_digits c @ ?t" using js_split_hd [OF p] nd by (auto simp: takeWhile_append)
    moreover have "?t = [] \<or> \<not> is_digit (hd ?t) \<and> hd ?t \<noteq> CHR ''x'' \<and> hd ?t \<noteq> CHR ''X''" using assms by (cases suffix) simp_all
    ultimately show ?thesis using parse_int_number [of ?t c] by simp
  qed
  ultimately show ?thesis using parse_int_number [of "[]"] nd by (auto simp: isMinimumKolibriVersion_def Let_def split: option.split)
qed

theorem version_order_witness:
  "\<not> isMinimumKolibriVersion 0 16 (Some 0) ''0.16.0-beta1'' \<and> isMinimumKolibriVersion 0 16 (Some 0) ''0.16.1-beta1''"
proof -
  have n: "nat_digits 0 = ''0''" "nat_digits (Suc 0) = ''1''" "nat_digits 16 = ''16''" by code_simp+
  have s: "''-beta1'' = [] \<or> \<not> is_digit (hd ''-beta1'') \<and> hd ''-beta1'' \<noteq> CHR ''x'' \<and> hd ''-beta1'' \<noteq> CHR ''X''" by code_simp
  show ?thesis
    using version_order [OF s, of 0 16 "Some 0" 0 16 0] version_order [OF s, of 0 16 "Some 0" 0 16 1] by (simp add: n)
qed

section \<open>Where devices and pins go wrong\<close>

text \<open>Old devices are only left out for a user who may use Studio, and the version assumed for Studio is itself too old.\<close>

lemma old_devices_stay:
  "fetched_devices D False None [sample_device ''d'' ''0.15.0''] = Inr [sample_device ''d'' ''0.15.0'']"
  "fetched_devices D True (Some (sample_device ''studio'' ''0.16.0'')) [sample_device ''d'' ''0.15.0'']
     = Inr [D\<lparr>dv_available := True, dv_kolibri_version := ''0.16.0''\<rparr>]"
proof -
  have "\<not> isMinimumKolibriVersion 0 16 (Some 0) ''0.15.0''" "isMinimumKolibriVersion 0 16 (Some 0) ''0.16.0''" by code_simp+
  then show "fetched_devices D False None [sample_device ''d'' ''0.15.0''] = Inr [sample_device ''d'' ''0.15.0'']"
    "fetched_devices D True (Some (sample_device ''studio'' ''0.16.0'')) [sample_device ''d'' ''0.15.0'']
     = Inr [D\<lparr>dv_available := True, dv_kolibri_version := ''0.16.0''\<rparr>]"
    by (simp_all add: fetched_devices_def sample_device_def)
qed

lemma studio_without_version: "fetched_devices D True (Some (sample_device ''studio'' [])) [] = Inr []"
proof -
  have "\<not> isMinimumKolibriVersion 0 16 (Some 0) ''0.15.0''" by code_simp
  then show ?thesis by (simp add: fetched_devices_def sample_device_def)
qed

text \<open>Taking out a pin before its creation is answered throws, and the answer puts it back.\<close>

lemma pin_comes_back:
  "snd (handlePinToggle ''d'' (createPinForUser ''d'' new_devices)) = Some (TypeError ''An id must be specified'')"
  "obj_get (ds_userPinsMap (foldl (device_step D) new_devices [Toggle_Pin ''d'', Toggle_Pin ''d'',
     Device_Answer 0 False (Pin_Created \<lparr>pn_instance_id = ''d'', pn_id = JStr ''p''\<rparr>)])) ''d'' = Some \<lparr>pn_instance_id = ''d'', pn_id = JStr ''p''\<rparr>"
  by (simp_all add: handlePinToggle_def deletePinForUser_def createPinForUser_def request_device_def new_devices_def truthy_def device_step_def
      device_handled_def close_device_def Let_def)

text \<open>The current device is that of the answer that arrives last, not of the last choice.\<close>

lemma stale_current_device:
  "map_option dv_id (ds_currentDevice (foldl (device_step (sample_device ''studio'' [])) new_devices [Set_Current_Device False ''a'', Set_Current_Device False ''b'',
     Device_Answer 1 False (Device_Is (sample_device ''b'' [])), Device_Answer 0 False (Device_Is (sample_device ''a'' []))])) = Some ''a''"
  by code_simp

text \<open>While a request for channels is under way, each change of the devices asks for them again.\<close>

lemma channels_asked_twice:
  "length (filter (\<lambda>r. case dc_call r of Fetch_Channels d b \<Rightarrow> True | _ \<Rightarrow> False) (ds_requests (foldl (device_step (sample_device ''studio'' [])) sample_network
     [Poll_Devices False, Device_Answer 2 False (Devices_Are None [sample_device ''d'' ''0.16.0''])]))) = 2"
  by code_simp

end
