(* ===== verification/Spec2Isabelle.thy ===== *)
theory Spec2Isabelle
  imports Question_Selection Scorm_Api Hashi_Mediator Hashi_Storage Hashi_Cookie Setup_Wizard Change_Facility
    Class_Reports Coach_Notifications Api_Properties Xapi_Properties Progress_Attempts
    Content_Viewer Heartbeat_Properties Learn_Samples Learner_Properties Object_Defaults
    Exam_Creation_Properties Learner_Devices_Properties
begin

text \<open>
  A verification development for the JavaScript of Kolibri, a learning platform: the single-page
  applications under \<open>kolibri/\<close> (Vue components, Vuex modules, state machines, a client of the REST
  API) and the packages under \<open>packages/\<close>, of which \<open>hashi\<close> is the sandbox HTML5 content runs in.

  \<^bold>\<open>How the program is put together.\<close>  A page of the application reads and writes server data through
  the resource layer, which caches models and collections and serialises requests.  The coach's pages
  keep a summary of the class, fed by an initial request and then by polling for notifications; reports
  are lookups in that summary, and quizzes are made from a selection of questions and stored in one of
  three formats that are converted when they are read.  The set-up wizard and the change of facility
  are state machines.  Content is shown in an iframe whose \<open>localStorage\<close>, cookies, SCORM and xAPI are
  shims: each keeps a copy of the content's data, tells the outside about changes through a mediator of
  messages, and is told the stored data and the time; the progress of the learner is computed from them
  and, like that of every other resource and quiz, sent to the server by the progress tracking.

  \<^bold>\<open>Prelude.\<close>
  \<^item> \<open>Js_Number\<close>: numbers as rationals rounded to IEEE doubles, with NaN and the infinities.
  \<^item> \<open>Kolibri_Prelude\<close>: exceptions as a sum (\<open>js_result\<close>), strings, \<open>Number(s)\<close>, plain objects in
    property order.
  \<^item> \<open>Js_Collections\<close>: lodash on lists, and the interfaces the components share as locales:
    \<open>keyed_store\<close>, \<open>list_store\<close> (interpreted by the plain objects) and \<open>stepper\<close> (a component whose
    operations keep an invariant; interpreted by each component with a state).
  \<^item> \<open>Js_Value\<close>: JavaScript values as trees, conversions, property access, arrays and their index keys.

  \<^bold>\<open>Coach.\<close>
  \<^item> \<open>Exam_Conversion\<close> (\<open>core/assets/src/exams/utils.js\<close>): the seeded shuffle down to its doubles and
    32-bit truncation, the conversion of all quiz versions, the promise of the report.
  \<^item> \<open>Question_Selection\<close> (\<open>examCreation/selectQuestions.js\<close>): a loop that may not end, with the proof
    that it does for the arguments the callers give.
  \<^item> \<open>Exam_Creation\<close>, \<open>Exam_Creation_Properties\<close> (\<open>examCreation/index.js\<close>, \<open>actions.js\<close>): the state of a quiz that
    is being made, its mutations, and the actions whose answers arrive in any order; their proof uses that of the selection.
  \<^item> \<open>Class_Summary\<close>, \<open>Class_Reports\<close> (\<open>coach/assets/src/modules/classSummary\<close>): the state of the class with
    its mutations and getters; the updates taken from notifications and the tallies.
  \<^item> \<open>Coach_Notifications\<close> (\<open>coachNotifications\<close>): the list of notifications, polling as a step function over
    time-outs and answers, and the summary shown.

  \<^bold>\<open>Resource layer.\<close>
  \<^item> \<open>Api_Cache\<close>, \<open>Api_Requests\<close>, \<open>Api_Properties\<close> (\<open>core/assets/src/api-resource.js\<close>): models and collections in
    heaps, cache keys, and fetching, saving and deleting as operations that wait for promises; the step
    function covers every order of calls and answers.

  \<^bold>\<open>Connection.\<close>
  \<^item> \<open>Heartbeat\<close>, \<open>Heartbeat_Properties\<close> (\<open>core/assets/src/heartbeat.js\<close>, \<open>disconnection.js\<close>, \<open>core-app/client.js\<close>,
    \<open>serverClock.js\<close>): the polling of the session with its timers, listeners and back-off, as a step relation.

  \<^bold>\<open>Device.\<close>
  \<^item> \<open>Content_Tree\<close>, \<open>Content_Tree_Properties\<close>, \<open>Content_Viewer\<close> (\<open>device/assets/src/views/SelectContentPage\<close>,
    \<open>modules/wizard\<close>): the lists of included and omitted nodes in a heap of arrays, the annotation of nodes, and the viewer;
    the specification is the set of resources the server takes for the two lists.

  \<^bold>\<open>Learner.\<close>
  \<^item> \<open>Progress_Tracking\<close>, \<open>Progress_Properties\<close>, \<open>Progress_Attempts\<close>
    (\<open>learn/assets/src/composables/useProgressTracking.js\<close>): sessions, progress in thousandths, the heap of attempts,
    debounced saves chained on one promise and the requests that are repeated; every call, time-out, tick and answer is
    an event.  \<open>quiz\<close> is the constant for quizzes, \<open>differs\<close> the third-party comparison of content states.
  \<^item> \<open>Content_Nodes\<close>, \<open>Learn_Properties\<close> (\<open>core/assets/src/api-resources/contentNode.js\<close>, \<open>cloneDeep.js\<close>,
    \<open>learn/assets/src/utils/contentNode.js\<close>): the cache of content nodes, filled by recursion over answers of any shape;
    the cards shown for the copies of one resource, in a heap; progress by content id.
  \<^item> \<open>Learn_Search\<close>, \<open>Learn_Pages\<close>, \<open>Learn_Categories\<close>, \<open>Learn_Samples\<close>
    (\<open>learn/assets/src/composables/useSearch.js\<close>): search terms in the query of the route, the requests for results, labels and
    further pages with every order of answers, and the tree of categories.
  \<^item> \<open>Learner_Resources\<close>, \<open>Download_Requests\<close>, \<open>Learner_Properties\<close> (\<open>useLearnerResources.js\<close>,
    \<open>useDownloadRequests.js\<close>): the learner's classes, lessons and quizzes with the cache and the progress they are stored
    in; the map of download requests and the timers that poll it.  One use of each composable, events in any order.
  \<^item> \<open>Learner_Devices\<close>, \<open>Learner_Devices_Properties\<close> (\<open>useDevices.js\<close>, \<open>useChannels.js\<close>, \<open>usePinnedDevices.js\<close>,
    \<open>useMinimumKolibriVersion.js\<close>): the devices of the network with their channels and pins, and versions.

  \<^bold>\<open>Specifications of objects.\<close>
  \<^item> \<open>Object_Specs\<close>, \<open>Object_Defaults\<close> (\<open>core/assets/src/objectSpecs.js\<close>): validation and filling in of defaults by recursion
    over specifications, which may be malformed; functions are numbers that a parameter calls.

  \<^bold>\<open>State machines.\<close>
  \<^item> \<open>Setup_Wizard\<close> (\<open>setup_wizard/assets/src/machines/wizardMachine.js\<close>) and \<open>Change_Facility\<close>
    (\<open>user_profile/assets/src/machines/changeFacilityMachine.js\<close>): the transition tables, guards and actions,
    run by the rules XState documents; the chain of eventless transitions is a recursion with a rank.

  \<^bold>\<open>Sandbox.\<close>
  \<^item> \<open>Hashi_Mediator\<close> (\<open>mediator.js\<close>, \<open>baseShim.js\<close>): handlers in mutable arrays, so that removing one while a
    message is delivered has the effect it has in the code; request and reply.
  \<^item> \<open>Hashi_Storage\<close> (\<open>baseStorage.js\<close> and its two subclasses) and \<open>Hashi_Cookie\<close> (\<open>cookie.js\<close>).
  \<^item> \<open>Scorm\<close>, \<open>Scorm_Api\<close> (\<open>SCORM.js\<close>): schema, validators, key paths; the calls with their error state.
  \<^item> \<open>Xapi_Schema\<close>, \<open>Xapi\<close>, \<open>Xapi_Properties\<close> (\<open>xAPI/\<close>, \<open>mainClient.js\<close>): the validation and cleaning of xAPI
    statements, their store with state and profiles, and the progress the client reports.

  \<^bold>\<open>What the lemmas show.\<close>  Each component has an invariant kept by its operations (well-formed objects and
  caches, data that fits the choices made, machines at rest) and the functional behaviour of its
  operations on every branch.  Refinement: what content
  reads from the storage is a map on which every operation, also a direct assignment, has a stated effect.  Equivalence: equal parameters
  give the same cached model; the tree of categories is the set of available paths.  Round trips: search terms in a URL, SCORM elements, xAPI state, going back in the facility
  machine.  Termination: the shuffle, the selection, the resting of machines, the cleaning of nested
  statements.  Ordering: requests on one target never overlap, messages reach handlers in order.
  Where the code does not do what it says, a theorem shows what it does.

  \<^bold>\<open>Bounds and fuel.\<close>  There is no fuel: loops that may not end are partial functions with value \<open>None\<close>, and
  the theorems prove that there is a value.  Arrays have index keys below \<open>2 ^ 32 - 1\<close>, so theorems about the list of
  xAPI statements are for fewer calls than that.

  \<^bold>\<open>Limits of the model.\<close>  Strings are lists of 8-bit characters.  There is one zero, and the exponent of a
  double is not bounded.  Members inherited from \<open>Object.prototype\<close> are looked up in
  the SCORM schema and in the storage shim, and \<open>__proto__\<close>, \<open>constructor\<close> and \<open>prototype\<close> are refused as xAPI ids;
  elsewhere keys that name such a member are outside the model.  Objects are values: where
  two references to one object matter (handlers, models, collections) there is a heap, elsewhere aliasing is not
  represented.  The text of an exception the engine raises is not exact.  Dates, the clock, the Django URL functions, the third-party shuffle, the libraries
  that check IRIs, durations, language codes and UUIDs, and the answers of the server are parameters.

  \<^bold>\<open>Not modelled.\<close>  Vue components and routers (display), the plugin mediator (an adapter to Vue's event bus), the
  handlers of the facility, device and user pages (requests and their display), the viewers of third-party
  content (the bundled exercise renderer is vendored code), translations and styles (data), and the build
  tools.
\<close>

end
